(* ===== verification/Prelude.thy ===== *)
theory Prelude
  imports Main "HOL-Library.AList"
begin

text \<open>
  What the components share: the JavaScript \<open>Map\<close> as an association list in insertion order
  (with the interface \<open>js_map\<close> its clients rely on), splitting of text at a separator, settled
  promise values, and the interface \<open>state_machine\<close> under which every event-driven component
  lifts an invariant from its steps to its reachable states.
\<close>

named_theorems js_laws \<open>laws of the JavaScript containers and text operations\<close>

subsection \<open>Results of asynchronous calls\<close>

text \<open>A settled promise: rejected with an error (\<open>Inl\<close>) or resolved with a value (\<open>Inr\<close>).\<close>

type_synonym ('e, 'a) settled = "'e + 'a"

abbreviation Rejected :: "'e \<Rightarrow> ('e, 'a) settled" where "Rejected \<equiv> Inl"
abbreviation Resolved :: "'a \<Rightarrow> ('e, 'a) settled" where "Resolved \<equiv> Inr"

subsection \<open>The JavaScript Map\<close>

text \<open>
  A \<open>Map\<close> iterates in insertion order and \<open>set\<close> on a present key keeps its position; the
  operations \<open>get\<close>, \<open>set\<close> and \<open>delete\<close> are the library's on association lists.
\<close>

type_synonym ('k, 'v) js_map = "('k \<times> 'v) list"

abbreviation map_get :: "('k, 'v) js_map \<Rightarrow> 'k \<Rightarrow> 'v option" where
  "map_get \<equiv> map_of"

abbreviation map_set :: "'k \<Rightarrow> 'v \<Rightarrow> ('k, 'v) js_map \<Rightarrow> ('k, 'v) js_map" where
  "map_set \<equiv> AList.update"

abbreviation map_delete :: "'k \<Rightarrow> ('k, 'v) js_map \<Rightarrow> ('k, 'v) js_map" where
  "map_delete \<equiv> AList.delete"

abbreviation map_keys :: "('k, 'v) js_map \<Rightarrow> 'k list" where
  "map_keys m \<equiv> map fst m"

locale js_map =
  fixes get :: "'m \<Rightarrow> 'k \<Rightarrow> 'v option"
    and set_entry :: "'k \<Rightarrow> 'v \<Rightarrow> 'm \<Rightarrow> 'm"
    and delete_entry :: "'k \<Rightarrow> 'm \<Rightarrow> 'm"
    and keys :: "'m \<Rightarrow> 'k list"
  assumes get_set: "get (set_entry k v m) = (get m)(k := Some v)"
    and get_delete: "get (delete_entry k m) = (get m)(k := None)"
    and get_None_iff: "get m k = None \<longleftrightarrow> k \<notin> set (keys m)"
    and keys_set_new: "k \<notin> set (keys m) \<Longrightarrow> keys (set_entry k v m) = keys m @ [k]"
    and keys_set_old: "k \<in> set (keys m) \<Longrightarrow> keys (set_entry k v m) = keys m"
    and keys_delete: "keys (delete_entry k m) = removeAll k (keys m)"
begin

lemma get_set_same: "get (set_entry k v m) k = Some v"
  by (simp add: get_set)

lemma get_set_other: "k \<noteq> k' \<Longrightarrow> get (set_entry k v m) k' = get m k'"
  by (simp add: get_set)

lemma set_keys_set: "set (keys (set_entry k v m)) = insert k (set (keys m))"
  by (cases "k \<in> set (keys m)") (auto simp: keys_set_new keys_set_old)

lemma distinct_keys_set: "distinct (keys m) \<Longrightarrow> distinct (keys (set_entry k v m))"
  by (cases "k \<in> set (keys m)") (auto simp: keys_set_new keys_set_old)

lemma distinct_keys_delete: "distinct (keys m) \<Longrightarrow> distinct (keys (delete_entry k m))"
  by (simp add: keys_delete distinct_removeAll)

lemma delete_missing_get: "k \<notin> set (keys m) \<Longrightarrow> get (delete_entry k m) = get m"
  by (rule ext) (auto simp: get_delete dest: get_None_iff [THEN iffD2])

end

lemma keys_update_new: "k \<notin> set (map_keys m) \<Longrightarrow> map_keys (map_set k v m) = map_keys m @ [k]"
  by (simp add: update_keys)

lemma update_new_append: "k \<notin> set (map_keys m) \<Longrightarrow> map_set k v m = m @ [(k, v)]"
  by (induction m) auto

interpretation amap: js_map map_get map_set map_delete map_keys
proof unfold_locales
  fix m :: "('a, 'b) js_map" and k
  show "map_get m k = None \<longleftrightarrow> k \<notin> set (map_keys m)"
    by (simp add: map_of_eq_None_iff)
next
  fix m :: "('a, 'b) js_map" and k v
  show "k \<notin> set (map_keys m) \<Longrightarrow> map_keys (map_set k v m) = map_keys m @ [k]"
    by (rule keys_update_new)
qed (simp_all add: update_conv' delete_conv' update_keys delete_keys)

lemma set_update_subset: "set (map_set k v m) \<subseteq> insert (k, v) (set m)"
  by (induction m) auto

lemma set_update_cases: "(k', v') \<in> set (map_set k v m) \<Longrightarrow> (k', v') = (k, v) \<or> (k', v') \<in> set m"
  using set_update_subset by fast

lemma set_delete_cases [simp]: "(k', v') \<in> set (map_delete k m) \<longleftrightarrow> k' \<noteq> k \<and> (k', v') \<in> set m"
  by (auto simp: AList.delete_eq)

subsection \<open>Splitting text at a separator\<close>

text \<open>\<open>s.split(d)\<close> for a one-character separator: always at least one part.\<close>

fun split_on :: "char \<Rightarrow> string \<Rightarrow> string list" where
  "split_on d [] = [[]]"
| "split_on d (c # s) =
     (if c = d then [] # split_on d s
      else (case split_on d s of [] \<Rightarrow> [[c]] | p # ps \<Rightarrow> (c # p) # ps))"

lemma split_on_not_Nil [simp]: "split_on d s \<noteq> []"
  by (induction s) (auto split: list.splits)

lemma split_on_Cons_other: "c \<noteq> d \<Longrightarrow>
    split_on d (c # s) = (c # hd (split_on d s)) # tl (split_on d s)"
  by (auto split: list.splits)

lemma split_on_no_sep: "d \<notin> set s \<Longrightarrow> split_on d s = [s]"
  by (induction s) auto

lemma split_on_line: "d \<notin> set l \<Longrightarrow> split_on d (l @ d # s) = l # split_on d s"
  by (induction l) auto

lemma split_on_append:
  "split_on d (s @ t) = butlast (split_on d s) @ split_on d (last (split_on d s) @ t)"
proof (induction s)
  case Nil
  show ?case by simp
next
  case (Cons c s)
  show ?case
  proof (cases "c = d")
    case True
    with Cons show ?thesis by simp
  next
    case False
    obtain p ps where s: "split_on d s = p # ps" by (cases "split_on d s") auto
    show ?thesis
    proof (cases ps)
      case Nil
      with s False Cons.IH show ?thesis by (simp add: split_on_Cons_other)
    next
      case (Cons q qs)
      with s False Cons.IH show ?thesis by (auto split: list.splits)
    qed
  qed
qed

lemma split_on_no_sep_parts: "p \<in> set (split_on d s) \<Longrightarrow> d \<notin> set p"
  by (induction s arbitrary: p) (auto split: if_splits list.splits)

lemma split_on_lines:
  assumes "\<And>l. l \<in> set ls \<Longrightarrow> d \<notin> set l"
  shows "split_on d (concat (map (\<lambda>l. l @ [d]) ls)) = ls @ [[]]"
  using assms by (induction ls) (auto simp: split_on_line)

lemma length_split_on: "length (split_on d s) = Suc (count_list s d)"
  by (induction s) (auto split: list.splits)

subsection \<open>State machines and their invariants\<close>

text \<open>
  The contract of an event-driven component: an initial state, the steps its callbacks make, and
  a predicate every step keeps. The client, the siphon handle, the console and the scheduler each
  interpret it on their own step relation.
\<close>

locale state_machine =
  fixes step :: "'s \<Rightarrow> 's \<Rightarrow> bool"
    and init :: "'s \<Rightarrow> bool"
    and inv :: "'s \<Rightarrow> bool"
  assumes inv_init: "init s \<Longrightarrow> inv s"
    and inv_step: "inv s \<Longrightarrow> step s t \<Longrightarrow> inv t"
begin

lemma inv_steps: "step\<^sup>*\<^sup>* s t \<Longrightarrow> inv s \<Longrightarrow> inv t"
  by (induction rule: rtranclp_induct) (auto intro: inv_step)

lemma reachable_inv: "init s \<Longrightarrow> step\<^sup>*\<^sup>* s t \<Longrightarrow> inv t"
  by (blast intro: inv_init inv_steps)

end

text \<open>A machine whose steps only ever extend a log has a second contract: nothing recorded is lost.\<close>

locale logging_machine = state_machine step init inv
  for step :: "'s \<Rightarrow> 's \<Rightarrow> bool" and init :: "'s \<Rightarrow> bool" and inv :: "'s \<Rightarrow> bool" +
  fixes log :: "'s \<Rightarrow> 'e list"
  assumes log_step: "inv s \<Longrightarrow> step s t \<Longrightarrow> \<exists>new. log t = log s @ new"
begin

lemma log_steps: "step\<^sup>*\<^sup>* s t \<Longrightarrow> inv s \<Longrightarrow> \<exists>new. log t = log s @ new"
proof (induction rule: rtranclp_induct)
  case base
  show ?case by simp
next
  case (step t u)
  then obtain n where n: "log t = log s @ n" by blast
  from step have "inv t" by (blast intro: inv_steps)
  with step obtain m where "log u = log t @ m" by (blast dest: log_step)
  with n show ?case by simp
qed

lemma logged_forever: "step\<^sup>*\<^sup>* s t \<Longrightarrow> inv s \<Longrightarrow> e \<in> set (log s) \<Longrightarrow> e \<in> set (log t)"
  by (auto dest: log_steps)

end

end
