(* ===== verification/Js_Values.thy ===== *)
theory Js_Values
  imports Prelude
begin

text \<open>
  The part of JavaScript's values the program uses. A string is the list of its UTF-8 bytes, which
  for ASCII text are also its UTF-16 code units; a number is an exact decimal \<open>m * 10 ^ e\<close> (every
  finite double prints as one), so rounding of decimals with more than 15 digits is not modelled.
  A parsed JSON value is \<open>json\<close>; \<open>undefined\<close> is \<open>None\<close> of \<open>json option\<close>.
\<close>

subsection \<open>Decimal numbers\<close>

datatype dec = Dec (mantissa: int) (exponent: int)

text \<open>The canonical form: no trailing zero in the mantissa, and one zero.\<close>

definition canonical :: "dec \<Rightarrow> bool" where
  "canonical d \<longleftrightarrow> (case d of Dec m e \<Rightarrow> if m = 0 then e = 0 else m mod 10 \<noteq> 0)"

function norm_dec :: "int \<Rightarrow> int \<Rightarrow> dec" where
  "norm_dec m e =
     (if m = 0 then Dec 0 0
      else if m mod 10 = 0 then norm_dec (m div 10) (e + 1)
      else Dec m e)"
  by pat_completeness auto
termination
  by (relation "measure (\<lambda>(m, e). nat \<bar>m\<bar>)") auto

declare norm_dec.simps [simp del]

abbreviation int_dec :: "int \<Rightarrow> dec" where
  "int_dec n \<equiv> norm_dec n 0"

lemma norm_dec_zero [simp]: "norm_dec 0 e = Dec 0 0"
  by (simp add: norm_dec.simps)

lemma norm_dec_canonical: "canonical (norm_dec m e)"
proof (induction m e rule: norm_dec.induct)
  case (1 m e)
  then show ?case
    by (subst norm_dec.simps) (auto simp: canonical_def)
qed

lemma norm_dec_id: "canonical (Dec m e) \<Longrightarrow> norm_dec m e = Dec m e"
  by (subst norm_dec.simps) (auto simp: canonical_def split: if_splits)

lemma norm_dec_times10: "norm_dec (m * 10) e = norm_dec m (e + 1)"
  by (cases "m = 0") (simp_all add: norm_dec.simps [of "m * 10"])

lemma norm_dec_shift: "norm_dec (m * 10 ^ k) e = norm_dec m (e + int k)"
proof (induction k arbitrary: e)
  case 0
  show ?case by simp
next
  case (Suc k)
  have "norm_dec (m * 10 ^ Suc k) e = norm_dec (m * 10 ^ k * 10) e"
    by (simp add: algebra_simps)
  also have "\<dots> = norm_dec m (e + 1 + int k)"
    by (simp only: norm_dec_times10 Suc.IH)
  finally show ?case by (simp add: algebra_simps)
qed

lemma norm_dec_sign:
  "(0 < mantissa (norm_dec m e) \<longleftrightarrow> 0 < m) \<and> (mantissa (norm_dec m e) < 0 \<longleftrightarrow> m < 0)"
proof (induction m e rule: norm_dec.induct)
  case (1 m e)
  show ?case
  proof (cases "m = 0 \<or> m mod 10 \<noteq> 0")
    case True
    then show ?thesis by (subst (1 2) norm_dec.simps) auto
  next
    case False
    then have m: "norm_dec m e = norm_dec (m div 10) (e + 1)"
      by (subst norm_dec.simps) simp
    from False have "0 < m div 10 \<longleftrightarrow> 0 < m" "m div 10 < 0 \<longleftrightarrow> m < 0" by auto
    with 1 False m show ?thesis by simp
  qed
qed

text \<open>A JavaScript number where the program tests for the special values.\<close>

datatype js_number = NaN | PosInf | NegInf | Fin dec

definition is_finite :: "js_number \<Rightarrow> bool" where
  "is_finite x \<longleftrightarrow> (case x of Fin _ \<Rightarrow> True | _ \<Rightarrow> False)"

definition not_positive :: "js_number \<Rightarrow> bool" where
  "not_positive x \<longleftrightarrow> (case x of NaN \<Rightarrow> False | PosInf \<Rightarrow> False | NegInf \<Rightarrow> True | Fin d \<Rightarrow> mantissa d \<le> 0)"

subsection \<open>Printing numbers (Number::toString)\<close>

abbreviation byte :: "char \<Rightarrow> nat" where "byte \<equiv> of_char"
abbreviation of_byte :: "nat \<Rightarrow> char" where "of_byte \<equiv> char_of"

definition digit :: "nat \<Rightarrow> char" where
  "digit n = of_byte (48 + n)"

definition is_digit :: "char \<Rightarrow> bool" where
  "is_digit c \<longleftrightarrow> 48 \<le> byte c \<and> byte c \<le> 57"

definition digit_value :: "char \<Rightarrow> nat" where
  "digit_value c = byte c - 48"

lemma byte_of_byte [simp]: "n < 256 \<Longrightarrow> byte (of_byte n) = n"
  by simp

lemma digit_props [simp]:
  "n < 10 \<Longrightarrow> is_digit (digit n)" "n < 10 \<Longrightarrow> digit_value (digit n) = n"
  by (simp_all add: digit_def is_digit_def digit_value_def)

fun show_nat :: "nat \<Rightarrow> string" where
  "show_nat n = (if n < 10 then [digit n] else show_nat (n div 10) @ [digit (n mod 10)])"

declare show_nat.simps [simp del]

definition nat_value :: "string \<Rightarrow> nat" where
  "nat_value s = foldl (\<lambda>a c. 10 * a + digit_value c) 0 s"

lemma nat_value_snoc [simp]: "nat_value (s @ [c]) = 10 * nat_value s + digit_value c"
  by (simp add: nat_value_def)

lemma nat_value_Nil [simp]: "nat_value [] = 0"
  by (simp add: nat_value_def)

lemma show_nat_value [simp]: "nat_value (show_nat n) = n"
proof (induction n rule: show_nat.induct)
  case (1 n)
  show ?case
  proof (cases "n < 10")
    case True
    then show ?thesis
      by (subst show_nat.simps) (simp add: nat_value_def)
  next
    case False
    with 1 show ?thesis by (subst show_nat.simps) simp
  qed
qed

lemma show_nat_digits: "\<forall>c \<in> set (show_nat n). is_digit c"
proof (induction n rule: show_nat.induct)
  case (1 n)
  then show ?case by (subst show_nat.simps) auto
qed

lemma show_nat_not_Nil [simp]: "show_nat n \<noteq> []"
  by (subst show_nat.simps) simp

lemma show_nat_hd: "0 < n \<Longrightarrow> hd (show_nat n) \<noteq> CHR ''0''"
proof (induction n rule: show_nat.induct)
  case (1 n)
  show ?case
  proof (cases "n < 10")
    case True
    have "of_byte (48 + n) \<noteq> (CHR ''0'')"
    proof
      assume "of_byte (48 + n) = (CHR ''0'')"
      then have "byte (of_byte (48 + n)) = byte (CHR ''0'')" by simp
      with True \<open>0 < n\<close> show False by simp
    qed
    with True show ?thesis by (subst show_nat.simps) (simp add: digit_def)
  next
    case False
    with 1 show ?thesis by (subst show_nat.simps) (simp add: hd_append)
  qed
qed

lemma nat_value_zeros [simp]: "nat_value (s @ replicate k (CHR ''0'')) = nat_value s * 10 ^ k"
proof (induction k)
  case 0
  show ?case by simp
next
  case (Suc k)
  have "s @ replicate (Suc k) (CHR ''0'') = (s @ replicate k (CHR ''0'')) @ [CHR ''0'']"
    by (simp add: replicate_append_same)
  then have "nat_value (s @ replicate (Suc k) (CHR ''0'')) = 10 * (nat_value s * 10 ^ k)"
    using Suc by (simp only: nat_value_snoc) (simp add: digit_value_def)
  then show ?case by simp
qed

lemma nat_value_leading_zeros [simp]: "nat_value (replicate k (CHR ''0'') @ s) = nat_value s"
proof -
  have "foldl (\<lambda>a c. 10 * a + digit_value c) 0 (replicate k (CHR ''0'')) = 0"
    by (induction k) (simp_all add: digit_value_def)
  then show ?thesis by (simp add: nat_value_def)
qed

text \<open>The digits of a positive mantissa, placed by the exponent as the language specifies.\<close>

definition show_pos :: "nat \<Rightarrow> int \<Rightarrow> string" where
  "show_pos m e =
     (let ds = show_nat m; k = int (length ds); n = k + e in
      if 0 \<le> e \<and> n \<le> 21 then ds @ replicate (nat e) (CHR ''0'')
      else if 0 < n \<and> n \<le> 21 then take (nat n) ds @ ''.'' @ drop (nat n) ds
      else if -6 < n \<and> n \<le> 0 then ''0.'' @ replicate (nat (- n)) (CHR ''0'') @ ds
      else
        let ex = (if n \<le> 0 then ''-'' else ''+'') @ show_nat (nat \<bar>n - 1\<bar>) in
        if k = 1 then ds @ ''e'' @ ex else [hd ds] @ ''.'' @ tl ds @ ''e'' @ ex)"

fun show_dec :: "dec \<Rightarrow> string" where
  "show_dec (Dec m e) =
     (if m = 0 then ''0''
      else if m < 0 then ''-'' @ show_pos (nat (- m)) e
      else show_pos (nat m) e)"

subsection \<open>Decoding a chunk: Buffer.toString\<close>

text \<open>
  \<open>data.toString()\<close> decodes a chunk as UTF-8 and replaces each maximal ill-formed part by U+FFFD;
  as strings are byte lists here, the decoding is a clean-up of the bytes.
\<close>

definition fffd :: string where
  "fffd = [of_byte 239, of_byte 191, of_byte 189]"

text \<open>The continuation bytes a lead byte asks for, and the range of the first of them.\<close>

definition utf8_lead :: "nat \<Rightarrow> (nat \<times> nat \<times> nat) option" where
  "utf8_lead b =
     (if 194 \<le> b \<and> b \<le> 223 then Some (1, 128, 191)
      else if b = 224 then Some (2, 160, 191)
      else if b = 237 then Some (2, 128, 159)
      else if 225 \<le> b \<and> b \<le> 239 then Some (2, 128, 191)
      else if b = 240 then Some (3, 144, 191)
      else if 241 \<le> b \<and> b \<le> 243 then Some (3, 128, 191)
      else if b = 244 then Some (3, 128, 143)
      else None)"

fun take_cont :: "nat \<Rightarrow> nat \<Rightarrow> nat \<Rightarrow> string \<Rightarrow> string \<times> bool \<times> string" where
  "take_cont 0 lo hi s = ([], True, s)"
| "take_cont (Suc n) lo hi [] = ([], False, [])"
| "take_cont (Suc n) lo hi (c # s) =
     (if lo \<le> byte c \<and> byte c \<le> hi
      then (case take_cont n 128 191 s of (p, ok, r) \<Rightarrow> (c # p, ok, r))
      else ([], False, c # s))"

lemma take_cont_parts: "take_cont n lo hi s = (p, ok, r) \<Longrightarrow> s = p @ r"
  by (induction n lo hi s arbitrary: p ok r rule: take_cont.induct)
     (auto split: if_splits prod.splits)

lemma take_cont_append: "take_cont n lo hi s = (p, True, r) \<Longrightarrow>
    take_cont n lo hi (s @ t) = (p, True, r @ t)"
  by (induction n lo hi s arbitrary: p r rule: take_cont.induct)
     (auto split: if_splits prod.splits)

function utf8_clean :: "string \<Rightarrow> string" where
  "utf8_clean [] = []"
| "utf8_clean (c # s) =
     (if byte c < 128 then c # utf8_clean s
      else case utf8_lead (byte c) of
        None \<Rightarrow> fffd @ utf8_clean s
      | Some (n, lo, hi) \<Rightarrow>
          (case take_cont n lo hi s of
            (p, ok, r) \<Rightarrow> (if ok then c # p else fffd) @ utf8_clean r))"
  by pat_completeness auto
termination
  by (relation "measure length") (auto dest!: take_cont_parts [OF sym])

text \<open>Bytes that form complete code points.\<close>

function utf8_valid :: "string \<Rightarrow> bool" where
  "utf8_valid [] = True"
| "utf8_valid (c # s) =
     (if byte c < 128 then utf8_valid s
      else case utf8_lead (byte c) of
        None \<Rightarrow> False
      | Some (n, lo, hi) \<Rightarrow> (case take_cont n lo hi s of (p, ok, r) \<Rightarrow> ok \<and> utf8_valid r))"
  by pat_completeness auto
termination
  by (relation "measure length") (auto dest!: take_cont_parts [OF sym])

lemma utf8_clean_append: "utf8_valid s \<Longrightarrow> utf8_clean (s @ t) = s @ utf8_clean t"
proof (induction s rule: utf8_valid.induct)
  case 1
  show ?case by simp
next
  case (2 c s)
  show ?case
  proof (cases "byte c < 128")
    case True
    with 2 show ?thesis by simp
  next
    case False
    then obtain n lo hi where l: "utf8_lead (byte c) = Some (n, lo, hi)"
      using 2(3) by (auto split: option.splits)
    obtain p ok r where tc: "take_cont n lo hi s = (p, ok, r)" by (metis prod_cases3)
    with 2(3) False l have ok: "ok" "utf8_valid r" by auto
    from tc ok have "take_cont n lo hi (s @ t) = (p, True, r @ t)" "s = p @ r"
      by (auto intro: take_cont_append dest: take_cont_parts)
    moreover have "utf8_clean (r @ t) = r @ utf8_clean t"
      using 2(2) [OF False l] tc ok by simp
    ultimately show ?thesis using False l by simp
  qed
qed

lemma utf8_clean_valid: "utf8_valid s \<Longrightarrow> utf8_clean s = s"
  using utf8_clean_append [of s "[]"] by simp

lemma utf8_valid_append: "utf8_valid s \<Longrightarrow> utf8_valid t \<Longrightarrow> utf8_valid (s @ t)"
proof (induction s rule: utf8_valid.induct)
  case 1
  then show ?case by simp
next
  case (2 c s)
  show ?case
  proof (cases "byte c < 128")
    case True
    with 2 show ?thesis by simp
  next
    case False
    then obtain n lo hi where l: "utf8_lead (byte c) = Some (n, lo, hi)"
      using 2(3) by (auto split: option.splits)
    obtain p ok r where tc: "take_cont n lo hi s = (p, ok, r)" by (metis prod_cases3)
    with 2(3) False l have ok: "ok" "utf8_valid r" by auto
    with tc have "take_cont n lo hi (s @ t) = (p, True, r @ t)" by (auto intro: take_cont_append)
    moreover have "utf8_valid (r @ t)" using 2(2) [OF False l] tc ok 2(4) by simp
    ultimately show ?thesis using False l by simp
  qed
qed

lemma ascii_valid: "(\<And>c. c \<in> set s \<Longrightarrow> byte c < 128) \<Longrightarrow> utf8_valid s"
  by (induction s) auto

subsection \<open>Trimming\<close>

text \<open>The code points \<open>trim()\<close> removes, in UTF-8.\<close>

definition white_space :: "string list" where
  "white_space = map (map of_byte)
     ([[9], [10], [11], [12], [13], [32], [194, 160], [225, 154, 128], [226, 128, 168],
       [226, 128, 169], [226, 128, 175], [226, 129, 159], [227, 128, 128], [239, 187, 191]]
      @ map (\<lambda>n. [226, 128, n]) [128, 129, 130, 131, 132, 133, 134, 135, 136, 137, 138])"

fun is_prefix_of :: "string \<Rightarrow> string \<Rightarrow> bool" where
  "is_prefix_of [] s = True"
| "is_prefix_of (c # cs) [] = False"
| "is_prefix_of (c # cs) (d # s) = (c = d \<and> is_prefix_of cs s)"

lemma is_prefix_of_append: "is_prefix_of p s \<Longrightarrow> s = p @ drop (length p) s"
  by (induction p s rule: is_prefix_of.induct) auto

lemma white_space_not_Nil: "[] \<notin> set white_space" "[] \<notin> set (map rev white_space)"
  by (auto simp: white_space_def)

function strip :: "string list \<Rightarrow> string \<Rightarrow> string" where
  "strip ws s =
     (case filter (\<lambda>w. w \<noteq> [] \<and> is_prefix_of w s) ws of
       [] \<Rightarrow> s
     | w # _ \<Rightarrow> strip ws (drop (length w) s))"
  by pat_completeness auto
termination
proof (relation "measure (\<lambda>(ws, s). length s)", goal_cases)
  case (2 ws s w vs)
  then have "w \<in> set (filter (\<lambda>w. w \<noteq> [] \<and> is_prefix_of w s) ws)" by simp
  then have "w \<noteq> []" "is_prefix_of w s" by auto
  then have "0 < length w" "s = w @ drop (length w) s" by (auto dest: is_prefix_of_append)
  then show ?case by (cases s) auto
qed auto

declare strip.simps [simp del]

definition trim :: "string \<Rightarrow> string" where
  "trim s = rev (strip (map rev white_space) (rev (strip white_space s)))"

lemma strip_keeps: "c \<in> set s \<Longrightarrow> (\<And>w. w \<in> set ws \<Longrightarrow> c \<notin> set w) \<Longrightarrow> c \<in> set (strip ws s)"
proof (induction ws s rule: strip.induct)
  case (1 ws s)
  show ?case
  proof (cases "filter (\<lambda>w. w \<noteq> [] \<and> is_prefix_of w s) ws")
    case Nil
    with 1 show ?thesis by (simp add: strip.simps [of ws s])
  next
    case (Cons w vs)
    then have "w \<in> set (filter (\<lambda>w. w \<noteq> [] \<and> is_prefix_of w s) ws)" by simp
    then have w: "w \<in> set ws" "s = w @ drop (length w) s" by (auto dest: is_prefix_of_append)
    then have "c \<in> set (drop (length w) s)"
      using 1(2) 1(3) [OF w(1)] by (metis Un_iff set_append)
    with 1 Cons show ?thesis by (subst strip.simps) simp
  qed
qed

text \<open>A text with a printable ASCII character does not trim to the empty string.\<close>

lemma trim_keeps:
  assumes "c \<in> set s" "33 \<le> byte c" "byte c < 128"
  shows "trim s \<noteq> []"
proof -
  have ws: "c \<notin> set w" if "w \<in> set white_space" for w
    using that assms(2,3) by (auto simp: white_space_def)
  then have "c \<in> set (strip (map rev white_space) (rev (strip white_space s)))"
    using assms(1) by (intro strip_keeps) (auto intro: strip_keeps)
  then show ?thesis by (auto simp: trim_def)
qed

subsection \<open>JSON values\<close>

datatype json =
    JNull
  | JBool bool
  | JNum dec
  | JStr string
  | JArr "json list"
  | JObj "(string \<times> json) list"

abbreviation jint :: "int \<Rightarrow> json" where
  "jint n \<equiv> JNum (int_dec n)"

text \<open>Reading a property: \<open>undefined\<close> on an absent property and on a value that has none.\<close>

fun jget :: "json \<Rightarrow> string \<Rightarrow> json option" where
  "jget (JObj kvs) k = map_get kvs k"
| "jget _ k = None"

text \<open>Optional chaining \<open>v?.k\<close>, and plain access \<open>v.k\<close>, which throws on null and undefined.\<close>

fun opt_get :: "json option \<Rightarrow> string \<Rightarrow> json option" where
  "opt_get None k = None"
| "opt_get (Some v) k = jget v k"

fun truthy :: "json option \<Rightarrow> bool" where
  "truthy None = False"
| "truthy (Some JNull) = False"
| "truthy (Some (JBool b)) = b"
| "truthy (Some (JNum d)) = (mantissa d \<noteq> 0)"
| "truthy (Some (JStr s)) = (s \<noteq> [])"
| "truthy (Some _) = True"

definition nullish :: "json option \<Rightarrow> bool" where
  "nullish v \<longleftrightarrow> v = None \<or> v = Some JNull"

text \<open>\<open>a ?? b\<close>\<close>

definition coalesce :: "json option \<Rightarrow> json option \<Rightarrow> json option" where
  "coalesce a b = (if nullish a then b else a)"

lemma coalesce_simps [simp]:
  "coalesce None b = b" "coalesce (Some JNull) b = b"
  "v \<noteq> JNull \<Longrightarrow> coalesce (Some v) b = Some v"
  by (simp_all add: coalesce_def nullish_def)

text \<open>\<open>String(v)\<close>, as template literals and the constructor of \<open>Error\<close> apply it.\<close>

fun join_with :: "string \<Rightarrow> string list \<Rightarrow> string" where
  "join_with sep [] = []"
| "join_with sep [s] = s"
| "join_with sep (s # ss) = s @ sep @ join_with sep ss"

fun js_string :: "json \<Rightarrow> string" where
  "js_string JNull = ''null''"
| "js_string (JBool b) = (if b then ''true'' else ''false'')"
| "js_string (JNum d) = show_dec d"
| "js_string (JStr s) = s"
| "js_string (JArr vs) = join_with '','' (map (\<lambda>v. if v = JNull then [] else js_string v) vs)"
| "js_string (JObj kvs) = ''[object Object]''"

definition js_string_opt :: "json option \<Rightarrow> string" where
  "js_string_opt v = (case v of None \<Rightarrow> ''undefined'' | Some j \<Rightarrow> js_string j)"

text \<open>An object literal: a property whose value is \<open>undefined\<close> is skipped by \<open>JSON.stringify\<close>.\<close>

definition jobject :: "(string \<times> json option) list \<Rightarrow> json" where
  "jobject kvs = JObj (List.map_filter (\<lambda>(k, v). map_option (Pair k) v) kvs)"

lemma jobject_Nil [simp]: "jobject [] = JObj []"
  by (simp add: jobject_def List.map_filter_def)

lemma jget_jobject: "distinct (map fst kvs) \<Longrightarrow>
    jget (jobject kvs) k = (case map_get kvs k of None \<Rightarrow> None | Some v \<Rightarrow> v)"
proof (induction kvs)
  case Nil
  show ?case by simp
next
  case (Cons kv kvs)
  obtain k' v where kv: "kv = (k', v)" by (cases kv)
  have no: "k' \<notin> fst ` set kvs" using Cons.prems kv by simp
  have none: "map_get kvs k' = None" using no by (simp add: map_of_eq_None_iff)
  show ?case
    using Cons kv none
    by (cases v) (auto simp: jobject_def List.map_filter_def split: option.splits)
qed

end
