(* ===== verification/Json_Codec.thy ===== *)
theory Json_Codec
  imports Js_Values
begin

text \<open>
  \<open>JSON.stringify\<close> and \<open>JSON.parse\<close>, which frame every message of the daemon protocol. The
  printer is structural; the parser carries fuel, and \<open>parse_value_fuel\<close> shows that the fuel
  \<open>json_parse\<close> gives it always suffices. The interface \<open>line_codec\<close> is what the socket client
  needs of a codec: decoding inverts encoding, and an encoded message holds no newline.
\<close>

subsection \<open>Printing\<close>

abbreviation quote_char :: char where "quote_char \<equiv> CHR 0x22"
abbreviation backslash :: char where "backslash \<equiv> CHR 0x5C"
abbreviation newline :: char where "newline \<equiv> CHR 0x0A"

definition hex_digit :: "nat \<Rightarrow> char" where
  "hex_digit n = (if n < 10 then of_byte (48 + n) else of_byte (87 + n))"

definition escape_char :: "char \<Rightarrow> string" where
  "escape_char c =
     (if c = quote_char then [backslash, quote_char]
      else if c = backslash then [backslash, backslash]
      else if byte c = 8 then backslash # ''b''
      else if byte c = 9 then backslash # ''t''
      else if byte c = 10 then backslash # ''n''
      else if byte c = 12 then backslash # ''f''
      else if byte c = 13 then backslash # ''r''
      else if byte c < 32 then backslash # ''u00'' @ [hex_digit (byte c div 16), hex_digit (byte c mod 16)]
      else [c])"

definition quote :: "string \<Rightarrow> string" where
  "quote s = quote_char # concat (map escape_char s) @ [quote_char]"

fun stringify :: "json \<Rightarrow> string"
  and stringify_elems :: "json list \<Rightarrow> string"
  and stringify_members :: "(string \<times> json) list \<Rightarrow> string" where
  "stringify JNull = ''null''"
| "stringify (JBool b) = (if b then ''true'' else ''false'')"
| "stringify (JNum d) = show_dec d"
| "stringify (JStr s) = quote s"
| "stringify (JArr []) = ''[]''"
| "stringify (JArr (v # vs)) = ''['' @ stringify v @ stringify_elems vs"
| "stringify (JObj []) = ''{}''"
| "stringify (JObj ((k, v) # kvs)) = ''{'' @ quote k @ '':'' @ stringify v @ stringify_members kvs"
| "stringify_elems [] = '']''"
| "stringify_elems (v # vs) = '','' @ stringify v @ stringify_elems vs"
| "stringify_members [] = ''}''"
| "stringify_members ((k, v) # kvs) = '','' @ quote k @ '':'' @ stringify v @ stringify_members kvs"

subsection \<open>Parsing\<close>

definition json_space :: "char \<Rightarrow> bool" where
  "json_space c \<longleftrightarrow> byte c = 32 \<or> byte c = 9 \<or> byte c = 10 \<or> byte c = 13"

abbreviation skip_space :: "string \<Rightarrow> string" where
  "skip_space \<equiv> dropWhile json_space"

definition hex_value :: "char \<Rightarrow> nat option" where
  "hex_value c =
     (let b = byte c in
      if 48 \<le> b \<and> b \<le> 57 then Some (b - 48)
      else if 97 \<le> b \<and> b \<le> 102 then Some (b - 87)
      else if 65 \<le> b \<and> b \<le> 70 then Some (b - 55)
      else None)"

fun hex4 :: "string \<Rightarrow> (nat \<times> string) option" where
  "hex4 (a # b # c # d # r) =
     (case (hex_value a, hex_value b, hex_value c, hex_value d) of
        (Some w, Some x, Some y, Some z) \<Rightarrow> Some (4096 * w + 256 * x + 16 * y + z, r)
      | _ \<Rightarrow> None)"
| "hex4 _ = None"

definition utf8_encode :: "nat \<Rightarrow> string" where
  "utf8_encode n =
     (if n < 128 then [of_byte n]
      else if n < 2048 then [of_byte (192 + n div 64), of_byte (128 + n mod 64)]
      else if n < 65536 then
        [of_byte (224 + n div 4096), of_byte (128 + n div 64 mod 64), of_byte (128 + n mod 64)]
      else
        [of_byte (240 + n div 262144), of_byte (128 + n div 4096 mod 64),
         of_byte (128 + n div 64 mod 64), of_byte (128 + n mod 64)])"

text \<open>The text after a backslash; a high surrogate is joined with a low one that follows it.\<close>

definition read_escape :: "string \<Rightarrow> (string \<times> string) option" where
  "read_escape s =
     (case s of
        [] \<Rightarrow> None
      | c # r \<Rightarrow>
          if c = quote_char \<or> c = backslash \<or> c = CHR ''/'' then Some ([c], r)
          else if c = CHR ''b'' then Some ([of_byte 8], r)
          else if c = CHR ''f'' then Some ([of_byte 12], r)
          else if c = CHR ''n'' then Some ([of_byte 10], r)
          else if c = CHR ''r'' then Some ([of_byte 13], r)
          else if c = CHR ''t'' then Some ([of_byte 9], r)
          else if c = CHR ''u'' then
            (case hex4 r of
               None \<Rightarrow> None
             | Some (n, r') \<Rightarrow>
                 if 55296 \<le> n \<and> n < 56320 \<and> take 2 r' = [backslash, CHR ''u''] then
                   (case hex4 (drop 2 r') of
                      Some (m, r'') \<Rightarrow>
                        if 56320 \<le> m \<and> m < 57344
                        then Some (utf8_encode (65536 + 1024 * (n - 55296) + (m - 56320)), r'')
                        else Some (utf8_encode n, r')
                    | None \<Rightarrow> Some (utf8_encode n, r'))
                 else Some (utf8_encode n, r'))
          else None)"

lemma hex4_rest: "hex4 s = Some (n, r) \<Longrightarrow> length r < length s"
  by (induction s rule: hex4.induct) (auto split: option.splits prod.splits)

lemma read_escape_rest: "read_escape s = Some (b, r) \<Longrightarrow> length r < length s"
proof (cases s)
  case Nil
  then show "read_escape s = Some (b, r) \<Longrightarrow> length r < length s" by (simp add: read_escape_def)
next
  case (Cons c t)
  assume "read_escape s = Some (b, r)"
  moreover have "hex4 (drop 2 t') = Some (m, q) \<Longrightarrow> hex4 t = Some (n, t') \<Longrightarrow> length q < Suc (length t)"
    for t' m q n
    using hex4_rest [of "drop 2 t'"] hex4_rest [of t] by fastforce
  moreover have "hex4 t = Some (n, t') \<Longrightarrow> length t' < Suc (length t)" for t' n
    using hex4_rest [of t] by fastforce
  ultimately show ?thesis
    using Cons by (auto simp: read_escape_def split: if_splits option.splits prod.splits)
qed

function read_chars :: "string \<Rightarrow> (string \<times> string) option" where
  "read_chars [] = None"
| "read_chars (c # s) =
     (if c = quote_char then Some ([], s)
      else if c = backslash then
        (case read_escape s of
           None \<Rightarrow> None
         | Some (b, r) \<Rightarrow> map_option (\<lambda>(t, q). (b @ t, q)) (read_chars r))
      else if byte c < 32 then None
      else map_option (\<lambda>(t, q). (c # t, q)) (read_chars s))"
  by pat_completeness auto
termination
  by (relation "measure length") (auto dest!: read_escape_rest intro: less_SucI)

definition read_frac :: "string \<Rightarrow> (string \<times> string) option" where
  "read_frac s =
     (case s of
        [] \<Rightarrow> Some ([], [])
      | c # r \<Rightarrow>
          if c = CHR ''.'' then
            (if takeWhile is_digit r = [] then None
             else Some (takeWhile is_digit r, dropWhile is_digit r))
          else Some ([], s))"

definition read_exp :: "string \<Rightarrow> (int \<times> string) option" where
  "read_exp s =
     (case s of
        [] \<Rightarrow> Some (0, [])
      | c # r \<Rightarrow>
          if c = CHR ''e'' \<or> c = CHR ''E'' then
            (let t = (case r of [] \<Rightarrow> [] | d # q \<Rightarrow> if d = CHR ''-'' \<or> d = CHR ''+'' then q else r);
                 sg = (case r of [] \<Rightarrow> 1 | d # q \<Rightarrow> if d = CHR ''-'' then -1 else 1)
             in if takeWhile is_digit t = [] then None
                else Some (sg * int (nat_value (takeWhile is_digit t)), dropWhile is_digit t))
          else Some (0, s))"

definition read_unsigned :: "int \<Rightarrow> string \<Rightarrow> (dec \<times> string) option" where
  "read_unsigned sg s =
     (let ds = takeWhile is_digit s in
      if ds = [] \<or> (1 < length ds \<and> hd ds = CHR ''0'') then None
      else
        (case read_frac (dropWhile is_digit s) of
           None \<Rightarrow> None
         | Some (fs, r) \<Rightarrow>
             (case read_exp r of
                None \<Rightarrow> None
              | Some (x, q) \<Rightarrow>
                  Some (norm_dec (sg * int (nat_value (ds @ fs))) (x - int (length fs)), q))))"

definition read_number :: "string \<Rightarrow> (dec \<times> string) option" where
  "read_number s =
     (case s of
        [] \<Rightarrow> None
      | c # r \<Rightarrow> if c = CHR ''-'' then read_unsigned (-1) r else read_unsigned 1 s)"

fun literal_word :: "string \<Rightarrow> string \<Rightarrow> string option" where
  "literal_word [] s = Some s"
| "literal_word (c # cs) [] = None"
| "literal_word (c # cs) (d # s) = (if c = d then literal_word cs s else None)"

fun parse_value :: "nat \<Rightarrow> string \<Rightarrow> (json \<times> string) option"
  and parse_elems :: "nat \<Rightarrow> json list \<Rightarrow> string \<Rightarrow> (json \<times> string) option"
  and parse_members :: "nat \<Rightarrow> (string \<times> json) list \<Rightarrow> string \<Rightarrow> (json \<times> string) option" where
  "parse_value 0 s = None"
| "parse_value (Suc n) s =
     (case skip_space s of
        [] \<Rightarrow> None
      | c # r \<Rightarrow>
          if c = CHR ''{'' then
            (if take 1 (skip_space r) = ''}'' then Some (JObj [], drop 1 (skip_space r))
             else parse_members n [] r)
          else if c = CHR ''['' then
            (if take 1 (skip_space r) = '']'' then Some (JArr [], drop 1 (skip_space r))
             else parse_elems n [] r)
          else if c = quote_char then map_option (\<lambda>(t, q). (JStr t, q)) (read_chars r)
          else if c = CHR ''t'' then map_option (Pair (JBool True)) (literal_word ''rue'' r)
          else if c = CHR ''f'' then map_option (Pair (JBool False)) (literal_word ''alse'' r)
          else if c = CHR ''n'' then map_option (Pair JNull) (literal_word ''ull'' r)
          else map_option (\<lambda>(d, q). (JNum d, q)) (read_number (c # r)))"
| "parse_elems 0 acc s = None"
| "parse_elems (Suc n) acc s =
     (case parse_value n s of
        None \<Rightarrow> None
      | Some (v, r) \<Rightarrow>
          (case skip_space r of
             [] \<Rightarrow> None
           | c # q \<Rightarrow>
               if c = CHR '','' then parse_elems n (acc @ [v]) q
               else if c = CHR '']'' then Some (JArr (acc @ [v]), q)
               else None))"
| "parse_members 0 acc s = None"
| "parse_members (Suc n) acc s =
     (if take 1 (skip_space s) = [quote_char] then
        (case read_chars (drop 1 (skip_space s)) of
           None \<Rightarrow> None
         | Some (k, r) \<Rightarrow>
             if take 1 (skip_space r) = '':'' then
               (case parse_value n (drop 1 (skip_space r)) of
                  None \<Rightarrow> None
                | Some (v, q) \<Rightarrow>
                    (case skip_space q of
                       [] \<Rightarrow> None
                     | c # p \<Rightarrow>
                         if c = CHR '','' then parse_members n (map_set k v acc) p
                         else if c = CHR ''}'' then Some (JObj (map_set k v acc), p)
                         else None))
             else None)
      else None)"

lemmas parse_simps = parse_value.simps parse_elems.simps parse_members.simps

definition json_parse :: "string \<Rightarrow> json option" where
  "json_parse s =
     (case parse_value (Suc (2 * length s)) s of
        None \<Rightarrow> None
      | Some (v, r) \<Rightarrow> if skip_space r = [] then Some v else None)"

subsection \<open>The fuel is enough\<close>

lemma skip_space_length: "length (skip_space s) \<le> length s"
  by (rule length_dropWhile_le)

lemma read_chars_rest: "read_chars s = Some (t, r) \<Longrightarrow> length r < length s"
proof (induction s arbitrary: t r rule: read_chars.induct)
  case 1
  then show ?case by simp
next
  case (2 c s)
  consider "c = quote_char" | "c \<noteq> quote_char" "c = backslash" | "c \<noteq> quote_char" "c \<noteq> backslash"
    by blast
  then show ?case
  proof cases
    case 2
    with "2.prems" obtain b r' t' where "read_escape s = Some (b, r')" "read_chars r' = Some (t', r)"
      by (auto split: option.splits)
    with "2.IH"(1) 2 show ?thesis using read_escape_rest by fastforce
  next
    case 3
    with "2.prems" obtain t' where "\<not> byte c < 32" "read_chars s = Some (t', r)"
      by (auto split: if_splits)
    with "2.IH"(2) 3 show ?thesis by fastforce
  qed (use "2.prems" in auto)
qed

lemma literal_word_rest: "literal_word w s = Some r \<Longrightarrow> length r \<le> length s"
  by (induction w s rule: literal_word.induct) (auto split: if_splits)


lemma dropWhile_digit_less: "takeWhile is_digit s \<noteq> [] \<Longrightarrow> length (dropWhile is_digit s) < length s"
  by (cases s) (auto simp: le_imp_less_Suc length_dropWhile_le split: if_splits)

lemma read_frac_rest: "read_frac s = Some (fs, r) \<Longrightarrow> length r \<le> length s"
  by (auto simp: read_frac_def length_dropWhile_le le_SucI split: list.splits if_splits)

lemma read_exp_rest: "read_exp s = Some (x, r) \<Longrightarrow> length r \<le> length s"
  by (auto simp: read_exp_def Let_def length_dropWhile_le le_SucI split: list.splits if_splits)

lemma read_unsigned_rest: "read_unsigned sg s = Some (d, r) \<Longrightarrow> length r < length s"
  by (auto simp: read_unsigned_def Let_def split: if_splits option.splits prod.splits
      dest!: read_frac_rest read_exp_rest dropWhile_digit_less)

lemma read_number_rest: "read_number s = Some (d, r) \<Longrightarrow> length r < length s"
  by (auto simp: read_number_def less_SucI split: list.splits if_splits dest!: read_unsigned_rest)

lemma skip_space_cases: "skip_space s = c # r \<Longrightarrow> length r < length s"
  using skip_space_length [of s] by simp

lemma drop_skip_space: "length (drop 1 (skip_space s)) \<le> length s"
  using skip_space_length [of s] by simp

lemma drop_skip_space_less:
  "take 1 (skip_space s) = [c] \<Longrightarrow> length (drop 1 (skip_space s)) < length s"
  using skip_space_length [of s] by (cases "skip_space s") auto

text \<open>What a parser consumes, and that fuel beyond twice the length changes nothing.\<close>

lemma parse_rest:
  "parse_value n s = Some (v, r) \<Longrightarrow> length r < length s"
  "parse_elems n acc s = Some (v, r) \<Longrightarrow> length r < length s"
  "parse_members n mem s = Some (v, r) \<Longrightarrow> length r < length s"
proof (induction n s and n acc s and n mem s arbitrary: v r and v r and v r
    rule: parse_value_parse_elems_parse_members.induct)
  case (2 n s)
  then obtain c q where c: "skip_space s = c # q" by (auto split: list.splits)
  have "length r \<le> length q"
    using "2.prems" "2.IH"(1,2) [OF c] c drop_skip_space [of q]
    by (auto split: if_splits simp: read_number_def
        dest!: read_chars_rest literal_word_rest read_unsigned_rest)
  with skip_space_cases [OF c] show ?case by simp
next
  case (4 n acc s)
  then obtain v' r' where v: "parse_value n s = Some (v', r')"
    by (auto split: option.splits)
  with "4.prems" obtain c q where c: "skip_space r' = c # q" by (auto split: list.splits)
  have "length r \<le> length q"
    using "4.prems" v c "4.IH"(2) [OF v refl c] by (auto split: if_splits)
  with "4.IH"(1) [OF v] skip_space_cases [OF c] show ?case by simp
next
  case (6 n mem s)
  then obtain k r1 where q: "take 1 (skip_space s) = [quote_char]"
    and k: "read_chars (drop 1 (skip_space s)) = Some (k, r1)"
    by (auto split: if_splits option.splits)
  with "6.prems" obtain v' r2 where col: "take 1 (skip_space r1) = '':''"
    and v: "parse_value n (drop 1 (skip_space r1)) = Some (v', r2)"
    by (auto split: if_splits option.splits)
  with "6.prems" q k obtain c p where c: "skip_space r2 = c # p" by (auto split: list.splits)
  have "length r \<le> length p"
    using "6.prems" q k col v c "6.IH"(2) [OF q k refl col v refl c] by (auto split: if_splits)
  also have "\<dots> < length r2" by (rule skip_space_cases [OF c])
  also have "\<dots> < length (drop 1 (skip_space r1))" by (rule "6.IH"(1) [OF q k refl col v])
  also have "\<dots> < length r1" by (rule drop_skip_space_less [OF col])
  also have "\<dots> < length (drop 1 (skip_space s))" by (rule read_chars_rest [OF k])
  also have "\<dots> \<le> length s" by (rule drop_skip_space)
  finally show ?case .
qed auto

lemma parse_fuel_step:
  "2 * length s < n \<Longrightarrow> parse_value (Suc n) s = parse_value n s"
  "2 * length s + 1 < n \<Longrightarrow> parse_elems (Suc n) acc s = parse_elems n acc s"
  "2 * length s + 1 < n \<Longrightarrow> parse_members (Suc n) mem s = parse_members n mem s"
proof (induction n arbitrary: s acc mem)
  case (Suc m)
  {
    case 1
    show ?case
    proof (cases "skip_space s")
      case Nil
      then show ?thesis by (simp only: parse_value.simps list.case)
    next
      case (Cons c r)
      have "parse_elems (Suc m) [] r = parse_elems m [] r"
        and "parse_members (Suc m) [] r = parse_members m [] r"
        using skip_space_cases [OF Cons] 1 by (intro Suc.IH(2,3); simp)+
      then show ?thesis by (simp only: parse_value.simps list.case Cons)
    qed
  next
    case 2
    have v: "parse_value (Suc m) s = parse_value m s" using 2 by (intro Suc.IH(1)) simp
    show ?case
    proof (cases "parse_value m s")
      case None
      then show ?thesis by (simp only: parse_elems.simps v option.case)
    next
      case (Some vr)
      obtain w r where vr: "vr = (w, r)" by (cases vr)
      show ?thesis
      proof (cases "skip_space r")
        case Nil
        with Some vr show ?thesis by (simp only: parse_elems.simps v option.case prod.case list.case)
      next
        case (Cons c q)
        have "parse_elems (Suc m) (acc @ [w]) q = parse_elems m (acc @ [w]) q"
          using parse_rest(1) [OF Some [unfolded vr]] skip_space_cases [OF Cons] 2
          by (intro Suc.IH(2)) simp
        with Some vr Cons show ?thesis
          by (simp only: parse_elems.simps v option.case prod.case list.case)
      qed
    qed
  next
    case 3
    show ?case
    proof (cases "read_chars (drop 1 (skip_space s))")
      case None
      then show ?thesis by (simp only: parse_members.simps option.case)
    next
      case (Some kr)
      obtain k r where kr: "kr = (k, r)" by (cases kr)
      note lr = read_chars_rest [OF Some [unfolded kr]] drop_skip_space [of s] drop_skip_space [of r]
      have v: "parse_value (Suc m) (drop 1 (skip_space r)) = parse_value m (drop 1 (skip_space r))"
        using lr 3 by (intro Suc.IH(1)) linarith
      show ?thesis
      proof (cases "parse_value m (drop 1 (skip_space r))")
        case None
        with Some kr show ?thesis by (simp only: parse_members.simps v option.case prod.case)
      next
        case Some': (Some vq)
        obtain w q where vq: "vq = (w, q)" by (cases vq)
        have "parse_members (Suc m) (map_set k w mem) p = parse_members m (map_set k w mem) p"
          if "skip_space q = c # p" for c p
          using lr parse_rest(1) [OF Some' [unfolded vq]] skip_space_cases [OF that] 3
          by (intro Suc.IH(3)) linarith
        with Some kr Some' vq show ?thesis
          by (cases "skip_space q")
            (simp_all only: parse_members.simps v option.case prod.case list.case)
      qed
    qed
  }
qed simp_all

lemma parse_value_fuel: "2 * length s < n \<Longrightarrow> parse_value (n + k) s = parse_value n s"
  by (induction k) (simp_all del: parse_simps add: parse_fuel_step(1))

lemma json_parse_fuel:
  assumes "2 * length s < n"
  shows "json_parse s = (case parse_value n s of
           None \<Rightarrow> None | Some (v, r) \<Rightarrow> if skip_space r = [] then Some v else None)"
proof -
  have "parse_value (Suc (2 * length s) + (n - Suc (2 * length s))) s = parse_value (Suc (2 * length s)) s"
    by (rule parse_value_fuel) simp
  with assms show ?thesis
    by (simp del: parse_simps add: json_parse_def)
qed

subsection \<open>Round trips\<close>

lemma hex_value_digit: "n < 16 \<Longrightarrow> hex_value (hex_digit n) = Some n"
  by (auto simp: hex_value_def hex_digit_def Let_def)

lemma read_chars_escape:
  "read_chars (escape_char c @ s) = map_option (\<lambda>(t, q). (c # t, q)) (read_chars s)"
proof -
  consider "c = quote_char" | "c = backslash" | "byte c = 8" | "byte c = 9" | "byte c = 10"
    | "byte c = 12" | "byte c = 13"
    | "c \<noteq> quote_char" "c \<noteq> backslash" "byte c \<notin> {8, 9, 10, 12, 13}" "byte c < 32"
    | "c \<noteq> quote_char" "c \<noteq> backslash" "\<not> byte c < 32"
    by blast
  then show ?thesis
  proof cases
    case 8
    have "hex4 (CHR ''0'' # CHR ''0'' # hex_digit (byte c div 16) # hex_digit (byte c mod 16) # s)
        = Some (byte c, s)"
      using 8 by (simp add: hex_value_digit) (simp add: hex_value_def)
    with 8 show ?thesis
      by (auto simp: escape_char_def read_escape_def utf8_encode_def)
  next
    case 9
    then show ?thesis by (auto simp: escape_char_def)
  qed (auto simp: escape_char_def read_escape_def dest: arg_cong [where f = char_of])
qed

lemma read_chars_quote: "read_chars (concat (map escape_char s) @ quote_char # r) = Some (s, r)"
  by (induction s) (simp_all add: read_chars_escape)

definition number_ends :: "string \<Rightarrow> bool" where
  "number_ends s \<longleftrightarrow>
     (case s of [] \<Rightarrow> True
      | c # _ \<Rightarrow> \<not> is_digit c \<and> c \<noteq> CHR ''.'' \<and> c \<noteq> CHR ''e'' \<and> c \<noteq> CHR ''E'')"

lemma not_digit_marks [simp]:
  "\<not> is_digit (CHR ''.'')" "\<not> is_digit (CHR ''e'')" "\<not> is_digit (CHR ''-'')" "\<not> is_digit (CHR ''+'')"
  "is_digit (CHR ''0'')"
  by (simp_all add: is_digit_def)

lemma digits_stop:
  "s = [] \<or> \<not> is_digit (hd s) \<Longrightarrow> takeWhile is_digit s = []"
  "s = [] \<or> \<not> is_digit (hd s) \<Longrightarrow> dropWhile is_digit s = s"
  by (cases s; simp)+

lemma number_ends_digits: "number_ends s \<Longrightarrow> s = [] \<or> \<not> is_digit (hd s)"
  by (auto simp: number_ends_def split: list.splits)

lemma read_exp_none: "number_ends s \<Longrightarrow> read_exp s = Some (0, s)"
  by (auto simp: read_exp_def number_ends_def split: list.splits)

lemma read_frac_none: "s = [] \<or> hd s \<noteq> CHR ''.'' \<Longrightarrow> read_frac s = Some ([], s)"
  by (cases s) (auto simp: read_frac_def)

lemma number_ends_not_dot: "number_ends s \<Longrightarrow> s = [] \<or> hd s \<noteq> CHR ''.''"
  by (auto simp: number_ends_def split: list.splits)

lemma read_frac_some: "fs \<noteq> [] \<Longrightarrow> \<forall>c \<in> set fs. is_digit c \<Longrightarrow> s = [] \<or> \<not> is_digit (hd s) \<Longrightarrow>
    read_frac (CHR ''.'' # fs @ s) = Some (fs, s)"
  by (simp add: read_frac_def digits_stop)

lemma read_exp_some:
  assumes "number_ends s"
  shows "read_exp (CHR ''e'' # (if b then CHR ''-'' else CHR ''+'') # show_nat x @ s)
      = Some ((if b then -1 else 1) * int x, s)"
  using assms show_nat_digits [of x]
  by (simp add: read_exp_def Let_def digits_stop number_ends_digits)

lemma read_unsigned_ok:
  assumes "ds \<noteq> []" "\<forall>c \<in> set ds. is_digit c" "length ds = 1 \<or> hd ds \<noteq> CHR ''0''"
    and "s = [] \<or> \<not> is_digit (hd s)" "read_frac s = Some (fs, r)" "read_exp r = Some (x, q)"
  shows "read_unsigned sg (ds @ s)
      = Some (norm_dec (sg * int (nat_value (ds @ fs))) (x - int (length fs)), q)"
  using assms by (auto simp: read_unsigned_def Let_def digits_stop)

lemma read_show_pos:
  assumes m: "0 < m" and c: "canonical (Dec (sg * int m) e)" and r: "number_ends r"
  shows "read_unsigned sg (show_pos m e @ r) = Some (Dec (sg * int m) e, r)"
proof -
  define ds where "ds = show_nat m"
  have ds: "ds \<noteq> []" "\<forall>c \<in> set ds. is_digit c" "hd ds \<noteq> CHR ''0''" "nat_value ds = m"
    using m by (simp_all add: ds_def show_nat_digits show_nat_hd)
  define n where "n = int (length ds) + e"
  note nm = norm_dec_id [OF c]
  have len: "0 < length ds" using ds(1) by simp
  note frac = read_frac_some and rn = number_ends_digits [OF r] read_exp_none [OF r]
  consider (ints) "0 \<le> e" "n \<le> 21" | (mid) "e < 0" "0 < n" "n \<le> 21" | (small) "-6 < n" "n \<le> 0"
    | (expo) "21 < n \<or> n \<le> -6"
    by linarith
  then show ?thesis
  proof cases
    case ints
    have sh: "show_pos m e = ds @ replicate (nat e) (CHR ''0'')"
      using ints by (simp add: show_pos_def Let_def ds_def n_def)
    have fr: "read_frac r = Some ([], r)"
      by (rule read_frac_none [OF number_ends_not_dot [OF r]])
    have "read_unsigned sg ((ds @ replicate (nat e) (CHR ''0'')) @ r)
        = Some (norm_dec (sg * int (nat_value ((ds @ replicate (nat e) (CHR ''0'')) @ [])))
                 (0 - int (length ([] :: string))), r)"
      using ds by (intro read_unsigned_ok [OF _ _ _ rn(1) fr rn(2)]) (auto simp: hd_append)
    also have "\<dots> = Some (norm_dec (sg * int m * 10 ^ nat e) 0, r)"
      using ds by (simp add: algebra_simps)
    finally show ?thesis using sh ints nm by (simp add: norm_dec_shift)
  next
    case mid
    have sh: "show_pos m e = take (nat n) ds @ CHR ''.'' # drop (nat n) ds"
      using mid by (auto simp: show_pos_def Let_def ds_def n_def)
    have k: "nat n < length ds" "0 < nat n" using mid by (auto simp: n_def)
    have rf: "read_frac (CHR ''.'' # drop (nat n) ds @ r) = Some (drop (nat n) ds, r)"
      using ds k rn by (intro frac) (auto dest: in_set_dropD)
    have "read_unsigned sg (take (nat n) ds @ CHR ''.'' # drop (nat n) ds @ r)
        = Some (norm_dec (sg * int (nat_value (take (nat n) ds @ drop (nat n) ds)))
                 (0 - int (length (drop (nat n) ds))), r)"
      using ds k rn
      by (intro read_unsigned_ok [OF _ _ _ _ rf rn(2)]) (auto dest: in_set_takeD in_set_dropD)
    then show ?thesis using sh ds nm k mid by (simp add: n_def of_nat_diff)
  next
    case small
    have e0: "e < 0" using small len unfolding n_def by linarith
    have sh: "show_pos m e = CHR ''0'' # CHR ''.'' # replicate (nat (- n)) (CHR ''0'') @ ds"
      using small e0 unfolding show_pos_def Let_def ds_def [symmetric] n_def by auto
    have rf: "read_frac (CHR ''.'' # (replicate (nat (- n)) (CHR ''0'') @ ds) @ r)
        = Some (replicate (nat (- n)) (CHR ''0'') @ ds, r)"
      using ds rn by (intro frac) auto
    have "read_unsigned sg (''0'' @ CHR ''.'' # (replicate (nat (- n)) (CHR ''0'') @ ds) @ r)
        = Some (norm_dec (sg * int (nat_value (''0'' @ replicate (nat (- n)) (CHR ''0'') @ ds)))
                 (0 - int (length (replicate (nat (- n)) (CHR ''0'') @ ds))), r)"
      by (intro read_unsigned_ok [OF _ _ _ _ rf rn(2)]) auto
    moreover have "nat_value (''0'' @ replicate (nat (- n)) (CHR ''0'') @ ds) = m"
      using nat_value_leading_zeros [of "Suc (nat (- n))" ds] ds by simp
    ultimately show ?thesis using sh nm small by (simp add: n_def)
  next
    case expo
    define ex where "ex = (if n \<le> 0 then CHR ''-'' else CHR ''+'') # show_nat (nat \<bar>n - 1\<bar>)"
    have re: "read_exp (CHR ''e'' # ex @ r) = Some (n - 1, r)"
      using read_exp_some [OF r, of "n \<le> 0" "nat \<bar>n - 1\<bar>"] expo by (auto simp: ex_def)
    show ?thesis
    proof (cases "length ds = 1")
      case True
      have sh: "show_pos m e = ds @ CHR ''e'' # ex"
        using expo True by (auto simp: show_pos_def Let_def ds_def n_def ex_def)
      have "read_unsigned sg (ds @ CHR ''e'' # ex @ r)
          = Some (norm_dec (sg * int (nat_value (ds @ []))) (n - 1 - int (length ([] :: string))), r)"
        using ds True by (intro read_unsigned_ok [OF _ _ _ _ _ re] read_frac_none) auto
      then show ?thesis using sh ds nm True by (simp add: n_def)
    next
      case False
      then obtain d ts where dts: "ds = d # ts" "ts \<noteq> []" using ds(1) by (cases ds) auto
      have sh: "show_pos m e = [d] @ CHR ''.'' # ts @ CHR ''e'' # ex"
        using expo False dts unfolding show_pos_def Let_def ds_def [symmetric] n_def [symmetric] ex_def
        by (auto simp: n_def)
      have rf: "read_frac (CHR ''.'' # ts @ CHR ''e'' # ex @ r) = Some (ts, CHR ''e'' # ex @ r)"
        using ds dts by (intro frac) auto
      have "read_unsigned sg ([d] @ CHR ''.'' # ts @ CHR ''e'' # ex @ r)
          = Some (norm_dec (sg * int (nat_value ([d] @ ts))) (n - 1 - int (length ts)), r)"
        using ds dts by (intro read_unsigned_ok [OF _ _ _ _ rf re]) auto
      then show ?thesis using sh ds dts nm by (simp add: n_def)
    qed
  qed
qed

lemma read_number_show:
  assumes c: "canonical d" and r: "number_ends r"
  shows "read_number (show_dec d @ r) = Some (d, r)"
proof (cases d)
  case (Dec m e)
  have minus: "show_pos k x \<noteq> [] \<and> hd (show_pos k x) \<noteq> CHR ''-''" for k x
  proof -
    have "hd (show_nat k) \<noteq> CHR ''-''"
      using show_nat_digits [of k] hd_in_set [of "show_nat k"] by (fastforce simp: is_digit_def)
    then show ?thesis by (auto simp: show_pos_def Let_def hd_append) 
  qed
  consider "m = 0" | "0 < m" | "m < 0" by linarith
  then show ?thesis
  proof cases
    case 1
    with c Dec have e: "e = 0" by (simp add: canonical_def)
    have "read_unsigned 1 (''0'' @ r) = Some (norm_dec (1 * int (nat_value (''0'' @ []))) (0 - int (length ([] :: string))), r)"
      using number_ends_digits [OF r] number_ends_not_dot [OF r]
      by (intro read_unsigned_ok [OF _ _ _ _ read_frac_none read_exp_none [OF r]]) auto
    with 1 Dec e show ?thesis by (simp add: read_number_def nat_value_def digit_value_def)
  next
    case 2
    with c Dec r have "read_unsigned 1 (show_pos (nat m) e @ r) = Some (d, r)"
      using read_show_pos [of "nat m" 1 e r] by simp
    with 2 Dec minus [of "nat m" e] show ?thesis
      by (cases "show_pos (nat m) e") (auto simp: read_number_def)
  next
    case 3
    with c Dec r have "read_unsigned (-1) (show_pos (nat (- m)) e @ r) = Some (d, r)"
      using read_show_pos [of "nat (- m)" "-1" e r] by simp
    with 3 Dec show ?thesis by (simp add: read_number_def)
  qed
qed

text \<open>The values \<open>JSON.parse\<close> produces: canonical numbers and objects with distinct keys.\<close>

fun wf_json :: "json \<Rightarrow> bool" where
  "wf_json (JNum d) = canonical d"
| "wf_json (JArr vs) = (\<forall>v \<in> set vs. wf_json v)"
| "wf_json (JObj kvs) = (distinct (map fst kvs) \<and> (\<forall>kv \<in> set kvs. wf_json (snd kv)))"
| "wf_json _ = True"

lemma literal_word_append [simp]: "literal_word w (w @ r) = Some r"
  by (induction w) auto

lemma show_dec_head: "\<exists>c q. show_dec d = c # q \<and> (is_digit c \<or> c = CHR ''-'')"
proof -
  have "show_pos k x \<noteq> [] \<and> is_digit (hd (show_pos k x))" for k x
    using show_nat_digits [of k] hd_in_set [of "show_nat k"]
    by (auto simp: show_pos_def Let_def hd_append take_Cons')
  then have "\<exists>c r. show_pos k x = c # r \<and> is_digit c" for k x
    by (metis list.collapse)
  then show ?thesis by (cases d) (fastforce)
qed

lemma number_head_other:
  assumes "is_digit c \<or> c = CHR ''-''"
  shows "\<not> json_space c" "c \<noteq> CHR '']''" "c \<noteq> CHR ''}''" "c \<noteq> CHR ''{''" "c \<noteq> CHR ''[''"
    "c \<noteq> quote_char" "c \<noteq> CHR ''t''" "c \<noteq> CHR ''f''" "c \<noteq> CHR ''n''"
  using assms by (auto simp: is_digit_def json_space_def)

lemma stringify_head:
  "\<exists>c r. stringify v = c # r \<and> \<not> json_space c \<and> c \<noteq> CHR '']'' \<and> c \<noteq> CHR ''}''"
proof (cases v)
  case (JNum d)
  then show ?thesis using show_dec_head [of d] number_head_other by auto
next
  case (JArr vs)
  then show ?thesis by (cases vs) (simp_all add: json_space_def)
next
  case (JObj kvs)
  then show ?thesis by (cases kvs) (auto simp: json_space_def)
qed (auto simp: json_space_def quote_def)

lemma skip_space_stringify: "skip_space (stringify v @ r) = stringify v @ r"
  using stringify_head [of v] by auto

lemma stringify_elems_ends: "number_ends (stringify_elems vs @ r)"
  by (cases vs) (simp_all add: number_ends_def is_digit_def)

lemma stringify_members_ends: "number_ends (stringify_members kvs @ r)"
  by (cases kvs) (auto simp: number_ends_def is_digit_def)

text \<open>What a printed value must parse back to, for any text that may follow it.\<close>

definition parses_back :: "json \<Rightarrow> bool" where
  "parses_back v \<longleftrightarrow> (\<forall>n r. number_ends r \<longrightarrow> 2 * length (stringify v @ r) < n \<longrightarrow>
     parse_value n (stringify v @ r) = Some (v, r))"

lemma parses_backD:
  "parses_back v \<Longrightarrow> number_ends r \<Longrightarrow> 2 * length (stringify v @ r) < n \<Longrightarrow>
     parse_value n (stringify v @ r) = Some (v, r)"
  by (simp add: parses_back_def)

lemma parses_backI:
  assumes "\<And>m r. number_ends r \<Longrightarrow> parse_value (Suc m) (stringify v @ r) = Some (v, r)"
  shows "parses_back v"
  unfolding parses_back_def
proof (intro allI impI)
  fix n r
  assume "number_ends r" "2 * length (stringify v @ r) < n"
  with assms show "parse_value n (stringify v @ r) = Some (v, r)" by (cases n) simp_all
qed

lemma parse_elems_back:
  assumes "\<And>w. w \<in> set (v # vs) \<Longrightarrow> parses_back w"
    and "2 * length (stringify v @ stringify_elems vs @ r) + 1 < n"
  shows "parse_elems n acc (stringify v @ stringify_elems vs @ r) = Some (JArr (acc @ v # vs), r)"
  using assms
proof (induction vs arbitrary: v acc n)
  case Nil
  then obtain m where n: "n = Suc m" by (cases n) auto
  have "parse_value m (stringify v @ stringify_elems [] @ r) = Some (v, stringify_elems [] @ r)"
    using Nil n by (intro parses_backD stringify_elems_ends) auto
  with n show ?case by (simp del: parse_value.simps add: json_space_def)
next
  case (Cons w vs)
  then obtain m where n: "n = Suc m" by (cases n) auto
  have v: "parse_value m (stringify v @ stringify_elems (w # vs) @ r) = Some (v, stringify_elems (w # vs) @ r)"
    using Cons.prems n by (intro parses_backD stringify_elems_ends) auto
  have "parse_elems m (acc @ [v]) (stringify w @ stringify_elems vs @ r)
      = Some (JArr ((acc @ [v]) @ w # vs), r)"
    using Cons.prems n by (intro Cons.IH) auto
  with v n show ?case by (simp del: parse_value.simps add: json_space_def)
qed

lemma skip_space_quote: "skip_space (quote k @ r) = quote k @ r"
  by (simp add: quote_def json_space_def)

lemma read_chars_key: "read_chars (drop 1 (quote k @ r)) = Some (k, r)"
  using read_chars_quote [of k r] by (simp add: quote_def)

lemma parse_members_back:
  assumes "\<And>w. w \<in> set (map snd ((k, v) # kvs)) \<Longrightarrow> parses_back w"
    and "distinct (map fst (acc @ (k, v) # kvs))"
    and "2 * length (quote k @ '':'' @ stringify v @ stringify_members kvs @ r) + 1 < n"
  shows "parse_members n acc (quote k @ '':'' @ stringify v @ stringify_members kvs @ r)
       = Some (JObj (acc @ (k, v) # kvs), r)"
  using assms
proof (induction kvs arbitrary: k v acc n)
  case Nil
  then obtain m where n: "n = Suc m" by (cases n) auto
  have v: "parse_value m (stringify v @ stringify_members [] @ r) = Some (v, stringify_members [] @ r)"
    using Nil n by (intro parses_backD stringify_members_ends) (auto simp: quote_def)
  have a: "map_set k v acc = acc @ [(k, v)]" using Nil by (intro update_new_append) auto
  have "take 1 (quote k @ s) = [quote_char]" for s by (simp add: quote_def)
  with n v a show ?case
    by (simp only: parse_members.simps skip_space_quote read_chars_key)
      (simp del: parse_value.simps add: json_space_def)
next
  case (Cons kw kvs)
  obtain k' w where kw: "kw = (k', w)" by (cases kw)
  from Cons.prems obtain m where n: "n = Suc m" by (cases n) auto
  have v: "parse_value m (stringify v @ stringify_members (kw # kvs) @ r)
      = Some (v, stringify_members (kw # kvs) @ r)"
    using Cons.prems n by (intro parses_backD stringify_members_ends) (auto simp: quote_def)
  have a: "map_set k v acc = acc @ [(k, v)]" using Cons.prems by (intro update_new_append) auto
  have "parse_members m (acc @ [(k, v)]) (quote k' @ '':'' @ stringify w @ stringify_members kvs @ r)
      = Some (JObj ((acc @ [(k, v)]) @ (k', w) # kvs), r)"
    using Cons.prems n kw by (intro Cons.IH) auto
  moreover have "take 1 (quote k @ s) = [quote_char]" for s by (simp add: quote_def)
  ultimately show ?case
    using n v a kw
    by (simp only: parse_members.simps skip_space_quote read_chars_key)
      (simp del: parse_value.simps add: json_space_def)
qed

lemma parses_back_all: "wf_json v \<Longrightarrow> parses_back v"
proof (induction v)
  case (JNum d)
  obtain c q where c: "show_dec d = c # q" "is_digit c \<or> c = CHR ''-''"
    using show_dec_head [of d] by blast
  have "canonical d" using JNum by simp
  note rd = read_number_show [OF this, unfolded c(1)]
  show ?case
    using rd number_head_other [OF c(2)] by (intro parses_backI) (simp add: c(1))
next
  case (JArr vs)
  show ?case
  proof (cases vs)
    case Nil
    then show ?thesis
      by (auto simp: parses_back_def json_space_def gr0_conv_Suc less_iff_Suc_add)
  next
    case (Cons v ws)
    show ?thesis
      unfolding parses_back_def
    proof (intro allI impI)
      fix n r
      assume n: "2 * length (stringify (JArr vs) @ r) < n"
      then obtain m where m: "n = Suc m" by (cases n) auto
      have "parse_elems m [] (stringify v @ stringify_elems ws @ r) = Some (JArr ([] @ v # ws), r)"
        using JArr Cons n m by (intro parse_elems_back) auto
      moreover obtain c t where "stringify v = c # t" "\<not> json_space c" "c \<noteq> CHR '']''"
        using stringify_head [of v] by blast
      ultimately show "parse_value n (stringify (JArr vs) @ r) = Some (JArr vs, r)"
        using m Cons by (simp add: skip_space_stringify json_space_def del: parse_elems.simps)
    qed
  qed
next
  case (JObj kvs)
  show ?case
  proof (cases kvs)
    case Nil
    then show ?thesis
      by (auto simp: parses_back_def json_space_def less_iff_Suc_add)
  next
    case (Cons kv ws)
    obtain k v where kv: "kv = (k, v)" by (cases kv)
    show ?thesis
      unfolding parses_back_def
    proof (intro allI impI)
      fix n r
      assume n: "2 * length (stringify (JObj kvs) @ r) < n"
      then obtain m where m: "n = Suc m" by (cases n) auto
      have "parse_members m [] (quote k @ '':'' @ stringify v @ stringify_members ws @ r)
          = Some (JObj ([] @ (k, v) # ws), r)"
        using JObj Cons kv n m by (intro parse_members_back) (auto, fastforce+)
      moreover have "take 1 (quote k @ s) \<noteq> ''}''" for s
        by (simp add: quote_def)
      ultimately show "parse_value n (stringify (JObj kvs) @ r) = Some (JObj kvs, r)"
        using m Cons kv by (simp add: skip_space_quote json_space_def del: parse_members.simps)
    qed
  qed
next
  case (JBool b)
  show ?case by (cases b) (auto intro!: parses_backI simp: json_space_def)
qed (auto intro!: parses_backI simp: json_space_def quote_def read_chars_quote)

text \<open>Parsing a printed value gives the value back.\<close>

lemma json_parse_stringify: "wf_json v \<Longrightarrow> json_parse (stringify v) = Some v"
  using parses_backD [OF parses_back_all, of v "[]" "Suc (2 * length (stringify v))"]
  by (simp del: parse_simps add: json_parse_def number_ends_def)

subsection \<open>Printed text holds no newline\<close>

lemma escape_char_no_newline: "newline \<notin> set (escape_char c)"
proof -
  have h: "n < 16 \<Longrightarrow> newline \<noteq> hex_digit n" for n
    by (auto simp: hex_digit_def dest: arg_cong [where f = byte])
  have "byte c < 32 \<Longrightarrow> newline \<noteq> hex_digit (byte c div 16) \<and> newline \<noteq> hex_digit (byte c mod 16)"
    using h by auto
  then show ?thesis by (auto simp: escape_char_def dest: arg_cong [where f = byte])
qed

lemma quote_no_newline: "newline \<notin> set (quote s)"
  using escape_char_no_newline by (auto simp: quote_def)

lemma show_nat_no_newline: "newline \<notin> set (show_nat n)"
  using show_nat_digits [of n] by (auto simp: is_digit_def)

lemma show_dec_no_newline: "newline \<notin> set (show_dec d)"
proof -
  have "newline \<noteq> hd (show_nat m)" "newline \<notin> set (tl (show_nat m))" for m
    using show_nat_no_newline [of m] by (cases "show_nat m"; simp)+
  then have "newline \<notin> set (show_pos m e)" for m e
    by (auto simp: show_pos_def Let_def show_nat_no_newline dest: in_set_takeD in_set_dropD)
  then show ?thesis by (cases d) auto
qed

lemma stringify_no_newline:
  "newline \<notin> set (stringify v)"
  "newline \<notin> set (stringify_elems vs)"
  "newline \<notin> set (stringify_members kvs)"
  by (induction v and vs and kvs rule: stringify_stringify_elems_stringify_members.induct)
    (auto simp: quote_no_newline show_dec_no_newline)

subsection \<open>The interface of a line codec\<close>

text \<open>
  What the socket client relies on, for the messages \<open>ok\<close> admits: decoding inverts encoding, and
  the encoding has no newline, so the newline written after it is the only frame boundary.
\<close>

locale line_codec =
  fixes encode :: "'m \<Rightarrow> string"
    and decode :: "string \<Rightarrow> 'm option"
    and ok :: "'m \<Rightarrow> bool"
  assumes decode_encode: "ok m \<Longrightarrow> decode (encode m) = Some m"
    and encode_line: "newline \<notin> set (encode m)"
begin

text \<open>What goes over the socket for a list of messages, one line each.\<close>

lemma frames_split:
  "split_on newline (concat (map (\<lambda>m. encode m @ [newline]) ms)) = map encode ms @ [[]]"
  using split_on_lines [of "map encode ms" newline] encode_line by (auto simp: o_def)

lemma frames_decode:
  assumes "\<forall>m \<in> set ms. ok m"
  shows "map decode (butlast (split_on newline (concat (map (\<lambda>m. encode m @ [newline]) ms)))) = map Some ms"
  using assms decode_encode by (simp add: frames_split)

lemma encode_inj: "ok m \<Longrightarrow> ok m' \<Longrightarrow> encode m = encode m' \<Longrightarrow> m = m'"
  by (metis decode_encode option.inject)

end

interpretation json_lines: line_codec stringify json_parse wf_json
  by unfold_locales (rule json_parse_stringify stringify_no_newline; assumption?)+

end
