(* ===== verification/Daemon_Client.thy ===== *)
theory Daemon_Client
  imports Json_Codec "HOL-Library.Multiset"
begin

text \<open>
  The socket client of the SDK, \<open>DaemonClient\<close> of \<open>packages/sdk-js/src/client.ts\<close>: its state and
  one definition per method and per socket callback. Promises are tickets: \<open>request\<close> takes a
  ticket, and \<open>settled\<close> logs every call of its \<open>resolve\<close> or \<open>reject\<close>; the code after an
  \<open>await\<close> is a definition of its own (\<open>resume_request\<close>, \<open>resume_subscribe\<close>) that the runtime may
  run once the awaited promise is settled. The steps of the client are those definitions, in any
  order the runtime can run them.
\<close>

subsection \<open>Errors\<close>

text \<open>\<open>new Error(m)\<close>, the SDK's own error class, and the runtime's \<open>TypeError\<close> and \<open>RangeError\<close>.\<close>

datatype js_error =
    PlainError string
  | ThalwegDaemonError (err_action: string) (err_code: json) (err_message: string) (err_retryable: json)
  | TypeErr
  | RangeErr

definition THALWEG_PROTOCOL_VERSION :: json where
  "THALWEG_PROTOCOL_VERSION = jint 1"

subsection \<open>State\<close>

datatype ready_state = Opening | Open | ReadOnly | WriteOnly | Closed

datatype connect_promise = Connecting | Connected | ConnectFailed js_error

text \<open>A socket object of \<open>node:net\<close>, with the promise its \<open>connect\<close> attempt settles.\<close>

record socket_object =
  ready_state :: ready_state
  written :: string
  connect_promise :: connect_promise
  ended :: bool
  close_emitted :: bool

record pending_request =
  pr_action :: string
  pr_ticket :: nat

type_synonym sub_key = "json option"
type_synonym event = "json option"
type_synonym handler = nat

record waiting_request =
  wr_ticket :: nat
  wr_promise :: "nat option"
  wr_action :: string
  wr_payload :: json

text \<open>
  \<open>socket\<close> and \<open>connecting\<close> name socket objects of the store \<open>sockets\<close>, whose callbacks stay
  registered after the field is cleared. \<open>timers\<close> are the armed request timers by request id;
  \<open>calls\<close> logs the handler invocations.
\<close>

record client =
  socketPath :: string
  socket :: "nat option"
  buffer :: string
  nextId :: nat
  pending :: "(string, pending_request) js_map"
  subscriptions :: "(sub_key, handler) js_map"
  queuedSubscriptionEvents :: "(sub_key, event list) js_map"
  connecting :: "nat option"
  requestTimeoutMs :: js_number
  sockets :: "socket_object list"
  timers :: "string list"
  next_ticket :: nat
  waiting :: "waiting_request list"
  settled :: "(nat \<times> (js_error, json option) settled) list"
  subscribing :: "(nat \<times> handler) list"
  subscribed :: "(nat \<times> (js_error, sub_key) settled) list"
  calls :: "(handler \<times> event) list"
  uncaught :: "js_error list"

text \<open>\<open>constructor(socketPath, options)\<close>: the default timeout, and the check of a given one.\<close>

definition new_client :: "string \<Rightarrow> js_number option \<Rightarrow> js_error + client" where
  "new_client path timeout =
     (let ms = (case timeout of None \<Rightarrow> Fin (int_dec 30000) | Some n \<Rightarrow> n) in
      if \<not> is_finite ms \<or> not_positive ms
      then Inl (PlainError ''requestTimeoutMs must be greater than zero.'')
      else Inr \<lparr>socketPath = path, socket = None, buffer = [], nextId = 0, pending = [],
                subscriptions = [], queuedSubscriptionEvents = [], connecting = None,
                requestTimeoutMs = ms, sockets = [], timers = [], next_ticket = 0, waiting = [],
                settled = [], subscribing = [], subscribed = [], calls = [], uncaught = []\<rparr>)"

subsection \<open>Connecting\<close>

definition fresh_socket :: socket_object where
  "fresh_socket = \<lparr>ready_state = Opening, written = [], connect_promise = Connecting,
                   ended = False, close_emitted = False\<rparr>"

definition socket_open :: "client \<Rightarrow> bool" where
  "socket_open c \<longleftrightarrow>
     (case socket c of None \<Rightarrow> False
      | Some i \<Rightarrow> i < length (sockets c) \<and> ready_state (sockets c ! i) = Open)"

definition update_socket :: "nat \<Rightarrow> (socket_object \<Rightarrow> socket_object) \<Rightarrow> client \<Rightarrow> client" where
  "update_socket i f c =
     (if i < length (sockets c) then c\<lparr>sockets := (sockets c)[i := f (sockets c ! i)]\<rparr> else c)"

text \<open>
  \<open>connect()\<close> returns the promise to await: \<open>None\<close> for \<open>Promise.resolve()\<close>, otherwise that of a
  connection attempt.
\<close>

definition connect :: "client \<Rightarrow> client \<times> nat option" where
  "connect c =
     (if socket_open c then (c, None)
      else case connecting c of
        Some p \<Rightarrow> (c, Some p)
      | None \<Rightarrow>
          (let i = length (sockets c) in
           (c\<lparr>sockets := sockets c @ [fresh_socket], socket := Some i, connecting := Some i\<rparr>, Some i)))"

definition connect_result :: "client \<Rightarrow> nat option \<Rightarrow> connect_promise" where
  "connect_result c p =
     (case p of None \<Rightarrow> Connected
      | Some i \<Rightarrow> if i < length (sockets c) then connect_promise (sockets c ! i) else Connecting)"

subsection \<open>Requests\<close>

text \<open>A call of a promise's \<open>resolve\<close> or \<open>reject\<close>.\<close>

definition settle :: "nat \<Rightarrow> (js_error, json option) settled \<Rightarrow> client \<Rightarrow> client" where
  "settle t r c = c\<lparr>settled := settled c @ [(t, r)]\<rparr>"

definition clear_timeout :: "string \<Rightarrow> client \<Rightarrow> client" where
  "clear_timeout i c = c\<lparr>timers := removeAll i (timers c)\<rparr>"

text \<open>\<open>request(action, payload)\<close> up to its first \<open>await\<close>; the result is its ticket.\<close>

definition request :: "string \<Rightarrow> json \<Rightarrow> client \<Rightarrow> client \<times> nat" where
  "request action payload c =
     (case connect c of (c', p) \<Rightarrow>
        (c'\<lparr>waiting := waiting c' @ [\<lparr>wr_ticket = next_ticket c', wr_promise = p,
                                        wr_action = action, wr_payload = payload\<rparr>],
            next_ticket := Suc (next_ticket c')\<rparr>,
         next_ticket c'))"

definition request_id :: "nat \<Rightarrow> string" where
  "request_id n = ''req_'' @ show_nat n"

definition request_message :: "string \<Rightarrow> string \<Rightarrow> json \<Rightarrow> json" where
  "request_message i action payload =
     JObj [(''id'', JStr i), (''protocolVersion'', THALWEG_PROTOCOL_VERSION),
           (''action'', JStr action), (''payload'', payload)]"

text \<open>\<open>write(message)\<close>: throws unless the current socket is open.\<close>

definition write_message :: "json \<Rightarrow> client \<Rightarrow> js_error + client" where
  "write_message m c =
     (if \<not> socket_open c then Inl (PlainError ''Thalweg daemon is not connected.'')
      else Inr (update_socket (the (socket c))
             (\<lambda>s. s\<lparr>written := written s @ stringify m @ [newline]\<rparr>) c))"

text \<open>The executor of the promise in \<open>request\<close>: arm the timer, register, write.\<close>

definition send_request :: "nat \<Rightarrow> string \<Rightarrow> json \<Rightarrow> client \<Rightarrow> client" where
  "send_request t action payload c =
     (let n = Suc (nextId c);
          i = request_id n;
          c1 = c\<lparr>nextId := n, timers := timers c @ [i],
                 pending := map_set i \<lparr>pr_action = action, pr_ticket = t\<rparr> (pending c)\<rparr>
      in case write_message (request_message i action payload) c1 of
           Inr c2 \<Rightarrow> c2
         | Inl e \<Rightarrow> settle t (Rejected e) (clear_timeout i (c1\<lparr>pending := map_delete i (pending c1)\<rparr>)))"

text \<open>The code of \<open>request\<close> after \<open>await this.connect()\<close>.\<close>

definition resume_request :: "waiting_request \<Rightarrow> client \<Rightarrow> client" where
  "resume_request w c =
     (let c' = c\<lparr>waiting := filter (\<lambda>x. wr_ticket x \<noteq> wr_ticket w) (waiting c)\<rparr> in
      case connect_result c (wr_promise w) of
        Connecting \<Rightarrow> c
      | Connected \<Rightarrow> send_request (wr_ticket w) (wr_action w) (wr_payload w) c'
      | ConnectFailed e \<Rightarrow> settle (wr_ticket w) (Rejected e) c')"

text \<open>The callback of a request's timer.\<close>

definition on_timeout :: "string \<Rightarrow> client \<Rightarrow> client" where
  "on_timeout i c =
     (let c' = clear_timeout i c in
      case map_get (pending c') i of
        None \<Rightarrow> c'
      | Some p \<Rightarrow>
          settle (pr_ticket p)
            (Rejected (PlainError (''Thalweg daemon request '' @ pr_action p @ '' timed out.'')))
            (c'\<lparr>pending := map_delete i (pending c')\<rparr>))"

subsection \<open>Failing the connection\<close>

text \<open>Reject every pending request in the order of registration, and forget them.\<close>

fun reject_all :: "(string, pending_request) js_map \<Rightarrow> js_error \<Rightarrow> client \<Rightarrow> client" where
  "reject_all [] e c = c"
| "reject_all ((i, p) # ps) e c =
     reject_all ps e (settle (pr_ticket p) (Rejected e) (clear_timeout i c))"

definition fail_pending :: "js_error \<Rightarrow> client \<Rightarrow> client" where
  "fail_pending e c = (reject_all (pending c) e c)\<lparr>pending := []\<rparr>"

definition destroy_socket :: "js_error \<Rightarrow> socket_object \<Rightarrow> socket_object" where
  "destroy_socket e s = s\<lparr>ready_state := Closed,
     connect_promise := (if connect_promise s = Connecting then ConnectFailed e else connect_promise s)\<rparr>"

definition fail_connection :: "js_error \<Rightarrow> client \<Rightarrow> client" where
  "fail_connection e c =
     (let c' = fail_pending e c in
      case socket c' of None \<Rightarrow> c' | Some i \<Rightarrow> update_socket i (destroy_socket e) c')"

definition fail_protocol :: "json \<Rightarrow> client \<Rightarrow> client" where
  "fail_protocol m c =
     (let received = js_string_opt (coalesce (jget m ''protocolVersion'') (Some (JStr ''missing''))) in
      fail_connection
        (PlainError (''Unsupported Thalweg protocol version '' @ received @ ''; SDK supports ''
           @ js_string THALWEG_PROTOCOL_VERSION @ ''.'')) c)"

subsection \<open>Receiving\<close>

definition queue_limit :: nat where
  "queue_limit = 128"

text \<open>A pushed event: to its handler, or queued until a handler is registered, up to the limit.\<close>

definition push_event :: "json \<Rightarrow> client \<Rightarrow> client" where
  "push_event m c =
     (let k = jget m ''subscriptionId''; ev = jget m ''event'' in
      case map_get (subscriptions c) k of
        Some h \<Rightarrow> c\<lparr>calls := calls c @ [(h, ev)]\<rparr>
      | None \<Rightarrow>
          (let queued = (case map_get (queuedSubscriptionEvents c) k of None \<Rightarrow> [] | Some q \<Rightarrow> q);
               queued' = (if length queued < queue_limit then queued @ [ev] else queued)
           in c\<lparr>queuedSubscriptionEvents := map_set k queued' (queuedSubscriptionEvents c)\<rparr>))"

definition coalesce_or :: "json option \<Rightarrow> json \<Rightarrow> json" where
  "coalesce_or a d = (if nullish a then d else the a)"

definition response_error :: "string \<Rightarrow> json \<Rightarrow> js_error" where
  "response_error action m =
     (let details = jget m ''errorDetails'' in
      ThalwegDaemonError action
        (coalesce_or (opt_get details ''code'') (JStr ''action_failed''))
        (js_string (coalesce_or (opt_get details ''message'')
           (coalesce_or (jget m ''error'') (JStr ''Thalweg daemon request failed.''))))
        (coalesce_or (opt_get details ''retryable'') (JBool False)))"

definition response_result :: "string \<Rightarrow> json \<Rightarrow> (js_error, json option) settled" where
  "response_result action m =
     (if truthy (jget m ''success'') then Resolved (jget m ''data'')
      else Rejected (response_error action m))"

text \<open>A response: dropped without an id or without a pending request of that id.\<close>

definition receive_response :: "json \<Rightarrow> client \<Rightarrow> client" where
  "receive_response m c =
     (case jget m ''id'' of
        Some (JStr i) \<Rightarrow>
          if i = [] then c
          else (case map_get (pending c) i of
                  None \<Rightarrow> c
                | Some p \<Rightarrow>
                    settle (pr_ticket p) (response_result (pr_action p) m)
                      (clear_timeout i (c\<lparr>pending := map_delete i (pending c)\<rparr>)))
      | _ \<Rightarrow> c)"

definition handle_message :: "json \<Rightarrow> client \<Rightarrow> client" where
  "handle_message m c =
     (if jget m ''type'' = Some (JStr ''event'') then push_event m c else receive_response m c)"

text \<open>
  The loop of \<open>processBuffer\<close> over the complete lines; the flag is False when it returned early
  (or an exception left it). Reading a property of the line \<open>null\<close> throws, and nothing catches it.
\<close>

fun process_parts :: "string list \<Rightarrow> client \<Rightarrow> client \<times> bool" where
  "process_parts [] c = (c, True)"
| "process_parts (part # parts) c =
     (if trim part = [] then process_parts parts c
      else case json_parse part of
        None \<Rightarrow> (fail_connection (PlainError ''Thalweg daemon sent malformed JSON.'') c, False)
      | Some m \<Rightarrow>
          if m = JNull then (c\<lparr>uncaught := uncaught c @ [TypeErr]\<rparr>, False)
          else if jget m ''protocolVersion'' \<noteq> Some THALWEG_PROTOCOL_VERSION
          then (fail_protocol m c, False)
          else process_parts parts (handle_message m c))"

definition process_buffer :: "client \<Rightarrow> client \<times> bool" where
  "process_buffer c =
     (let parts = split_on newline (buffer c) in
      process_parts (butlast parts) (c\<lparr>buffer := last parts\<rparr>))"

text \<open>The \<open>data\<close> callback. It writes the client's one buffer, whichever socket it belongs to.\<close>

definition on_data :: "string \<Rightarrow> client \<Rightarrow> client" where
  "on_data chunk c = fst (process_buffer (c\<lparr>buffer := buffer c @ utf8_clean chunk\<rparr>))"

subsection \<open>The other socket callbacks\<close>

definition on_connect :: "nat \<Rightarrow> client \<Rightarrow> client" where
  "on_connect i = update_socket i (\<lambda>s. s\<lparr>ready_state := (if ended s then ReadOnly else Open),
     connect_promise := (if connect_promise s = Connecting then Connected else connect_promise s)\<rparr>)"

definition on_error :: "nat \<Rightarrow> js_error \<Rightarrow> client \<Rightarrow> client" where
  "on_error i e = update_socket i (destroy_socket e)"

text \<open>The \<open>close\<close> callback clears the client's fields, whichever socket it belongs to.\<close>

definition on_close :: "nat \<Rightarrow> client \<Rightarrow> client" where
  "on_close i c =
     fail_pending (PlainError ''Thalweg daemon connection closed.'')
       (update_socket i (\<lambda>s. s\<lparr>ready_state := Closed, close_emitted := True\<rparr>)
          (c\<lparr>socket := None, connecting := None\<rparr>))"

subsection \<open>Subscriptions and close\<close>

definition subscribe :: "string \<Rightarrow> string list \<Rightarrow> handler \<Rightarrow> client \<Rightarrow> client" where
  "subscribe network streams h c =
     (case request ''siphon_register''
             (JObj [(''network'', JStr network), (''streams'', JArr (map JStr streams))]) c of
        (c', t) \<Rightarrow> c'\<lparr>subscribing := subscribing c' @ [(t, h)]\<rparr>)"

text \<open>The code of \<open>subscribe\<close> after its \<open>await\<close>: register the handler, replay what was queued.\<close>

definition register_handler :: "sub_key \<Rightarrow> handler \<Rightarrow> client \<Rightarrow> client" where
  "register_handler k h c =
     (let queued = (case map_get (queuedSubscriptionEvents c) k of None \<Rightarrow> [] | Some q \<Rightarrow> q) in
      c\<lparr>subscriptions := map_set k h (subscriptions c),
        queuedSubscriptionEvents := map_delete k (queuedSubscriptionEvents c),
        calls := calls c @ map (Pair h) queued\<rparr>)"

definition resume_subscribe :: "nat \<Rightarrow> handler \<Rightarrow> (js_error, json option) settled \<Rightarrow> client \<Rightarrow> client" where
  "resume_subscribe t h r c =
     (let c' = c\<lparr>subscribing := filter (\<lambda>(t', _). t' \<noteq> t) (subscribing c)\<rparr>;
          done = (\<lambda>x d. d\<lparr>subscribed := subscribed d @ [(t, x)]\<rparr>)
      in case r of
           Inl e \<Rightarrow> done (Rejected e) c'
         | Inr v \<Rightarrow>
             if nullish v then done (Rejected TypeErr) c'
             else (let k = opt_get v ''subscriptionId'' in
                   done (Resolved k) (register_handler k h c')))"

definition unsubscribe :: "sub_key \<Rightarrow> client \<Rightarrow> client \<times> nat" where
  "unsubscribe k c =
     request ''siphon_unregister'' (jobject [(''subscriptionId'', k)])
       (c\<lparr>subscriptions := map_delete k (subscriptions c),
          queuedSubscriptionEvents := map_delete k (queuedSubscriptionEvents c)\<rparr>)"

text \<open>\<open>socket.end()\<close> half-closes: an open socket becomes read-only, an opening one does on connect.\<close>

definition end_socket :: "socket_object \<Rightarrow> socket_object" where
  "end_socket s = s\<lparr>ended := True,
     ready_state := (if ready_state s = Open then ReadOnly else ready_state s)\<rparr>"

definition close_client :: "client \<Rightarrow> client" where
  "close_client c =
     (case socket c of
        None \<Rightarrow> c
      | Some i \<Rightarrow> (update_socket i end_socket c)\<lparr>socket := None, connecting := None\<rparr>)"

subsection \<open>The steps of a client\<close>

text \<open>
  Every call the application makes and every callback the runtime may run. \<open>env\<close> is the peer or
  the kernel moving a socket out of the open state; a closed socket never emits data.
\<close>

inductive client_step :: "client \<Rightarrow> client \<Rightarrow> bool" where
  step_request: "client_step c (fst (request a p c))"
| step_resume: "w \<in> set (waiting c) \<Longrightarrow> connect_result c (wr_promise w) \<noteq> Connecting \<Longrightarrow>
    client_step c (resume_request w c)"
| step_timeout: "i \<in> set (timers c) \<Longrightarrow> client_step c (on_timeout i c)"
| step_connect: "i < length (sockets c) \<Longrightarrow> ready_state (sockets c ! i) = Opening \<Longrightarrow>
    client_step c (on_connect i c)"
| step_error: "i < length (sockets c) \<Longrightarrow> \<not> close_emitted (sockets c ! i) \<Longrightarrow>
    client_step c (on_error i e c)"
| step_env: "i < length (sockets c) \<Longrightarrow> ready_state (sockets c ! i) \<in> {Open, ReadOnly, WriteOnly} \<Longrightarrow>
    r \<in> {ReadOnly, WriteOnly, Closed} \<Longrightarrow>
    client_step c (update_socket i (\<lambda>s. s\<lparr>ready_state := r\<rparr>) c)"
| step_data: "i < length (sockets c) \<Longrightarrow> ready_state (sockets c ! i) \<in> {Open, ReadOnly} \<Longrightarrow>
    client_step c (on_data chunk c)"
| step_close: "i < length (sockets c) \<Longrightarrow> \<not> close_emitted (sockets c ! i) \<Longrightarrow>
    client_step c (on_close i c)"
| step_subscribe: "client_step c (subscribe n ss h c)"
| step_subscribed: "(t, h) \<in> set (subscribing c) \<Longrightarrow> (t, r) \<in> set (settled c) \<Longrightarrow>
    client_step c (resume_subscribe t h r c)"
| step_unsubscribe: "client_step c (fst (unsubscribe k c))"
| step_close_call: "client_step c (close_client c)"

definition initial_client :: "client \<Rightarrow> bool" where
  "initial_client c \<longleftrightarrow> (\<exists>path timeout. new_client path timeout = Inr c)"

end
