(* ===== verification/Sdk.thy ===== *)
theory Sdk
  imports Daemon_Client
begin

text \<open>
  The \<open>Thalweg\<close> class of \<open>packages/sdk-js/src/index.ts\<close>. An asynchronous method is a program: it
  returns, throws, or sends one request and continues with its outcome. What the requests meet (the
  socket client, the daemon) is supplied when a program is run.
\<close>

subsection \<open>Asynchronous methods\<close>

type_synonym outcome = "(js_error, json option) settled"

datatype 'r prog =
    Return 'r
  | Throw js_error
  | Request string json "outcome \<Rightarrow> 'r prog"

text \<open>\<open>await\<close> in sequence, and \<open>return this.client.request(action, payload)\<close>.\<close>

primrec bind :: "'a prog \<Rightarrow> ('a \<Rightarrow> 'b prog) \<Rightarrow> 'b prog" where
  "bind (Return x) f = f x"
| "bind (Throw e) f = Throw e"
| "bind (Request a p k) f = Request a p (\<lambda>r. bind (k r) f)"

definition finish :: "outcome \<Rightarrow> json option prog" where
  "finish r = (case r of Inl e \<Rightarrow> Throw e | Inr v \<Rightarrow> Return v)"

definition call :: "string \<Rightarrow> json \<Rightarrow> json option prog" where
  "call action payload = Request action payload finish"

text \<open>
  Running a program against the outcomes its requests will have: the requests it sends, and its
  own outcome, \<open>None\<close> while a request is unanswered.
\<close>

fun run_prog :: "outcome list \<Rightarrow> 'r prog \<Rightarrow> (string \<times> json) list \<times> (js_error, 'r) settled option" where
  "run_prog rs (Return x) = ([], Some (Resolved x))"
| "run_prog rs (Throw e) = ([], Some (Rejected e))"
| "run_prog [] (Request a p k) = ([(a, p)], None)"
| "run_prog (r # rs) (Request a p k) = (case run_prog rs (k r) of (ms, x) \<Rightarrow> ((a, p) # ms, x))"

text \<open>Running it against a daemon with a state: each request is answered by a step of it.\<close>

primrec run_with :: "('s \<Rightarrow> string \<Rightarrow> json \<Rightarrow> 's \<times> outcome) \<Rightarrow> 'r prog \<Rightarrow> 's \<Rightarrow> 's \<times> (js_error, 'r) settled" where
  "run_with d (Return x) = (\<lambda>s. (s, Resolved x))"
| "run_with d (Throw e) = (\<lambda>s. (s, Rejected e))"
| "run_with d (Request a p k) = (\<lambda>s. case d s a p of (s', r) \<Rightarrow> run_with d (k r) s')"

subsection \<open>Options and results\<close>

record thalweg_configuration =
  tc_socket :: string
  tc_network :: string
  tc_requestTimeoutMs :: "js_number option"

record network_membership =
  nm_name :: string
  nm_id :: string

record enrollment_offer =
  eo_id :: string
  eo_network :: network_membership
  eo_expiresAt :: string

record enrollment_candidate =
  ec_peerId :: string
  ec_targetAddr :: string
  ec_offer :: enrollment_offer

record ingest_options =
  io_occurredAt :: "string option"
  io_eventId :: "string option"

record query_options =
  qo_streams :: "string list option"
  qo_from :: "string option"
  qo_to :: "string option"
  qo_limit :: "js_number option"
  qo_order :: "string option"

record durable_siphon_options =
  ds_streams :: "string list option"
  ds_start :: "string option"

text \<open>The streams given to each basin; a basin may be declared in the types and absent here.\<close>

record thalweg =
  config :: thalweg_configuration
  client :: client
  basins :: "(string \<times> string list) list"

definition new_thalweg ::
  "thalweg_configuration \<Rightarrow> (string \<times> string list) list \<Rightarrow> js_error + thalweg" where
  "new_thalweg cfg bs =
     (case new_client (tc_socket cfg) (tc_requestTimeoutMs cfg) of
        Inl e \<Rightarrow> Inl e
      | Inr c \<Rightarrow> Inr \<lparr>config = cfg, client = c, basins = bs\<rparr>)"

abbreviation network_of :: "thalweg \<Rightarrow> string" where
  "network_of t \<equiv> tc_network (config t)"

text \<open>How \<open>JSON.stringify\<close> writes the numbers and arrays of a payload: NaN and infinities as null.\<close>

definition num :: "js_number \<Rightarrow> json" where
  "num n = (case n of Fin d \<Rightarrow> JNum d | _ \<Rightarrow> JNull)"

abbreviation nat_num :: "nat \<Rightarrow> js_number" where
  "nat_num n \<equiv> Fin (int_dec (int n))"

definition strings :: "string list \<Rightarrow> json" where
  "strings ss = JArr (map JStr ss)"

definition default :: "'a option \<Rightarrow> 'a \<Rightarrow> 'a" where
  "default x d = (case x of None \<Rightarrow> d | Some y \<Rightarrow> y)"

subsection \<open>Events\<close>

text \<open>\<open>error instanceof ThalwegDaemonError && !error.retryable\<close>\<close>

definition final_error :: "js_error \<Rightarrow> bool" where
  "final_error e \<longleftrightarrow> (case e of ThalwegDaemonError _ _ _ r \<Rightarrow> \<not> truthy (Some r) | _ \<Rightarrow> False)"

definition ingest_event_id :: "ingest_options option \<Rightarrow> string \<Rightarrow> string" where
  "ingest_event_id opts uuid = default (Option.bind opts io_eventId) (''evt_'' @ uuid)"

definition ingest_payload ::
  "thalweg \<Rightarrow> string \<Rightarrow> json option \<Rightarrow> ingest_options option \<Rightarrow> string \<Rightarrow> json" where
  "ingest_payload t stream payload opts eventId =
     jobject [(''network'', Some (JStr (network_of t))), (''stream'', Some (JStr stream)),
              (''payload'', payload), (''occurredAt'', map_option JStr (Option.bind opts io_occurredAt)),
              (''eventId'', Some (JStr eventId))]"

text \<open>Request, and once more after an error that does not say the daemon refused for good.\<close>

definition request_retrying :: "string \<Rightarrow> json \<Rightarrow> json option prog" where
  "request_retrying action body =
     Request action body
       (\<lambda>r. case r of
          Inr v \<Rightarrow> Return v
        | Inl e \<Rightarrow> if final_error e then Throw e else call action body)"

text \<open>\<open>uuid\<close> is the result of this call's \<open>randomUUID()\<close>.\<close>

definition ingest ::
  "thalweg \<Rightarrow> string \<Rightarrow> string \<Rightarrow> json option \<Rightarrow> ingest_options option \<Rightarrow> json option prog" where
  "ingest t uuid stream payload opts =
     request_retrying ''event_ingest'' (ingest_payload t stream payload opts (ingest_event_id opts uuid))"

definition query :: "thalweg \<Rightarrow> query_options \<Rightarrow> json option prog" where
  "query t opts =
     call ''event_query''
       (jobject [(''network'', Some (JStr (network_of t))),
                 (''streams'', Some (strings (default (qo_streams opts) []))),
                 (''from'', map_option JStr (qo_from opts)), (''to'', map_option JStr (qo_to opts)),
                 (''limit'', map_option num (qo_limit opts)),
                 (''order'', map_option JStr (qo_order opts))])"

subsection \<open>Durable siphons\<close>

definition createDurableSiphon :: "thalweg \<Rightarrow> string \<Rightarrow> durable_siphon_options \<Rightarrow> json option prog" where
  "createDurableSiphon t name options =
     call ''durable_siphon_create''
       (jobject [(''network'', Some (JStr (network_of t))), (''name'', Some (JStr name)),
                 (''streams'', Some (strings (default (ds_streams options) []))),
                 (''start'', Some (JStr (default (ds_start options) ''earliest'')))])"

definition listDurableSiphons :: "thalweg \<Rightarrow> string option \<Rightarrow> json option prog" where
  "listDurableSiphons t network =
     call ''durable_siphon_list'' (jobject [(''network'', Some (JStr (default network (network_of t))))])"

definition pollDurableSiphon ::
  "thalweg \<Rightarrow> string \<Rightarrow> js_number option \<Rightarrow> js_number option \<Rightarrow> json option prog" where
  "pollDurableSiphon t name limit waitMillis =
     call ''durable_siphon_poll''
       (jobject [(''network'', Some (JStr (network_of t))), (''name'', Some (JStr name)),
                 (''limit'', Some (num (default limit (nat_num 25)))),
                 (''waitMillis'', Some (num (default waitMillis (nat_num 0))))])"

definition acknowledgeDurableSiphon :: "thalweg \<Rightarrow> string \<Rightarrow> string \<Rightarrow> json option prog" where
  "acknowledgeDurableSiphon t name deliveryId =
     call ''durable_siphon_ack''
       (jobject [(''network'', Some (JStr (network_of t))), (''name'', Some (JStr name)),
                 (''deliveryId'', Some (JStr deliveryId))])"

subsection \<open>Networks\<close>

definition networkStatus :: "thalweg \<Rightarrow> json option prog" where
  "networkStatus t = call ''network_status'' (JObj [])"

definition createNetwork :: "thalweg \<Rightarrow> string \<Rightarrow> json option prog" where
  "createNetwork t name = call ''network_create'' (jobject [(''name'', Some (JStr name))])"

definition inviteNetwork :: "thalweg \<Rightarrow> string \<Rightarrow> json option prog" where
  "inviteNetwork t name = call ''network_invite'' (jobject [(''name'', Some (JStr name))])"

definition joinNetwork :: "thalweg \<Rightarrow> string \<Rightarrow> json option prog" where
  "joinNetwork t invitation = call ''network_join'' (jobject [(''invitation'', Some (JStr invitation))])"

definition listNetworks :: "thalweg \<Rightarrow> json option prog" where
  "listNetworks t = call ''network_list'' (JObj [])"

definition leaveNetwork :: "thalweg \<Rightarrow> string \<Rightarrow> json option prog" where
  "leaveNetwork t name = call ''network_leave'' (jobject [(''name'', Some (JStr name))])"

definition listMeshPeers :: "thalweg \<Rightarrow> string option \<Rightarrow> json option prog" where
  "listMeshPeers t network =
     call ''mesh_peer_list'' (jobject [(''network'', Some (JStr (default network [])))])"

subsection \<open>Enrollment and mesh\<close>

definition openEnrollment :: "thalweg \<Rightarrow> string option \<Rightarrow> js_number option \<Rightarrow> json option prog" where
  "openEnrollment t network durationSeconds =
     call ''enrollment_listen''
       (jobject [(''network'', Some (JStr (default network (network_of t)))),
                 (''durationSeconds'', Some (num (default durationSeconds (nat_num 600))))])"

definition closeEnrollment :: "thalweg \<Rightarrow> string \<Rightarrow> json option prog" where
  "closeEnrollment t offerId = call ''enrollment_close'' (jobject [(''offerId'', Some (JStr offerId))])"

definition listEnrollmentRequests :: "thalweg \<Rightarrow> string option \<Rightarrow> json option prog" where
  "listEnrollmentRequests t network =
     call ''enrollment_requests'' (jobject [(''network'', Some (JStr (default network (network_of t))))])"

definition decideEnrollment :: "thalweg \<Rightarrow> string \<Rightarrow> bool \<Rightarrow> json option prog" where
  "decideEnrollment t requestId accepted =
     call (if accepted then ''enrollment_approve'' else ''enrollment_deny'')
       (jobject [(''requestId'', Some (JStr requestId))])"

definition discoverEnrollments :: "thalweg \<Rightarrow> string option \<Rightarrow> js_number option \<Rightarrow> json option prog" where
  "discoverEnrollments t targetAddr waitMillis =
     call ''enrollment_discover''
       (jobject [(''targetAddr'', map_option JStr targetAddr),
                 (''waitMillis'', Some (num (default waitMillis (nat_num 2500))))])"

definition requestEnrollment :: "thalweg \<Rightarrow> enrollment_candidate \<Rightarrow> string \<Rightarrow> json option prog" where
  "requestEnrollment t candidate deviceName =
     call ''enrollment_join''
       (jobject [(''targetAddr'', Some (JStr (ec_targetAddr candidate))),
                 (''offerId'', Some (JStr (eo_id (ec_offer candidate)))),
                 (''deviceName'', Some (JStr deviceName))])"

definition dialMeshPeer :: "thalweg \<Rightarrow> string \<Rightarrow> string option \<Rightarrow> json option prog" where
  "dialMeshPeer t targetAddr network =
     call ''mesh_dial''
       (jobject [(''targetAddr'', Some (JStr targetAddr)),
                 (''network'', Some (JStr (default network (network_of t))))])"

definition syncMeshPeer :: "thalweg \<Rightarrow> string \<Rightarrow> string option \<Rightarrow> json option prog" where
  "syncMeshPeer t targetAddr network =
     call ''mesh_sync''
       (jobject [(''targetAddr'', Some (JStr targetAddr)),
                 (''network'', Some (JStr (default network (network_of t))))])"

end
