(* ===== verification/Js_Date.thy ===== *)
theory Js_Date
  imports Js_Values
begin

text \<open>
  Time values of \<open>Date\<close>, as milliseconds since 1970 in exact integers, and \<open>toISOString\<close>: the
  proleptic Gregorian date of a day number, and the range check that makes it throw.
\<close>

definition ms_per_day :: int where
  "ms_per_day = 86400000"

text \<open>Year, month and day of the day number \<open>z\<close>, counted in years that begin in March.\<close>

definition civil :: "int \<Rightarrow> int \<times> int \<times> int" where
  "civil z =
     (let z' = z + 719468;
          era = z' div 146097;
          doe = z' mod 146097;
          yoe = (doe - doe div 1460 + doe div 36524 - doe div 146096) div 365;
          doy = doe - (365 * yoe + yoe div 4 - yoe div 100);
          mp = (5 * doy + 2) div 153;
          m = (if mp < 10 then mp + 3 else mp - 9)
      in (yoe + era * 400 + (if m \<le> 2 then 1 else 0), m, doy - (153 * mp + 2) div 5 + 1))"

definition pad :: "nat \<Rightarrow> int \<Rightarrow> string" where
  "pad n x = (let s = show_nat (nat x) in replicate (n - length s) (CHR ''0'') @ s)"

definition show_year :: "int \<Rightarrow> string" where
  "show_year y =
     (if 0 \<le> y \<and> y \<le> 9999 then pad 4 y
      else (if y < 0 then ''-'' else ''+'') @ pad 6 \<bar>y\<bar>)"

definition max_time :: int where
  "max_time = 8640000000000000"

definition to_iso :: "int \<Rightarrow> string option" where
  "to_iso t =
     (if \<bar>t\<bar> > max_time then None
      else
        (let s = t mod ms_per_day in
         case civil (t div ms_per_day) of (y, m, d) \<Rightarrow>
           Some (show_year y @ ''-'' @ pad 2 m @ ''-'' @ pad 2 d @ ''T'' @ pad 2 (s div 3600000) @ '':''
             @ pad 2 (s div 60000 mod 60) @ '':'' @ pad 2 (s div 1000 mod 60) @ ''.'' @ pad 3 (s mod 1000)
             @ ''Z'')))"

lemma to_iso_in_range: "\<bar>t\<bar> \<le> max_time \<Longrightarrow> \<exists>s. to_iso t = Some s"
  by (auto simp: to_iso_def Let_def split: prod.split)

lemma to_iso_out_of_range: "max_time < \<bar>t\<bar> \<Longrightarrow> to_iso t = None"
  by (simp add: to_iso_def)

lemma to_iso_1970: "to_iso 0 = Some ''1970-01-01T00:00:00.000Z''"
  by code_simp

lemma to_iso_leap_day: "to_iso 951782400000 = Some ''2000-02-29T00:00:00.000Z''"
  by code_simp

lemma to_iso_before_1970: "to_iso (- 1) = Some ''1969-12-31T23:59:59.999Z''"
  by code_simp

end
