(* ===== verification/Siphon.thy ===== *)
theory Siphon
  imports Sdk Js_Date
begin

text \<open>
  \<open>SiphonBuilder\<close> and \<open>parseDurationMs\<close> of \<open>packages/sdk-js/src/index.ts\<close>: the configuration
  methods, the one-shot buffered run as a program, and the continuous run as a state machine over
  the socket client. The builder methods update the object and return it, so each definition is the
  object's new state.
\<close>

subsection \<open>Durations\<close>

definition unit_ms :: "string \<Rightarrow> int option" where
  "unit_ms u =
     (if u = ''ms'' then Some 1
      else if u = ''s'' then Some 1000
      else if u = ''m'' then Some (60 * 1000)
      else if u = ''h'' then Some (60 * 60 * 1000)
      else if u = ''d'' then Some (24 * 60 * 60 * 1000)
      else None)"

text \<open>
  The match of \<open>^(\d+)(ms|s|m|h|d)$\<close>: no unit begins with a digit, so the digits are the longest
  digit prefix. The amount is exact; a double rounds it from 2^53 on, where the window is
  outside the range of \<open>Date\<close> either way.
\<close>

definition match_duration :: "string \<Rightarrow> (nat \<times> int) option" where
  "match_duration s =
     (let ds = takeWhile is_digit s in
      if ds = [] then None else map_option (Pair (nat_value ds)) (unit_ms (dropWhile is_digit s)))"

definition parseDurationMs :: "string option \<Rightarrow> js_error + int" where
  "parseDurationMs value =
     (case value of
        None \<Rightarrow> Inr 0
      | Some s \<Rightarrow>
          if s = [] then Inr 0
          else case match_duration s of
            None \<Rightarrow> Inl (PlainError (''Unsupported duration: '' @ s))
          | Some (amount, factor) \<Rightarrow> Inr (int amount * factor))"

subsection \<open>The builder\<close>

datatype siphon_mode = Continuous | Buffered

record siphon_config =
  mode :: siphon_mode
  interval :: "string option"
  tail :: "string option"
  streams :: "string list"

record siphon_builder =
  sb_network :: string
  sb_config :: siphon_config

definition new_siphon :: "string \<Rightarrow> string list \<Rightarrow> siphon_builder" where
  "new_siphon network ss =
     \<lparr>sb_network = network,
      sb_config = \<lparr>mode = Continuous, interval = None, tail = None, streams = ss\<rparr>\<rparr>"

abbreviation streams_of :: "siphon_builder \<Rightarrow> string list" where
  "streams_of b \<equiv> streams (sb_config b)"

definition set_interval :: "string \<Rightarrow> siphon_builder \<Rightarrow> siphon_builder" where
  "set_interval time b = b\<lparr>sb_config := (sb_config b)\<lparr>mode := Buffered, interval := Some time\<rparr>\<rparr>"

definition set_tail :: "string \<Rightarrow> siphon_builder \<Rightarrow> siphon_builder" where
  "set_tail time b = b\<lparr>sb_config := (sb_config b)\<lparr>tail := Some time\<rparr>\<rparr>"

definition include_streams :: "string list \<Rightarrow> siphon_builder \<Rightarrow> siphon_builder" where
  "include_streams ss b = b\<lparr>sb_config := (sb_config b)\<lparr>streams := ss\<rparr>\<rparr>"

definition omit_streams :: "string list \<Rightarrow> siphon_builder \<Rightarrow> js_error + siphon_builder" where
  "omit_streams ss b =
     (if streams_of b = []
      then Inl (PlainError
        ''Cannot omit streams from an all-stream siphon at runtime; call include() first.'')
      else Inr (b\<lparr>sb_config := (sb_config b)
             \<lparr>streams := filter (\<lambda>s. s \<notin> set ss) (streams_of b)\<rparr>\<rparr>))"

text \<open>\<open>Thalweg.siphon()\<close>, over all streams, and \<open>Thalweg.basin(name)\<close> with its \<open>siphon()\<close>.\<close>

definition siphon :: "thalweg \<Rightarrow> siphon_builder" where
  "siphon t = new_siphon (network_of t) []"

definition basin :: "thalweg \<Rightarrow> string \<Rightarrow> js_error + siphon_builder" where
  "basin t name =
     (case map_of (basins t) name of
        Some (s # ss) \<Rightarrow> Inr (new_siphon (network_of t) (s # ss))
      | _ \<Rightarrow> Inl (PlainError (''Basin '' @ name
               @ '' has no runtime stream definition; refusing to broaden it to all streams.'')))"

subsection \<open>The buffered run\<close>

text \<open>
  What a \<open>for ... of\<close> visits: the elements of an array, the characters of a string; anything else
  is not iterable.
\<close>

function code_points :: "string \<Rightarrow> string list" where
  "code_points [] = []"
| "code_points (c # cs) =
     (let cont = (\<lambda>d. 128 \<le> byte d \<and> byte d < 192)
      in (c # takeWhile cont cs) # code_points (dropWhile cont cs))"
  by pat_completeness auto
termination
  by (relation "measure length") (auto simp: less_Suc_eq_le length_dropWhile_le)

definition iterate :: "json option \<Rightarrow> json list option" where
  "iterate v =
     (case v of Some (JArr vs) \<Rightarrow> Some vs | Some (JStr s) \<Rightarrow> Some (map JStr (code_points s)) | _ \<Rightarrow> None)"

text \<open>The properties an object without own ones inherits; none is null or has a \<open>push\<close> method.\<close>

definition object_prototype :: "string list" where
  "object_prototype =
     [''constructor'', ''__defineGetter__'', ''__defineSetter__'', ''hasOwnProperty'',
      ''__lookupGetter__'', ''__lookupSetter__'', ''isPrototypeOf'', ''propertyIsEnumerable'',
      ''toString'', ''valueOf'', ''__proto__'', ''toLocaleString'']"

type_synonym grouped = "(string, json list) js_map"

definition empty_groups :: "string list \<Rightarrow> grouped" where
  "empty_groups ss = foldl (\<lambda>g s. map_set s [] g) [] ss"

text \<open>\<open>grouped[event.stream] ??= []\<close> and the push; \<open>None\<close> is a \<open>TypeError\<close>.\<close>

definition group_event :: "json \<Rightarrow> grouped \<Rightarrow> grouped option" where
  "group_event event g =
     (if event = JNull then None
      else
        (let k = js_string_opt (jget event ''stream'') in
         case map_get g k of
           Some evs \<Rightarrow> Some (map_set k (evs @ [event]) g)
         | None \<Rightarrow> if k \<in> set object_prototype then None else Some (map_set k [event] g)))"

fun group_events :: "json list \<Rightarrow> grouped \<Rightarrow> grouped option" where
  "group_events [] g = Some g"
| "group_events (e # es) g = (case group_event e g of None \<Rightarrow> None | Some g' \<Rightarrow> group_events es g')"

definition query_payload :: "siphon_builder \<Rightarrow> string \<Rightarrow> string \<Rightarrow> json" where
  "query_payload b f t =
     jobject [(''network'', Some (JStr (sb_network b))), (''streams'', Some (strings (streams_of b))),
              (''from'', Some (JStr f)), (''to'', Some (JStr t))]"

text \<open>\<open>now\<close> is the time value of this call's \<open>new Date()\<close>.\<close>

definition run_buffered :: "siphon_builder \<Rightarrow> int \<Rightarrow> (grouped \<Rightarrow> unit prog) \<Rightarrow> unit prog" where
  "run_buffered b now callback =
     (case parseDurationMs (interval (sb_config b)) of
        Inl e \<Rightarrow> Throw e
      | Inr ms \<Rightarrow>
          (case (to_iso (now - ms), to_iso now) of
             (Some f, Some t) \<Rightarrow>
               bind (call ''event_query'' (query_payload b f t))
                 (\<lambda>events. case iterate events of
                    None \<Rightarrow> Throw TypeErr
                  | Some es \<Rightarrow>
                      (case group_events es (empty_groups (streams_of b)) of
                         None \<Rightarrow> Throw TypeErr
                       | Some g \<Rightarrow> callback g))
           | _ \<Rightarrow> Throw RangeErr))"

subsection \<open>The continuous run\<close>

text \<open>
  The variables \<open>run\<close> closes over, and where its \<open>stop\<close> call is. A promise is \<open>None\<close> until it is
  settled, once; \<open>sr_failures\<close> logs the errors of the callback.
\<close>

datatype stop_phase =
    Not_stopping | Await_ready | Await_unregister nat | Stop_done "(js_error, unit) settled"

record siphon_run =
  sr_handler :: handler
  sr_ticket :: nat
  sr_ready :: "(js_error, unit) settled option"
  sr_result :: "(js_error, unit) settled option"
  sr_subscription :: "sub_key option"
  sr_stopped :: bool
  sr_stop :: stop_phase
  sr_failures :: "js_error list"

definition settle_once :: "'a option \<Rightarrow> 'a \<Rightarrow> 'a option" where
  "settle_once p r = (case p of None \<Rightarrow> Some r | Some x \<Rightarrow> Some x)"

definition start_run :: "siphon_builder \<Rightarrow> handler \<Rightarrow> client \<Rightarrow> client \<times> siphon_run" where
  "start_run b h c =
     (subscribe (sb_network b) (streams_of b) h c,
      \<lparr>sr_handler = h, sr_ticket = next_ticket c, sr_ready = None, sr_result = None,
       sr_subscription = None, sr_stopped = False, sr_stop = Not_stopping, sr_failures = []\<rparr>)"

text \<open>The callback threw or rejected.\<close>

definition callback_failed :: "js_error \<Rightarrow> siphon_run \<Rightarrow> siphon_run" where
  "callback_failed e s =
     s\<lparr>sr_result := settle_once (sr_result s) (Rejected e), sr_failures := sr_failures s @ [e]\<rparr>"

text \<open>The \<open>then\<close> and \<open>catch\<close> of the subscription.\<close>

definition subscription_settled :: "(js_error, sub_key) settled \<Rightarrow> siphon_run \<Rightarrow> siphon_run" where
  "subscription_settled r s =
     (case r of
        Inr k \<Rightarrow> s\<lparr>sr_subscription := Some k, sr_ready := Some (Resolved ())\<rparr>
      | Inl e \<Rightarrow> s\<lparr>sr_result := settle_once (sr_result s) (Rejected e), sr_ready := Some (Rejected e)\<rparr>)"

definition call_stop :: "siphon_run \<Rightarrow> siphon_run" where
  "call_stop s = (if sr_stopped s then s else s\<lparr>sr_stopped := True, sr_stop := Await_ready\<rparr>)"

definition finish_stop :: "siphon_run \<Rightarrow> siphon_run" where
  "finish_stop s = s\<lparr>sr_result := settle_once (sr_result s) (Resolved ()), sr_stop := Stop_done (Resolved ())\<rparr>"

text \<open>\<open>stop\<close> after \<open>await ready\<close>, and after the unregister request.\<close>

definition resume_stop :: "(js_error, unit) settled \<Rightarrow> client \<times> siphon_run \<Rightarrow> client \<times> siphon_run" where
  "resume_stop r cs =
     (case (cs, r) of
        ((c, s), Inl e) \<Rightarrow> (c, s\<lparr>sr_stop := Stop_done (Rejected e)\<rparr>)
      | ((c, s), Inr _) \<Rightarrow>
          if truthy (Option.bind (sr_subscription s) id)
          then (case unsubscribe (the (sr_subscription s)) c of
                  (c', t) \<Rightarrow> (c', s\<lparr>sr_stop := Await_unregister t\<rparr>))
          else (c, finish_stop s))"

definition unregister_settled :: "(js_error, json option) settled \<Rightarrow> siphon_run \<Rightarrow> siphon_run" where
  "unregister_settled r s =
     (case r of Inl e \<Rightarrow> s\<lparr>sr_stop := Stop_done (Rejected e)\<rparr> | Inr _ \<Rightarrow> finish_stop s)"

inductive run_step :: "client \<times> siphon_run \<Rightarrow> client \<times> siphon_run \<Rightarrow> bool" where
  run_client: "client_step c c' \<Longrightarrow> run_step (c, s) (c', s)"
| run_subscribed: "(sr_ticket s, r) \<in> set (subscribed c) \<Longrightarrow> sr_ready s = None \<Longrightarrow>
    run_step (c, s) (c, subscription_settled r s)"
| run_callback: "(sr_handler s, ev) \<in> set (calls c) \<Longrightarrow> run_step (c, s) (c, callback_failed e s)"
| run_stop: "run_step (c, s) (c, call_stop s)"
| run_resume: "sr_stop s = Await_ready \<Longrightarrow> sr_ready s = Some r \<Longrightarrow>
    run_step (c, s) (resume_stop r (c, s))"
| run_unregistered: "sr_stop s = Await_unregister t \<Longrightarrow> (t, r) \<in> set (settled c) \<Longrightarrow>
    run_step (c, s) (c, unregister_settled r s)"

end
