(* ===== verification/Client_Invariants.thy ===== *)
theory Client_Invariants
  imports Daemon_Client
begin

text \<open>
  What every reachable state of the client satisfies: each request the application made is waiting
  for its connection, pending or settled, and exactly one of these (\<open>requests_inv\<close>); the armed
  timers are those of the pending requests; request ids are never reused; the queues of events that
  arrived before their handler are bounded and never coexist with one (\<open>subs_inv\<close>). The client
  interprets the interfaces \<open>state_machine\<close> and \<open>logging_machine\<close> with these.
\<close>

subsection \<open>Fields an operation leaves alone\<close>

lemma update_socket_fields [simp]:
  "pending (update_socket i f c) = pending c" "waiting (update_socket i f c) = waiting c"
  "settled (update_socket i f c) = settled c" "next_ticket (update_socket i f c) = next_ticket c"
  "timers (update_socket i f c) = timers c" "nextId (update_socket i f c) = nextId c"
  "subscriptions (update_socket i f c) = subscriptions c"
  "queuedSubscriptionEvents (update_socket i f c) = queuedSubscriptionEvents c"
  "calls (update_socket i f c) = calls c" "socket (update_socket i f c) = socket c"
  "connecting (update_socket i f c) = connecting c" "buffer (update_socket i f c) = buffer c"
  "subscribing (update_socket i f c) = subscribing c" "uncaught (update_socket i f c) = uncaught c"
  "subscribed (update_socket i f c) = subscribed c"
  "length (sockets (update_socket i f c)) = length (sockets c)"
  by (simp_all add: update_socket_def)

lemma settle_fields [simp]:
  "pending (settle t r c) = pending c" "waiting (settle t r c) = waiting c"
  "settled (settle t r c) = settled c @ [(t, r)]" "next_ticket (settle t r c) = next_ticket c"
  "timers (settle t r c) = timers c" "nextId (settle t r c) = nextId c"
  "subscriptions (settle t r c) = subscriptions c"
  "queuedSubscriptionEvents (settle t r c) = queuedSubscriptionEvents c"
  "calls (settle t r c) = calls c" "socket (settle t r c) = socket c"
  "connecting (settle t r c) = connecting c" "buffer (settle t r c) = buffer c"
  "subscribing (settle t r c) = subscribing c" "sockets (settle t r c) = sockets c"
  "uncaught (settle t r c) = uncaught c" "subscribed (settle t r c) = subscribed c"
  by (simp_all add: settle_def)

lemma clear_timeout_fields [simp]:
  "pending (clear_timeout i c) = pending c" "waiting (clear_timeout i c) = waiting c"
  "settled (clear_timeout i c) = settled c" "next_ticket (clear_timeout i c) = next_ticket c"
  "timers (clear_timeout i c) = removeAll i (timers c)" "nextId (clear_timeout i c) = nextId c"
  "subscriptions (clear_timeout i c) = subscriptions c"
  "queuedSubscriptionEvents (clear_timeout i c) = queuedSubscriptionEvents c"
  "calls (clear_timeout i c) = calls c" "socket (clear_timeout i c) = socket c"
  "connecting (clear_timeout i c) = connecting c" "buffer (clear_timeout i c) = buffer c"
  "subscribing (clear_timeout i c) = subscribing c" "sockets (clear_timeout i c) = sockets c"
  "uncaught (clear_timeout i c) = uncaught c" "subscribed (clear_timeout i c) = subscribed c"
  by (simp_all add: clear_timeout_def)

lemma reject_all_fields [simp]:
  "pending (reject_all ps e c) = pending c" "waiting (reject_all ps e c) = waiting c"
  "settled (reject_all ps e c) = settled c @ map (\<lambda>(i, p). (pr_ticket p, Rejected e)) ps"
  "next_ticket (reject_all ps e c) = next_ticket c"
  "timers (reject_all ps e c) = filter (\<lambda>i. i \<notin> fst ` set ps) (timers c)"
  "nextId (reject_all ps e c) = nextId c"
  "subscriptions (reject_all ps e c) = subscriptions c"
  "queuedSubscriptionEvents (reject_all ps e c) = queuedSubscriptionEvents c"
  "calls (reject_all ps e c) = calls c" "socket (reject_all ps e c) = socket c"
  "connecting (reject_all ps e c) = connecting c" "buffer (reject_all ps e c) = buffer c"
  "subscribing (reject_all ps e c) = subscribing c" "sockets (reject_all ps e c) = sockets c"
  "uncaught (reject_all ps e c) = uncaught c" "subscribed (reject_all ps e c) = subscribed c"
  by (induction ps arbitrary: c)
    (auto simp: removeAll_filter_not_eq conj_commute intro!: filter_cong)

lemma connect_fields [simp]:
  "pending (fst (connect c)) = pending c" "waiting (fst (connect c)) = waiting c"
  "settled (fst (connect c)) = settled c" "next_ticket (fst (connect c)) = next_ticket c"
  "timers (fst (connect c)) = timers c" "nextId (fst (connect c)) = nextId c"
  "subscriptions (fst (connect c)) = subscriptions c"
  "queuedSubscriptionEvents (fst (connect c)) = queuedSubscriptionEvents c"
  "calls (fst (connect c)) = calls c" "buffer (fst (connect c)) = buffer c"
  "subscribing (fst (connect c)) = subscribing c" "uncaught (fst (connect c)) = uncaught c"
  by (simp_all add: connect_def Let_def split: option.splits)

text \<open>What a state is for each of the two invariants: an operation that keeps it keeps them.\<close>

definition request_view :: "client \<Rightarrow> (string, pending_request) js_map \<times> waiting_request list \<times>
    (nat \<times> (js_error, json option) settled) list \<times> nat \<times> string list \<times> nat" where
  "request_view c = (pending c, waiting c, settled c, next_ticket c, timers c, nextId c)"

definition subs_view :: "client \<Rightarrow> (sub_key, handler) js_map \<times> (sub_key, event list) js_map" where
  "subs_view c = (subscriptions c, queuedSubscriptionEvents c)"

subsection \<open>Every request in exactly one place\<close>

definition tickets :: "client \<Rightarrow> nat multiset" where
  "tickets c = mset (map wr_ticket (waiting c)) + mset (map (pr_ticket \<circ> snd) (pending c))
     + mset (map fst (settled c))"

definition requests_inv :: "client \<Rightarrow> bool" where
  "requests_inv c \<longleftrightarrow>
     tickets c = mset [0..<next_ticket c] \<and>
     distinct (map_keys (pending c)) \<and>
     distinct (timers c) \<and> set (timers c) = set (map_keys (pending c)) \<and>
     (\<forall>i \<in> set (map_keys (pending c)). \<exists>k. 0 < k \<and> k \<le> nextId c \<and> i = request_id k)"

lemma requests_inv_view:
  assumes "request_view c = request_view d"
  shows "requests_inv c = requests_inv d"
proof -
  have "pending c = pending d" "waiting c = waiting d" "settled c = settled d"
    "next_ticket c = next_ticket d" "timers c = timers d" "nextId c = nextId d"
    using assms by (simp_all add: request_view_def)
  then show ?thesis by (simp only: requests_inv_def tickets_def)
qed

lemma request_id_inj: "request_id m = request_id n \<Longrightarrow> m = n"
  by (metis append_same_eq request_id_def same_append_eq show_nat_value)

lemma mset_filter_out:
  assumes "distinct (map f xs)" "w \<in> set xs"
  shows "mset (map f xs) = add_mset (f w) (mset (map f (filter (\<lambda>x. f x \<noteq> f w) xs)))"
  using assms
proof (induction xs)
  case (Cons x xs)
  show ?case
  proof (cases "x = w")
    case True
    with Cons have "filter (\<lambda>x. f x \<noteq> f w) xs = xs" by (intro filter_True) (force simp: image_iff)
    with True show ?thesis by simp
  next
    case False
    with Cons have "f x \<noteq> f w" "w \<in> set xs" by auto
    with Cons show ?thesis by simp
  qed
qed simp

lemma mset_delete:
  assumes "distinct (map_keys m)" "map_get m k = Some v"
  shows "mset (map (f \<circ> snd) m) = add_mset (f v) (mset (map (f \<circ> snd) (map_delete k m)))"
  using assms
proof (induction m)
  case (Cons kv m)
  show ?case
  proof (cases "fst kv = k")
    case True
    with Cons have "map_delete k m = m" by (intro delete_id) auto
    with True Cons show ?thesis by (cases kv) auto
  qed (use Cons in \<open>cases kv, auto\<close>)
qed simp

lemma tickets_distinct:
  assumes "requests_inv c"
  shows "distinct (map wr_ticket (waiting c) @ map (pr_ticket \<circ> snd) (pending c) @ map fst (settled c))"
proof -
  have "mset (map wr_ticket (waiting c) @ map (pr_ticket \<circ> snd) (pending c) @ map fst (settled c))
      = mset [0..<next_ticket c]"
    using assms by (simp add: requests_inv_def tickets_def ac_simps)
  then show ?thesis using mset_eq_imp_distinct_iff distinct_upt by blast
qed

lemma requests_inv_request:
  assumes "requests_inv c"
  shows "requests_inv (fst (request a p c))"
  using assms
  by (simp add: requests_inv_def tickets_def request_def case_prod_beta)

lemma requests_inv_wait_done:
  assumes "requests_inv c" "w \<in> set (waiting c)"
  shows "requests_inv (settle (wr_ticket w) r (c\<lparr>waiting := filter (\<lambda>x. wr_ticket x \<noteq> wr_ticket w) (waiting c)\<rparr>))"
proof -
  have "distinct (map wr_ticket (waiting c))" using tickets_distinct [OF assms(1)] by simp
  from mset_filter_out [OF this assms(2)] assms(1) show ?thesis
    by (simp add: requests_inv_def tickets_def)
qed

lemma requests_inv_settle_pending:
  assumes "requests_inv c" "map_get (pending c) i = Some p"
  shows "requests_inv (settle (pr_ticket p) r (clear_timeout i (c\<lparr>pending := map_delete i (pending c)\<rparr>)))"
  using assms mset_delete [of "pending c" i p pr_ticket]
  by (auto simp: requests_inv_def tickets_def distinct_removeAll delete_keys)

lemma fresh_request_id:
  "requests_inv c \<Longrightarrow> request_id (Suc (nextId c)) \<notin> set (map_keys (pending c))"
  by (fastforce simp: requests_inv_def dest: request_id_inj)

lemma requests_inv_send:
  assumes inv: "requests_inv c" and w: "w \<in> set (waiting c)"
  shows "requests_inv (send_request (wr_ticket w) a p
           (c\<lparr>waiting := filter (\<lambda>x. wr_ticket x \<noteq> wr_ticket w) (waiting c)\<rparr>))"
proof -
  define i where "i = request_id (Suc (nextId c))"
  define pr where "pr = \<lparr>pr_action = a, pr_ticket = wr_ticket w\<rparr>"
  define c' where "c' = c\<lparr>waiting := filter (\<lambda>x. wr_ticket x \<noteq> wr_ticket w) (waiting c),
    nextId := Suc (nextId c), timers := timers c @ [i], pending := map_set i pr (pending c)\<rparr>"
  have fresh: "i \<notin> set (map_keys (pending c))" using fresh_request_id [OF inv] by (simp add: i_def)
  have "distinct (map wr_ticket (waiting c))" using tickets_distinct [OF inv] by simp
  note m = mset_filter_out [OF this w] and app = update_new_append [OF fresh, of pr]
  have "tickets c' = tickets c"
    using m app by (simp add: c'_def tickets_def) (simp add: pr_def)
  moreover have "\<forall>j \<in> set (map_keys (pending c)). \<exists>k. 0 < k \<and> k \<le> Suc (nextId c) \<and> j = request_id k"
    using inv unfolding requests_inv_def by (metis le_SucI)
  ultimately have inv': "requests_inv c'"
    using inv fresh app by (auto simp: c'_def requests_inv_def i_def)
  have get: "map_get (pending c') i = Some pr"
    by (simp add: c'_def update_conv')
  have send: "send_request (wr_ticket w) a p
      (c\<lparr>waiting := filter (\<lambda>x. wr_ticket x \<noteq> wr_ticket w) (waiting c)\<rparr>)
    = (case write_message (request_message i a p) c' of
         Inr d \<Rightarrow> d
       | Inl e \<Rightarrow> settle (pr_ticket pr) (Rejected e) (clear_timeout i (c'\<lparr>pending := map_delete i (pending c')\<rparr>)))"
    by (simp add: send_request_def Let_def i_def pr_def c'_def split: sum.split)
  show ?thesis
  proof (cases "write_message (request_message i a p) c'")
    case (Inl e)
    with send requests_inv_settle_pending [OF inv' get] show ?thesis by simp
  next
    case (Inr d)
    then have "request_view d = request_view c'"
      by (auto simp: write_message_def request_view_def split: if_splits)
    from requests_inv_view [OF this] send Inr inv' show ?thesis by simp
  qed
qed

lemma requests_inv_resume:
  assumes "requests_inv c" "w \<in> set (waiting c)"
  shows "requests_inv (resume_request w c)"
  using requests_inv_send [OF assms] requests_inv_wait_done [OF assms] assms(1)
  by (auto simp: resume_request_def Let_def split: connect_promise.splits)

lemma requests_inv_timeout:
  assumes "requests_inv c"
  shows "requests_inv (on_timeout i c)"
proof (cases "map_get (pending c) i")
  case None
  then have "i \<notin> set (timers c)"
    using assms by (simp add: requests_inv_def map_of_eq_None_iff)
  with None assms show ?thesis
    by (simp add: on_timeout_def Let_def removeAll_id requests_inv_view [of "clear_timeout i c" c] request_view_def)
next
  case (Some p)
  then have "request_view (on_timeout i c) = request_view (settle (pr_ticket p)
      (Rejected (PlainError (''Thalweg daemon request '' @ pr_action p @ '' timed out.'')))
      (clear_timeout i (c\<lparr>pending := map_delete i (pending c)\<rparr>)))"
    by (simp add: on_timeout_def Let_def request_view_def)
  from requests_inv_view [OF this] show ?thesis
    by (simp only: requests_inv_settle_pending [OF assms Some])
qed

lemma fail_pending_fields [simp]:
  "pending (fail_pending e c) = []" "waiting (fail_pending e c) = waiting c"
  "settled (fail_pending e c) = settled c @ map (\<lambda>(i, p). (pr_ticket p, Rejected e)) (pending c)"
  "next_ticket (fail_pending e c) = next_ticket c"
  "timers (fail_pending e c) = filter (\<lambda>i. i \<notin> fst ` set (pending c)) (timers c)"
  "nextId (fail_pending e c) = nextId c" "subscriptions (fail_pending e c) = subscriptions c"
  "queuedSubscriptionEvents (fail_pending e c) = queuedSubscriptionEvents c"
  "calls (fail_pending e c) = calls c" "socket (fail_pending e c) = socket c"
  "connecting (fail_pending e c) = connecting c" "buffer (fail_pending e c) = buffer c"
  "subscribing (fail_pending e c) = subscribing c" "sockets (fail_pending e c) = sockets c"
  "uncaught (fail_pending e c) = uncaught c" "subscribed (fail_pending e c) = subscribed c"
  by (simp_all add: fail_pending_def)

lemma requests_inv_fail_pending:
  assumes "requests_inv c"
  shows "requests_inv (fail_pending e c)"
proof -
  have "map fst (map (\<lambda>(i, p). (pr_ticket p, Rejected e)) (pending c)) = map (pr_ticket \<circ> snd) (pending c)"
    by (auto simp: case_prod_beta)
  moreover have "filter (\<lambda>i. i \<notin> fst ` set (pending c)) (timers c) = []"
    using assms by (simp add: requests_inv_def filter_empty_conv)
  ultimately show ?thesis
    using assms by (simp add: requests_inv_def tickets_def o_def case_prod_beta ac_simps)
qed

lemma fail_connection_fields [simp]:
  "pending (fail_connection e c) = []" "waiting (fail_connection e c) = waiting c"
  "settled (fail_connection e c) = settled c @ map (\<lambda>(i, p). (pr_ticket p, Rejected e)) (pending c)"
  "next_ticket (fail_connection e c) = next_ticket c" "nextId (fail_connection e c) = nextId c"
  "subscriptions (fail_connection e c) = subscriptions c"
  "queuedSubscriptionEvents (fail_connection e c) = queuedSubscriptionEvents c"
  "calls (fail_connection e c) = calls c" "buffer (fail_connection e c) = buffer c"
  "subscribing (fail_connection e c) = subscribing c" "subscribed (fail_connection e c) = subscribed c"
  by (simp_all add: fail_connection_def Let_def split: option.splits)

lemma requests_inv_fail_connection:
  assumes "requests_inv c"
  shows "requests_inv (fail_connection e c)"
proof -
  have "request_view (fail_connection e c) = request_view (fail_pending e c)"
    by (simp add: request_view_def fail_connection_def Let_def split: option.splits)
  from requests_inv_view [OF this] requests_inv_fail_pending [OF assms] show ?thesis by simp
qed

lemma push_event_view [simp]: "request_view (push_event m c) = request_view c"
  by (simp add: push_event_def Let_def request_view_def split: option.splits)

lemma requests_inv_handle:
  assumes "requests_inv c"
  shows "requests_inv (handle_message m c)"
proof (cases "jget m ''type'' = Some (JStr ''event'')")
  case True
  with requests_inv_view [OF push_event_view] assms show ?thesis by (simp add: handle_message_def)
next
  case False
  show ?thesis
    using False assms requests_inv_settle_pending [OF assms]
    by (auto simp: handle_message_def receive_response_def split: option.splits json.splits)
qed

lemma requests_inv_parts: "requests_inv c \<Longrightarrow> requests_inv (fst (process_parts ps c))"
proof (induction ps c rule: process_parts.induct)
  case (2 part parts c)
  have u: "requests_inv (c\<lparr>uncaught := u\<rparr>)" for u
    using "2.prems" requests_inv_view [of "c\<lparr>uncaught := u\<rparr>" c] by (simp add: request_view_def)
  show ?case
    using 2 u requests_inv_fail_connection [OF "2.prems"] requests_inv_handle [OF "2.prems"]
    by (auto simp: fail_protocol_def Let_def split: option.splits)
qed simp

lemma requests_inv_data:
  assumes "requests_inv c"
  shows "requests_inv (on_data chunk c)"
proof -
  have "requests_inv (c\<lparr>buffer := b\<rparr>)" for b
    using assms requests_inv_view [of "c\<lparr>buffer := b\<rparr>" c] by (simp add: request_view_def)
  then show ?thesis by (simp add: on_data_def process_buffer_def Let_def requests_inv_parts)
qed

lemma requests_inv_close:
  assumes "requests_inv c"
  shows "requests_inv (on_close i c)"
proof -
  have "requests_inv (update_socket i f (c\<lparr>socket := None, connecting := None\<rparr>))" for f
    using assms requests_inv_view [of "update_socket i f (c\<lparr>socket := None, connecting := None\<rparr>)" c]
    by (simp add: request_view_def)
  then show ?thesis by (simp add: on_close_def requests_inv_fail_pending)
qed

lemma resume_subscribe_view: "request_view (resume_subscribe t h r c) = request_view c"
  by (cases r) (simp_all add: resume_subscribe_def Let_def register_handler_def request_view_def)

lemma requests_inv_step:
  assumes "requests_inv c" "client_step c d"
  shows "requests_inv d"
  using assms(2)
proof cases
  case step_resume
  then show ?thesis using requests_inv_resume assms by simp
next
  case step_timeout
  then show ?thesis using requests_inv_timeout assms by simp
next
  case (step_subscribe n ss h)
  define a :: string where "a = ''siphon_register''"
  define p where "p = JObj [(''network'', JStr n), (''streams'', JArr (map JStr ss))]"
  have "request_view d = request_view (fst (request a p c))"
    by (simp add: step_subscribe subscribe_def a_def p_def request_view_def case_prod_beta)
  from requests_inv_view [OF this] requests_inv_request [OF assms(1)] show ?thesis by simp
next
  case (step_subscribed t h r)
  from requests_inv_view [OF resume_subscribe_view] assms(1) step_subscribed show ?thesis by simp
next
  case (step_unsubscribe s)
  have "requests_inv (c\<lparr>subscriptions := a, queuedSubscriptionEvents := b\<rparr>)" for a b
    using assms(1) requests_inv_view [of "c\<lparr>subscriptions := a, queuedSubscriptionEvents := b\<rparr>" c]
    by (simp add: request_view_def)
  with step_unsubscribe show ?thesis by (simp add: unsubscribe_def requests_inv_request)
next
  case step_close_call
  have "request_view (close_client c) = request_view c"
    by (simp add: close_client_def request_view_def split: option.splits)
  from requests_inv_view [OF this] step_close_call assms(1) show ?thesis by simp
next
  case (step_connect i)
  have "request_view (on_connect i c) = request_view c" by (simp add: on_connect_def request_view_def)
  from requests_inv_view [OF this] step_connect assms(1) show ?thesis by simp
next
  case (step_error i e)
  have "request_view (on_error i e c) = request_view c" by (simp add: on_error_def request_view_def)
  from requests_inv_view [OF this] step_error assms(1) show ?thesis by simp
next
  case (step_env i r)
  from assms(1) requests_inv_view [of d c] show ?thesis by (simp add: step_env request_view_def)
qed (use assms(1) requests_inv_request requests_inv_data requests_inv_close in auto)

subsection \<open>Queued events and handlers\<close>

definition subs_inv :: "client \<Rightarrow> bool" where
  "subs_inv c \<longleftrightarrow>
     distinct (map_keys (subscriptions c)) \<and>
     distinct (map_keys (queuedSubscriptionEvents c)) \<and>
     (\<forall>(k, es) \<in> set (queuedSubscriptionEvents c). length es \<le> queue_limit) \<and>
     set (map_keys (subscriptions c)) \<inter> set (map_keys (queuedSubscriptionEvents c)) = {}"

lemma subs_inv_view:
  assumes "subs_view c = subs_view d"
  shows "subs_inv c = subs_inv d"
proof -
  have "subscriptions c = subscriptions d" "queuedSubscriptionEvents c = queuedSubscriptionEvents d"
    using assms by (simp_all add: subs_view_def)
  then show ?thesis by (simp only: subs_inv_def)
qed

lemma keys_update_set [simp]: "fst ` set (map_set k v m) = insert k (fst ` set m)"
  by (simp add: AList.dom_update)

lemma keys_delete_set: "fst ` set (map_delete k m) = fst ` set m - {k}"
  by (auto simp: AList.delete_eq)

lemma subs_inv_push:
  assumes "subs_inv c"
  shows "subs_inv (push_event m c)"
proof (cases "map_get (subscriptions c) (jget m ''subscriptionId'')")
  case (Some h)
  with assms subs_inv_view [of "push_event m c" c] show ?thesis
    by (simp add: push_event_def Let_def subs_view_def)
next
  case None
  define k where "k = jget m ''subscriptionId''"
  define q where "q = (case map_get (queuedSubscriptionEvents c) k of None \<Rightarrow> [] | Some q \<Rightarrow> q)"
  define q' where "q' = (if length q < queue_limit then q @ [jget m ''event''] else q)"
  have push: "push_event m c = c\<lparr>queuedSubscriptionEvents := map_set k q' (queuedSubscriptionEvents c)\<rparr>"
    using None by (simp add: push_event_def Let_def k_def q_def q'_def)
  have "length q \<le> queue_limit"
    using assms by (auto simp: q_def subs_inv_def split: option.splits dest!: map_of_SomeD)
  then have "length q' \<le> queue_limit" by (simp add: q'_def)
  moreover have "k \<notin> fst ` set (subscriptions c)"
    using None by (simp add: k_def map_of_eq_None_iff)
  ultimately show ?thesis
    using assms amap.distinct_keys_set [of "queuedSubscriptionEvents c" k q']
    by (auto simp: push subs_inv_def dest!: set_update_cases)
qed

lemma subs_view_others [simp]:
  "subs_view (receive_response m c) = subs_view c"
  "subs_view (fail_connection e c) = subs_view c"
  "subs_view (send_request t a p c) = subs_view c"
  "subs_view (on_timeout i c) = subs_view c"
  "subs_view (on_close j c) = subs_view c"
  "subs_view (close_client c) = subs_view c"
  "subs_view (fst (request a p c)) = subs_view c"
  "subs_view (update_socket j f c) = subs_view c"
  by (auto simp: subs_view_def receive_response_def send_request_def write_message_def on_timeout_def
      on_close_def close_client_def request_def case_prod_beta Let_def split: option.splits json.splits)

lemma subs_inv_handle: "subs_inv c \<Longrightarrow> subs_inv (handle_message m c)"
  by (simp add: handle_message_def subs_inv_push subs_inv_view [of "receive_response m c" c])

lemma subs_inv_parts: "subs_inv c \<Longrightarrow> subs_inv (fst (process_parts ps c))"
proof (induction ps c rule: process_parts.induct)
  case (2 part parts c)
  have "subs_inv (c\<lparr>uncaught := u\<rparr>)" for u
    using "2.prems" subs_inv_view [of "c\<lparr>uncaught := u\<rparr>" c] by (simp add: subs_view_def)
  moreover have "subs_inv (fail_connection e c)" for e
    using "2.prems" subs_inv_view [of "fail_connection e c" c] by simp
  ultimately show ?case
    using 2 subs_inv_handle [OF "2.prems"] by (auto simp: fail_protocol_def Let_def split: option.splits)
qed simp

lemma subs_inv_register:
  assumes "subs_inv c"
  shows "subs_inv (register_handler k h c)"
  using assms amap.distinct_keys_set [of "subscriptions c" k h]
    amap.distinct_keys_delete [of "queuedSubscriptionEvents c" k]
  by (auto simp: register_handler_def Let_def subs_inv_def keys_delete_set)

lemma subs_inv_resume_subscribe:
  assumes "subs_inv c"
  shows "subs_inv (resume_subscribe t h r c)"
proof -
  define c' where "c' = c\<lparr>subscribing := filter (\<lambda>(t', _). t' \<noteq> t) (subscribing c)\<rparr>"
  have c': "subs_inv c'"
    using assms subs_inv_view [of c' c] by (simp add: c'_def subs_view_def)
  have "subs_inv (d\<lparr>subscribed := x\<rparr>)" if "subs_inv d" for d x
    using that subs_inv_view [of "d\<lparr>subscribed := x\<rparr>" d] by (simp add: subs_view_def)
  with c' subs_inv_register [OF c'] show ?thesis
    by (cases r) (simp_all add: resume_subscribe_def Let_def c'_def)
qed

lemma subs_inv_unsubscribe:
  assumes "subs_inv c"
  shows "subs_inv (fst (unsubscribe k c))"
proof -
  define c' where "c' = c\<lparr>subscriptions := map_delete k (subscriptions c),
    queuedSubscriptionEvents := map_delete k (queuedSubscriptionEvents c)\<rparr>"
  have "subs_inv c'"
    using assms amap.distinct_keys_delete [of "subscriptions c"]
      amap.distinct_keys_delete [of "queuedSubscriptionEvents c"]
    by (auto simp: c'_def subs_inv_def keys_delete_set)
  with subs_inv_view [of "fst (unsubscribe k c)" c'] show ?thesis
    by (simp add: unsubscribe_def c'_def)
qed

lemma subs_inv_step:
  assumes "subs_inv c" "client_step c d"
  shows "subs_inv d"
  using assms(2)
proof cases
  case (step_subscribe n ss h)
  have "subs_view d = subs_view c"
    using step_subscribe by (simp add: subscribe_def case_prod_beta subs_view_def request_def)
  from subs_inv_view [OF this] assms(1) show ?thesis by simp
next
  case (step_resume w)
  have "subs_view d = subs_view c"
    by (auto simp: step_resume resume_request_def Let_def split: connect_promise.splits)
      (simp_all add: subs_view_def)
  from subs_inv_view [OF this] assms(1) show ?thesis by simp
next
  case (step_data i chunk)
  have "subs_inv (c\<lparr>buffer := b\<rparr>)" for b
    using assms(1) subs_inv_view [of "c\<lparr>buffer := b\<rparr>" c] by (simp add: subs_view_def)
  with step_data show ?thesis by (simp add: on_data_def process_buffer_def Let_def subs_inv_parts)
qed (use assms(1) subs_inv_resume_subscribe subs_inv_unsubscribe subs_inv_view [of d c]
    in \<open>auto simp: on_connect_def on_error_def\<close>)

subsection \<open>What goes over the wire\<close>

definition request_frame :: "nat \<times> string \<times> json \<Rightarrow> string" where
  "request_frame r = (case r of (n, a, p) \<Rightarrow> stringify (request_message (request_id n) a p) @ [newline])"

text \<open>The bytes written to a socket: whole requests, with strictly increasing ids up to \<open>n\<close>.\<close>

definition wire_of :: "nat \<Rightarrow> (nat \<times> string \<times> json) list \<Rightarrow> string \<Rightarrow> bool" where
  "wire_of n rs w \<longleftrightarrow>
     w = concat (map request_frame rs) \<and> sorted_wrt (<) (map fst rs) \<and> (\<forall>r \<in> set rs. fst r \<le> n)"

definition wire_inv :: "client \<Rightarrow> bool" where
  "wire_inv c \<longleftrightarrow> (\<forall>w \<in> set (map written (sockets c)). \<exists>rs. wire_of (nextId c) rs w)"

lemma wire_of_empty: "wire_of n [] []"
  by (simp add: wire_of_def)

lemma wire_of_mono: "wire_of n rs w \<Longrightarrow> n \<le> m \<Longrightarrow> wire_of m rs w"
  by (fastforce simp: wire_of_def)

lemma wire_of_send: "wire_of n rs w \<Longrightarrow> wire_of (Suc n) (rs @ [(Suc n, a, p)]) (w @ request_frame (Suc n, a, p))"
  by (fastforce simp: wire_of_def sorted_wrt_append)

lemma wire_inv_same:
  assumes "map written (sockets d) = map written (sockets c)" "nextId d = nextId c"
  shows "wire_inv d = wire_inv c"
  by (simp add: wire_inv_def assms)

lemma update_socket_written [simp]:
  "(\<And>s. written (f s) = written s) \<Longrightarrow>
     map written (sockets (update_socket i f c)) = map written (sockets c)"
  by (simp add: update_socket_def map_update) (metis list_update_id nth_map)

lemma destroy_written [simp]: "written (destroy_socket e s) = written s"
  by (simp add: destroy_socket_def)

lemma end_written [simp]: "written (end_socket s) = written s"
  by (simp add: end_socket_def)

lemma fail_connection_written [simp]:
  "map written (sockets (fail_connection e c)) = map written (sockets c)"
  by (simp add: fail_connection_def Let_def split: option.split)

lemma handle_message_sockets [simp]:
  "sockets (handle_message m c) = sockets c" "nextId (handle_message m c) = nextId c"
  by (simp_all add: handle_message_def push_event_def receive_response_def Let_def
      split: option.splits json.splits)

lemma process_parts_written:
  "map written (sockets (fst (process_parts ps c))) = map written (sockets c) \<and>
   nextId (fst (process_parts ps c)) = nextId c"
  by (induction ps c rule: process_parts.induct) (simp_all add: fail_protocol_def Let_def split: option.splits)

lemma connect_written:
  "map written (sockets (fst (connect c))) = map written (sockets c) \<or>
   map written (sockets (fst (connect c))) = map written (sockets c) @ [[]]"
  by (simp add: connect_def fresh_socket_def Let_def split: option.splits)

lemma wire_inv_request:
  assumes "wire_inv c"
  shows "wire_inv (fst (request a p c))"
proof -
  have "set (map written (sockets (fst (connect c)))) \<subseteq> insert [] (set (map written (sockets c)))"
    using connect_written [of c] by (elim disjE; simp only: set_append) auto
  moreover have "sockets (fst (request a p c)) = sockets (fst (connect c))"
    "nextId (fst (request a p c)) = nextId c"
    by (simp_all add: request_def case_prod_beta)
  ultimately show ?thesis
    using assms wire_of_empty unfolding wire_inv_def by (metis insertE subsetD)
qed

lemma wire_inv_send:
  assumes "wire_inv c"
  shows "wire_inv (send_request t a p c)"
proof -
  define i where "i = request_id (Suc (nextId c))"
  define c1 where "c1 = c\<lparr>nextId := Suc (nextId c), timers := timers c @ [i],
    pending := map_set i \<lparr>pr_action = a, pr_ticket = t\<rparr> (pending c)\<rparr>"
  have c1: "wire_inv c1"
    using assms wire_of_mono [OF _ le_SucI [OF order_refl]] by (fastforce simp: c1_def wire_inv_def)
  show ?thesis
  proof (cases "socket_open c1")
    case False
    then have "sockets (send_request t a p c) = sockets c1 \<and> nextId (send_request t a p c) = nextId c1"
      by (simp add: send_request_def Let_def c1_def i_def write_message_def)
    with c1 wire_inv_same [of "send_request t a p c" c1] show ?thesis by simp
  next
    case True
    then obtain j where j: "socket c1 = Some j" "j < length (sockets c1)"
      by (auto simp: socket_open_def split: option.splits)
    define s' where "s' = (sockets c1 ! j)\<lparr>written := written (sockets c1 ! j)
       @ request_frame (Suc (nextId c), a, p)\<rparr>"
    have send: "send_request t a p c = c1\<lparr>sockets := (sockets c1)[j := s']\<rparr>"
      using True j by (simp add: send_request_def Let_def c1_def i_def write_message_def
          update_socket_def s'_def request_frame_def)
    have "written (sockets c ! j) \<in> set (map written (sockets c))"
      using j by (simp add: c1_def)
    then obtain rs where "wire_of (nextId c) rs (written (sockets c ! j))"
      using assms by (auto simp: wire_inv_def)
    from wire_of_send [OF this, of a p]
    have "\<exists>rs. wire_of (Suc (nextId c)) rs (written s')" by (auto simp: s'_def c1_def)
    with c1 show ?thesis
      by (auto simp: send wire_inv_def c1_def dest!: set_update_subset_insert [THEN subsetD])
  qed
qed

lemma wire_inv_step:
  assumes "wire_inv c" "client_step c d"
  shows "wire_inv d"
  using assms(2)
proof cases
  case (step_resume w)
  define c' where "c' = c\<lparr>waiting := filter (\<lambda>x. wr_ticket x \<noteq> wr_ticket w) (waiting c)\<rparr>"
  have c': "wire_inv c'" using assms(1) wire_inv_same [of c' c] by (simp add: c'_def)
  moreover have "wire_inv (settle t r c')" for t r using c' wire_inv_same [of "settle t r c'" c'] by simp
  ultimately show ?thesis
    using wire_inv_send [OF c'] assms(1)
    by (simp add: step_resume resume_request_def Let_def c'_def [symmetric] split: connect_promise.split)
next
  case (step_data i chunk)
  have "map written (sockets d) = map written (sockets c)" "nextId d = nextId c"
    using step_data process_parts_written by (simp_all add: on_data_def process_buffer_def Let_def)
  from wire_inv_same [OF this] assms(1) show ?thesis by simp
next
  case (step_subscribe n ss h)
  define a :: string where "a = ''siphon_register''"
  define p where "p = JObj [(''network'', JStr n), (''streams'', JArr (map JStr ss))]"
  have "sockets d = sockets (fst (request a p c))" "nextId d = nextId (fst (request a p c))"
    by (simp_all add: step_subscribe subscribe_def a_def p_def case_prod_beta)
  with wire_inv_same [of d "fst (request a p c)"] wire_inv_request [OF assms(1)] show ?thesis by simp
next
  case (step_unsubscribe s)
  have "wire_inv (c\<lparr>subscriptions := a, queuedSubscriptionEvents := b\<rparr>)" for a b
    using assms(1) wire_inv_same [of "c\<lparr>subscriptions := a, queuedSubscriptionEvents := b\<rparr>" c] by simp
  with step_unsubscribe show ?thesis by (simp add: unsubscribe_def wire_inv_request)
next
  case (step_subscribed t h r)
  have "sockets d = sockets c" "nextId d = nextId c"
    by (cases r; simp add: step_subscribed resume_subscribe_def Let_def register_handler_def)+
  with wire_inv_same [of d c] assms(1) show ?thesis by simp
next
  case (step_timeout i)
  have "sockets d = sockets c" "nextId d = nextId c"
    by (simp_all add: step_timeout on_timeout_def Let_def split: option.split)
  with wire_inv_same [of d c] assms(1) show ?thesis by simp
next
  case (step_close i)
  have "map written (sockets d) = map written (sockets c)" "nextId d = nextId c"
    by (simp_all add: step_close on_close_def)
  from wire_inv_same [OF this] assms(1) show ?thesis by simp
next
  case step_close_call
  have "map written (sockets d) = map written (sockets c)" "nextId d = nextId c"
    by (simp_all add: step_close_call close_client_def split: option.split)
  from wire_inv_same [OF this] assms(1) show ?thesis by simp
qed (use assms(1) wire_inv_request wire_inv_same [of d c] in
      \<open>auto simp: on_connect_def on_error_def\<close>)

subsection \<open>The logs only grow\<close>

lemma handle_message_logs:
  "\<exists>new. settled (handle_message m c) = settled c @ new"
  "\<exists>new. calls (handle_message m c) = calls c @ new"
  by (auto simp: handle_message_def push_event_def receive_response_def Let_def
      split: option.splits json.splits)

lemma process_parts_logs:
  "(\<exists>new. settled (fst (process_parts ps c)) = settled c @ new) \<and>
   (\<exists>new. calls (fst (process_parts ps c)) = calls c @ new)"
proof (induction ps c rule: process_parts.induct)
  case (2 part parts c)
  show ?case
  proof (cases "trim part = [] \<or> json_parse part = None")
    case True
    with 2 show ?thesis by (auto split: option.splits)
  next
    case False
    then obtain m where m: "trim part \<noteq> []" "json_parse part = Some m" by auto
    consider "m = JNull" | "m \<noteq> JNull" "jget m ''protocolVersion'' \<noteq> Some THALWEG_PROTOCOL_VERSION"
      | "m \<noteq> JNull" "jget m ''protocolVersion'' = Some THALWEG_PROTOCOL_VERSION" by blast
    then show ?thesis
    proof cases
      case 3
      from handle_message_logs [of m c] "2.IH"(2) [OF m(1) m(2) 3(1)] 3 m show ?thesis by fastforce
    qed (use m in \<open>auto simp: fail_protocol_def Let_def\<close>)
  qed
qed simp

lemma client_step_settled:
  assumes "client_step c d"
  shows "\<exists>new. settled d = settled c @ new"
  using assms
proof cases
  case (step_data i chunk)
  then show ?thesis
    using process_parts_logs [of _ "c\<lparr>buffer := _\<rparr>"] by (simp add: on_data_def process_buffer_def Let_def)
next
  case (step_subscribed t h r)
  then show ?thesis by (cases r) (simp_all add: resume_subscribe_def Let_def register_handler_def)
qed (auto simp: request_def resume_request_def send_request_def write_message_def on_timeout_def on_close_def
      subscribe_def unsubscribe_def close_client_def on_connect_def on_error_def case_prod_beta Let_def
      split: connect_promise.splits option.splits)

lemma client_step_calls:
  assumes "client_step c d"
  shows "\<exists>new. calls d = calls c @ new"
  using assms
proof cases
  case (step_data i chunk)
  then show ?thesis
    using process_parts_logs [of _ "c\<lparr>buffer := _\<rparr>"] by (simp add: on_data_def process_buffer_def Let_def)
next
  case (step_subscribed t h r)
  then show ?thesis by (cases r) (simp_all add: resume_subscribe_def Let_def register_handler_def)
qed (auto simp: request_def resume_request_def send_request_def write_message_def on_timeout_def on_close_def
      subscribe_def unsubscribe_def close_client_def on_connect_def on_error_def case_prod_beta Let_def
      split: connect_promise.splits option.splits)

subsection \<open>The client as a state machine\<close>

definition client_inv :: "client \<Rightarrow> bool" where
  "client_inv c \<longleftrightarrow> requests_inv c \<and> subs_inv c \<and> wire_inv c"

lemma client_inv_initial: "initial_client c \<Longrightarrow> client_inv c"
  by (auto simp: initial_client_def new_client_def Let_def client_inv_def requests_inv_def tickets_def
      subs_inv_def wire_inv_def split: if_splits)

lemma client_inv_step: "client_inv c \<Longrightarrow> client_step c d \<Longrightarrow> client_inv d"
  unfolding client_inv_def using requests_inv_step subs_inv_step wire_inv_step by blast

interpretation results: logging_machine client_step initial_client client_inv settled
  by unfold_locales (auto intro: client_inv_initial client_inv_step client_step_settled)

interpretation deliveries: logging_machine client_step initial_client client_inv calls
  by unfold_locales (auto intro: client_step_calls)

end
