(* ===== verification/Client_Properties.thy ===== *)
theory Client_Properties
  imports Client_Invariants
begin

text \<open>
  The properties of the socket client: what every run guarantees of requests, timers, the wire and
  subscriptions, what each failure does, and three runs in which the code departs from its intent.
  The demonstration states below are real runs of the step relation; the witnesses use them.
\<close>

subsection \<open>Runs used by the witnesses\<close>

definition demo_new :: client where
  "demo_new = projr (new_client ''/tmp/thalweg.sock'' None)"

definition demo_asked :: client where
  "demo_asked = fst (request ''network_status'' (JObj []) demo_new)"

definition demo_connected :: client where
  "demo_connected = on_connect 0 demo_asked"

definition demo_sent :: client where
  "demo_sent = resume_request (hd (waiting demo_connected)) demo_connected"

lemma new_client_default: "new_client path None = Inr (projr (new_client path None))"
  using norm_dec_sign [of 30000 0] by (simp add: new_client_def Let_def is_finite_def not_positive_def)

lemma demo_new_initial: "initial_client demo_new"
  unfolding initial_client_def demo_new_def using new_client_default by blast

lemma demo_new_fields [simp]:
  "socket demo_new = None" "buffer demo_new = []" "nextId demo_new = 0" "pending demo_new = []"
  "subscriptions demo_new = []" "queuedSubscriptionEvents demo_new = []" "connecting demo_new = None"
  "sockets demo_new = []" "timers demo_new = []" "next_ticket demo_new = 0" "waiting demo_new = []"
  "settled demo_new = []" "subscribing demo_new = []" "calls demo_new = []" "uncaught demo_new = []"
  using norm_dec_sign [of 30000 0]
  by (simp_all add: demo_new_def new_client_def Let_def is_finite_def not_positive_def)

lemma demo_asked_fields [simp]:
  "sockets demo_asked = [fresh_socket]" "socket demo_asked = Some 0" "pending demo_asked = []"
  "waiting demo_asked = [\<lparr>wr_ticket = 0, wr_promise = Some 0, wr_action = ''network_status'', wr_payload = JObj []\<rparr>]"
  "nextId demo_asked = 0" "settled demo_asked = []" "timers demo_asked = []" "buffer demo_asked = []"
  "subscriptions demo_asked = []" "queuedSubscriptionEvents demo_asked = []"
  by (simp_all add: demo_asked_def request_def connect_def socket_open_def Let_def)

lemma demo_connected_fields [simp]:
  "sockets demo_connected = [fresh_socket\<lparr>ready_state := Open, connect_promise := Connected\<rparr>]"
  "socket demo_connected = Some 0" "pending demo_connected = []" "waiting demo_connected = waiting demo_asked"
  "nextId demo_connected = 0" "settled demo_connected = []" "timers demo_connected = []"
  "buffer demo_connected = []" "subscriptions demo_connected = []"
  "queuedSubscriptionEvents demo_connected = []"
  by (simp_all add: demo_connected_def on_connect_def update_socket_def fresh_socket_def)

lemma request_id_1: "request_id (Suc 0) = ''req_1''"
  by code_simp

lemma demo_sent_fields [simp]:
  "pending demo_sent = [(''req_1'', \<lparr>pr_action = ''network_status'', pr_ticket = 0\<rparr>)]"
  "socket demo_sent = Some 0" "settled demo_sent = []" "buffer demo_sent = []"
  "length (sockets demo_sent) = 1" "ready_state (sockets demo_sent ! 0) = Open"
  "close_emitted (sockets demo_sent ! 0) = False" "subscriptions demo_sent = []"
  "queuedSubscriptionEvents demo_sent = []"
  by (simp_all add: demo_sent_def resume_request_def Let_def connect_result_def send_request_def
      write_message_def socket_open_def update_socket_def fresh_socket_def request_id_1)

lemma demo_sent_reachable: "client_step\<^sup>*\<^sup>* demo_new demo_sent"
proof -
  have "client_step demo_new demo_asked" unfolding demo_asked_def by (rule step_request)
  moreover have "client_step demo_asked demo_connected"
    unfolding demo_connected_def by (rule step_connect) (simp_all add: fresh_socket_def)
  moreover have "client_step demo_connected demo_sent"
    unfolding demo_sent_def by (rule step_resume) (simp_all add: connect_result_def)
  ultimately show ?thesis
    by (intro converse_rtranclp_into_rtranclp [OF _ converse_rtranclp_into_rtranclp
          [OF _ r_into_rtranclp]])
qed

subsection \<open>Requests\<close>

text \<open>C1: in every reachable state each request the application made is in exactly one place: waiting
  for the connection, pending a response, or settled; none is lost and none is settled twice.\<close>

theorem requests_accounted:
  assumes "initial_client c" and "client_step\<^sup>*\<^sup>* c d"
  shows "mset (map wr_ticket (waiting d) @ map (pr_ticket \<circ> snd) (pending d) @ map fst (settled d))
       = mset [0..<next_ticket d]"
proof -
  from results.reachable_inv [OF assms] have "requests_inv d" by (simp add: client_inv_def)
  then show ?thesis by (simp add: requests_inv_def tickets_def ac_simps)
qed

theorem requests_accounted_witness:
  "client_step\<^sup>*\<^sup>* demo_new demo_sent \<and>
   mset (map wr_ticket (waiting demo_sent) @ map (pr_ticket \<circ> snd) (pending demo_sent) @ map fst (settled demo_sent))
     = mset [0..<next_ticket demo_sent]"
  using requests_accounted [OF demo_new_initial demo_sent_reachable] demo_sent_reachable by blast

text \<open>C2: a settled request keeps its one result in every later state: neither a late response, nor a
  timer, nor a failing connection settles it again.\<close>

theorem settled_forever:
  assumes "initial_client c" and "client_step\<^sup>*\<^sup>* c d" and "client_step\<^sup>*\<^sup>* d e"
    and "(t, r) \<in> set (settled d)"
  shows "(t, r) \<in> set (settled e) \<and> (\<forall>r'. (t, r') \<in> set (settled e) \<longrightarrow> r' = r)"
proof -
  have inv: "client_inv d" by (rule results.reachable_inv [OF assms(1,2)])
  have e: "(t, r) \<in> set (settled e)" by (rule results.logged_forever [OF assms(3) inv assms(4)])
  have "requests_inv e"
    using results.inv_steps [OF assms(3) inv] by (simp add: client_inv_def)
  then have "distinct (map fst (settled e))" using tickets_distinct by force
  with e show ?thesis by (auto dest: eq_key_imp_eq_value)
qed

theorem settled_forever_witness:
  "client_step (on_timeout ''req_1'' demo_sent) (on_close 0 (on_timeout ''req_1'' demo_sent)) \<and>
   (0, Rejected (PlainError ''Thalweg daemon request network_status timed out.''))
     \<in> set (settled (on_close 0 (on_timeout ''req_1'' demo_sent)))"
proof -
  let ?d = "on_timeout ''req_1'' demo_sent"
  have "requests_inv demo_sent"
    using results.reachable_inv [OF demo_new_initial demo_sent_reachable] by (simp add: client_inv_def)
  then have "client_step demo_sent ?d" by (intro step_timeout) (simp add: requests_inv_def)
  with demo_sent_reachable have r: "client_step\<^sup>*\<^sup>* demo_new ?d" by simp
  have c: "client_step ?d (on_close 0 ?d)" by (rule step_close) (simp_all add: on_timeout_def Let_def settle_def clear_timeout_def)
  have "(0, Rejected (PlainError ''Thalweg daemon request network_status timed out.'')) \<in> set (settled ?d)"
    by (simp add: on_timeout_def Let_def)
  with settled_forever [OF demo_new_initial r r_into_rtranclp [of client_step, OF c]] c
  show ?thesis by blast
qed

text \<open>C3: the armed timers are exactly those of the pending requests, and the timer of any pending
  request can fire and then rejects that request alone: no pending request can hang.\<close>

theorem pending_times_out:
  assumes "initial_client c" and "client_step\<^sup>*\<^sup>* c d" and "(i, p) \<in> set (pending d)"
  shows "set (timers d) = fst ` set (pending d) \<and>
     client_step d (on_timeout i d) \<and>
     settled (on_timeout i d) = settled d @ [(pr_ticket p,
       Rejected (PlainError (''Thalweg daemon request '' @ pr_action p @ '' timed out.'')))] \<and>
     pending (on_timeout i d) = map_delete i (pending d)"
proof -
  have inv: "requests_inv d"
    using results.reachable_inv [OF assms(1,2)] by (simp add: client_inv_def)
  then have t: "set (timers d) = fst ` set (pending d)" by (simp add: requests_inv_def)
  with assms(3) have "client_step d (on_timeout i d)" by (intro step_timeout) force
  moreover from inv assms(3) have "map_get (pending d) i = Some p" by (simp add: requests_inv_def)
  ultimately show ?thesis using t by (simp add: on_timeout_def Let_def)
qed

theorem pending_times_out_witness:
  "(''req_1'', \<lparr>pr_action = ''network_status'', pr_ticket = 0\<rparr>) \<in> set (pending demo_sent) \<and>
   client_step demo_sent (on_timeout ''req_1'' demo_sent) \<and> set (timers demo_sent) = {''req_1''}"
proof -
  have m: "(''req_1'', \<lparr>pr_action = ''network_status'', pr_ticket = 0\<rparr>) \<in> set (pending demo_sent)" by simp
  from pending_times_out [OF demo_new_initial demo_sent_reachable m] m show ?thesis by simp
qed



text \<open>C5: everything written to a socket is a sequence of whole request lines with strictly increasing
  request ids; split at newlines and parsed, they are the requests again.\<close>

theorem wire_decodes:
  assumes "initial_client c" and "client_step\<^sup>*\<^sup>* c d" and "s \<in> set (sockets d)"
  shows "\<exists>rs. sorted_wrt (<) (map fst rs) \<and> written s = concat (map request_frame rs) \<and>
     ((\<forall>(n, a, p) \<in> set rs. wf_json p) \<longrightarrow>
        map json_parse (butlast (split_on newline (written s)))
          = map (\<lambda>(n, a, p). Some (request_message (request_id n) a p)) rs)"
proof -
  from results.reachable_inv [OF assms(1,2)] have "wire_inv d" by (simp add: client_inv_def)
  with assms(3) obtain rs where rs: "wire_of (nextId d) rs (written s)" by (auto simp: wire_inv_def)
  define ms where "ms = map (\<lambda>(n, a, p). request_message (request_id n) a p) rs"
  have w: "written s = concat (map (\<lambda>m. stringify m @ [newline]) ms)"
    using rs by (simp add: wire_of_def ms_def request_frame_def [abs_def] o_def case_prod_beta)
  have "map json_parse (butlast (split_on newline (written s))) = map Some ms"
    if "\<forall>(n, a, p) \<in> set rs. wf_json p"
    unfolding w using that
    by (intro json_lines.frames_decode)
      (auto simp: ms_def request_message_def THALWEG_PROTOCOL_VERSION_def norm_dec_canonical)
  with rs show ?thesis by (auto simp: wire_of_def ms_def o_def case_prod_beta intro!: exI [of _ rs])
qed

theorem wire_decodes_witness:
  "\<exists>s \<in> set (sockets demo_sent). \<exists>rs. written s = concat (map request_frame rs) \<and> sorted_wrt (<) (map fst rs)"
proof -
  have "sockets demo_sent ! 0 \<in> set (sockets demo_sent)" by simp
  with wire_decodes [OF demo_new_initial demo_sent_reachable this] show ?thesis by blast
qed

subsection \<open>Framing of what is received\<close>

text \<open>Processing lines neither reads nor writes the buffer.\<close>

definition with_buffer :: "string \<Rightarrow> client \<Rightarrow> client" where
  "with_buffer b c = c\<lparr>buffer := b\<rparr>"

lemma with_buffer_fields [simp]:
  "pending (with_buffer b c) = pending c" "subscriptions (with_buffer b c) = subscriptions c"
  "queuedSubscriptionEvents (with_buffer b c) = queuedSubscriptionEvents c"
  "socket (with_buffer b c) = socket c" "sockets (with_buffer b c) = sockets c"
  "settled (with_buffer b c) = settled c" "timers (with_buffer b c) = timers c"
  "calls (with_buffer b c) = calls c" "uncaught (with_buffer b c) = uncaught c"
  "buffer (with_buffer b c) = b" "with_buffer b (with_buffer b' c) = with_buffer b c"
  by (simp_all add: with_buffer_def)

lemma with_buffer_ops:
  "settle t r (with_buffer b c) = with_buffer b (settle t r c)"
  "clear_timeout i (with_buffer b c) = with_buffer b (clear_timeout i c)"
  "update_socket j f (with_buffer b c) = with_buffer b (update_socket j f c)"
  "push_event m (with_buffer b c) = with_buffer b (push_event m c)"
  by (auto simp: settle_def clear_timeout_def update_socket_def push_event_def Let_def with_buffer_def
      intro!: client.equality split: option.split)

lemma with_buffer_reject_all: "reject_all ps e (with_buffer b c) = with_buffer b (reject_all ps e c)"
  by (induction ps arbitrary: c) (auto simp: with_buffer_ops)

lemma with_buffer_pending: "(with_buffer b c)\<lparr>pending := x\<rparr> = with_buffer b (c\<lparr>pending := x\<rparr>)"
  by (simp add: with_buffer_def)

lemma with_buffer_fail: "fail_connection e (with_buffer b c) = with_buffer b (fail_connection e c)"
  by (simp add: fail_connection_def fail_pending_def Let_def with_buffer_reject_all
      with_buffer_pending with_buffer_ops split: option.split)

lemma with_buffer_handle: "handle_message m (with_buffer b c) = with_buffer b (handle_message m c)"
  by (simp add: handle_message_def receive_response_def with_buffer_pending with_buffer_ops
      split: option.split json.split)

lemma with_buffer_uncaught: "(with_buffer b c)\<lparr>uncaught := x\<rparr> = with_buffer b (c\<lparr>uncaught := x\<rparr>)"
  by (simp add: with_buffer_def)

lemma with_buffer_parts:
  "process_parts ps (with_buffer b c) = apfst (with_buffer b) (process_parts ps c)"
  by (induction ps c rule: process_parts.induct)
    (simp_all add: with_buffer_fail fail_protocol_def Let_def with_buffer_handle
      with_buffer_uncaught split: option.split)

lemma process_parts_append:
  "process_parts (ps @ qs) c =
     (if snd (process_parts ps c) then process_parts qs (fst (process_parts ps c)) else process_parts ps c)"
  by (induction ps c rule: process_parts.induct) (simp_all split: option.split)

lemma process_buffer_parts:
  "process_buffer (c\<lparr>buffer := b\<rparr>) = apfst (with_buffer (last (split_on newline b)))
     (process_parts (butlast (split_on newline b)) c)"
  by (simp add: process_buffer_def Let_def with_buffer_parts flip: with_buffer_def)

lemma on_data_parts:
  "on_data chunk c = with_buffer (last (split_on newline (buffer c @ utf8_clean chunk)))
     (fst (process_parts (butlast (split_on newline (buffer c @ utf8_clean chunk))) c))"
  by (simp add: on_data_def process_buffer_parts)



text \<open>A code point whose bytes arrive in two chunks is destroyed: each chunk is decoded on its own,
  so the dash E2 80 94 cut after its first byte reaches the buffer as replacement characters.\<close>

theorem split_code_point_corrupted:
  assumes "newline \<notin> set (buffer c)"
  shows "let xs = [of_byte 226]; ys = [of_byte 128, of_byte 148] in
     utf8_valid (xs @ ys) \<and> buffer (on_data (xs @ ys) c) = buffer c @ xs @ ys \<and>
     buffer (on_data ys (on_data xs c)) = buffer c @ fffd @ fffd @ fffd"
proof -
  have clean: "utf8_clean [of_byte 226] = fffd" "utf8_clean [of_byte 128, of_byte 148] = fffd @ fffd"
    "utf8_clean [of_byte 226, of_byte 128, of_byte 148] = [of_byte 226, of_byte 128, of_byte 148]"
    "utf8_valid [of_byte 226, of_byte 128, of_byte 148]"
    by (simp_all add: utf8_lead_def numeral_2_eq_2)
  have nl: "n < 256 \<Longrightarrow> n \<noteq> 10 \<Longrightarrow> newline \<noteq> of_byte n" for n
    by (auto dest: arg_cong [where f = byte])
  have no: "newline \<notin> set fffd" "newline \<notin> set [of_byte 226, of_byte 128, of_byte 148]"
    by (simp_all add: fffd_def nl)
  show ?thesis
    using assms clean no by (simp add: on_data_parts split_on_no_sep del: utf8_clean.simps)
qed

theorem split_code_point_corrupted_witness:
  "buffer (on_data [of_byte 128, of_byte 148] (on_data [of_byte 226] demo_sent)) = fffd @ fffd @ fffd"
  using split_code_point_corrupted [of demo_sent] by (simp add: Let_def)

subsection \<open>Failing lines and closing sockets\<close>

text \<open>C7: the first line that is not JSON, or not of protocol version 1, rejects every pending request in
  the order of registration, forgets them, stops processing, and destroys the current socket.\<close>

theorem bad_line_fails_connection:
  assumes "trim line \<noteq> []"
    and "json_parse line = None \<and> e = PlainError ''Thalweg daemon sent malformed JSON.'' \<or>
         (\<exists>m. json_parse line = Some m \<and> m \<noteq> JNull \<and>
            jget m ''protocolVersion'' \<noteq> Some THALWEG_PROTOCOL_VERSION \<and>
            e = PlainError (''Unsupported Thalweg protocol version '' @
                  js_string (coalesce_or (jget m ''protocolVersion'') (JStr ''missing'')) @
                  ''; SDK supports '' @ js_string THALWEG_PROTOCOL_VERSION @ ''.''))"
  shows "process_parts (line # rest) c = (fail_connection e c, False) \<and>
     pending (fail_connection e c) = [] \<and>
     settled (fail_connection e c) = settled c @ map (\<lambda>(i, p). (pr_ticket p, Rejected e)) (pending c) \<and>
     (\<forall>i. socket c = Some i \<longrightarrow> i < length (sockets c) \<longrightarrow>
        ready_state (sockets (fail_connection e c) ! i) = Closed)"
proof -
  have "js_string_opt (coalesce v (Some d)) = js_string (coalesce_or v d)" for v d
    by (auto simp: js_string_opt_def coalesce_def coalesce_or_def nullish_def)
  then have "process_parts (line # rest) c = (fail_connection e c, False)"
    using assms by (auto simp: fail_protocol_def Let_def)
  then show ?thesis
    by (simp add: fail_connection_def Let_def update_socket_def destroy_socket_def split: option.split)
qed

theorem bad_line_fails_connection_witness:
  "process_parts [''not-json''] demo_sent
     = (fail_connection (PlainError ''Thalweg daemon sent malformed JSON.'') demo_sent, False) \<and>
   settled (fail_connection (PlainError ''Thalweg daemon sent malformed JSON.'') demo_sent)
     = [(0, Rejected (PlainError ''Thalweg daemon sent malformed JSON.''))]"
proof -
  have "trim ''not-json'' \<noteq> []" by (rule trim_keeps [of "CHR ''n''"]) simp_all
  moreover have "json_parse ''not-json'' = None" by code_simp
  ultimately have "trim ''not-json'' \<noteq> []" "json_parse ''not-json'' = None" by blast+
  from bad_line_fails_connection [OF this(1) disjI1, OF conjI [OF this(2) refl], of "[]" demo_sent]
  show ?thesis by simp
qed

text \<open>A socket's close rejects every pending request with the same error, disarms their timers and
  forgets the connection, so that the next request connects anew.\<close>

theorem close_rejects_pending:
  assumes "initial_client c" and "client_step\<^sup>*\<^sup>* c d"
  shows "settled (on_close i d) = settled d @ map (\<lambda>(_, p). (pr_ticket p,
           Rejected (PlainError ''Thalweg daemon connection closed.''))) (pending d) \<and>
     pending (on_close i d) = [] \<and> timers (on_close i d) = [] \<and>
     snd (connect (on_close i d)) = Some (length (sockets d))"
proof -
  have "requests_inv d" using results.reachable_inv [OF assms] by (simp add: client_inv_def)
  then have "timers (on_close i d) = []"
    by (simp add: on_close_def requests_inv_def filter_empty_conv)
  then show ?thesis by (simp add: on_close_def connect_def socket_open_def Let_def)
qed

theorem close_rejects_pending_witness:
  "settled (on_close 0 demo_sent) = [(0, Rejected (PlainError ''Thalweg daemon connection closed.''))] \<and>
   timers (on_close 0 demo_sent) = []"
  using close_rejects_pending [OF demo_new_initial demo_sent_reachable, of 0] by simp

text \<open>The close callback does not look which socket closed: when an earlier socket closes while a
  newer one is open, the requests pending on the open connection are rejected as closed and the
  client forgets a socket that is still open.\<close>

theorem stale_close_drops_connection:
  assumes "socket c = Some j" and "i \<noteq> j" and "j < length (sockets c)"
    and "ready_state (sockets c ! j) = Open"
  shows "socket (on_close i c) = None \<and> pending (on_close i c) = [] \<and>
     ready_state (sockets (on_close i c) ! j) = Open \<and>
     settled (on_close i c) = settled c @ map (\<lambda>(_, p). (pr_ticket p,
       Rejected (PlainError ''Thalweg daemon connection closed.''))) (pending c)"
  using assms by (auto simp: on_close_def update_socket_def nth_list_update)

text \<open>A run to such a state: close the client, ask again (a second socket), let it connect.\<close>

definition demo_closed :: client where
  "demo_closed = close_client demo_sent"

definition demo_asked_again :: client where
  "demo_asked_again = fst (request ''network_list'' (JObj []) demo_closed)"

definition demo_connected_again :: client where
  "demo_connected_again = on_connect 1 demo_asked_again"

definition demo_sent_again :: client where
  "demo_sent_again = resume_request (hd (waiting demo_connected_again)) demo_connected_again"

lemma demo_sent_more [simp]:
  "waiting demo_sent = []" "connecting demo_sent = Some 0" "next_ticket demo_sent = 1"
  "nextId demo_sent = 1" "timers demo_sent = [''req_1'']"
  by (simp_all add: demo_sent_def resume_request_def Let_def connect_result_def send_request_def
      write_message_def socket_open_def update_socket_def fresh_socket_def request_id_1 demo_asked_def
      demo_connected_def on_connect_def request_def connect_def)

lemma demo_closed_fields [simp]:
  "socket demo_closed = None" "connecting demo_closed = None" "length (sockets demo_closed) = 1"
  "pending demo_closed = pending demo_sent" "waiting demo_closed = []" "next_ticket demo_closed = 1"
  "nextId demo_closed = 1" "settled demo_closed = []" "timers demo_closed = [''req_1'']"
  by (simp_all add: demo_closed_def close_client_def)

lemma demo_asked_again_fields [simp]:
  "sockets demo_asked_again = sockets demo_closed @ [fresh_socket]" "socket demo_asked_again = Some 1"
  "pending demo_asked_again = pending demo_sent" "nextId demo_asked_again = 1"
  "waiting demo_asked_again = [\<lparr>wr_ticket = 1, wr_promise = Some 1, wr_action = ''network_list'', wr_payload = JObj []\<rparr>]"
  "settled demo_asked_again = []" "timers demo_asked_again = [''req_1'']"
  by (simp_all add: demo_asked_again_def request_def connect_def socket_open_def Let_def)

lemma demo_connected_again_fields [simp]:
  "sockets demo_connected_again = sockets demo_closed @ [fresh_socket\<lparr>ready_state := Open, connect_promise := Connected\<rparr>]"
  "socket demo_connected_again = Some 1" "waiting demo_connected_again = waiting demo_asked_again"
  "pending demo_connected_again = pending demo_sent" "nextId demo_connected_again = 1"
  "settled demo_connected_again = []" "timers demo_connected_again = [''req_1'']"
  by (simp_all add: demo_connected_again_def on_connect_def update_socket_def fresh_socket_def nth_append
      list_update_append)

lemma request_id_2: "request_id (Suc (Suc 0)) = ''req_2''"
  by code_simp

lemma demo_sent_again_fields [simp]:
  "socket demo_sent_again = Some 1" "length (sockets demo_sent_again) = 2"
  "ready_state (sockets demo_sent_again ! 1) = Open" "settled demo_sent_again = []"
  "map_get (pending demo_sent_again) ''req_2'' = Some \<lparr>pr_action = ''network_list'', pr_ticket = 1\<rparr>"
  "map pr_ticket (map snd (pending demo_sent_again)) = [0, 1]"
  by (simp_all add: demo_sent_again_def resume_request_def Let_def connect_result_def send_request_def
      write_message_def socket_open_def update_socket_def fresh_socket_def request_id_2 nth_append)

lemma demo_sent_again_reachable: "client_step\<^sup>*\<^sup>* demo_new demo_sent_again"
proof -
  have "client_step demo_sent demo_closed" unfolding demo_closed_def by (rule step_close_call)
  moreover have "client_step demo_closed demo_asked_again"
    unfolding demo_asked_again_def by (rule step_request)
  moreover have "client_step demo_asked_again demo_connected_again"
    unfolding demo_connected_again_def by (rule step_connect) (simp_all add: fresh_socket_def nth_append)
  moreover have "client_step demo_connected_again demo_sent_again"
    unfolding demo_sent_again_def by (rule step_resume) (simp_all add: connect_result_def nth_append)
  ultimately have "client_step\<^sup>*\<^sup>* demo_sent demo_sent_again"
    by (intro converse_rtranclp_into_rtranclp [OF _ converse_rtranclp_into_rtranclp
          [OF _ converse_rtranclp_into_rtranclp [OF _ r_into_rtranclp]]])
  with demo_sent_reachable show ?thesis by (rule rtranclp_trans)
qed

theorem stale_close_drops_connection_witness:
  "client_step\<^sup>*\<^sup>* demo_new demo_sent_again \<and>
   (1, Rejected (PlainError ''Thalweg daemon connection closed.'')) \<in> set (settled (on_close 0 demo_sent_again)) \<and>
   socket (on_close 0 demo_sent_again) = None \<and>
   ready_state (sockets (on_close 0 demo_sent_again) ! 1) = Open"
proof -
  have m: "(''req_2'', \<lparr>pr_action = ''network_list'', pr_ticket = 1\<rparr>) \<in> set (pending demo_sent_again)"
    by (rule map_of_SomeD) simp
  note s = stale_close_drops_connection [OF demo_sent_again_fields(1) _ _ demo_sent_again_fields(3), of 0, simplified]
  have "(1, Rejected (PlainError ''Thalweg daemon connection closed.''))
      \<in> set (settled (on_close 0 demo_sent_again))"
    using s rev_image_eqI [OF m, of "(1, Rejected (PlainError ''Thalweg daemon connection closed.''))"
        "\<lambda>(_, p). (pr_ticket p, Rejected (PlainError ''Thalweg daemon connection closed.''))"] by simp
  with s demo_sent_again_reachable show ?thesis by simp
qed

text \<open>The buffer survives a close: the part of a line that had arrived when the connection closed is
  prepended to the first line of the next connection, which then fails as malformed although it is
  a valid response.\<close>

theorem leftover_corrupts_next_response:
  assumes "newline \<notin> set (buffer c)" and "newline \<notin> set line" and "utf8_valid line"
    and "trim (buffer c @ line) \<noteq> []" and "json_parse (buffer c @ line) = None"
    and "pending c = [(i, p)]"
  shows "buffer (on_close j c) = buffer c \<and>
     settled (on_data (line @ [newline]) c)
       = settled c @ [(pr_ticket p, Rejected (PlainError ''Thalweg daemon sent malformed JSON.''))]"
proof -
  have "utf8_valid (line @ [newline])" using assms(3) by (intro utf8_valid_append) simp_all
  then have clean: "utf8_clean (line @ [newline]) = line @ [newline]" by (rule utf8_clean_valid)
  have "split_on newline ((buffer c @ line) @ newline # []) = (buffer c @ line) # split_on newline []"
    using assms(1,2) by (intro split_on_line) simp
  with clean assms(4-6) show ?thesis by (simp add: on_data_parts on_close_def)
qed

theorem leftover_corrupts_next_response_witness:
  "let line = ''{}''; c = demo_sent\<lparr>buffer := ''{''\<rparr> in
     json_parse line = Some (JObj []) \<and>
     settled (on_data (line @ [newline]) c)
       = [(0, Rejected (PlainError ''Thalweg daemon sent malformed JSON.''))]"
proof -
  have "trim ''{{}'' \<noteq> []" by (rule trim_keeps [of "CHR ''{''"]) simp_all
  moreover have "json_parse ''{{}'' = None" "json_parse ''{}'' = Some (JObj [])" by code_simp+
  ultimately show ?thesis
    using leftover_corrupts_next_response [of "demo_sent\<lparr>buffer := ''{''\<rparr>" "''{}''" "''req_1''"]
    by (simp add: Let_def)
qed

text \<open>The line \<open>null\<close> is valid JSON, so the parse guard passes it, and the read of its protocol
  version throws inside the data callback: nothing is rejected and the rest of the chunk is lost.\<close>

theorem null_line_throws:
  assumes "json_parse line = Some JNull" and "trim line \<noteq> []"
  shows "fst (process_parts (line # rest) c) = c\<lparr>uncaught := uncaught c @ [TypeErr]\<rparr> \<and>
     pending (fst (process_parts (line # rest) c)) = pending c"
  using assms by simp

theorem null_line_throws_witness:
  "fst (process_parts [''null''] demo_sent) = demo_sent\<lparr>uncaught := uncaught demo_sent @ [TypeErr]\<rparr>"
proof -
  have "trim ''null'' \<noteq> []" by (rule trim_keeps [of "CHR ''n''"]) simp_all
  moreover have "json_parse ''null'' = Some JNull" by code_simp
  ultimately show ?thesis using null_line_throws [of "''null''" "[]" demo_sent] by blast
qed

subsection \<open>Subscriptions\<close>

text \<open>The event messages of one subscription.\<close>

definition event_message :: "sub_key \<Rightarrow> json \<Rightarrow> bool" where
  "event_message k m \<longleftrightarrow> jget m ''type'' = Some (JStr ''event'') \<and> jget m ''subscriptionId'' = k"

definition queued_for :: "sub_key \<Rightarrow> client \<Rightarrow> event list" where
  "queued_for k c = (case map_get (queuedSubscriptionEvents c) k of None \<Rightarrow> [] | Some q \<Rightarrow> q)"

lemma handle_event_unregistered:
  assumes "event_message k m" "map_get (subscriptions c) k = None"
  shows "subscriptions (handle_message m c) = subscriptions c" "calls (handle_message m c) = calls c"
    "queued_for k (handle_message m c)
       = (if length (queued_for k c) < queue_limit then queued_for k c @ [jget m ''event''] else queued_for k c)"
  using assms
  by (simp_all add: event_message_def handle_message_def push_event_def Let_def queued_for_def
      update_conv')

lemma take_snoc_limit: "take n (xs @ [x]) = (if length xs < n then take n xs @ [x] else take n xs)"
  by simp

lemma fold_events_unregistered:
  assumes "\<forall>m \<in> set ms. event_message k m" "map_get (subscriptions c) k = None"
    "length (queued_for k c) \<le> queue_limit"
  shows "subscriptions (fold handle_message ms c) = subscriptions c"
    "calls (fold handle_message ms c) = calls c"
    "queued_for k (fold handle_message ms c)
       = take queue_limit (queued_for k c @ map (\<lambda>m. jget m ''event'') ms)"
proof -
  have "subscriptions (fold handle_message ms c) = subscriptions c \<and>
      calls (fold handle_message ms c) = calls c \<and>
      queued_for k (fold handle_message ms c)
        = take queue_limit (queued_for k c @ map (\<lambda>m. jget m ''event'') ms)"
    using assms(1)
  proof (induction ms rule: rev_induct)
    case Nil
    show ?case using assms(3) by simp
  next
    case (snoc m ms)
    with handle_event_unregistered [of k m "fold handle_message ms c"] assms(2,3) show ?case
      by (auto simp: less_le_not_le)
  qed
  then show "subscriptions (fold handle_message ms c) = subscriptions c"
    "calls (fold handle_message ms c) = calls c"
    "queued_for k (fold handle_message ms c)
       = take queue_limit (queued_for k c @ map (\<lambda>m. jget m ''event'') ms)" by simp_all
qed

text \<open>Events that arrive before their subscription is registered are delivered to its handler when
  it is, in order and once each, up to 128 of them; the events after the first 128 are dropped.\<close>

theorem early_events_replayed:
  assumes "\<forall>m \<in> set ms. event_message k m"
    and "map_get (subscriptions c) k = None" and "map_get (queuedSubscriptionEvents c) k = None"
  shows "calls (register_handler k h (fold handle_message ms c))
           = calls c @ map (\<lambda>m. (h, jget m ''event'')) (take 128 ms)"
proof -
  have "calls (register_handler k h d) = calls d @ map (Pair h) (queued_for k d)" for d
    by (simp add: register_handler_def queued_for_def Let_def)
  moreover have "queued_for k c = []" using assms(3) by (simp add: queued_for_def)
  ultimately show ?thesis
    using fold_events_unregistered [OF assms(1,2)] by (simp add: queue_limit_def take_map o_def)
qed

definition demo_event :: "string \<Rightarrow> json" where
  "demo_event s = JObj [(''type'', JStr ''event''), (''subscriptionId'', JStr ''sub''), (''event'', JStr s)]"

theorem early_events_replayed_witness:
  "calls (register_handler (Some (JStr ''sub'')) 7
            (fold handle_message [demo_event ''a'', demo_event ''b''] demo_sent))
     = calls demo_sent @ [(7, Some (JStr ''a'')), (7, Some (JStr ''b''))]"
  using early_events_replayed [of "[demo_event ''a'', demo_event ''b'']" "Some (JStr ''sub'')" demo_sent 7]
  by (simp add: event_message_def demo_event_def)

text \<open>In every reachable state no queue of early events exceeds 128, and a subscription that has a
  handler has no queue, so an event is never both delivered and kept.\<close>

theorem early_queues_bounded:
  assumes "initial_client c" and "client_step\<^sup>*\<^sup>* c d" and "(k, es) \<in> set (queuedSubscriptionEvents d)"
  shows "length es \<le> 128 \<and> map_get (subscriptions d) k = None"
proof -
  have "subs_inv d" using results.reachable_inv [OF assms(1,2)] by (simp add: client_inv_def)
  with assms(3) have "length es \<le> 128" "k \<notin> fst ` set (subscriptions d)"
    by (auto simp: subs_inv_def queue_limit_def dest: bspec [OF _ assms(3)]) force
  then show ?thesis by (simp add: map_of_eq_None_iff)
qed

definition demo_push :: json where
  "demo_push = JObj [(''protocolVersion'', THALWEG_PROTOCOL_VERSION), (''type'', JStr ''event''),
     (''subscriptionId'', JStr ''s''), (''event'', JBool True)]"

definition demo_pushed :: client where
  "demo_pushed = on_data (stringify demo_push @ [newline]) demo_sent"

text \<open>A whole message in one chunk, on an empty buffer.\<close>

lemma on_data_message:
  assumes "wf_json (JObj kvs)" "list_all (\<lambda>c. byte c < 128) (stringify (JObj kvs) @ [newline])"
    and "jget (JObj kvs) ''protocolVersion'' = Some THALWEG_PROTOCOL_VERSION" and "buffer c = []"
  shows "on_data (stringify (JObj kvs) @ [newline]) c = with_buffer [] (handle_message (JObj kvs) c)"
proof -
  let ?m = "JObj kvs"
  have parse: "json_parse (stringify ?m) = Some ?m" using assms(1) by (rule json_lines.decode_encode)
  have clean: "utf8_clean (stringify ?m @ [newline]) = stringify ?m @ [newline]"
    using assms(2) by (intro utf8_clean_valid ascii_valid) (auto simp: list_all_iff)
  have "split_on newline (stringify ?m @ newline # []) = stringify ?m # split_on newline []"
    by (rule split_on_line [OF stringify_no_newline(1)])
  moreover have "trim (stringify ?m) \<noteq> []" by (rule trim_keeps [of "CHR ''{''"]) (cases kvs, auto)
  ultimately show ?thesis using clean parse assms(3,4) by (simp add: on_data_parts)
qed

lemma demo_pushed_queue: "queuedSubscriptionEvents demo_pushed = [(Some (JStr ''s''), [Some (JBool True)])]"
proof -
  have "wf_json demo_push"
    by (simp add: demo_push_def THALWEG_PROTOCOL_VERSION_def norm_dec_canonical)
  moreover have "list_all (\<lambda>c. byte c < 128) (stringify demo_push @ [newline])" by code_simp
  ultimately have "demo_pushed = with_buffer [] (handle_message demo_push demo_sent)"
    unfolding demo_pushed_def demo_push_def by (intro on_data_message) simp_all
  moreover have "queuedSubscriptionEvents (handle_message demo_push demo_sent) = [(Some (JStr ''s''), [Some (JBool True)])]"
    by (simp add: handle_message_def push_event_def queue_limit_def demo_push_def)
  moreover have "queuedSubscriptionEvents (with_buffer [] d) = queuedSubscriptionEvents d" for d :: client
    by (rule with_buffer_fields)
  ultimately show ?thesis by metis
qed

theorem early_queues_bounded_witness:
  "\<exists>k es. (k, es) \<in> set (queuedSubscriptionEvents demo_pushed) \<and> es \<noteq> [] \<and> length es \<le> 128 \<and>
     map_get (subscriptions demo_pushed) k = None"
proof -
  have "client_step demo_sent demo_pushed"
    unfolding demo_pushed_def by (rule step_data [of 0]) simp_all
  with demo_sent_reachable have r: "client_step\<^sup>*\<^sup>* demo_new demo_pushed" by simp
  have m: "(Some (JStr ''s''), [Some (JBool True)]) \<in> set (queuedSubscriptionEvents demo_pushed)"
    by (simp add: demo_pushed_queue)
  from early_queues_bounded [OF demo_new_initial r m] m show ?thesis by blast
qed

text \<open>After \<open>unsubscribe\<close> the handler is never called for that subscription, but an event still on its
  way is queued under the dead id again, where nothing will ever take it out.\<close>

theorem unsubscribed_events_kept:
  assumes "event_message k m"
  shows "calls (handle_message m (fst (unsubscribe k c))) = calls c \<and>
     queued_for k (handle_message m (fst (unsubscribe k c))) = [jget m ''event'']"
proof -
  define d where "d = fst (unsubscribe k c)"
  have "map_get (subscriptions d) k = None" "queued_for k d = []"
    "calls d = calls c"
    by (simp_all add: d_def unsubscribe_def request_def case_prod_beta delete_conv' queued_for_def)
  with handle_event_unregistered [OF assms, of d] show ?thesis
    by (simp add: queue_limit_def d_def)
qed

theorem unsubscribed_events_kept_witness:
  "queued_for (Some (JStr ''sub'')) (handle_message (demo_event ''a'') (fst (unsubscribe (Some (JStr ''sub'')) demo_sent)))
     = [Some (JStr ''a'')]"
  using unsubscribed_events_kept [of "Some (JStr ''sub'')" "demo_event ''a''" demo_sent]
  by (simp add: event_message_def demo_event_def)

subsection \<open>Construction\<close>

text \<open>The constructor accepts exactly the finite positive timeouts, and 30 seconds when none is given.\<close>

theorem constructor_timeouts:
  "(case new_client path timeout of
      Inr c \<Rightarrow> requestTimeoutMs c = (case timeout of None \<Rightarrow> Fin (int_dec 30000) | Some t \<Rightarrow> t)
    | Inl e \<Rightarrow> e = PlainError ''requestTimeoutMs must be greater than zero.'') \<and>
   ((\<exists>c. new_client path timeout = Inr c) \<longleftrightarrow>
      (case timeout of Some (Fin d) \<Rightarrow> 0 < mantissa d | Some _ \<Rightarrow> False | None \<Rightarrow> True))"
  using norm_dec_sign [of 30000 0]
  by (auto simp: new_client_def Let_def is_finite_def not_positive_def split: option.split js_number.split)

end
