(* ===== verification/Siphon_Runs.thy ===== *)
theory Siphon_Runs
  imports Siphon Client_Properties
begin

text \<open>
  The continuous run of a siphon over the socket client: the invariant of its two promises and its
  stop call, and what it says of a lost connection and of a stop that fails.
\<close>

subsection \<open>The invariant\<close>

definition run_inv :: "client \<times> siphon_run \<Rightarrow> bool" where
  "run_inv cs \<longleftrightarrow> (case cs of (c, s) \<Rightarrow>
     (case sr_result s of
        None \<Rightarrow> sr_failures s = [] \<and> (\<forall>e. sr_ready s \<noteq> Some (Rejected e)) \<and> sr_stop s \<noteq> Stop_done (Resolved ())
      | Some (Inr _) \<Rightarrow> sr_stop s = Stop_done (Resolved ())
      | Some (Inl e) \<Rightarrow> (\<exists>es. sr_failures s = e # es) \<or> sr_ready s = Some (Rejected e)) \<and>
     (sr_stop s \<in> {Stop_done (Resolved ())} \<union> range Await_unregister \<longrightarrow> sr_ready s = Some (Resolved ())) \<and>
     (sr_stopped s \<longleftrightarrow> sr_stop s \<noteq> Not_stopping))"

definition starting_run :: "client \<times> siphon_run \<Rightarrow> bool" where
  "starting_run cs \<longleftrightarrow> (\<exists>b h c. cs = start_run b h c)"

lemma run_inv_start: "starting_run cs \<Longrightarrow> run_inv cs"
  by (auto simp: starting_run_def start_run_def run_inv_def)

lemma run_inv_step:
  assumes "run_inv cs" "run_step cs cs'"
  shows "run_inv cs'"
  using assms(2,1)
proof cases
  case (run_client c c' s)
  then show ?thesis using assms(1) by (simp add: run_inv_def)
next
  case (run_subscribed s r c)
  then show ?thesis using assms(1)
    by (cases r) (auto simp: run_inv_def subscription_settled_def settle_once_def split: option.splits sum.splits)
next
  case (run_callback s ev c e)
  then show ?thesis using assms(1)
    by (auto simp: run_inv_def callback_failed_def settle_once_def split: option.splits sum.splits)
next
  case (run_stop c s)
  then show ?thesis using assms(1)
    by (auto simp: run_inv_def call_stop_def split: option.splits sum.splits)
next
  case (run_resume s r c)
  then show ?thesis using assms(1)
    by (cases r) (auto simp: run_inv_def resume_stop_def finish_stop_def settle_once_def
        split: option.splits sum.splits prod.splits)
next
  case (run_unregistered s t c r)
  then show ?thesis using assms(1)
    by (cases r) (auto simp: run_inv_def unregister_settled_def finish_stop_def settle_once_def
        split: option.splits sum.splits)
qed

interpretation runs: state_machine run_step starting_run run_inv
  by unfold_locales (auto intro: run_inv_start run_inv_step)

text \<open>A finished stop stays finished, and a settled promise settled.\<close>

definition later_run :: "siphon_run \<Rightarrow> siphon_run \<Rightarrow> bool" where
  "later_run s s' \<longleftrightarrow>
     (\<forall>r. sr_stopped s \<longrightarrow> sr_stop s = Stop_done r \<longrightarrow> sr_stopped s' \<and> sr_stop s' = Stop_done r) \<and>
     (\<forall>r. sr_result s = Some r \<longrightarrow> sr_result s' = Some r) \<and>
     (\<forall>r. sr_ready s = Some r \<longrightarrow> sr_ready s' = Some r)"

lemma later_run_refl: "later_run s s"
  by (simp add: later_run_def)

lemma later_run_trans: "later_run s t \<Longrightarrow> later_run t u \<Longrightarrow> later_run s u"
  by (simp add: later_run_def)

lemma later_run_step: "run_step cs cs' \<Longrightarrow> later_run (snd cs) (snd cs')"
proof (erule run_step.cases)
  fix s r c assume "cs = (c, s)" "cs' = resume_stop r (c, s)" "sr_stop s = Await_ready"
  then show "later_run (snd cs) (snd cs')"
    by (cases r) (auto simp: later_run_def resume_stop_def finish_stop_def settle_once_def split: prod.split)
next
  fix s r c t assume "cs = (c, s)" "cs' = (c, unregister_settled r s)" "sr_stop s = Await_unregister t"
  then show "later_run (snd cs) (snd cs')"
    by (cases r) (auto simp: later_run_def unregister_settled_def finish_stop_def settle_once_def)
next
  fix s r and c :: client assume "cs = (c, s)" "cs' = (c, subscription_settled r s)" "sr_ready s = None"
  then show "later_run (snd cs) (snd cs')"
    by (cases r) (auto simp: later_run_def subscription_settled_def settle_once_def)
qed (auto simp: later_run_def callback_failed_def call_stop_def settle_once_def)

lemma later_run_steps: "run_step\<^sup>*\<^sup>* cs cs' \<Longrightarrow> later_run (snd cs) (snd cs')"
  by (induction rule: rtranclp_induct) (auto intro: later_run_refl later_run_trans later_run_step)

subsection \<open>A run of the step relation\<close>

text \<open>On the open connection of \<open>demo_sent\<close>: subscribe, send the request, receive the acceptance.\<close>

definition demo_siphon :: siphon_builder where
  "demo_siphon = new_siphon ''n'' [''a'']"

definition demo_run :: "client \<times> siphon_run" where
  "demo_run = start_run demo_siphon 7 demo_sent"

definition demo_registering :: client where
  "demo_registering = resume_request (hd (waiting (fst demo_run))) (fst demo_run)"

definition demo_accept :: json where
  "demo_accept = JObj [(''id'', JStr ''req_2''), (''protocolVersion'', THALWEG_PROTOCOL_VERSION),
     (''success'', JBool True), (''data'', JObj [(''subscriptionId'', JStr ''sub'')])]"

definition demo_accepted :: client where
  "demo_accepted = on_data (stringify demo_accept @ [newline]) demo_registering"

definition demo_subscribed :: client where
  "demo_subscribed = resume_subscribe 1 7 (Resolved (Some (JObj [(''subscriptionId'', JStr ''sub'')]))) demo_accepted"

definition demo_ready :: siphon_run where
  "demo_ready = subscription_settled (Resolved (Some (JStr ''sub''))) (snd demo_run)"

lemma demo_asked_more [simp]:
  "next_ticket demo_asked = 1" "subscribing demo_asked = []" "subscribed demo_asked = []"
proof -
  have "subscribed demo_new = []"
    using norm_dec_sign [of 30000 0]
    by (simp add: demo_new_def new_client_def Let_def is_finite_def not_positive_def)
  then show "next_ticket demo_asked = 1" "subscribing demo_asked = []" "subscribed demo_asked = []"
    by (simp_all add: demo_asked_def request_def connect_def socket_open_def Let_def)
qed

lemma demo_sent_rest [simp]:
  "nextId demo_sent = 1" "next_ticket demo_sent = 1" "waiting demo_sent = []"
  "subscribing demo_sent = []" "subscribed demo_sent = []"
  by (simp_all add: demo_sent_def resume_request_def Let_def connect_result_def send_request_def
      write_message_def socket_open_def update_socket_def fresh_socket_def demo_connected_def on_connect_def)

lemma demo_run_fields [simp]:
  "waiting (fst demo_run) = [\<lparr>wr_ticket = 1, wr_promise = None, wr_action = ''siphon_register'',
     wr_payload = JObj [(''network'', JStr ''n''), (''streams'', JArr [JStr ''a''])]\<rparr>]"
  "subscribing (fst demo_run) = [(1, 7)]" "sockets (fst demo_run) = sockets demo_sent"
  "socket (fst demo_run) = Some 0" "nextId (fst demo_run) = 1" "pending (fst demo_run) = pending demo_sent"
  "settled (fst demo_run) = []" "buffer (fst demo_run) = []" "subscribed (fst demo_run) = []"
  "sr_ticket (snd demo_run) = 1" "sr_handler (snd demo_run) = 7" "sr_ready (snd demo_run) = None"
  by (simp_all add: demo_run_def start_run_def demo_siphon_def new_siphon_def subscribe_def request_def
      connect_def socket_open_def)

lemma demo_registering_fields [simp]:
  "map_get (pending demo_registering) ''req_2'' = Some \<lparr>pr_action = ''siphon_register'', pr_ticket = 1\<rparr>"
  "settled demo_registering = []" "buffer demo_registering = []" "subscribing demo_registering = [(1, 7)]"
  "subscribed demo_registering = []" "length (sockets demo_registering) = 1"
  "ready_state (sockets demo_registering ! 0) = Open" "close_emitted (sockets demo_registering ! 0) = False"
  by (simp_all add: demo_registering_def resume_request_def Let_def connect_result_def send_request_def
      write_message_def socket_open_def update_socket_def request_id_2)

lemma demo_accepted_eq:
  "demo_accepted = with_buffer [] (settle 1 (Resolved (Some (JObj [(''subscriptionId'', JStr ''sub'')])))
     (clear_timeout ''req_2'' (demo_registering\<lparr>pending := map_delete ''req_2'' (pending demo_registering)\<rparr>)))"
proof -
  have "wf_json demo_accept"
    by (simp add: demo_accept_def THALWEG_PROTOCOL_VERSION_def norm_dec_canonical)
  moreover have "list_all (\<lambda>c. byte c < 128) (stringify demo_accept @ [newline])" by code_simp
  ultimately have "demo_accepted = with_buffer [] (handle_message demo_accept demo_registering)"
    unfolding demo_accepted_def demo_accept_def by (intro on_data_message) simp_all
  also have "handle_message demo_accept demo_registering =
      settle 1 (Resolved (Some (JObj [(''subscriptionId'', JStr ''sub'')])))
       (clear_timeout ''req_2'' (demo_registering\<lparr>pending := map_delete ''req_2'' (pending demo_registering)\<rparr>))"
    by (simp add: handle_message_def receive_response_def demo_accept_def response_result_def)
  finally show ?thesis .
qed

lemma demo_accepted_fields [simp]:
  "settled demo_accepted = [(1, Resolved (Some (JObj [(''subscriptionId'', JStr ''sub'')])))]"
  "subscribing demo_accepted = [(1, 7)]" "subscribed demo_accepted = []"
  "sockets demo_accepted = sockets demo_registering" "buffer demo_accepted = []"
  by (simp_all add: demo_accepted_eq settle_def clear_timeout_def with_buffer_def)

lemma demo_subscribed_fields [simp]:
  "subscribed demo_subscribed = [(1, Resolved (Some (JStr ''sub'')))]"
  "sockets demo_subscribed = sockets demo_registering"
  by (simp_all add: demo_subscribed_def resume_subscribe_def register_handler_def Let_def nullish_def)

lemma demo_run_reaches: "run_step\<^sup>*\<^sup>* demo_run (demo_subscribed, demo_ready)"
proof -
  have w: "hd (waiting (fst demo_run)) \<in> set (waiting (fst demo_run))" by simp
  have "client_step (fst demo_run) demo_registering"
    unfolding demo_registering_def by (rule step_resume [OF w]) (simp add: connect_result_def)
  moreover have "client_step demo_registering demo_accepted"
    unfolding demo_accepted_def by (rule step_data [of 0]) simp_all
  moreover have "client_step demo_accepted demo_subscribed"
    unfolding demo_subscribed_def by (rule step_subscribed) simp_all
  moreover have "run_step (demo_subscribed, snd demo_run) (demo_subscribed, demo_ready)"
    unfolding demo_ready_def by (rule run_subscribed) simp_all
  ultimately show ?thesis
    by (metis (no_types, lifting) run_client converse_rtranclp_into_rtranclp rtranclp.rtrancl_refl surjective_pairing)
qed

subsection \<open>Properties\<close>

text \<open>C10: the \<open>result\<close> of a siphon that could subscribe and whose callback has not failed stays pending
  until a \<open>stop\<close> call has completed, and resolves with it: neither a lost connection nor a stop that
  fails settles it.\<close>

theorem result_waits_for_stop:
  assumes "run_step\<^sup>*\<^sup>* (start_run b h c) (d, s)"
    and "sr_ready s = Some (Resolved ())" and "sr_failures s = []"
  shows "sr_result s = (if sr_stop s = Stop_done (Resolved ()) then Some (Resolved ()) else None)"
proof -
  have "run_inv (d, s)"
    by (rule runs.reachable_inv [OF _ assms(1)]) (auto simp: starting_run_def)
  with assms(2,3) show ?thesis
    by (auto simp: run_inv_def split: option.splits sum.splits)
qed

theorem result_waits_for_stop_witness:
  "run_step\<^sup>*\<^sup>* demo_run (on_close 0 demo_subscribed, demo_ready) \<and> sr_result demo_ready = None"
proof -
  have "client_step demo_subscribed (on_close 0 demo_subscribed)" by (rule step_close) simp_all
  with demo_run_reaches have r: "run_step\<^sup>*\<^sup>* demo_run (on_close 0 demo_subscribed, demo_ready)"
    by (auto intro: rtranclp.rtrancl_into_rtrancl run_client)
  have "sr_ready demo_ready = Some (Resolved ())" "sr_failures demo_ready = []"
    "sr_stop demo_ready = Not_stopping"
    by (simp_all add: demo_ready_def demo_run_def start_run_def subscription_settled_def)
  with result_waits_for_stop [OF r [unfolded demo_run_def]] r show ?thesis by simp
qed

text \<open>C11: a rejected \<open>result\<close> carries the first error of the callback or the error of the subscription,
  a resolved one means that the run was stopped after it had subscribed, and either is final.\<close>

theorem result_settles_once:
  assumes "run_step\<^sup>*\<^sup>* (start_run b h c) (d, s)" and "sr_result s = Some r"
  shows "(case r of
      Inr _ \<Rightarrow> sr_stopped s \<and> sr_stop s = Stop_done (Resolved ()) \<and> sr_ready s = Some (Resolved ())
    | Inl e \<Rightarrow> (\<exists>es. sr_failures s = e # es) \<or> sr_ready s = Some (Rejected e)) \<and>
    (\<forall>d' s'. run_step\<^sup>*\<^sup>* (d, s) (d', s') \<longrightarrow> sr_result s' = Some r)"
proof -
  have "run_inv (d, s)"
    by (rule runs.reachable_inv [OF _ assms(1)]) (auto simp: starting_run_def)
  then have "case r of
      Inr _ \<Rightarrow> sr_stopped s \<and> sr_stop s = Stop_done (Resolved ()) \<and> sr_ready s = Some (Resolved ())
    | Inl e \<Rightarrow> (\<exists>es. sr_failures s = e # es) \<or> sr_ready s = Some (Rejected e)"
    using assms(2) by (auto simp: run_inv_def split: sum.splits)
  moreover have "sr_result s' = Some r" if "run_step\<^sup>*\<^sup>* (d, s) (d', s')" for d' s'
    using later_run_steps [OF that] assms(2) by (simp add: later_run_def)
  ultimately show ?thesis by blast
qed

text \<open>A \<open>stop\<close> whose unregister request fails, as it does when the connection is gone, rejects and
  leaves \<open>result\<close> pending for good: calling it again does nothing, and only a failing callback can
  settle the run any more.\<close>

theorem failed_stop_hangs:
  assumes "run_step\<^sup>*\<^sup>* (start_run b h c) (d, s)"
    and "sr_stop s = Await_unregister t" and "(t, Rejected e) \<in> set (settled d)"
    and "run_step\<^sup>*\<^sup>* (d, unregister_settled (Rejected e) s) (d', s')" and "sr_failures s' = []"
  shows "sr_stop s' = Stop_done (Rejected e) \<and> sr_result s' = None \<and> call_stop s' = s'"
proof -
  let ?u = "unregister_settled (Rejected e) s"
  have inv: "run_inv (d, s)"
    by (rule runs.reachable_inv [OF _ assms(1)]) (auto simp: starting_run_def)
  have step: "run_step (d, s) (d, ?u)" by (rule run_unregistered [OF assms(2,3)])
  from inv assms(2) have u: "sr_stopped ?u" "sr_stop ?u = Stop_done (Rejected e)" "sr_ready ?u = Some (Resolved ())"
    by (auto simp: run_inv_def unregister_settled_def)
  from later_run_steps [OF assms(4)] u
  have s': "sr_stopped s'" "sr_stop s' = Stop_done (Rejected e)" "sr_ready s' = Some (Resolved ())"
    by (simp_all add: later_run_def)
  have "run_inv (d', s')"
    by (rule runs.inv_steps [OF assms(4) runs.inv_step [OF inv step]])
  with s' assms(5) show ?thesis
    by (auto simp: run_inv_def call_stop_def split: option.splits sum.splits)
qed

text \<open>The witness: the daemon closes the connection while the unregister request is pending.\<close>

definition demo_stopping :: "client \<times> siphon_run" where
  "demo_stopping = resume_stop (Resolved ()) (demo_subscribed, call_stop demo_ready)"

definition demo_unregistering :: client where
  "demo_unregistering = resume_request (hd (waiting (fst demo_stopping))) (fst demo_stopping)"

definition demo_cut :: client where
  "demo_cut = on_close 0 demo_unregistering"

lemma demo_subscribed_more [simp]:
  "waiting demo_subscribed = []" "next_ticket demo_subscribed = 2" "nextId demo_subscribed = 2"
  "pending demo_subscribed = [(''req_1'', \<lparr>pr_action = ''network_status'', pr_ticket = 0\<rparr>)]"
  "socket demo_subscribed = Some 0"
  by (simp_all add: demo_subscribed_def resume_subscribe_def register_handler_def Let_def nullish_def
      demo_accepted_eq settle_def clear_timeout_def with_buffer_def demo_registering_def
      resume_request_def connect_result_def send_request_def write_message_def socket_open_def
      update_socket_def request_id_2 demo_run_def start_run_def subscribe_def request_def connect_def
      case_prod_beta)

lemma demo_stopping_fields [simp]:
  "waiting (fst demo_stopping) = [\<lparr>wr_ticket = 2, wr_promise = None, wr_action = ''siphon_unregister'',
     wr_payload = JObj [(''subscriptionId'', JStr ''sub'')]\<rparr>]"
  "sr_stop (snd demo_stopping) = Await_unregister 2" "sr_failures (snd demo_stopping) = []"
  "sockets (fst demo_stopping) = sockets demo_registering" "socket (fst demo_stopping) = Some 0"
  "pending (fst demo_stopping) = [(''req_1'', \<lparr>pr_action = ''network_status'', pr_ticket = 0\<rparr>)]"
  by (simp_all add: demo_stopping_def resume_stop_def call_stop_def demo_ready_def subscription_settled_def
      demo_run_def start_run_def unsubscribe_def request_def connect_def socket_open_def jobject_def
      List.map_filter_def case_prod_beta)

lemma demo_cut_settled: "(2, Rejected (PlainError ''Thalweg daemon connection closed.'')) \<in> set (settled demo_cut)"
  by (simp add: demo_cut_def on_close_def fail_pending_def demo_unregistering_def resume_request_def
      connect_result_def send_request_def write_message_def socket_open_def Let_def update_socket_def
      settle_def clear_timeout_def)

lemma demo_cut_reached: "run_step\<^sup>*\<^sup>* demo_run (demo_cut, snd demo_stopping)"
proof -
  have "run_step (demo_subscribed, demo_ready) (demo_subscribed, call_stop demo_ready)" by (rule run_stop)
  moreover have "run_step (demo_subscribed, call_stop demo_ready) demo_stopping"
    unfolding demo_stopping_def
    by (rule run_resume) (simp_all add: demo_ready_def call_stop_def subscription_settled_def
        demo_run_def start_run_def)
  moreover have "client_step (fst demo_stopping) demo_unregistering"
    unfolding demo_unregistering_def by (rule step_resume) (simp_all add: connect_result_def)
  moreover have "client_step demo_unregistering demo_cut"
    unfolding demo_cut_def
    by (rule step_close) (simp_all add: demo_unregistering_def resume_request_def connect_result_def
        send_request_def write_message_def socket_open_def Let_def update_socket_def)
  ultimately show ?thesis
    using demo_run_reaches
    by (metis (no_types, lifting) run_client rtranclp.rtrancl_into_rtrancl surjective_pairing)
qed

theorem failed_stop_hangs_witness:
  "sr_result (unregister_settled (Rejected (PlainError ''Thalweg daemon connection closed.'')) (snd demo_stopping)) = None"
proof -
  have "sr_failures (unregister_settled (Rejected e) (snd demo_stopping)) = []" for e
    by (simp add: unregister_settled_def)
  with failed_stop_hangs [OF demo_cut_reached [unfolded demo_run_def], of 2 "PlainError ''Thalweg daemon connection closed.''"]
    demo_cut_settled show ?thesis by auto
qed

text \<open>An event reaches the callback, which throws.\<close>

definition demo_note :: json where
  "demo_note = JObj [(''protocolVersion'', THALWEG_PROTOCOL_VERSION), (''type'', JStr ''event''),
     (''subscriptionId'', JStr ''sub''), (''event'', JBool True)]"

definition demo_noted :: client where
  "demo_noted = on_data (stringify demo_note @ [newline]) demo_subscribed"

lemma demo_noted_call: "(7, Some (JBool True)) \<in> set (calls demo_noted)"
proof -
  have s: "map_get (subscriptions demo_subscribed) (Some (JStr ''sub'')) = Some 7" "buffer demo_subscribed = []"
    by (simp_all add: demo_subscribed_def resume_subscribe_def register_handler_def Let_def nullish_def update_conv')
  have "wf_json demo_note"
    by (simp add: demo_note_def THALWEG_PROTOCOL_VERSION_def norm_dec_canonical)
  moreover have "list_all (\<lambda>c. byte c < 128) (stringify demo_note @ [newline])" by code_simp
  ultimately have n: "demo_noted = with_buffer [] (handle_message demo_note demo_subscribed)"
    using s(2) unfolding demo_noted_def demo_note_def by (intro on_data_message) simp_all
  have "(7, Some (JBool True)) \<in> set (calls (handle_message demo_note demo_subscribed))"
    using s(1) by (simp add: handle_message_def push_event_def demo_note_def)
  moreover have "calls (with_buffer [] d) = calls d" for d :: client by (rule with_buffer_fields)
  ultimately show ?thesis using n by metis
qed

theorem result_settles_once_witness:
  "run_step\<^sup>*\<^sup>* demo_run (demo_noted, callback_failed TypeErr demo_ready) \<and>
   sr_result (callback_failed TypeErr demo_ready) = Some (Rejected TypeErr) \<and>
   (\<exists>es. sr_failures (callback_failed TypeErr demo_ready) = TypeErr # es)"
proof -
  have "client_step demo_subscribed demo_noted"
    unfolding demo_noted_def by (rule step_data [of 0]) simp_all
  moreover have "run_step (demo_noted, demo_ready) (demo_noted, callback_failed TypeErr demo_ready)"
  proof (rule run_callback)
    show "(sr_handler demo_ready, Some (JBool True)) \<in> set (calls demo_noted)"
      using demo_noted_call by (simp add: demo_ready_def subscription_settled_def)
  qed
  ultimately have r: "run_step\<^sup>*\<^sup>* demo_run (demo_noted, callback_failed TypeErr demo_ready)"
    using demo_run_reaches by (metis run_client rtranclp.rtrancl_into_rtrancl)
  have x: "sr_result (callback_failed TypeErr demo_ready) = Some (Rejected TypeErr)"
    "sr_ready (callback_failed TypeErr demo_ready) = Some (Resolved ())"
    by (simp_all add: callback_failed_def demo_ready_def subscription_settled_def demo_run_def
        start_run_def settle_once_def)
  from result_settles_once [OF r [unfolded demo_run_def] x(1)] r x show ?thesis by simp
qed

end
