(* ===== verification/Daemon_Store.thy ===== *)
theory Daemon_Store
  imports Sdk
begin

text \<open>
  The daemon's \<open>event_ingest\<close> action (\<open>core/daemon/daemon.go\<close>), as far as the SDK's retry depends
  on it: the lookup by event id, the check of a repeated id against the stored event, the commit.
  Go's JSON and time normalisation, its clock and random ids are parameters (\<open>go_env\<close>), and the
  local connection between SDK and daemon may lose a request or its answer (\<open>fate\<close>). A locale
  states what makes a retry safe; it is interpreted on the daemon.
\<close>

subsection \<open>The event store\<close>

record stored_event =
  se_id :: string
  se_network :: string
  se_stream :: string
  se_occurredAt :: string
  se_tick :: nat
  se_payload :: json

record daemon =
  events :: "(string \<times> string, stored_event) js_map"
  ticks :: nat

datatype ingest_error =
    BadArguments | ReservedStream | NetworkRequired | StreamRequired | BadTimestamp | DifferentContent

text \<open>
  \<open>clock\<close> and \<open>random_id\<close> give the wall time and the fresh id of the n-th call; \<open>hlc\<close> its hybrid
  logical clock reading.
\<close>

record go_env =
  norm_payload :: "json \<Rightarrow> json"
  norm_time :: "string \<Rightarrow> string option"
  clock :: "nat \<Rightarrow> string"
  random_id :: "nat \<Rightarrow> string"
  hlc :: "nat \<Rightarrow> string \<times> nat"
  device_id :: string
  error_text :: "ingest_error \<Rightarrow> string"

definition conflict_resolution_stream :: string where
  "conflict_resolution_stream = ''system:conflict_resolution''"

definition validate_idempotent_retry ::
  "go_env \<Rightarrow> stored_event \<Rightarrow> string \<Rightarrow> string \<Rightarrow> bool \<Rightarrow> json \<Rightarrow> ingest_error option" where
  "validate_idempotent_retry g existing stream occurredAt provided payload =
     (case norm_time g (se_occurredAt existing) of
        None \<Rightarrow> Some BadTimestamp
      | Some existingOccurredAt \<Rightarrow>
          if se_stream existing \<noteq> stream \<or> provided \<and> existingOccurredAt \<noteq> occurredAt
             \<or> norm_payload g (se_payload existing) \<noteq> payload
          then Some DifferentContent else None)"

definition ingest_internal ::
  "go_env \<Rightarrow> daemon \<Rightarrow> string \<Rightarrow> string \<Rightarrow> string \<Rightarrow> string \<Rightarrow> json \<Rightarrow>
   daemon \<times> (ingest_error + stored_event)" where
  "ingest_internal g d net stream occurredAt eventID payload =
     (if net = [] then (d, Inl NetworkRequired)
      else if stream = [] then (d, Inl StreamRequired)
      else
        (let payload' = norm_payload g payload;
             given = (if occurredAt = [] then clock g (ticks d) else occurredAt)
         in case norm_time g given of
              None \<Rightarrow> (d, Inl BadTimestamp)
            | Some at \<Rightarrow>
                (let eid = (if eventID = [] then random_id g (ticks d) else eventID);
                     d' = d\<lparr>ticks := Suc (ticks d)\<rparr>
                 in case map_get (events d) (net, eid) of
                      Some existing \<Rightarrow>
                        (case validate_idempotent_retry g existing stream at (occurredAt \<noteq> []) payload' of
                           Some e \<Rightarrow> (d', Inl e)
                         | None \<Rightarrow> (d', Inr existing))
                    | None \<Rightarrow>
                        (let event = \<lparr>se_id = eid, se_network = net, se_stream = stream,
                                      se_occurredAt = at, se_tick = ticks d, se_payload = payload'\<rparr>
                         in (d'\<lparr>events := map_set (net, eid) event (events d')\<rparr>, Inr event)))))"

definition daemon_ingest ::
  "go_env \<Rightarrow> daemon \<Rightarrow> string \<Rightarrow> string \<Rightarrow> string \<Rightarrow> string \<Rightarrow> json \<Rightarrow>
   daemon \<times> (ingest_error + stored_event)" where
  "daemon_ingest g d net stream occurredAt eventID payload =
     (if stream = conflict_resolution_stream then (d, Inl ReservedStream)
      else ingest_internal g d net stream occurredAt eventID payload)"

subsection \<open>The action\<close>

text \<open>\<open>json.Unmarshal\<close> into a string field: absent and null leave it empty, other types are errors.\<close>

definition string_field :: "json \<Rightarrow> string \<Rightarrow> string option" where
  "string_field m k =
     (case jget m k of None \<Rightarrow> Some [] | Some JNull \<Rightarrow> Some [] | Some (JStr s) \<Rightarrow> Some s | _ \<Rightarrow> None)"

definition event_json :: "go_env \<Rightarrow> stored_event \<Rightarrow> json" where
  "event_json g e =
     JObj [(''id'', JStr (se_id e)), (''network'', JStr (se_network e)), (''stream'', JStr (se_stream e)),
           (''occurredAt'', JStr (se_occurredAt e)), (''insertedAt'', JStr (fst (hlc g (se_tick e)))),
           (''propagatedAt'', JStr (fst (hlc g (se_tick e)))),
           (''counter'', jint (int (snd (hlc g (se_tick e))))), (''deviceId'', JStr (device_id g)),
           (''payload'', se_payload e)]"

definition ingest_failure :: "go_env \<Rightarrow> ingest_error \<Rightarrow> js_error" where
  "ingest_failure g e =
     ThalwegDaemonError ''event_ingest'' (JStr ''action_failed'') (error_text g e) (JBool False)"

definition event_ingest :: "go_env \<Rightarrow> daemon \<Rightarrow> json \<Rightarrow> daemon \<times> outcome" where
  "event_ingest g d m =
     (case (string_field m ''network'', string_field m ''stream'', string_field m ''occurredAt'',
            string_field m ''eventId'') of
        (Some net, Some stream, Some at, Some eid) \<Rightarrow>
          (case daemon_ingest g d net stream at eid (coalesce_or (jget m ''payload'') JNull) of
             (d', Inl e) \<Rightarrow> (d', Rejected (ingest_failure g e))
           | (d', Inr e) \<Rightarrow> (d', Resolved (Some (event_json g e))))
      | _ \<Rightarrow> (d, Rejected (ingest_failure g BadArguments)))"

subsection \<open>A connection that loses messages\<close>

text \<open>
  What happens to one request: it never reaches the daemon, the daemon handles it and the answer is
  lost, or it is answered. The client then rejects with an error of its own (closed, timed out).
\<close>

datatype fate = Lost string | Answer_lost string | Answered

definition deliver :: "('s \<Rightarrow> json \<Rightarrow> 's \<times> outcome) \<Rightarrow> fate list \<times> 's \<Rightarrow> string \<Rightarrow> json \<Rightarrow>
    (fate list \<times> 's) \<times> outcome" where
  "deliver handle = (\<lambda>(fs, s) action m.
     case fs of
       Lost e # fs' \<Rightarrow> ((fs', s), Rejected (PlainError e))
     | Answer_lost e # fs' \<Rightarrow> ((fs', fst (handle s m)), Rejected (PlainError e))
     | Answered # fs' \<Rightarrow> (case handle s m of (s', r) \<Rightarrow> ((fs', s'), r))
     | [] \<Rightarrow> (case handle s m of (s', r) \<Rightarrow> (([], s'), r)))"

text \<open>
  What a client that retries once relies on: handling the same message again changes nothing the
  observer sees, and a success means that the message has taken effect.
\<close>

locale retry_safe =
  fixes handle :: "'s \<Rightarrow> json \<Rightarrow> 's \<times> outcome"
    and view :: "'s \<Rightarrow> 'v"
    and identified :: "json \<Rightarrow> bool"
    and recorded :: "json \<Rightarrow> 'v \<Rightarrow> json option \<Rightarrow> bool"
  assumes handle_twice: "identified m \<Longrightarrow>
      view (fst (handle (fst (handle s m)) m)) = view (fst (handle s m))"
    and handle_recorded: "identified m \<Longrightarrow> snd (handle s m) = Resolved v \<Longrightarrow>
      recorded m (view (fst (handle s m))) v"
begin

lemma deliver_state: "snd (fst (deliver handle (fs, s) a m)) \<in> {s, fst (handle s m)}"
  by (auto simp: deliver_def split: list.split fate.split prod.split)

lemma deliver_resolved:
  assumes "identified m" and "snd (deliver handle (fs, s) a m) = Resolved v"
  shows "recorded m (view (snd (fst (deliver handle (fs, s) a m)))) v"
  using assms(2) handle_recorded [OF assms(1), of s]
  by (auto simp: deliver_def split: list.splits fate.splits prod.splits)

lemma deliver_twice:
  assumes "identified m" and "s' \<in> {s, fst (handle s m)}"
  shows "view (snd (fst (deliver handle (fs, s') a m))) \<in> {view s, view (fst (handle s m))}"
  using deliver_state [of fs s' a m] assms(2) handle_twice [OF assms(1), of s] by auto

lemma retry_view:
  assumes "identified m"
  shows "view (snd (fst (run_with (deliver handle) (request_retrying a m) (fs, s))))
    \<in> {view s, view (fst (handle s m))}"
proof -
  obtain fs1 s1 r where d: "deliver handle (fs, s) a m = ((fs1, s1), r)" by (metis surj_pair)
  have s1: "s1 \<in> {s, fst (handle s m)}" using deliver_state [of fs s a m] d by simp
  show ?thesis
    using s1 deliver_twice [OF assms s1, of fs1 a] d
    by (auto simp: request_retrying_def call_def finish_def split: sum.split prod.split)
qed

lemma retry_recorded:
  assumes "identified m"
    and "run_with (deliver handle) (request_retrying a m) (fs, s) = ((fs', s'), Resolved v)"
  shows "recorded m (view s') v"
proof -
  obtain fs1 s1 r where d: "deliver handle (fs, s) a m = ((fs1, s1), r)" by (metis surj_pair)
  show ?thesis
  proof (cases r)
    case (Inr w)
    with assms(2) d deliver_resolved [OF assms(1), of fs s a w] show ?thesis
      by (simp add: request_retrying_def)
  next
    case (Inl e)
    with assms(2) d have "\<not> final_error e" by (auto simp: request_retrying_def split: if_splits)
    with assms(2) d Inl have "deliver handle (fs1, s1) a m = ((fs', s'), Resolved v)"
      by (auto simp: request_retrying_def call_def finish_def split: prod.splits sum.splits)
    then show ?thesis using deliver_resolved [OF assms(1), of fs1 s1 a v] by simp
  qed
qed

end

subsection \<open>The daemon is safe to retry\<close>

definition identified_event :: "json \<Rightarrow> bool" where
  "identified_event m \<longleftrightarrow>
     (case jget m ''eventId'' of Some (JStr e) \<Rightarrow> e \<noteq> [] | _ \<Rightarrow> False)"

definition event_key :: "json \<Rightarrow> (string \<times> string) option" where
  "event_key m =
     (case (string_field m ''network'', string_field m ''eventId'') of
        (Some net, Some eid) \<Rightarrow> Some (net, eid) | _ \<Rightarrow> None)"

definition recorded_event ::
  "go_env \<Rightarrow> json \<Rightarrow> (string \<times> string, stored_event) js_map \<Rightarrow> json option \<Rightarrow> bool" where
  "recorded_event g m evs v \<longleftrightarrow>
     (case event_key m of None \<Rightarrow> False
      | Some key \<Rightarrow>
          (case map_get evs key of None \<Rightarrow> False | Some e \<Rightarrow> v = Some (event_json g e)))"

text \<open>An ingest with an id either leaves the store, or appends one event under a key it did not hold.\<close>

lemma daemon_ingest_events:
  assumes "eid \<noteq> []"
  shows "events (fst (daemon_ingest g d net stream at eid p)) = events d \<or>
     map_get (events d) (net, eid) = None \<and>
     (\<exists>e. events (fst (daemon_ingest g d net stream at eid p)) = map_set (net, eid) e (events d))"
  using assms
  by (auto simp: daemon_ingest_def ingest_internal_def Let_def split: option.split)

lemma daemon_ingest_present:
  "eid \<noteq> [] \<Longrightarrow> map_get (events d) (net, eid) = Some e \<Longrightarrow>
     events (fst (daemon_ingest g d net stream at eid p)) = events d"
  using daemon_ingest_events [of eid g d net stream at p] by auto

lemma daemon_ingest_resolved:
  "eid \<noteq> [] \<Longrightarrow> snd (daemon_ingest g d net stream at eid p) = Inr e \<Longrightarrow>
     map_get (events (fst (daemon_ingest g d net stream at eid p))) (net, eid) = Some e"
  by (auto simp: daemon_ingest_def ingest_internal_def Let_def update_conv' split: if_splits option.splits)

lemma daemon_ingest_refused:
  "eid \<noteq> [] \<Longrightarrow> snd (daemon_ingest g d net stream at eid p) = Inl e \<Longrightarrow>
     fst (daemon_ingest g d net stream at eid p) = d \<or> (\<exists>e'. map_get (events d) (net, eid) = Some e')"
  by (auto simp: daemon_ingest_def ingest_internal_def Let_def split: if_splits option.splits)

lemma daemon_ingest_twice:
  assumes "eid \<noteq> []"
  shows "events (fst (daemon_ingest g (fst (daemon_ingest g d net stream at eid p)) net stream at eid p))
    = events (fst (daemon_ingest g d net stream at eid p))"
proof (cases "snd (daemon_ingest g d net stream at eid p)")
  case (Inr e)
  then show ?thesis using daemon_ingest_resolved [OF assms] daemon_ingest_present [OF assms] by blast
next
  case (Inl e)
  then consider "fst (daemon_ingest g d net stream at eid p) = d"
    | e' where "map_get (events d) (net, eid) = Some e'"
    using daemon_ingest_refused [OF assms] by blast
  then show ?thesis
  proof cases
    case 1
    then show ?thesis by simp
  next
    case 2
    then show ?thesis using daemon_ingest_present [OF assms] by metis
  qed
qed

lemma event_ingest_cases:
  obtains (bad) "event_ingest g d m = (d, Rejected (ingest_failure g BadArguments))"
      "string_field m ''network'' = None \<or> string_field m ''stream'' = None \<or>
       string_field m ''occurredAt'' = None \<or> string_field m ''eventId'' = None"
  | (good) net stream at eid p where
      "string_field m ''network'' = Some net" "string_field m ''stream'' = Some stream"
      "string_field m ''occurredAt'' = Some at" "string_field m ''eventId'' = Some eid"
      "p = coalesce_or (jget m ''payload'') JNull"
      "\<And>d. event_ingest g d m =
         (fst (daemon_ingest g d net stream at eid p),
          case snd (daemon_ingest g d net stream at eid p) of
            Inl e \<Rightarrow> Rejected (ingest_failure g e) | Inr e \<Rightarrow> Resolved (Some (event_json g e)))"
proof (cases "string_field m ''network'' = None \<or> string_field m ''stream'' = None \<or>
       string_field m ''occurredAt'' = None \<or> string_field m ''eventId'' = None")
  case True
  then show ?thesis by (intro bad) (auto simp: event_ingest_def split: option.split)
next
  case False
  then obtain net stream at eid where
    "string_field m ''network'' = Some net" "string_field m ''stream'' = Some stream"
    "string_field m ''occurredAt'' = Some at" "string_field m ''eventId'' = Some eid" by auto
  then show ?thesis by (intro good) (auto simp: event_ingest_def split: prod.split sum.split)
qed

lemma identified_event_id:
  "identified_event m \<Longrightarrow> string_field m ''eventId'' = Some eid \<Longrightarrow> eid \<noteq> []"
  by (auto simp: identified_event_def string_field_def split: option.splits json.splits)

lemma event_ingest_events:
  assumes "identified_event m"
  shows "events (fst (event_ingest g d m)) = events d \<or>
    (\<exists>key e. event_key m = Some key \<and> map_get (events d) key = None \<and>
       events (fst (event_ingest g d m)) = events d @ [(key, e)])"
proof (cases rule: event_ingest_cases [where m = m and g = g and d = d])
  case bad
  then show ?thesis by simp
next
  case (good net stream at eid p)
  then show ?thesis
    using daemon_ingest_events [of eid g d net stream at p] identified_event_id [OF assms]
    by (auto simp: event_key_def update_new_append map_of_eq_None_iff)
qed

interpretation retry: retry_safe "event_ingest g" events identified_event "recorded_event g" for g
proof
  fix m :: json and s :: daemon
  assume m: "identified_event m"
  show "events (fst (event_ingest g (fst (event_ingest g s m)) m)) = events (fst (event_ingest g s m))"
  proof (cases rule: event_ingest_cases [where m = m and g = g and d = s])
    case bad
    then show ?thesis by simp
  next
    case (good net stream at eid p)
    then show ?thesis using daemon_ingest_twice [of eid] identified_event_id [OF m] by simp
  qed
next
  fix m :: json and s :: daemon and v
  assume m: "identified_event m" and r: "snd (event_ingest g s m) = Resolved v"
  show "recorded_event g m (events (fst (event_ingest g s m))) v"
  proof (cases rule: event_ingest_cases [where m = m and g = g and d = s])
    case bad
    with r show ?thesis by simp
  next
    case (good net stream at eid p)
    moreover from good r obtain e where "snd (daemon_ingest g s net stream at eid p) = Inr e"
      and "v = Some (event_json g e)" by (auto split: sum.splits)
    ultimately show ?thesis
      using daemon_ingest_resolved [of eid g s net stream at p e] identified_event_id [OF m]
      by (simp add: recorded_event_def event_key_def)
  qed
qed

end
