(* ===== verification/Sdk_Properties.thy ===== *)
theory Sdk_Properties
  imports Siphon Daemon_Store
begin

text \<open>
  Properties of the SDK's \<open>Thalweg\<close> class and its siphons, each with an instance: what \<open>ingest\<close>
  sends and what the daemon's store holds afterwards, which streams a siphon asks for, and when the
  promises of a run settle.
\<close>

subsection \<open>Ingest\<close>

definition demo_thalweg :: thalweg where
  "demo_thalweg =
     \<lparr>config = \<lparr>tc_socket = ''s'', tc_network = ''n'', tc_requestTimeoutMs = None\<rparr>,
      client = (case new_client ''s'' None of Inr c \<Rightarrow> c | Inl e \<Rightarrow> undefined),
      basins = [(''timeline'', [''a'', ''b''])]\<rparr>"

definition demo_go :: go_env where
  "demo_go =
     \<lparr>norm_payload = (\<lambda>p. p), norm_time = Some, clock = (\<lambda>n. ''t''),
      random_id = (\<lambda>n. ''evt_'' @ show_nat n), hlc = (\<lambda>n. (''t'', n)), device_id = ''dev'',
      error_text = (\<lambda>e. ''refused'')\<rparr>"

lemma ingest_payload_fields [simp]:
  "jget (ingest_payload t stream p opts eid) ''network'' = Some (JStr (network_of t))"
  "jget (ingest_payload t stream p opts eid) ''stream'' = Some (JStr stream)"
  "jget (ingest_payload t stream p opts eid) ''payload'' = p"
  "jget (ingest_payload t stream p opts eid) ''eventId'' = Some (JStr eid)"
  "jget (ingest_payload t stream p opts eid) ''occurredAt''
     = map_option JStr (Option.bind opts io_occurredAt)"
  by (simp_all add: ingest_payload_def jget_jobject)


text \<open>A response that fails a request is final unless its error details say it is retryable; the
  errors of the client itself (closed, timed out, malformed input) are never final.\<close>

theorem final_errors:
  "(final_error (response_error action m) \<longleftrightarrow>
      \<not> truthy (Some (coalesce_or (opt_get (jget m ''errorDetails'') ''retryable'') (JBool False)))) \<and>
   \<not> final_error (PlainError s) \<and> \<not> final_error TypeErr"
  by (simp add: final_error_def response_error_def Let_def)

text \<open>C9: over a connection that loses requests and answers, an \<open>ingest\<close> with a non-empty event id
  adds to the daemon's store at most one event, under that id, never replaces one, and when it
  resolves, it resolves to the event the store holds under that id.\<close>

theorem ingest_exactly_once:
  assumes "ingest_event_id opts uuid \<noteq> []"
    and "run_with (deliver (event_ingest g)) (ingest t uuid stream payload opts) (fates, d) = ((fates', d'), r)"
  shows "(events d' = events d \<or>
      map_get (events d) (network_of t, ingest_event_id opts uuid) = None \<and>
      (\<exists>e. events d' = events d @ [((network_of t, ingest_event_id opts uuid), e)])) \<and>
    (\<forall>v. r = Resolved v \<longrightarrow>
      (\<exists>e. map_get (events d') (network_of t, ingest_event_id opts uuid) = Some e \<and> v = Some (event_json g e)))"
proof -
  define m where "m = ingest_payload t stream payload opts (ingest_event_id opts uuid)"
  have id: "identified_event m" using assms(1) by (simp add: identified_event_def m_def)
  have ev: "events d' = events d \<or> events d' = events (fst (event_ingest g d m))"
    using retry.retry_view [OF id, of g "''event_ingest''" fates d] assms(2)
    by (simp add: ingest_def m_def)
  have one: "events (fst (event_ingest g d m)) = events d \<or>
      map_get (events d) (network_of t, ingest_event_id opts uuid) = None \<and>
      (\<exists>e. events (fst (event_ingest g d m)) = events d @ [((network_of t, ingest_event_id opts uuid), e)])"
    using event_ingest_events [OF id, of g d] by (simp add: m_def event_key_def string_field_def)
  have "recorded_event g m (events d') v" if "r = Resolved v" for v
    using retry.retry_recorded [OF id, of g "''event_ingest''" fates d fates' d' v] assms(2) that
    by (simp add: ingest_def m_def)
  then have "\<exists>e. map_get (events d') (network_of t, ingest_event_id opts uuid) = Some e \<and> v = Some (event_json g e)"
    if "r = Resolved v" for v
    using that by (auto simp: recorded_event_def event_key_def string_field_def m_def split: option.splits)
  with ev one show ?thesis by metis
qed

theorem ingest_exactly_once_witness:
  "length (events (snd (fst (run_with (deliver (event_ingest demo_go))
     (ingest demo_thalweg ''u'' ''a'' None None)
     ([Answer_lost ''lost''], \<lparr>events = [], ticks = 0\<rparr>))))) = 1"
proof -
  let ?r = "run_with (deliver (event_ingest demo_go)) (ingest demo_thalweg ''u'' ''a'' None None)
     ([Answer_lost ''lost''], \<lparr>events = [], ticks = 0\<rparr>)"
  have "ingest_event_id None ''u'' \<noteq> []" by (simp add: ingest_event_id_def default_def)
  from ingest_exactly_once [OF this, of demo_go demo_thalweg "''a''" None "[Answer_lost ''lost'']"
      "\<lparr>events = [], ticks = 0\<rparr>" "fst (fst ?r)" "snd (fst ?r)" "snd ?r"]
  have "events (snd (fst ?r)) = [] \<or> length (events (snd (fst ?r))) = 1" by auto
  moreover have "events (snd (fst ?r)) \<noteq> []" by code_simp
  ultimately show ?thesis by blast
qed

lemma event_ingest_fresh:
  assumes "string_field m ''network'' = Some net" "string_field m ''stream'' = Some stream"
    and "string_field m ''occurredAt'' = Some []" "string_field m ''eventId'' = Some []"
    and "net \<noteq> []" "stream \<noteq> []" "stream \<noteq> conflict_resolution_stream"
    and "norm_time g (clock g (ticks d)) = Some t1"
    and "map_get (events d) (net, random_id g (ticks d)) = None"
  shows "\<exists>e. event_ingest g d m =
    (d\<lparr>ticks := Suc (ticks d), events := events d @ [((net, random_id g (ticks d)), e)]\<rparr>,
     Resolved (Some (event_json g e)))"
proof -
  have "map_set (net, random_id g (ticks d)) e (events d) = events d @ [((net, random_id g (ticks d)), e)]" for e
    using assms(9) by (intro update_new_append) (simp add: map_of_eq_None_iff)
  with assms show ?thesis
    by (simp add: event_ingest_def daemon_ingest_def ingest_internal_def Let_def) (rule exI, rule conjI, rule refl, rule refl)
qed

text \<open>An empty event id defeats the retry: \<open>??\<close> keeps it, the daemon then draws an id per
  request, and when the first answer is lost the event is stored twice.\<close>

theorem empty_event_id_stored_twice:
  assumes "io_eventId opts = Some []" and "io_occurredAt opts = None"
    and "network_of t \<noteq> []" and "stream \<noteq> []" and "stream \<noteq> conflict_resolution_stream"
    and "norm_time g (clock g n) = Some t1" and "norm_time g (clock g (Suc n)) = Some t2"
    and "random_id g n \<noteq> random_id g (Suc n)"
    and "map_get (events d) (network_of t, random_id g n) = None"
    and "map_get (events d) (network_of t, random_id g (Suc n)) = None" and "ticks d = n"
  shows "length (events (snd (fst (run_with (deliver (event_ingest g))
      (ingest t uuid stream payload (Some opts)) (Answer_lost e # Answered # fs, d)))))
    = length (events d) + 2"
proof -
  define m where "m = ingest_payload t stream payload (Some opts) []"
  have f: "string_field m ''network'' = Some (network_of t)" "string_field m ''stream'' = Some stream"
    "string_field m ''occurredAt'' = Some []" "string_field m ''eventId'' = Some []"
    using assms(2) by (simp_all add: m_def string_field_def)
  obtain e1 where e1: "event_ingest g d m =
      (d\<lparr>ticks := Suc n, events := events d @ [((network_of t, random_id g n), e1)]\<rparr>,
       Resolved (Some (event_json g e1)))" (is "_ = (?d, _)")
    using event_ingest_fresh [OF f assms(3-5), of g d] assms(6,9,11) by auto
  obtain e2 where "event_ingest g ?d m =
      (?d\<lparr>ticks := Suc (Suc n), events := events ?d @ [((network_of t, random_id g (Suc n)), e2)]\<rparr>,
       Resolved (Some (event_json g e2)))"
    using event_ingest_fresh [OF f assms(3-5), of g ?d] assms(7,8,10) by (auto simp: map_add_def)
  with e1 assms(1) show ?thesis
    by (simp add: ingest_def request_retrying_def call_def finish_def deliver_def ingest_event_id_def
        default_def final_error_def m_def)
qed

theorem empty_event_id_stored_twice_witness:
  "length (events (snd (fst (run_with (deliver (event_ingest demo_go))
      (ingest demo_thalweg ''u'' ''a'' None (Some \<lparr>io_occurredAt = None, io_eventId = Some []\<rparr>))
      ([Answer_lost ''lost'', Answered], \<lparr>events = [], ticks = 0\<rparr>)))))
    = 2"
proof -
  have "random_id demo_go 0 \<noteq> random_id demo_go (Suc 0)" by code_simp
  then show ?thesis
    using empty_event_id_stored_twice [of "\<lparr>io_occurredAt = None, io_eventId = Some []\<rparr>" demo_thalweg
        "''a''" demo_go 0 "''t''" "''t''" "\<lparr>events = [], ticks = 0\<rparr>" "''u''" None "''lost''" "[]"]
    by (simp add: demo_go_def demo_thalweg_def conflict_resolution_stream_def)
qed

subsection \<open>Durations\<close>

lemma unit_ms_cases:
  "unit_ms u = Some f \<Longrightarrow>
     u \<noteq> [] \<and> \<not> is_digit (hd u) \<and> (u, f) \<in> {(''ms'', 1), (''s'', 1000), (''m'', 60000), (''h'', 3600000), (''d'', 86400000)}"
  by (auto simp: unit_ms_def is_digit_def split: if_splits)

lemma match_duration_iff:
  "match_duration s = Some (n, f) \<longleftrightarrow>
     (\<exists>ds u. s = ds @ u \<and> ds \<noteq> [] \<and> list_all is_digit ds \<and> unit_ms u = Some f \<and> n = nat_value ds)"
proof
  assume m: "match_duration s = Some (n, f)"
  have "s = takeWhile is_digit s @ dropWhile is_digit s" by simp
  moreover have "list_all is_digit (takeWhile is_digit s)"
    by (auto simp: list_all_iff dest: set_takeWhileD)
  ultimately show "\<exists>ds u. s = ds @ u \<and> ds \<noteq> [] \<and> list_all is_digit ds \<and> unit_ms u = Some f \<and> n = nat_value ds"
    using m by (intro exI [of _ "takeWhile is_digit s"] exI [of _ "dropWhile is_digit s"])
      (auto simp: match_duration_def Let_def split: if_splits)
next
  assume "\<exists>ds u. s = ds @ u \<and> ds \<noteq> [] \<and> list_all is_digit ds \<and> unit_ms u = Some f \<and> n = nat_value ds"
  then obtain ds u where s: "s = ds @ u" "ds \<noteq> []" "list_all is_digit ds" "unit_ms u = Some f" "n = nat_value ds"
    by blast
  then obtain c cs where u: "u = c # cs" "\<not> is_digit c" using unit_ms_cases [of u f] by (cases u) auto
  with s have "takeWhile is_digit s = ds" "dropWhile is_digit s = u"
    by (auto simp: takeWhile_append2 dropWhile_append2 list_all_iff)
  with s show "match_duration s = Some (n, f)" by (simp add: match_duration_def)
qed

text \<open>A duration is a non-empty row of decimal digits followed by one of the units ms, s, m, h and d;
  it means that many milliseconds, seconds, minutes, hours or days. Every other non-empty string is
  refused with an error that quotes it, and no duration or an empty one means zero.\<close>

theorem durations:
  "(parseDurationMs (Some s) = Inr ms) =
     (s = [] \<and> ms = 0 \<or>
      (\<exists>ds u f. s = ds @ u \<and> ds \<noteq> [] \<and> list_all is_digit ds \<and> ms = int (nat_value ds) * f \<and>
         (u, f) \<in> {(''ms'', 1), (''s'', 1000), (''m'', 60000), (''h'', 3600000), (''d'', 86400000)})) \<and>
   parseDurationMs (Some s) \<in> {Inl (PlainError (''Unsupported duration: '' @ s))} \<union> range Inr \<and>
   parseDurationMs None = Inr 0"
proof -
  have u: "unit_ms u = Some f \<longleftrightarrow>
      (u, f) \<in> {(''ms'', 1), (''s'', 1000), (''m'', 60000), (''h'', 3600000), (''d'', 86400000)}" for u f
    using unit_ms_cases [of u f] by (auto simp: unit_ms_def)
  have "parseDurationMs (Some s) = Inr ms \<longleftrightarrow>
      s = [] \<and> ms = 0 \<or> s \<noteq> [] \<and> (\<exists>n f. match_duration s = Some (n, f) \<and> ms = int n * f)"
    by (auto simp: parseDurationMs_def split: option.splits)
  also have "\<dots> \<longleftrightarrow> s = [] \<and> ms = 0 \<or>
      (\<exists>ds u f. s = ds @ u \<and> ds \<noteq> [] \<and> list_all is_digit ds \<and> ms = int (nat_value ds) * f \<and>
         (u, f) \<in> {(''ms'', 1), (''s'', 1000), (''m'', 60000), (''h'', 3600000), (''d'', 86400000)})"
    unfolding match_duration_iff u by blast
  finally show ?thesis by (auto simp: parseDurationMs_def split: option.splits)
qed

subsection \<open>Which streams a siphon covers\<close>

text \<open>A basin's siphon covers exactly the streams the basin was given at run time, never all of them:
  a basin without streams is refused.\<close>

theorem basin_never_broadens:
  "(case basin t name of
      Inr b \<Rightarrow> map_of (basins t) name = Some (streams_of b) \<and> streams_of b \<noteq> [] \<and>
        sb_network b = network_of t \<and> mode (sb_config b) = Continuous
    | Inl e \<Rightarrow> map_of (basins t) name \<in> {None, Some []})"
  by (auto simp: basin_def new_siphon_def split: option.split list.split)

text \<open>Leaving out every stream of a basin's siphon broadens it: the siphon is accepted and, run
  either way, asks for what the siphon over all streams asks for.\<close>

theorem omit_all_broadens:
  assumes "basin t name = Inr b"
  shows "\<exists>b'. omit_streams (streams_of b) b = Inr b' \<and> start_run b' h c = start_run (siphon t) h c \<and>
     run_buffered (set_interval time b') now k = run_buffered (set_interval time (siphon t)) now k"
proof -
  obtain ss where b: "b = new_siphon (network_of t) ss" "ss \<noteq> []"
    using assms by (auto simp: basin_def split: option.splits list.splits)
  then have "omit_streams (streams_of b) b = Inr (siphon t)"
    by (simp add: omit_streams_def siphon_def new_siphon_def)
  then show ?thesis by blast
qed

theorem omit_all_broadens_witness:
  "\<exists>b'. omit_streams [''a'', ''b''] (new_siphon ''n'' [''a'', ''b'']) = Inr b' \<and>
     start_run b' 0 (client demo_thalweg) = start_run (siphon demo_thalweg) 0 (client demo_thalweg)"
proof -
  have "basin demo_thalweg ''timeline'' = Inr (new_siphon ''n'' [''a'', ''b''])"
    by (simp add: basin_def demo_thalweg_def)
  from omit_all_broadens [OF this, of 0 "client demo_thalweg"] show ?thesis
    by (simp add: new_siphon_def) blast
qed

subsection \<open>The buffered run\<close>

definition stream_name :: "json \<Rightarrow> string" where
  "stream_name e = js_string_opt (jget e ''stream'')"

lemma empty_groups_get: "map_get (empty_groups ss) k = (if k \<in> set ss then Some [] else None)"
proof -
  have "map_get (foldl (\<lambda>g s. map_set s [] g) g ss) k = (if k \<in> set ss then Some [] else map_get g k)" for g :: grouped
    by (induction ss arbitrary: g) (auto simp: update_conv')
  from this [of "[]"] show ?thesis by (simp add: empty_groups_def)
qed

lemma group_event_get:
  "group_event e g = Some g' \<Longrightarrow>
     map_get g' k = (if k = stream_name e
       then Some ((case map_get g k of None \<Rightarrow> [] | Some es \<Rightarrow> es) @ [e]) else map_get g k)"
  by (auto simp: group_event_def Let_def stream_name_def update_conv' split: if_splits option.splits)

lemma group_events_get:
  "group_events es g = Some g' \<Longrightarrow>
     map_get g' k = (if map_get g k = None \<and> k \<notin> stream_name ` set es then None
       else Some ((case map_get g k of None \<Rightarrow> [] | Some vs \<Rightarrow> vs) @ filter (\<lambda>e. stream_name e = k) es))"
proof (induction es arbitrary: g)
  case Nil
  then show ?case by (auto split: option.split)
next
  case (Cons e es)
  then obtain g1 where "group_event e g = Some g1" "group_events es g1 = Some g'"
    by (auto split: option.splits)
  with Cons.IH [of g1] group_event_get [of e g g1 k] show ?case
    by (auto split: option.splits)
qed

lemma group_event_defined:
  "group_event e g \<noteq> None \<longleftrightarrow> e \<noteq> JNull \<and> (map_get g (stream_name e) \<noteq> None \<or> stream_name e \<notin> set object_prototype)"
  by (auto simp: group_event_def Let_def stream_name_def split: option.splits)

lemma group_events_defined:
  "group_events es g \<noteq> None \<longleftrightarrow>
     (\<forall>e \<in> set es. e \<noteq> JNull \<and> (map_get g (stream_name e) \<noteq> None \<or> stream_name e \<notin> set object_prototype))"
proof (induction es arbitrary: g)
  case Nil
  show ?case by simp
next
  case (Cons e es)
  show ?case
  proof (cases "group_event e g")
    case None
    then show ?thesis using group_event_defined [of e g] by auto
  next
    case (Some g1)
    then have e: "e \<noteq> JNull \<and> (map_get g (stream_name e) \<noteq> None \<or> stream_name e \<notin> set object_prototype)"
      using group_event_defined [of e g] by simp
    have "map_get g1 (stream_name x) \<noteq> None \<or> stream_name x \<notin> set object_prototype \<longleftrightarrow>
        map_get g (stream_name x) \<noteq> None \<or> stream_name x \<notin> set object_prototype" for x
      using group_event_get [OF Some, of "stream_name x"] e by (cases "stream_name x = stream_name e") auto
    with Cons.IH [of g1] Some e show ?thesis by auto
  qed
qed

text \<open>The buffered run's callback gets one entry for each configured stream and each stream of a
  returned event, holding that stream's events in the order the daemon returned them; the grouping
  throws exactly on a null event and on an unconfigured stream named like an inherited property.\<close>

theorem buffered_groups:
  "(case group_events es (empty_groups ss) of
      Some g \<Rightarrow> \<forall>k. map_get g k = (if k \<in> set ss \<union> stream_name ` set es
        then Some (filter (\<lambda>e. stream_name e = k) es) else None)
    | None \<Rightarrow> \<exists>e \<in> set es. e = JNull \<or> stream_name e \<in> set object_prototype - set ss)"
proof (cases "group_events es (empty_groups ss)")
  case None
  then show ?thesis using group_events_defined [of es "empty_groups ss"] by (auto simp: empty_groups_get)
next
  case (Some g)
  show ?thesis using group_events_get [OF Some] Some by (auto simp: empty_groups_get)
qed

text \<open>A stream named like a property every object inherits, as \<open>constructor\<close>, breaks the buffered
  run of a siphon over all streams: the run rejects with a \<open>TypeError\<close> and no callback.\<close>

theorem inherited_stream_name_throws:
  assumes "name \<in> set object_prototype" and "jget e ''stream'' = Some (JStr name)"
    and "parseDurationMs (Some time) = Inr ms" and "\<bar>now - ms\<bar> \<le> max_time" and "\<bar>now\<bar> \<le> max_time"
  shows "snd (run_prog [Resolved (Some (JArr (es @ [e])))] (run_buffered (set_interval time (siphon t)) now k))
    = Some (Rejected TypeErr)"
proof -
  obtain f u where iso: "to_iso (now - ms) = Some f" "to_iso now = Some u"
    using to_iso_in_range assms(4,5) by metis
  have "stream_name e = name" using assms(2) by (simp add: stream_name_def js_string_opt_def)
  then have "group_events (es @ [e]) (empty_groups []) = None"
    using assms(1) group_events_defined [of "es @ [e]" "empty_groups []"] by (auto simp: empty_groups_get)
  with iso assms(3) show ?thesis
    by (simp add: run_buffered_def set_interval_def siphon_def new_siphon_def call_def finish_def iterate_def)
qed

theorem inherited_stream_name_throws_witness:
  "snd (run_prog [Resolved (Some (JArr [JObj [(''stream'', JStr ''constructor'')]]))]
     (run_buffered (set_interval ''15m'' (siphon demo_thalweg)) 1700000000000 (\<lambda>g. Return ())))
   = Some (Rejected TypeErr)"
proof -
  have "parseDurationMs (Some ''15m'') = Inr 900000" by code_simp
  then show ?thesis
    using inherited_stream_name_throws [of "''constructor''" "JObj [(''stream'', JStr ''constructor'')]" "''15m''"
        900000 1700000000000 "[]" demo_thalweg "\<lambda>g. Return ()"]
    by (simp add: object_prototype_def max_time_def)
qed

text \<open>A buffered run sends at most one request, an \<open>event_query\<close> for the siphon's network and streams
  over the window of its duration up to now; with a bad duration, or a window that leaves the range
  of dates, it rejects without sending anything.\<close>

theorem buffered_query:
  "run_prog [] (run_buffered (set_interval time b) now k) =
     (case parseDurationMs (Some time) of
        Inl e \<Rightarrow> ([], Some (Rejected e))
      | Inr ms \<Rightarrow>
          if \<bar>now - ms\<bar> \<le> max_time \<and> \<bar>now\<bar> \<le> max_time
          then ([(''event_query'', query_payload b (the (to_iso (now - ms))) (the (to_iso now)))], None)
          else ([], Some (Rejected RangeErr)))"
proof (cases "parseDurationMs (Some time)")
  case (Inl e)
  then show ?thesis by (simp add: run_buffered_def set_interval_def)
next
  case (Inr ms)
  have q: "query_payload (set_interval time b) = query_payload b"
    by (simp add: fun_eq_iff query_payload_def set_interval_def)
  show ?thesis
  proof (cases "\<bar>now - ms\<bar> \<le> max_time \<and> \<bar>now\<bar> \<le> max_time")
    case True
    then obtain f u where "to_iso (now - ms) = Some f" "to_iso now = Some u"
      using to_iso_in_range by metis
    moreover have "interval (sb_config (set_interval time b)) = Some time" by (simp add: set_interval_def)
    ultimately show ?thesis using Inr True q by (simp add: run_buffered_def call_def)
  next
    case False
    then have "to_iso (now - ms) = None \<or> to_iso now = None"
      using to_iso_out_of_range [of now] to_iso_out_of_range [of "now - ms"] by linarith
    with Inr False show ?thesis
      by (auto simp: run_buffered_def set_interval_def split: option.split)
  qed
qed

end
