(* ===== verification/Velotic_Demo.thy ===== *)
theory Velotic_Demo
  imports Sdk_Properties Client_Properties
begin

text \<open>
  The SDK's demonstration program, \<open>packages/sdk-js/src/demo/velotic.ts\<close>, as programs over the SDK's
  methods: three ingests in sequence, the buffered siphon it starts without awaiting it, and the
  final query with the lines it prints. Clock readings and random ids are arguments.
\<close>

definition velotic :: "js_error + thalweg" where
  "velotic =
     new_thalweg \<lparr>tc_socket = ''/tmp/thalweg.sock'', tc_network = ''velotic-demo'', tc_requestTimeoutMs = None\<rparr>
       [(''timeline'', [''system:app_activity'', ''user:note''])]"

text \<open>\<open>new Date(t).toISOString()\<close>\<close>

definition iso_date :: "int \<Rightarrow> string prog" where
  "iso_date t = (case to_iso t of None \<Rightarrow> Throw RangeErr | Some s \<Rightarrow> Return s)"

definition app_activity :: "string \<Rightarrow> string \<Rightarrow> json" where
  "app_activity app title =
     JObj [(''device'', JStr ''macbook''), (''appName'', JStr app), (''windowTitle'', JStr title),
           (''idle'', JBool False)]"

definition ingest_at :: "thalweg \<Rightarrow> string \<Rightarrow> string \<Rightarrow> json \<Rightarrow> int \<Rightarrow> json option prog" where
  "ingest_at t uuid stream payload time =
     bind (iso_date time)
       (\<lambda>iso. ingest t uuid stream (Some payload) (Some \<lparr>io_occurredAt = Some iso, io_eventId = None\<rparr>))"

definition velotic_ingests :: "thalweg \<Rightarrow> string \<Rightarrow> string \<Rightarrow> string \<Rightarrow> int \<Rightarrow> unit prog" where
  "velotic_ingests t u1 u2 u3 now =
     bind (ingest_at t u1 ''system:app_activity'' (app_activity ''Cursor'' ''Thalweg MVP'') (now - 9 * 60 * 1000))
       (\<lambda>_. bind (ingest_at t u2 ''user:note''
           (JObj [(''content'', JStr ''Sketch the MVP around a local chronological timeline.''),
                  (''source'', JStr ''manual'')]) (now - 5 * 60 * 1000))
       (\<lambda>_. bind (ingest_at t u3 ''system:app_activity'' (app_activity ''Terminal'' ''go test ./...'')
           (now - 2 * 60 * 1000))
       (\<lambda>_. Return ())))"

definition summary_text :: "nat \<Rightarrow> nat \<Rightarrow> string" where
  "summary_text activities notes =
     ''Last 15m: '' @ show_nat activities @ '' app activity events and '' @ show_nat notes @ '' notes.''"

text \<open>The callback; reading \<open>length\<close> of an absent stream would throw.\<close>

definition velotic_callback :: "thalweg \<Rightarrow> string \<Rightarrow> int \<Rightarrow> grouped \<Rightarrow> unit prog" where
  "velotic_callback t uuid later data =
     (case (map_get data ''system:app_activity'', map_get data ''user:note'') of
        (Some activities, Some notes) \<Rightarrow>
          bind (iso_date later)
            (\<lambda>iso. bind (ingest t uuid ''insights:summary''
                (Some (JObj [(''content'', JStr (summary_text (length activities) (length notes))),
                             (''generatedAt'', JStr iso)])) None)
              (\<lambda>_. Return ()))
      | _ \<Rightarrow> Throw TypeErr)"

definition velotic_siphon :: "thalweg \<Rightarrow> string \<Rightarrow> int \<Rightarrow> int \<Rightarrow> unit prog" where
  "velotic_siphon t uuid now later =
     (case basin t ''timeline'' of
        Inl e \<Rightarrow> Throw e
      | Inr b \<Rightarrow> run_buffered (set_interval ''15m'' b) now (velotic_callback t uuid later))"

definition timeline_line :: "json \<Rightarrow> string" where
  "timeline_line event =
     js_string_opt (jget event ''occurredAt'') @ '' '' @ js_string_opt (jget event ''stream'') @ '' ''
     @ (case jget event ''payload'' of None \<Rightarrow> ''undefined'' | Some p \<Rightarrow> stringify p)"

definition velotic_timeline :: "thalweg \<Rightarrow> int \<Rightarrow> string list prog" where
  "velotic_timeline t now =
     bind (iso_date (now - 15 * 60 * 1000))
       (\<lambda>from. bind (iso_date (now + 60 * 1000))
         (\<lambda>to. bind (query t \<lparr>qo_streams = Some [''system:app_activity'', ''user:note'', ''insights:summary''],
                         qo_from = Some from, qo_to = Some to, qo_limit = None, qo_order = None\<rparr>)
           (\<lambda>timeline. case iterate timeline of
              None \<Rightarrow> Throw TypeErr
            | Some evs \<Rightarrow>
                if JNull \<in> set evs then Throw TypeErr else Return (map timeline_line evs))))"

lemma velotic_basin:
  "velotic = Inr t \<Longrightarrow> basin t ''timeline'' = Inr (new_siphon ''velotic-demo'' [''system:app_activity'', ''user:note''])"
  by (auto simp: velotic_def new_thalweg_def basin_def split: sum.splits)

text \<open>When the daemon answers the siphon's query with events of the two streams, the demonstration
  sends one summary that counts the events of each.\<close>

theorem velotic_summary:
  assumes "velotic = Inr t" and "\<bar>now - 900000\<bar> \<le> max_time" and "\<bar>now\<bar> \<le> max_time" and "\<bar>later\<bar> \<le> max_time"
    and "\<forall>e \<in> set es. e \<noteq> JNull \<and> stream_name e \<in> {''system:app_activity'', ''user:note''}"
  shows "\<exists>m p. fst (run_prog [Resolved (Some (JArr es))] (velotic_siphon t uuid now later)) =
      [(''event_query'', m), (''event_ingest'', p)] \<and>
    jget p ''stream'' = Some (JStr ''insights:summary'') \<and>
    opt_get (jget p ''payload'') ''content'' = Some (JStr (summary_text
      (length (filter (\<lambda>e. stream_name e = ''system:app_activity'') es))
      (length (filter (\<lambda>e. stream_name e = ''user:note'') es))))"
proof -
  let ?ss = "[''system:app_activity'', ''user:note'']"
  obtain f u l where iso: "to_iso (now - 900000) = Some f" "to_iso now = Some u" "to_iso later = Some l"
    using to_iso_in_range assms(2-4) by metis
  have dur: "parseDurationMs (Some ''15m'') = Inr 900000" by code_simp
  have "group_events es (empty_groups ?ss) \<noteq> None"
    using assms(5) group_events_defined [of es "empty_groups ?ss"] by (auto simp: empty_groups_get)
  then obtain g where g: "group_events es (empty_groups ?ss) = Some g" by blast
  have get: "map_get g k = Some (filter (\<lambda>e. stream_name e = k) es)" if "k \<in> set ?ss" for k
    using group_events_get [OF g, of k] that by (auto simp: empty_groups_get)
  show ?thesis
    using velotic_basin [OF assms(1)] iso dur g get
    by (simp add: velotic_siphon_def set_interval_def new_siphon_def run_buffered_def call_def finish_def
        iterate_def velotic_callback_def iso_date_def ingest_def request_retrying_def)
qed

theorem velotic_summary_witness:
  "\<exists>m p. fst (run_prog [Resolved (Some (JArr [JObj [(''stream'', JStr ''user:note'')]]))]
        (velotic_siphon (projr velotic) ''u'' 1700000000000 1700000000001)) =
      [(''event_query'', m), (''event_ingest'', p)] \<and>
    opt_get (jget p ''payload'') ''content'' = Some (JStr (summary_text 0 1))"
proof -
  have "velotic = Inr (projr velotic)"
    by (simp add: velotic_def new_thalweg_def split: sum.split)
      (metis Inl_Inr_False new_client_default)
  from velotic_summary [OF this, of 1700000000000 1700000000001 "[JObj [(''stream'', JStr ''user:note'')]]" "''u''"]
  show ?thesis by (simp add: max_time_def stream_name_def js_string_opt_def) blast
qed

end
