(* ===== verification/Console_Model.thy ===== *)
theory Console_Model
  imports Js_Url Json_Codec
begin

text \<open>
  The data of the web console (\<open>apps/console-web/src/main.tsx\<close>): the snapshot types, the theme, the
  formatting helpers, and the element trees React renders. A field the code guards against being
  absent is an option.
\<close>

subsection \<open>The snapshot\<close>

datatype console_state = Online | Degraded | Offline

fun show_state :: "console_state \<Rightarrow> string" where
  "show_state Online = ''online''"
| "show_state Degraded = ''degraded''"
| "show_state Offline = ''offline''"

record console_network =
  cn_name :: string
  cn_id :: string

record console_event =
  ev_id :: string
  ev_stream :: string
  ev_occurredAt :: string
  ev_deviceId :: string
  ev_payload :: "json option"

record stream_summary =
  ss_name :: string
  ss_eventCount :: int
  ss_latestAt :: "string option"

record mesh_peer =
  mp_peerId :: string
  mp_address :: string
  mp_state :: string
  mp_connected :: bool
  mp_lastSuccessAt :: "string option"
  mp_lastError :: "string option"
  mp_nextAttemptAt :: "string option"
  mp_consecutiveFailures :: int

record feature =
  ft_name :: string
  ft_supported :: bool
  ft_detail :: string

record durable_siphon =
  dn_name :: string
  dn_network :: string
  dn_streams :: "string list"
  dn_cursor :: int
  dn_updatedAt :: "string option"
  dn_pendingDeliveryId :: "string option"
  dn_pendingCount :: int
  dn_pendingAttempts :: int

record registry_definition =
  rd_name :: string
  rd_kind :: string
  rd_runtimeState :: string
  rd_network :: string
  rd_stream :: "string option"
  rd_streams :: "string list option"
  rd_processed :: int
  rd_failureCount :: int
  rd_lastSuccessAt :: "string option"
  rd_lastError :: "string option"

record registry_status =
  rs_version :: int
  rs_state :: string
  rs_healthy :: int
  rs_degraded :: int
  rs_stopped :: int
  rs_pendingReload :: bool
  rs_definitions :: "registry_definition list option"

record node_status =
  ns_deviceId :: string
  ns_addressGroups :: "(string \<times> string list option) list option"
  ns_daemonVersion :: string
  ns_protocolVersion :: int
  ns_storageSchemaVersion :: int

record snapshot =
  sn_capturedAt :: string
  sn_state :: "console_state option"
  sn_error :: "string option"
  sn_status :: node_status
  sn_networks :: "console_network list"
  sn_peers :: "mesh_peer list option"
  sn_durableSiphons :: "durable_siphon list option"
  sn_registry :: "registry_status option"
  sn_selectedNetwork :: "string option"
  sn_events :: "console_event list option"
  sn_streams :: "stream_summary list"
  sn_warnings :: "string list"
  sn_features :: "feature list option"

subsection \<open>Operators of the code\<close>

text \<open>\<open>a || b\<close> on strings, on optional strings, and the \<open>|| []\<close> of optional lists.\<close>

definition or_str :: "string \<Rightarrow> string \<Rightarrow> string" where
  "or_str a b = (if a = [] then b else a)"

definition opt_str :: "string option \<Rightarrow> string" where
  "opt_str v = (case v of None \<Rightarrow> [] | Some s \<Rightarrow> s)"

definition or_empty :: "'a list option \<Rightarrow> 'a list" where
  "or_empty v = (case v of None \<Rightarrow> [] | Some xs \<Rightarrow> xs)"

definition show_int :: "int \<Rightarrow> string" where
  "show_int n = (if n < 0 then ''-'' @ show_nat (nat (- n)) else show_nat (nat n))"

text \<open>\<open>n || "?"\<close> in a template.\<close>

definition or_mark :: "int \<Rightarrow> string" where
  "or_mark n = (if n = 0 then ''?'' else show_int n)"

definition em_dash :: string where
  "em_dash = [CHR 0xE2, CHR 0x80, CHR 0x94]"

definition ellipsis :: string where
  "ellipsis = [CHR 0xE2, CHR 0x80, CHR 0xA6]"

definition middle_dot :: string where
  "middle_dot = [CHR 0xC2, CHR 0xB7]"

subsection \<open>Formatting\<close>

text \<open>The lengths are those of ASCII text, which ids are.\<close>

definition shortId :: "string option \<Rightarrow> string" where
  "shortId value =
     (let v = opt_str value in
      if v = [] then em_dash
      else if 18 < length v then take 9 v @ ellipsis @ drop (length v - 7) v
      else v)"

text \<open>
  \<open>locale\<close> is the browser's reading and formatting of a date in its own locale and time zone;
  \<open>None\<close> is an invalid date.
\<close>

definition localTime :: "(string \<Rightarrow> string option) \<Rightarrow> string option \<Rightarrow> string" where
  "localTime locale value =
     (let v = opt_str value in
      if v = [] then em_dash else case locale v of None \<Rightarrow> v | Some s \<Rightarrow> s)"

fun stateColor :: "console_state \<Rightarrow> string" where
  "stateColor Online = ''green''"
| "stateColor Degraded = ''yellow''"
| "stateColor Offline = ''red''"

subsection \<open>Element trees\<close>

text \<open>What a control does when it is used; \<open>Console_State\<close> gives each its effect.\<close>

datatype control =
    Refresh_clicked
  | Network_chosen
  | Stream_edited | Count_edited | Message_edited | Data_edited
  | Run_id_edited | Origin_edited | Expected_edited
  | Publish_clicked
  | Verify_clicked

text \<open>
  Property values and children. \<open>Nothing\<close> is a child React does not render: false, null, undefined
  or the empty string.
\<close>

datatype pval =
    PStr string
  | PNum int
  | PBool bool
  | PObj "(string \<times> pval) list"
  | PList "pval list"
  | PAct control
  | PVal "json option"
  | PElem jsx
  | Undef
  | Null
and jsx =
    El string "(string \<times> pval) list" "jsx list"
  | Txt string
  | Num int
  | Nothing

definition text_child :: "string \<Rightarrow> jsx" where
  "text_child s = (if s = [] then Nothing else Txt s)"

text \<open>\<open>cond && element\<close>\<close>

definition only_if :: "bool \<Rightarrow> jsx \<Rightarrow> jsx" where
  "only_if b x = (if b then x else Nothing)"

definition or_null :: "string \<Rightarrow> pval" where
  "or_null s = (if s = [] then Null else PStr s)"

text \<open>All elements of a tree, itself included, those in properties too.\<close>

fun elements :: "jsx \<Rightarrow> (string \<times> (string \<times> pval) list) list"
  and prop_elements :: "pval \<Rightarrow> (string \<times> (string \<times> pval) list) list" where
  "elements (El t ps cs) = (t, ps) # concat (map (\<lambda>(k, v). prop_elements v) ps) @ concat (map elements cs)"
| "elements (Txt s) = []"
| "elements (Num n) = []"
| "elements Nothing = []"
| "prop_elements (PElem x) = elements x"
| "prop_elements (PObj ps) = concat (map (\<lambda>(k, v). prop_elements v) ps)"
| "prop_elements (PList vs) = concat (map prop_elements vs)"
| "prop_elements (PStr s) = []"
| "prop_elements (PNum n) = []"
| "prop_elements (PBool b) = []"
| "prop_elements (PAct a) = []"
| "prop_elements (PVal v) = []"
| "prop_elements Undef = []"
| "prop_elements Null = []"

subsection \<open>What the page derives from a snapshot\<close>

definition opt_map :: "('a \<Rightarrow> 'b) \<Rightarrow> 'a option \<Rightarrow> 'b \<Rightarrow> 'b" where
  "opt_map f v d = (case v of None \<Rightarrow> d | Some x \<Rightarrow> f x)"

definition currentState :: "string \<Rightarrow> snapshot option \<Rightarrow> console_state" where
  "currentState error snap =
     (if error \<noteq> [] then Offline
      else case Option.bind snap sn_state of None \<Rightarrow> Offline | Some s \<Rightarrow> s)"

definition activeNetwork :: "snapshot option \<Rightarrow> string \<Rightarrow> console_network option" where
  "activeNetwork snap selected =
     (case snap of None \<Rightarrow> None | Some s \<Rightarrow> find (\<lambda>n. cn_name n = selected) (sn_networks s))"

definition diagnosticsURL :: "string \<Rightarrow> string \<Rightarrow> string" where
  "diagnosticsURL href selected =
     (let target = new_url ''api/diagnostics'' href in
      if selected \<noteq> [] then search_set ''network'' selected target else target)"

definition address_scopes :: "string list" where
  "address_scopes = [''lan'', ''public'', ''loopback'', ''other'']"

definition addresses :: "snapshot option \<Rightarrow> (string \<times> string) list" where
  "addresses snap =
     (case snap of
        None \<Rightarrow> []
      | Some s \<Rightarrow>
          (let groups = or_empty (ns_addressGroups (sn_status s)) in
           concat (map (\<lambda>scope. map (Pair scope) (or_empty (Option.bind (map_of groups scope) id)))
             address_scopes)))"

definition recent_events :: "snapshot option \<Rightarrow> console_event list" where
  "recent_events snap = take 12 (or_empty (Option.bind snap sn_events))"

text \<open>Label, value, and whether the value is set in the fixed-width font.\<close>

definition metrics :: "snapshot option \<Rightarrow> (string \<times> string \<times> bool) list" where
  "metrics snap =
     [(''Device'', shortId (map_option (ns_deviceId \<circ> sn_status) snap), True),
      (''Networks'', show_nat (opt_map (length \<circ> sn_networks) snap 0), False),
      (''Known peers'', show_nat (length (or_empty (Option.bind snap sn_peers))), False),
      (''Recent events'', show_nat (length (recent_events snap)), False),
      (''Integrations'',
        show_nat (length (or_empty (Option.bind (Option.bind snap sn_registry) rs_definitions))), False),
      (''Versions'',
        (case snap of
           None \<Rightarrow> em_dash
         | Some s \<Rightarrow> or_str (ns_daemonVersion (sn_status s)) ''?'' @ '' '' @ middle_dot @ '' IPC ''
             @ or_mark (ns_protocolVersion (sn_status s)) @ '' '' @ middle_dot @ '' DB ''
             @ or_mark (ns_storageSchemaVersion (sn_status s))), False)]"

definition theme :: "(string \<times> pval) list" where
  "theme =
     [(''primaryColor'', PStr ''frost''),
      (''primaryShade'', PObj [(''light'', PNum 6), (''dark'', PNum 4)]),
      (''defaultRadius'', PStr ''md''),
      (''colors'', PObj
        [(''frost'', PList (map PStr [''#eef6fa'', ''#dceaf1'', ''#bdd8e4'', ''#9bc5d6'', ''#88c0d0'', ''#81a1c1'',
            ''#5e81ac'', ''#4c6c91'', ''#3b5675'', ''#2c415a''])),
         (''dark'', PList (map PStr [''#eceff4'', ''#e5e9f0'', ''#d8dee9'', ''#b8c2d1'', ''#697386'', ''#4c566a'',
            ''#3b4252'', ''#2e3440'', ''#292f3a'', ''#242933'']))])]"

end
