(* ===== verification/Console_State.thy ===== *)
theory Console_State
  imports Console_Model
begin

text \<open>
  The state of the console page and its operations (\<open>App\<close> of \<open>apps/console-web/src/main.tsx\<close>):
  polling, choosing a network, the event workbench. A request in flight is an entry of
  \<open>refreshes\<close> or \<open>labs\<close>, and its reply is the step that takes it out, in whatever order replies
  arrive. After each step React runs the polling effect again if \<open>refresh\<close> has changed, which it
  does with the selected network (\<open>commit\<close>).
\<close>

subsection \<open>State\<close>

record refresh_call =
  rc_network :: string
  rc_indicate :: bool
  rc_awaited :: bool

datatype lab_call = Publishing string | Verifying

datatype http_request = Get string | Post string string

text \<open>
  What a request meets: no reply or an unreadable body (\<open>Failed\<close>, with the message if the reason is
  an \<open>Error\<close>), a status that is not ok with its text, or a parsed body.
\<close>

datatype 'a reply = Failed "string option" | Status nat string | Body 'a

text \<open>
  \<open>engine_error\<close> is the JavaScript engine's own wording of an error it raises; \<open>effect_network\<close> the
  network of the \<open>refresh\<close> the polling timer calls; \<open>sent\<close> logs the requests.
\<close>

record page =
  href :: string
  engine_error :: string
  snap :: "snapshot option"
  selectedNetwork :: string
  error_text :: string
  loading :: bool
  labEnabled :: bool
  labStream :: string
  labCount :: dec
  labMessage :: string
  labData :: string
  labRunId :: "json option"
  labOrigin :: "json option"
  labExpected :: "json option"
  labBusy :: bool
  labResult :: "json option"
  labError :: string
  refreshes :: "refresh_call list"
  labs :: "lab_call list"
  effect_network :: string
  sent :: "http_request list"

subsection \<open>Refreshing\<close>

definition snapshot_url :: "string \<Rightarrow> string \<Rightarrow> string" where
  "snapshot_url address network =
     (let endpoint = new_url ''api/snapshot'' address in
      if network \<noteq> [] then search_set ''network'' network endpoint else endpoint)"

definition start_refresh :: "string \<Rightarrow> bool \<Rightarrow> bool \<Rightarrow> page \<Rightarrow> page" where
  "start_refresh network indicate awaited p =
     p\<lparr>loading := indicate \<or> loading p,
       refreshes := refreshes p @ [\<lparr>rc_network = network, rc_indicate = indicate, rc_awaited = awaited\<rparr>],
       sent := sent p @ [Get (snapshot_url (href p) network)]\<rparr>"

definition failure_text :: "string \<Rightarrow> string option \<Rightarrow> string" where
  "failure_text fallback reason = (case reason of None \<Rightarrow> fallback | Some m \<Rightarrow> m)"

definition apply_snapshot :: "snapshot reply \<Rightarrow> page \<Rightarrow> page" where
  "apply_snapshot r p =
     (case r of
        Body s \<Rightarrow> p\<lparr>snap := Some s, selectedNetwork := opt_str (sn_selectedNetwork s), error_text := []\<rparr>
      | Status n _ \<Rightarrow> p\<lparr>error_text := ''Console API returned '' @ show_nat n\<rparr>
      | Failed m \<Rightarrow> p\<lparr>error_text := failure_text ''Unable to reach the console API'' m\<rparr>)"

text \<open>The polling effect: refresh at once, and from then on every two seconds with that \<open>refresh\<close>.\<close>

definition run_effect :: "page \<Rightarrow> page" where
  "run_effect p = start_refresh (selectedNetwork p) False False (p\<lparr>effect_network := selectedNetwork p\<rparr>)"

definition commit :: "page \<Rightarrow> page" where
  "commit p = (if selectedNetwork p = effect_network p then p else run_effect p)"

definition remove_nth :: "nat \<Rightarrow> 'a list \<Rightarrow> 'a list" where
  "remove_nth i xs = take i xs @ drop (Suc i) xs"

text \<open>The \<open>finally\<close> of \<open>refresh\<close>, and then that of a publish that awaited it.\<close>

definition finish_refresh :: "nat \<Rightarrow> snapshot reply \<Rightarrow> page \<Rightarrow> page" where
  "finish_refresh i r p =
     (let c = refreshes p ! i;
          p1 = apply_snapshot r (p\<lparr>refreshes := remove_nth i (refreshes p)\<rparr>);
          p2 = (if rc_indicate c then p1\<lparr>loading := False\<rparr> else p1);
          p3 = (if rc_awaited c then p2\<lparr>labBusy := False\<rparr> else p2)
      in commit p3)"

definition tick :: "page \<Rightarrow> page" where
  "tick p = start_refresh (effect_network p) False False p"

definition click_refresh :: "page \<Rightarrow> page" where
  "click_refresh p = start_refresh (selectedNetwork p) True False p"

definition choose_network :: "string option \<Rightarrow> page \<Rightarrow> page" where
  "choose_network v p =
     (let network = opt_str v in
      commit (start_refresh network True False (p\<lparr>selectedNetwork := network\<rparr>)))"

definition new_page :: "string \<Rightarrow> string \<Rightarrow> page" where
  "new_page address wording =
     run_effect
       \<lparr>href = address, engine_error = wording, snap = None,
        selectedNetwork = opt_str (search_get address ''network''), error_text = [], loading = False,
        labEnabled = (search_get address ''lab'' = Some ''1''),
        labStream = ''system:mesh_test'', labCount = Dec 3 0, labMessage = [], labData = ''{}'',
        labRunId = Some (JStr []), labOrigin = Some (JStr []), labExpected = Some (jint 3),
        labBusy = False, labResult = None, labError = [],
        refreshes = [], labs = [], effect_network = [], sent = []\<rparr>"

subsection \<open>The event workbench\<close>

definition post_lab :: "string \<Rightarrow> json \<Rightarrow> lab_call \<Rightarrow> page \<Rightarrow> page" where
  "post_lab path body c p =
     p\<lparr>labs := labs p @ [c], sent := sent p @ [Post (new_url path (href p)) (stringify body)]\<rparr>"

text \<open>What \<open>postLab\<close> throws for a status that is not ok.\<close>

definition lab_failure :: "nat \<Rightarrow> string \<Rightarrow> string" where
  "lab_failure n t = or_str (trim t) (''Lab API returned '' @ show_nat n)"

definition publish_body :: "page \<Rightarrow> json \<Rightarrow> json" where
  "publish_body p data =
     JObj [(''network'', JStr (selectedNetwork p)), (''stream'', JStr (labStream p)),
           (''count'', JNum (labCount p)), (''message'', JStr (labMessage p)), (''data'', data)]"

definition publishLabRun :: "page \<Rightarrow> page" where
  "publishLabRun p =
     (if selectedNetwork p = [] then p
      else
        (let p1 = p\<lparr>labBusy := True, labError := []\<rparr> in
         case json_parse (labData p) of
           None \<Rightarrow> p1\<lparr>labError := engine_error p, labBusy := False\<rparr>
         | Some data \<Rightarrow>
             post_lab ''api/lab/publish'' (publish_body p data) (Publishing (selectedNetwork p)) p1))"

text \<open>
  The manifest of a published run fills the fields of the verification; then the page refreshes.
  Reading a field of the body \<open>null\<close> throws, after \<open>setLabResult\<close>.
\<close>

definition apply_manifest :: "json \<Rightarrow> page \<Rightarrow> page" where
  "apply_manifest m p =
     p\<lparr>labResult := (if m = JNull then None else Some m), labRunId := jget m ''runId'',
       labOrigin := jget m ''originDeviceId'', labExpected := jget m ''expected''\<rparr>"

definition lab_failed :: "string \<Rightarrow> page \<Rightarrow> page" where
  "lab_failed message p = p\<lparr>labError := message, labBusy := False\<rparr>"

definition finish_publish :: "string \<Rightarrow> json reply \<Rightarrow> page \<Rightarrow> page" where
  "finish_publish network r p =
     (case r of
        Body m \<Rightarrow>
          if m = JNull then lab_failed (engine_error p) (p\<lparr>labResult := None\<rparr>)
          else start_refresh network False True (apply_manifest m p)
      | Status n t \<Rightarrow> lab_failed (lab_failure n t) p
      | Failed m \<Rightarrow> lab_failed (failure_text ''Unable to publish test events'' m) p)"

definition verify_body :: "page \<Rightarrow> json" where
  "verify_body p =
     jobject [(''network'', Some (JStr (selectedNetwork p))), (''stream'', Some (JStr (labStream p))),
              (''runId'', labRunId p), (''originDeviceId'', labOrigin p), (''expected'', labExpected p)]"

definition verifyLabRun :: "page \<Rightarrow> page" where
  "verifyLabRun p =
     (if selectedNetwork p = [] then p
      else post_lab ''api/lab/verify'' (verify_body p) Verifying (p\<lparr>labBusy := True, labError := []\<rparr>))"

definition finish_verify :: "json reply \<Rightarrow> page \<Rightarrow> page" where
  "finish_verify r p =
     (case r of
        Body m \<Rightarrow> p\<lparr>labResult := (if m = JNull then None else Some m), labBusy := False\<rparr>
      | Status n t \<Rightarrow> lab_failed (lab_failure n t) p
      | Failed m \<Rightarrow> lab_failed (failure_text ''Unable to verify test events'' m) p)"

definition finish_lab :: "nat \<Rightarrow> json reply \<Rightarrow> page \<Rightarrow> page" where
  "finish_lab i r p =
     (let p1 = p\<lparr>labs := remove_nth i (labs p)\<rparr> in
      case labs p ! i of
        Publishing network \<Rightarrow> finish_publish network r p1
      | Verifying \<Rightarrow> finish_verify r p1)"

text \<open>The text fields, and \<open>Number(value) || 1\<close> of the number fields; \<open>None\<close> is \<open>NaN\<close>.\<close>

definition number_or_one :: "dec option \<Rightarrow> dec" where
  "number_or_one n = (case n of None \<Rightarrow> Dec 1 0 | Some d \<Rightarrow> if mantissa d = 0 then Dec 1 0 else d)"

definition edit_text :: "control \<Rightarrow> string \<Rightarrow> page \<Rightarrow> page" where
  "edit_text field v p =
     (case field of
        Stream_edited \<Rightarrow> p\<lparr>labStream := v\<rparr>
      | Message_edited \<Rightarrow> p\<lparr>labMessage := v\<rparr>
      | Data_edited \<Rightarrow> p\<lparr>labData := v\<rparr>
      | Run_id_edited \<Rightarrow> p\<lparr>labRunId := Some (JStr v)\<rparr>
      | Origin_edited \<Rightarrow> p\<lparr>labOrigin := Some (JStr v)\<rparr>
      | _ \<Rightarrow> p)"

definition edit_number :: "control \<Rightarrow> dec option \<Rightarrow> page \<Rightarrow> page" where
  "edit_number field n p =
     (case field of
        Count_edited \<Rightarrow> p\<lparr>labCount := number_or_one n\<rparr>
      | Expected_edited \<Rightarrow> p\<lparr>labExpected := Some (JNum (number_or_one n))\<rparr>
      | _ \<Rightarrow> p)"

subsection \<open>The steps of the page\<close>

text \<open>A button that is loading or disabled does not react.\<close>

definition publish_enabled :: "page \<Rightarrow> bool" where
  "publish_enabled p \<longleftrightarrow> selectedNetwork p \<noteq> [] \<and> \<not> labBusy p"

definition verify_enabled :: "page \<Rightarrow> bool" where
  "verify_enabled p \<longleftrightarrow> selectedNetwork p \<noteq> [] \<and> truthy (labRunId p) \<and> \<not> labBusy p"

inductive page_step :: "page \<Rightarrow> page \<Rightarrow> bool" where
  page_tick: "page_step p (tick p)"
| page_reply: "i < length (refreshes p) \<Longrightarrow> page_step p (finish_refresh i r p)"
| page_refresh: "\<not> loading p \<Longrightarrow> page_step p (click_refresh p)"
| page_choose: "page_step p (choose_network v p)"
| page_publish: "labEnabled p \<Longrightarrow> publish_enabled p \<Longrightarrow> page_step p (publishLabRun p)"
| page_verify: "labEnabled p \<Longrightarrow> verify_enabled p \<Longrightarrow> page_step p (verifyLabRun p)"
| page_lab_reply: "i < length (labs p) \<Longrightarrow> page_step p (finish_lab i r p)"
| page_text: "labEnabled p \<Longrightarrow> page_step p (edit_text f v p)"
| page_number: "labEnabled p \<Longrightarrow> page_step p (edit_number f n p)"

end
