(* ===== verification/Console_Properties.thy ===== *)
theory Console_Properties
  imports Console_State
begin

text \<open>
  Properties of the console page: the invariant of its spinners and its polling effect, what a late
  or an offline reply does to the operator's selection, and that a verification checks the run that
  was published. The demonstration snapshots below are instances for the witnesses.
\<close>

subsection \<open>The invariant\<close>

text \<open>
  A spinner that turns has a request to wait for: the refresh indicator an indicated refresh, the
  workbench exactly one call, or the refresh that ends a publish. And the timer polls the network
  that is selected.
\<close>

definition busy_count :: "page \<Rightarrow> nat" where
  "busy_count p = length (labs p) + length (filter rc_awaited (refreshes p))"

definition page_inv :: "page \<Rightarrow> bool" where
  "page_inv p \<longleftrightarrow>
     (loading p \<longrightarrow> (\<exists>c \<in> set (refreshes p). rc_indicate c)) \<and>
     busy_count p = (if labBusy p then 1 else 0) \<and>
     effect_network p = selectedNetwork p"

lemma remove_nth_split:
  "i < length xs \<Longrightarrow> \<exists>ys zs. xs = ys @ xs ! i # zs \<and> remove_nth i xs = ys @ zs"
  using id_take_nth_drop [of i xs] by (auto simp: remove_nth_def)

lemma start_refresh_fields [simp]:
  "refreshes (start_refresh n i a p) = refreshes p @ [\<lparr>rc_network = n, rc_indicate = i, rc_awaited = a\<rparr>]"
  "labs (start_refresh n i a p) = labs p" "labBusy (start_refresh n i a p) = labBusy p"
  "loading (start_refresh n i a p) = (i \<or> loading p)"
  "selectedNetwork (start_refresh n i a p) = selectedNetwork p"
  "effect_network (start_refresh n i a p) = effect_network p" "snap (start_refresh n i a p) = snap p"
  "error_text (start_refresh n i a p) = error_text p" "href (start_refresh n i a p) = href p"
  "sent (start_refresh n i a p) = sent p @ [Get (snapshot_url (href p) n)]"
  "labRunId (start_refresh n i a p) = labRunId p" "labOrigin (start_refresh n i a p) = labOrigin p"
  "labExpected (start_refresh n i a p) = labExpected p" "labStream (start_refresh n i a p) = labStream p"
  "labEnabled (start_refresh n i a p) = labEnabled p" "labResult (start_refresh n i a p) = labResult p"
  by (simp_all add: start_refresh_def)

lemma commit_inv:
  assumes "loading p \<longrightarrow> (\<exists>c \<in> set (refreshes p). rc_indicate c)" "busy_count p = (if labBusy p then 1 else 0)"
  shows "page_inv (commit p)"
  using assms by (auto simp: commit_def run_effect_def page_inv_def busy_count_def)

lemma apply_snapshot_fields [simp]:
  "refreshes (apply_snapshot r p) = refreshes p" "labs (apply_snapshot r p) = labs p"
  "labBusy (apply_snapshot r p) = labBusy p" "loading (apply_snapshot r p) = loading p"
  "effect_network (apply_snapshot r p) = effect_network p" "href (apply_snapshot r p) = href p"
  by (cases r; simp add: apply_snapshot_def)+

lemma page_inv_finish_refresh:
  assumes "page_inv p" "i < length (refreshes p)"
  shows "page_inv (finish_refresh i r p)"
proof -
  obtain ys zs where x: "refreshes p = ys @ refreshes p ! i # zs" "remove_nth i (refreshes p) = ys @ zs"
    using remove_nth_split [OF assms(2)] by blast
  have m: "c \<in> set (refreshes p) \<longleftrightarrow> c = refreshes p ! i \<or> c \<in> set (ys @ zs)" for c
    by (subst x(1)) auto
  have l: "length (filter rc_awaited (refreshes p)) = (if rc_awaited (refreshes p ! i) then 1 else 0)
      + length (filter rc_awaited (ys @ zs))"
    by (subst x(1)) simp
  show ?thesis
    unfolding finish_refresh_def Let_def
    by (rule commit_inv) (use assms(1) x(2) m l in \<open>auto simp: page_inv_def busy_count_def split: if_splits\<close>)
qed

lemma page_inv_lab_failed:
  "busy_count p = 0 \<Longrightarrow> (loading p \<longrightarrow> (\<exists>c \<in> set (refreshes p). rc_indicate c)) \<Longrightarrow>
     effect_network p = selectedNetwork p \<Longrightarrow> page_inv (lab_failed m p)"
  by (simp add: page_inv_def lab_failed_def busy_count_def)

lemma page_inv_finish_lab:
  assumes "page_inv p" "i < length (labs p)"
  shows "page_inv (finish_lab i r p)"
proof -
  have len: "length (remove_nth i (labs p)) = length (labs p) - 1"
    using assms(2) by (simp add: remove_nth_def)
  have b: "busy_count (p\<lparr>labs := remove_nth i (labs p)\<rparr>) = 0" "labBusy p"
    using assms len by (auto simp: page_inv_def busy_count_def split: if_splits)
  show ?thesis
    using b assms(1)
    by (auto simp: finish_lab_def Let_def finish_publish_def finish_verify_def page_inv_def
        lab_failed_def busy_count_def apply_manifest_def split: lab_call.split reply.split)
qed

lemma page_inv_step:
  assumes "page_inv p" "page_step p q"
  shows "page_inv q"
  using assms(2)
proof cases
  case (page_tick)
  then show ?thesis using assms(1) by (auto simp: tick_def page_inv_def busy_count_def)
next
  case (page_reply i r)
  then show ?thesis using page_inv_finish_refresh [OF assms(1)] by simp
next
  case page_refresh
  then show ?thesis using assms(1) by (auto simp: click_refresh_def page_inv_def busy_count_def)
next
  case (page_choose v)
  show ?thesis unfolding page_choose(1) choose_network_def Let_def
    by (rule commit_inv) (use assms(1) in \<open>auto simp: page_inv_def busy_count_def\<close>)
next
  case page_publish
  then show ?thesis using assms(1)
    by (auto simp: publishLabRun_def publish_enabled_def Let_def post_lab_def page_inv_def busy_count_def
        split: option.split)
next
  case page_verify
  then show ?thesis using assms(1)
    by (auto simp: verifyLabRun_def verify_enabled_def post_lab_def page_inv_def busy_count_def)
next
  case (page_lab_reply i r)
  then show ?thesis using page_inv_finish_lab [OF assms(1)] by simp
next
  case (page_text f v)
  then show ?thesis using assms(1) by (cases f) (auto simp: edit_text_def page_inv_def busy_count_def)
next
  case (page_number f n)
  then show ?thesis using assms(1) by (cases f) (auto simp: edit_number_def page_inv_def busy_count_def)
qed

definition initial_page :: "page \<Rightarrow> bool" where
  "initial_page p \<longleftrightarrow> (\<exists>a w. p = new_page a w)"

lemma page_inv_initial: "initial_page p \<Longrightarrow> page_inv p"
  by (auto simp: initial_page_def new_page_def run_effect_def page_inv_def busy_count_def)

interpretation pages: state_machine page_step initial_page page_inv
  by unfold_locales (auto intro: page_inv_initial page_inv_step)

subsection \<open>Properties\<close>

definition demo_snapshot :: "string option \<Rightarrow> snapshot" where
  "demo_snapshot selected =
     \<lparr>sn_capturedAt = ''t'', sn_state = Some Online, sn_error = None,
      sn_status = \<lparr>ns_deviceId = ''dev'', ns_addressGroups = None, ns_daemonVersion = ''1'',
                   ns_protocolVersion = 1, ns_storageSchemaVersion = 3\<rparr>,
      sn_networks = [\<lparr>cn_name = ''a'', cn_id = ''1''\<rparr>, \<lparr>cn_name = ''b'', cn_id = ''2''\<rparr>], sn_peers = Some [],
      sn_durableSiphons = Some [], sn_registry = None, sn_selectedNetwork = selected,
      sn_events = Some [], sn_streams = [], sn_warnings = [], sn_features = Some []\<rparr>"

definition demo_page :: page where
  "demo_page = new_page ''http://127.0.0.1:1/s/?network=a&lab=1'' ''engine''"

text \<open>C12: in every reachable state of the page a turning spinner has a request in flight that will stop
  it, the workbench runs one call at a time, and the timer polls the selected network.\<close>

theorem spinners_wait_for_requests:
  assumes "initial_page p" and "page_step\<^sup>*\<^sup>* p q"
  shows "(loading q \<longrightarrow> (\<exists>c \<in> set (refreshes q). rc_indicate c)) \<and>
     length (labs q) + length (filter rc_awaited (refreshes q)) = (if labBusy q then 1 else 0) \<and>
     effect_network q = selectedNetwork q"
  using pages.reachable_inv [OF assms] by (simp add: page_inv_def busy_count_def)

theorem spinners_wait_for_requests_witness:
  "page_step\<^sup>*\<^sup>* demo_page (click_refresh demo_page) \<and>
   (\<exists>c \<in> set (refreshes (click_refresh demo_page)). rc_indicate c)"
proof -
  have i: "initial_page demo_page" by (auto simp: initial_page_def demo_page_def)
  have "\<not> loading demo_page" by (simp add: demo_page_def new_page_def run_effect_def)
  then have r: "page_step\<^sup>*\<^sup>* demo_page (click_refresh demo_page)" by (auto intro: page_refresh)
  moreover have "loading (click_refresh demo_page)" by (simp add: click_refresh_def)
  ultimately show ?thesis using spinners_wait_for_requests [OF i r] by blast
qed

text \<open>The addresses the page asks, for a snapshot and for the diagnostics, carry the network so that
  the server reads back exactly its name, whatever characters it has, and none for no network.\<close>

theorem requests_name_the_network:
  assumes "utf8_valid n"
  shows "search_get (snapshot_url address n) ''network'' = (if n = [] then None else Some n) \<and>
    search_get (diagnosticsURL address n) ''network'' = (if n = [] then None else Some n)"
proof -
  have "search_get (new_url path address) ''network'' = None" if "CHR ''?'' \<notin> set path" for path
    using query_string_none [OF that] by (simp add: search_get_def search_pairs_def)
  then show ?thesis
    using assms search_set_get [of "''api/snapshot''" "''network''" n address]
      search_set_get [of "''api/diagnostics''" "''network''" n address]
    by (simp add: snapshot_url_def diagnosticsURL_def Let_def ascii_valid)
qed

theorem requests_name_the_network_witness:
  "search_get (snapshot_url ''http://127.0.0.1:1/s/?lab=1'' ''lab & more'') ''network'' = Some ''lab & more''"
proof -
  have "utf8_valid ''lab & more''" by code_simp
  from requests_name_the_network [OF this] show ?thesis by simp
qed

text \<open>Replies are applied in the order they arrive: when the operator has chosen another network, the
  reply of an earlier poll selects the old network again, shows its data, and polls it.\<close>

theorem late_reply_reverts_selection:
  assumes "i < length (refreshes p)" and "sn_selectedNetwork s = Some old" and "old \<noteq> new" and "page_inv p"
  shows "\<exists>q. q = finish_refresh i (Body s) (choose_network (Some new) p) \<and>
     selectedNetwork (choose_network (Some new) p) = new \<and>
     selectedNetwork q = old \<and> snap q = Some s \<and> effect_network q = old \<and>
     sent q = sent (choose_network (Some new) p) @ [Get (snapshot_url (href p) old)]"
proof -
  let ?c = "choose_network (Some new) p"
  have c: "selectedNetwork ?c = new" "effect_network ?c = new" "href ?c = href p"
    using assms(4)
    by (auto simp: choose_network_def Let_def commit_def run_effect_def opt_str_def start_refresh_def page_inv_def)
  define d where "d = ?c"
  show ?thesis
    using c assms(2,3) unfolding d_def [symmetric]
    by (auto simp: finish_refresh_def Let_def apply_snapshot_def commit_def run_effect_def opt_str_def start_refresh_def)
qed

theorem late_reply_reverts_selection_witness:
  "selectedNetwork (finish_refresh 0 (Body (demo_snapshot (Some ''a''))) (choose_network (Some ''b'') demo_page)) = ''a'' \<and>
   selectedNetwork (choose_network (Some ''b'') demo_page) = ''b''"
proof -
  have "initial_page demo_page" by (auto simp: initial_page_def demo_page_def)
  then have "page_inv demo_page" by (rule page_inv_initial)
  moreover have "0 < length (refreshes demo_page)" by (simp add: demo_page_def new_page_def run_effect_def)
  moreover have "sn_selectedNetwork (demo_snapshot (Some ''a'')) = Some ''a''" by (simp add: demo_snapshot_def)
  ultimately show ?thesis
    using late_reply_reverts_selection [of 0 demo_page "demo_snapshot (Some ''a'')" "''a''" "''b''"] by auto
qed

text \<open>A reply without a selected network, as the console server sends while the daemon is offline,
  forgets the operator's selection: the page then polls without naming a network, so the server
  will choose one when the daemon is back.\<close>

theorem offline_reply_forgets_selection:
  assumes "i < length (refreshes p)" and "sn_selectedNetwork s = None" and "page_inv p"
  shows "selectedNetwork (finish_refresh i (Body s) p) = [] \<and>
     search_get (snapshot_url (href p) (effect_network (finish_refresh i (Body s) p))) ''network'' = None \<and>
     (\<exists>us. sent (tick (finish_refresh i (Body s) p)) = us @ [Get (snapshot_url (href p) [])])"
proof -
  have f: "selectedNetwork (finish_refresh i (Body s) p) = []" "effect_network (finish_refresh i (Body s) p) = []"
    "href (finish_refresh i (Body s) p) = href p"
    using assms(2)
    by (auto simp: finish_refresh_def Let_def apply_snapshot_def commit_def run_effect_def opt_str_def start_refresh_def)
  have "query_string (new_url ''api/snapshot'' (href p)) = []"
    by (rule query_string_none) simp
  with f show ?thesis by (simp add: tick_def snapshot_url_def search_get_def search_pairs_def)
qed

theorem offline_reply_forgets_selection_witness:
  "selectedNetwork demo_page = ''a'' \<and>
   selectedNetwork (finish_refresh 0 (Body (demo_snapshot None)) demo_page) = []"
proof -
  have "initial_page demo_page" by (auto simp: initial_page_def demo_page_def)
  then have "page_inv demo_page" by (rule page_inv_initial)
  moreover have "0 < length (refreshes demo_page)" by (simp add: demo_page_def new_page_def run_effect_def)
  moreover have "sn_selectedNetwork (demo_snapshot None) = None" by (simp add: demo_snapshot_def)
  ultimately have "selectedNetwork (finish_refresh 0 (Body (demo_snapshot None)) demo_page) = []"
    using offline_reply_forgets_selection [of 0 demo_page "demo_snapshot None"] by blast
  moreover have "selectedNetwork demo_page = ''a''" by code_simp
  ultimately show ?thesis by simp
qed

text \<open>After a publish has succeeded, and until the fields are edited, the verification asks about the
  run that was published: its run id, its origin and its number of events, on the stream of the form.\<close>

theorem verify_checks_published_run:
  assumes "labs p ! i = Publishing network" and "m \<noteq> JNull" and "selectedNetwork p \<noteq> []"
    and "q = finish_lab i (Body m) p"
  shows "\<exists>body us. sent (verifyLabRun q) = us @ [Post (new_url ''api/lab/verify'' (href p)) (stringify body)] \<and>
     jget body ''runId'' = jget m ''runId'' \<and> jget body ''originDeviceId'' = jget m ''originDeviceId'' \<and>
     jget body ''expected'' = jget m ''expected'' \<and> jget body ''stream'' = Some (JStr (labStream p)) \<and>
     jget body ''network'' = Some (JStr (selectedNetwork p)) \<and> labResult q = Some m"
proof -
  have q: "selectedNetwork q = selectedNetwork p" "href q = href p" "labStream q = labStream p"
    "labRunId q = jget m ''runId''" "labOrigin q = jget m ''originDeviceId''"
    "labExpected q = jget m ''expected''" "labResult q = Some m"
    using assms(1,2) by (simp_all add: assms(4) finish_lab_def finish_publish_def apply_manifest_def)
  then have "sent (verifyLabRun q) =
      sent q @ [Post (new_url ''api/lab/verify'' (href p)) (stringify (verify_body q))]"
    using assms(3) by (simp add: verifyLabRun_def post_lab_def verify_body_def)
  with q show ?thesis
    by (intro exI [of _ "verify_body q"] exI [of _ "sent q"]) (simp add: verify_body_def jget_jobject)
qed

theorem verify_checks_published_run_witness:
  "\<exists>body. Post (new_url ''api/lab/verify'' (href demo_page)) (stringify body) \<in>
      set (sent (verifyLabRun (finish_lab 0 (Body (JObj [(''runId'', JStr ''r'')])) (publishLabRun demo_page)))) \<and>
    jget body ''runId'' = Some (JStr ''r'')"
proof -
  have p: "labs (publishLabRun demo_page) ! 0 = Publishing ''a''" "selectedNetwork (publishLabRun demo_page) = ''a''"
    "href (publishLabRun demo_page) = href demo_page"
    by code_simp+
  from verify_checks_published_run [OF p(1) _ _ refl, of "JObj [(''runId'', JStr ''r'')]"] p(2,3)
  show ?thesis by auto
qed

end
