(* ===== verification/Console_View.thy ===== *)
theory Console_View
  imports Console_State
begin

text \<open>
  The element tree the console page renders (\<open>App\<close> of \<open>apps/console-web/src/main.tsx\<close>), section by
  section in the order of the page. A control carries the \<open>control\<close> whose effect \<open>Console_State\<close>
  gives. \<open>lo\<close> is the browser's date formatting.
\<close>

subsection \<open>What the sections read\<close>

definition network_list :: "page \<Rightarrow> console_network list" where
  "network_list p = opt_map sn_networks (snap p) []"

definition stream_list :: "page \<Rightarrow> stream_summary list" where
  "stream_list p = opt_map sn_streams (snap p) []"

definition warning_list :: "page \<Rightarrow> string list" where
  "warning_list p = opt_map sn_warnings (snap p) []"

definition peer_list :: "page \<Rightarrow> mesh_peer list" where
  "peer_list p = or_empty (Option.bind (snap p) sn_peers)"

definition siphon_list :: "page \<Rightarrow> durable_siphon list" where
  "siphon_list p = or_empty (Option.bind (snap p) sn_durableSiphons)"

definition definition_list :: "page \<Rightarrow> registry_definition list" where
  "definition_list p = or_empty (Option.bind (Option.bind (snap p) sn_registry) rs_definitions)"

definition feature_list :: "page \<Rightarrow> feature list" where
  "feature_list p = or_empty (Option.bind (snap p) sn_features)"

text \<open>\<open>error || snapshot?.error\<close>\<close>

definition shown_error :: "page \<Rightarrow> string" where
  "shown_error p = or_str (error_text p) (opt_str (Option.bind (snap p) sn_error))"

definition peerColor :: "string \<Rightarrow> string" where
  "peerColor state = (if state = ''healthy'' then ''green'' else if state = ''degraded'' then ''yellow'' else ''frost'')"

definition runtimeColor :: "string \<Rightarrow> string" where
  "runtimeColor state =
     (if state = ''failed'' \<or> state = ''backoff'' then ''yellow''
      else if state = ''running'' \<or> state = ''waiting'' \<or> state = ''completed'' then ''green''
      else ''gray'')"

text \<open>\<open>JSON.stringify(value, null, 2)\<close>, at an indentation.\<close>

fun pretty :: "nat \<Rightarrow> json \<Rightarrow> string" where
  "pretty n (JArr vs) =
     (if vs = [] then ''[]''
      else ''['' @ [newline]
        @ join_with ('','' @ [newline]) (map (\<lambda>v. replicate (n + 2) (CHR '' '') @ pretty (n + 2) v) vs)
        @ [newline] @ replicate n (CHR '' '') @ '']'')"
| "pretty n (JObj kvs) =
     (if kvs = [] then ''{}''
      else ''{'' @ [newline]
        @ join_with ('','' @ [newline])
            (map (\<lambda>(k, v). replicate (n + 2) (CHR '' '') @ quote k @ '': '' @ pretty (n + 2) v) kvs)
        @ [newline] @ replicate n (CHR '' '') @ ''}'')"
| "pretty n v = stringify v"

definition SectionTitle :: "string \<Rightarrow> string \<Rightarrow> jsx" where
  "SectionTitle title detail =
    El ''Group'' [(''justify'', PStr ''space-between''), (''align'', PStr ''baseline''), (''mb'', PStr ''md''),
        (''wrap'', PStr ''nowrap'')]
      [El ''Title'' [(''order'', PNum 2), (''size'', PStr ''h4'')] [text_child title],
       El ''Text'' [(''c'', PStr ''dimmed''), (''size'', PStr ''xs''), (''ta'', PStr ''right'')]
         [text_child detail]]"

definition Empty :: "jsx list \<Rightarrow> jsx" where
  "Empty children =
    El ''Center'' [(''mih'', PNum 108)]
      [El ''Text'' [(''c'', PStr ''dimmed''), (''size'', PStr ''sm'')] children]"

subsection \<open>The sections\<close>

definition header_group :: "page \<Rightarrow> jsx" where
  "header_group p =
    El ''Group'' [(''justify'', PStr ''space-between''), (''align'', PStr ''center'')]
      [El ''Group'' [(''gap'', PStr ''sm'')]
         [El ''ThemeIcon'' [(''variant'', PStr ''light''), (''size'', PNum 42), (''radius'', PStr ''md''),
               (''aria-hidden'', PBool True)]
            [El ''Text'' [(''fw'', PNum 800), (''ff'', PStr ''monospace'')]
               [Txt ''T'']],
          El ''div'' []
            [El ''Title'' [(''order'', PNum 1), (''size'', PStr ''h3'')]
               [Txt ''Thalweg Console''],
             El ''Text'' [(''c'', PStr ''dimmed''), (''size'', PStr ''sm'')]
               [Txt ''A clear view of your local daemon'']]],
       El ''Group'' [(''gap'', PStr ''sm'')]
         [El ''Badge'' [(''color'', PStr (stateColor (currentState (error_text p) (snap p)))),
               (''variant'', PStr ''light''), (''size'', PStr ''lg''),
               (''leftSection'', PElem (El ''span'' [(''className'', PStr ''status-dot'')] []))]
            [text_child (show_state (currentState (error_text p) (snap p)))],
          El ''Button'' [(''variant'', PStr ''default''), (''loading'', PBool (loading p)),
               (''onClick'', PAct Refresh_clicked)]
            [Txt ''Refresh''],
          El ''Button'' [(''component'', PStr ''a''),
               (''href'', PStr (diagnosticsURL (href p) (selectedNetwork p))),
               (''variant'', PStr ''light'')]
            [Txt ''Export diagnostics'']]]"

definition network_bar :: "page \<Rightarrow> jsx" where
  "network_bar p =
    El ''Paper'' [(''withBorder'', PBool True), (''p'', PStr ''md'')]
      [El ''Group'' [(''justify'', PStr ''space-between''), (''align'', PStr ''end'')]
         [El ''Select'' [(''label'', PStr ''Network''),
               (''placeholder'', PStr (if snap p = None then ''Waiting for daemon'' else ''No mounted networks'')),
               (''data'', PList (map (\<lambda>n. PObj [(''label'', PStr (cn_name n)), (''value'', PStr (cn_name n))]) (network_list p))),
               (''value'', or_null (selectedNetwork p)),
               (''disabled'', PBool (network_list p = [])), (''onChange'', PAct Network_chosen),
               (''w'', PObj [(''base'', PStr ''100%''), (''sm'', PNum 280)])] [],
          El ''div'' []
            [El ''Text'' [(''c'', PStr ''dimmed''), (''size'', PStr ''xs''),
                  (''ta'', PObj [(''base'', PStr ''left''), (''sm'', PStr ''right'')])]
               [Txt ''Network ID''],
             El ''Text'' [(''ff'', PStr ''monospace''), (''size'', PStr ''sm'')]
               [text_child (or_str (opt_map cn_id (activeNetwork (snap p) (selectedNetwork p)) []) em_dash)]]]]"

definition error_alert :: "page \<Rightarrow> jsx" where
  "error_alert p =
    only_if (shown_error p \<noteq> [])
      (El ''Alert'' [(''color'', PStr ''red''), (''title'', PStr ''Console unavailable''),
            (''variant'', PStr ''light'')]
         [text_child (shown_error p)])"

definition lab_card :: "page \<Rightarrow> jsx" where
  "lab_card p =
    only_if (labEnabled p)
      (El ''Card'' [(''withBorder'', PBool True), (''padding'', PStr ''lg'')]
         [SectionTitle ''Event Workbench'' (''Explicit lab mode '' @ middle_dot @ '' writes test events''),
          El ''Alert'' [(''color'', PStr ''frost''), (''variant'', PStr ''light''), (''mb'', PStr ''md'')]
            [Txt ''Test events use deterministic IDs, so retrying the same run ID is idempotent. They replicate like ordinary events.''],
          El ''SimpleGrid'' [(''cols'', PObj [(''base'', PNum 1), (''md'', PNum 2)])]
            [El ''Stack'' [(''gap'', PStr ''sm'')]
               [El ''TextInput'' [(''label'', PStr ''Stream''), (''value'', PStr (labStream p)),
                     (''onChange'', PAct Stream_edited)] [],
                El ''NumberInput'' [(''label'', PStr ''Event count''), (''min'', PNum 1), (''max'', PNum 100),
                     (''value'', PVal (Some (JNum (labCount p)))), (''onChange'', PAct Count_edited)] [],
                El ''TextInput'' [(''label'', PStr ''Message''),
                     (''placeholder'', PStr ''Optional note for this run''),
                     (''value'', PStr (labMessage p)), (''onChange'', PAct Message_edited)] [],
                El ''Textarea'' [(''label'', PStr ''Generic JSON data''), (''autosize'', PBool True),
                     (''minRows'', PNum 4), (''ff'', PStr ''monospace''),
                     (''value'', PStr (labData p)), (''onChange'', PAct Data_edited)] [],
                El ''Button'' [(''disabled'', PBool (selectedNetwork p = [])),
                     (''loading'', PBool (labBusy p)), (''onClick'', PAct Publish_clicked)]
                  [Txt ''Publish deterministic run'']],
             El ''Stack'' [(''gap'', PStr ''sm'')]
               [El ''TextInput'' [(''label'', PStr ''Run ID''), (''value'', PVal (labRunId p)),
                     (''onChange'', PAct Run_id_edited)] [],
                El ''TextInput'' [(''label'', PStr ''Origin device ID''),
                     (''description'', PStr ''Copy from the publishing manifest; leave blank to match any origin''),
                     (''value'', PVal (labOrigin p)), (''onChange'', PAct Origin_edited)] [],
                El ''NumberInput'' [(''label'', PStr ''Expected sequences''), (''min'', PNum 1),
                     (''max'', PNum 100), (''value'', PVal (labExpected p)),
                     (''onChange'', PAct Expected_edited)] [],
                El ''Button'' [(''variant'', PStr ''default''),
                     (''disabled'', PBool (selectedNetwork p = [] \<or> \<not> truthy (labRunId p))),
                     (''loading'', PBool (labBusy p)), (''onClick'', PAct Verify_clicked)]
                  [Txt ''Verify local replica''],
                only_if (labError p \<noteq> [])
                  (El ''Alert'' [(''color'', PStr ''red''), (''variant'', PStr ''light'')]
                     [text_child (labError p)]),
                only_if (truthy (labResult p))
                  (El ''Paper'' [(''withBorder'', PBool True), (''p'', PStr ''md''),
                        (''bg'', PStr ''dark.7'')]
                     [El ''Text'' [(''size'', PStr ''xs''), (''ff'', PStr ''monospace''),
                           (''className'', PStr ''payload'')]
                        [text_child (pretty 0 (the (labResult p)))]])]]])"

definition overview_card :: "(string \<Rightarrow> string option) \<Rightarrow> page \<Rightarrow> jsx" where
  "overview_card lo p =
    El ''Card'' [(''withBorder'', PBool True), (''padding'', PStr ''lg'')]
      [SectionTitle ''Overview'' (opt_map (\<lambda>s. ''Captured '' @ localTime lo (Some (sn_capturedAt s))) (snap p) ''Not yet refreshed''),
       El ''SimpleGrid'' [(''cols'', PObj [(''base'', PNum 1), (''xs'', PNum 2), (''md'', PNum 4)])]
         (map (\<lambda>(label, val, mono).
           El ''Paper'' [(''key'', PStr label), (''withBorder'', PBool True), (''p'', PStr ''md''),
                (''bg'', PStr ''dark.7'')]
             [El ''Text'' [(''c'', PStr ''dimmed''), (''size'', PStr ''xs''), (''fw'', PNum 700),
                   (''tt'', PStr ''uppercase''), (''lts'', PStr ''.06em'')]
                [text_child label],
              El ''Text'' [(''mt'', PNum 6), (''fw'', PNum 650),
                   (''ff'', (if mono then PStr ''monospace'' else Undef)),
                   (''truncate'', PBool True)]
                [text_child val]])
          (metrics (snap p)))]"

definition address_grid :: "(string \<Rightarrow> string option) \<Rightarrow> page \<Rightarrow> jsx" where
  "address_grid lo p =
    El ''Grid'' [(''gap'', PStr ''lg'')]
      [El ''Grid.Col'' [(''span'', PObj [(''base'', PNum 12), (''md'', PNum 6)])]
         [El ''Card'' [(''withBorder'', PBool True), (''padding'', PStr ''lg''), (''h'', PStr ''100%'')]
            [SectionTitle ''Node addresses'' ''Advertised locally'',
             (if addresses (snap p) = []
               then
                 Empty [Txt ''No advertised addresses.'']
               else
                 El ''Stack'' [(''gap'', PNum 0)]
                   (map (\<lambda>(index, (scope, address)).
                     El ''Box'' [(''key'', PStr (scope @ ''-'' @ address))]
                       [only_if (0 < index)
                          (El ''Divider'' [] []),
                        El ''Group'' [(''justify'', PStr ''space-between''), (''py'', PStr ''sm''),
                             (''wrap'', PStr ''nowrap'')]
                          [El ''Badge'' [(''variant'', PStr ''light''), (''size'', PStr ''sm'')]
                             [text_child scope],
                           El ''Text'' [(''ff'', PStr ''monospace''), (''size'', PStr ''xs''),
                                (''truncate'', PBool True), (''className'', PStr ''flex-text'')]
                             [text_child address],
                           El ''Text'' [(''c'', PStr ''dimmed''), (''size'', PStr ''xs'')]
                             [Txt ''advertised'']]])
                    (enumerate 0 (take 6 (addresses (snap p)))) @
                   [only_if (6 < length (addresses (snap p)))
                        (El ''Text'' [(''c'', PStr ''dimmed''), (''size'', PStr ''xs''),
                              (''pt'', PStr ''sm'')]
                           [Txt ''+ '',
                            Num (int (length (addresses (snap p))) - 6),
                            Txt '' more addresses''])]))]],
       El ''Grid.Col'' [(''span'', PObj [(''base'', PNum 12), (''md'', PNum 6)])]
         [El ''Card'' [(''withBorder'', PBool True), (''padding'', PStr ''lg''), (''h'', PStr ''100%'')]
            [SectionTitle ''Streams'' ''Recent 24-hour window'',
             (if stream_list p = []
               then
                 Empty [Txt ''No events in the recent diagnostic window.'']
               else
                 El ''Stack'' [(''gap'', PNum 0)]
                   (map (\<lambda>(index, s).
                     El ''Box'' [(''key'', PStr (ss_name s))]
                       [only_if (0 < index)
                          (El ''Divider'' [] []),
                        El ''Group'' [(''justify'', PStr ''space-between''), (''py'', PStr ''sm''),
                             (''wrap'', PStr ''nowrap'')]
                          [El ''Badge'' [(''variant'', PStr ''light''), (''size'', PStr ''sm'')]
                             [Txt ''stream''],
                           El ''Text'' [(''ff'', PStr ''monospace''), (''size'', PStr ''xs''),
                                (''truncate'', PBool True), (''className'', PStr ''flex-text'')]
                             [text_child (ss_name s)],
                           El ''Text'' [(''c'', PStr ''dimmed''), (''size'', PStr ''xs''),
                                (''ta'', PStr ''right'')]
                             [Num (ss_eventCount s),
                              Txt ('' '' @ middle_dot @ '' ''),
                              text_child (localTime lo (ss_latestAt s))]]])
                    (enumerate 0 (take 6 (stream_list p))) @
                   [only_if (6 < length (stream_list p))
                        (El ''Text'' [(''c'', PStr ''dimmed''), (''size'', PStr ''xs''),
                              (''pt'', PStr ''sm'')]
                           [Txt ''+ '',
                            Num (int (length (stream_list p)) - 6),
                            Txt '' more streams''])]))]]]"

definition peers_card :: "(string \<Rightarrow> string option) \<Rightarrow> page \<Rightarrow> jsx" where
  "peers_card lo p =
    El ''Card'' [(''withBorder'', PBool True), (''padding'', PStr ''lg'')]
      [SectionTitle ''Peers'' (or_str (selectedNetwork p) ''network required''),
       (if peer_list p = []
         then
           Empty [Txt ''No known peers for this network.'']
         else
           El ''ScrollArea'' [(''type'', PStr ''auto'')]
             [El ''Table'' [(''verticalSpacing'', PStr ''sm''), (''miw'', PNum 760)]
                [El ''Table.Thead'' []
                   [El ''Table.Tr'' []
                      [El ''Table.Th'' []
                         [Txt ''Peer''],
                       El ''Table.Th'' []
                         [Txt ''State''],
                       El ''Table.Th'' []
                         [Txt ''Last synchronized''],
                       El ''Table.Th'' []
                         [Txt ''Retry'']]],
                 El ''Table.Tbody'' []
                   (map (\<lambda>peer.
                     El ''Table.Tr'' [(''key'', PStr (mp_peerId peer))]
                       [El ''Table.Td'' []
                          [El ''Text'' [(''ff'', PStr ''monospace''), (''size'', PStr ''sm'')]
                             [text_child (shortId (Some (mp_peerId peer)))],
                           El ''Text'' [(''c'', PStr ''dimmed''), (''ff'', PStr ''monospace''),
                                (''size'', PStr ''xs''), (''truncate'', PBool True),
                                (''maw'', PNum 340)]
                             [text_child (mp_address peer)]],
                        El ''Table.Td'' []
                          [El ''Badge'' [(''color'', PStr (peerColor (mp_state peer))),
                                (''variant'', PStr ''light'')]
                             [text_child (mp_state peer),
                              text_child (if mp_connected peer then '' '' @ middle_dot @ '' connected'' else [])],
                           only_if (opt_str (mp_lastError peer) \<noteq> [])
                             (El ''Text'' [(''c'', PStr ''yellow''), (''size'', PStr ''xs''),
                                   (''mt'', PNum 4)]
                                [text_child (opt_str (mp_lastError peer))])],
                        El ''Table.Td'' []
                          [text_child (localTime lo (mp_lastSuccessAt peer))],
                        El ''Table.Td'' []
                          [El ''Text'' [(''size'', PStr ''xs'')]
                             [Num (mp_consecutiveFailures peer),
                              Txt '' failures''],
                           El ''Text'' [(''c'', PStr ''dimmed''), (''size'', PStr ''xs'')]
                             [text_child (localTime lo (mp_nextAttemptAt peer))]]])
                    (peer_list p))]])]"

definition registry_card :: "(string \<Rightarrow> string option) \<Rightarrow> page \<Rightarrow> jsx" where
  "registry_card lo p =
    El ''Card'' [(''withBorder'', PBool True), (''padding'', PStr ''lg'')]
      [SectionTitle ''Registry'' (if opt_map rs_pendingReload (Option.bind (snap p) sn_registry) False then ''Pending reload'' else ''Accepted local definitions''),
       (if definition_list p = []
         then
           Empty [Txt ''No accepted registry definitions.'']
         else
           El ''ScrollArea'' [(''type'', PStr ''auto'')]
             [El ''Table'' [(''verticalSpacing'', PStr ''sm''), (''miw'', PNum 760)]
                [El ''Table.Thead'' []
                   [El ''Table.Tr'' []
                      [El ''Table.Th'' []
                         [Txt ''Name''],
                       El ''Table.Th'' []
                         [Txt ''Kind''],
                       El ''Table.Th'' []
                         [Txt ''State''],
                       El ''Table.Th'' []
                         [Txt ''Network''],
                       El ''Table.Th'' []
                         [Txt ''Processed''],
                       El ''Table.Th'' []
                         [Txt ''Last activity'']]],
                 El ''Table.Tbody'' []
                   (map (\<lambda>r.
                     El ''Table.Tr'' [(''key'', PStr (rd_name r))]
                       [El ''Table.Td'' []
                          [El ''Text'' [(''ff'', PStr ''monospace''), (''size'', PStr ''sm'')]
                             [text_child (rd_name r)],
                           only_if (opt_str (rd_lastError r) \<noteq> [])
                             (El ''Text'' [(''c'', PStr ''yellow''), (''size'', PStr ''xs''),
                                   (''maw'', PNum 300)]
                                [text_child (opt_str (rd_lastError r))])],
                        El ''Table.Td'' []
                          [El ''Badge'' [(''variant'', PStr ''light'')]
                             [text_child (rd_kind r)]],
                        El ''Table.Td'' []
                          [El ''Badge'' [(''color'', PStr (runtimeColor (rd_runtimeState r))),
                                (''variant'', PStr ''light'')]
                             [text_child (rd_runtimeState r)]],
                        El ''Table.Td'' []
                          [text_child (rd_network r)],
                        El ''Table.Td'' []
                          [Num (rd_processed r)],
                        El ''Table.Td'' []
                          [text_child (localTime lo (rd_lastSuccessAt r))]])
                    (definition_list p))]])]"

definition siphons_card :: "(string \<Rightarrow> string option) \<Rightarrow> page \<Rightarrow> jsx" where
  "siphons_card lo p =
    El ''Card'' [(''withBorder'', PBool True), (''padding'', PStr ''lg'')]
      [SectionTitle ''Durable siphons'' (or_str (selectedNetwork p) ''network required''),
       (if siphon_list p = []
         then
           Empty [Txt ''No durable siphons registered for this network.'']
         else
           El ''ScrollArea'' [(''type'', PStr ''auto'')]
             [El ''Table'' [(''verticalSpacing'', PStr ''sm''), (''miw'', PNum 720)]
                [El ''Table.Thead'' []
                   [El ''Table.Tr'' []
                      [El ''Table.Th'' []
                         [Txt ''Name''],
                       El ''Table.Th'' []
                         [Txt ''Streams''],
                       El ''Table.Th'' []
                         [Txt ''Cursor''],
                       El ''Table.Th'' []
                         [Txt ''Pending''],
                       El ''Table.Th'' []
                         [Txt ''Updated'']]],
                 El ''Table.Tbody'' []
                   (map (\<lambda>d.
                     El ''Table.Tr'' [(''key'', PStr (dn_network d @ '':'' @ dn_name d))]
                       [El ''Table.Td'' []
                          [El ''Text'' [(''ff'', PStr ''monospace''), (''size'', PStr ''sm'')]
                             [text_child (dn_name d)]],
                        El ''Table.Td'' []
                          [El ''Text'' [(''ff'', PStr ''monospace''), (''size'', PStr ''xs'')]
                             [text_child (if dn_streams d \<noteq> [] then join_with '', '' (dn_streams d) else ''all streams'')]],
                        El ''Table.Td'' []
                          [Num (dn_cursor d)],
                        El ''Table.Td'' []
                          [(if opt_str (dn_pendingDeliveryId d) \<noteq> []
                             then
                               El ''Badge'' [(''color'', PStr ''yellow''), (''variant'', PStr ''light'')]
                                 [Num (dn_pendingCount d),
                                  Txt ('' '' @ middle_dot @ '' attempt ''),
                                  Num (dn_pendingAttempts d)]
                             else
                               El ''Badge'' [(''color'', PStr ''green''), (''variant'', PStr ''light'')]
                                 [Txt ''idle''])],
                        El ''Table.Td'' []
                          [text_child (localTime lo (dn_updatedAt d))]])
                    (siphon_list p))]])]"

definition events_card :: "(string \<Rightarrow> string option) \<Rightarrow> page \<Rightarrow> jsx" where
  "events_card lo p =
    El ''Card'' [(''withBorder'', PBool True), (''padding'', PStr ''lg'')]
      [SectionTitle ''Recent events'' (''Latest 12 '' @ middle_dot @ '' '' @ or_str (selectedNetwork p) ''network required''),
       (if recent_events (snap p) = []
         then
           Empty [Txt ''No events to display.'']
         else
           El ''ScrollArea'' [(''type'', PStr ''auto'')]
             [El ''Table'' [(''highlightOnHover'', PBool True), (''verticalSpacing'', PStr ''sm''),
                   (''miw'', PNum 900)]
                [El ''Table.Thead'' []
                   [El ''Table.Tr'' []
                      [El ''Table.Th'' []
                         [Txt ''Occurred''],
                       El ''Table.Th'' []
                         [Txt ''Stream''],
                       El ''Table.Th'' []
                         [Txt ''Origin''],
                       El ''Table.Th'' []
                         [Txt ''Event''],
                       El ''Table.Th'' []
                         [Txt ''Payload'']]],
                 El ''Table.Tbody'' []
                   (map (\<lambda>event.
                     El ''Table.Tr'' [(''key'', PStr (ev_id event))]
                       [El ''Table.Td'' []
                          [text_child (localTime lo (Some (ev_occurredAt event)))],
                        El ''Table.Td'' []
                          [El ''Text'' [(''ff'', PStr ''monospace''), (''size'', PStr ''sm'')]
                             [text_child (ev_stream event)]],
                        El ''Table.Td'' []
                          [El ''Text'' [(''ff'', PStr ''monospace''), (''size'', PStr ''sm'')]
                             [text_child (shortId (Some (ev_deviceId event)))]],
                        El ''Table.Td'' []
                          [El ''Text'' [(''ff'', PStr ''monospace''), (''size'', PStr ''sm'')]
                             [text_child (shortId (Some (ev_id event)))]],
                        El ''Table.Td'' []
                          [El ''Text'' [(''ff'', PStr ''monospace''), (''size'', PStr ''xs''),
                                (''className'', PStr ''payload'')]
                             [text_child (opt_map stringify (ev_payload event) em_dash)]]])
                    (recent_events (snap p)))]])]"

definition notes_card :: "page \<Rightarrow> jsx" where
  "notes_card p =
    El ''Card'' [(''withBorder'', PBool True), (''padding'', PStr ''lg'')]
      [SectionTitle ''System notes'' ''Current daemon capabilities'',
       El ''SimpleGrid'' [(''cols'', PObj [(''base'', PNum 1), (''sm'', PNum 2)]), (''spacing'', PStr ''xs'')]
         (map (\<lambda>f.
           El ''Paper'' [(''key'', PStr (ft_name f)), (''withBorder'', PBool True), (''p'', PStr ''md''),
                (''bg'', PStr ''dark.7'')]
             [El ''Group'' [(''gap'', PStr ''xs''), (''mb'', PNum 4)]
                [El ''Badge'' [(''color'', PStr (if ft_supported f then ''green'' else ''yellow'')),
                      (''variant'', PStr ''light''), (''size'', PStr ''xs'')]
                   [text_child (if ft_supported f then ''Available'' else ''Planned'')],
                 El ''Text'' [(''fw'', PNum 650), (''size'', PStr ''sm'')]
                   [text_child (ft_name f)]],
              El ''Text'' [(''c'', PStr ''dimmed''), (''size'', PStr ''xs'')]
                [text_child (ft_detail f)]])
          (feature_list p)),
       only_if (warning_list p \<noteq> [])
         (El ''Stack'' [(''gap'', PStr ''xs''), (''mt'', PStr ''lg'')]
            (map (\<lambda>warning.
              El ''Alert'' [(''key'', PStr warning), (''color'', PStr ''yellow''),
                   (''variant'', PStr ''light''), (''py'', PStr ''xs'')]
                [El ''Text'' [(''size'', PStr ''xs'')]
                   [text_child warning]])
             (warning_list p)))]"

definition footer_text :: "jsx" where
  "footer_text =
    El ''Text'' [(''c'', PStr ''dimmed''), (''size'', PStr ''xs''), (''ta'', PStr ''center'')]
      [Txt (''Loopback-only session '' @ middle_dot @ '' payloads are rendered as inert text '' @ middle_dot @ '' refreshes every 2 seconds'')]"

definition App :: "(string \<Rightarrow> string option) \<Rightarrow> page \<Rightarrow> jsx" where
  "App lo p =
    El ''Box'' [(''className'', PStr ''app-shell'')]
    [El ''Container'' [(''size'', PStr ''xl''), (''py'', PObj [(''base'', PStr ''lg''), (''sm'', PStr ''xl'')])]
      [El ''Stack'' [(''gap'', PStr ''lg'')]
        [header_group p,
         network_bar p,
         error_alert p,
         lab_card p,
         overview_card lo p,
         address_grid lo p,
         peers_card lo p,
         registry_card lo p,
         siphons_card lo p,
         events_card lo p,
         notes_card p,
         footer_text]]]"

end
