(* ===== verification/Console_Bundle.thy ===== *)
theory Console_Bundle
  imports Console_View
begin

text \<open>
  The console as the daemon ships it: the compiled \<open>App\<close>, \<open>df\<close>, and its helpers in
  \<open>internal/console/web/assets/app.js\<close>, translated on their own under the bundle's names, and the
  proof that they are the components and handlers of \<open>main.tsx\<close>. A component is named by the
  bundle's variable; \<open>component_name\<close> gives the component it holds.
\<close>

subsection \<open>Components and helpers\<close>

definition component_name :: "string \<Rightarrow> string" where
  "component_name v =
     (case map_of
        [(''G'', ''Box''), (''Al'', ''Container''), (''wd'', ''Stack''), (''Rs'', ''Group''),
         (''Kd'', ''ThemeIcon''), (''J'', ''Text''), (''$d'', ''Title''), (''cl'', ''Badge''),
         (''_l'', ''Button''), (''Fo'', ''Paper''), (''fd'', ''Select''), (''pc'', ''Alert''),
         (''wl'', ''Card''), (''bd'', ''SimpleGrid''), (''Ud'', ''TextInput''), (''ud'', ''NumberInput''),
         (''$l'', ''Textarea''), (''Gl'', ''Grid''), (''Gl.Col'', ''Grid.Col''), (''Pl'', ''Divider''),
         (''Eo'', ''ScrollArea''), (''El'', ''Center''), (''$'', ''Table''), (''$.Thead'', ''Table.Thead''),
         (''$.Tbody'', ''Table.Tbody''), (''$.Tr'', ''Table.Tr''), (''$.Th'', ''Table.Th''),
         (''$.Td'', ''Table.Td'')] v of
        None \<Rightarrow> v | Some n \<Rightarrow> n)"

fun resolve :: "jsx \<Rightarrow> jsx" and resolve_prop :: "pval \<Rightarrow> pval" where
  "resolve (El t ps cs) = El (component_name t) (map (\<lambda>(k, v). (k, resolve_prop v)) ps) (map resolve cs)"
| "resolve (Txt s) = Txt s"
| "resolve (Num n) = Num n"
| "resolve Nothing = Nothing"
| "resolve_prop (PElem x) = PElem (resolve x)"
| "resolve_prop (PObj ps) = PObj (map (\<lambda>(k, v). (k, resolve_prop v)) ps)"
| "resolve_prop (PList vs) = PList (map resolve_prop vs)"
| "resolve_prop (PStr s) = PStr s"
| "resolve_prop (PNum n) = PNum n"
| "resolve_prop (PBool b) = PBool b"
| "resolve_prop (PAct a) = PAct a"
| "resolve_prop (PVal v) = PVal v"
| "resolve_prop Undef = Undef"
| "resolve_prop Null = Null"

definition of_id :: "string option \<Rightarrow> string" where
  "of_id e =
     (if opt_str e \<noteq> []
      then (if length (opt_str e) > 18
            then take 9 (opt_str e) @ ellipsis @ drop (length (opt_str e) - 7) (opt_str e)
            else opt_str e)
      else em_dash)"

definition sf :: "(string \<Rightarrow> string option) \<Rightarrow> string option \<Rightarrow> string" where
  "sf lo e =
     (if opt_str e = [] then em_dash
      else (let t = lo (opt_str e) in if t = None then opt_str e else the t))"

definition cf :: "console_state \<Rightarrow> string" where
  "cf k = the (map_of [(Online, ''green''), (Degraded, ''yellow''), (Offline, ''red'')] k)"

definition lf :: "string \<Rightarrow> string \<Rightarrow> jsx" where
  "lf e t =
    El ''Rs'' [(''justify'', PStr ''space-between''), (''align'', PStr ''baseline''), (''mb'', PStr ''md''),
        (''wrap'', PStr ''nowrap'')]
      [El ''$d'' [(''order'', PNum 2), (''size'', PStr ''h4'')] [text_child e],
       El ''J'' [(''c'', PStr ''dimmed''), (''size'', PStr ''xs''), (''ta'', PStr ''right'')] [text_child t]]"

definition uf :: "jsx list \<Rightarrow> jsx" where
  "uf e = El ''El'' [(''mih'', PNum 108)] [El ''J'' [(''c'', PStr ''dimmed''), (''size'', PStr ''sm'')] e]"

definition af :: "(string \<times> pval) list" where
  "af =
     [(''primaryColor'', PStr ''frost''),
      (''primaryShade'', PObj [(''light'', PNum 6), (''dark'', PNum 4)]),
      (''defaultRadius'', PStr ''md''),
      (''colors'', PObj
        [(''frost'', PList [PStr ''#eef6fa'', PStr ''#dceaf1'', PStr ''#bdd8e4'', PStr ''#9bc5d6'',
            PStr ''#88c0d0'', PStr ''#81a1c1'', PStr ''#5e81ac'', PStr ''#4c6c91'', PStr ''#3b5675'',
            PStr ''#2c415a'']),
         (''dark'', PList [PStr ''#eceff4'', PStr ''#e5e9f0'', PStr ''#d8dee9'', PStr ''#b8c2d1'',
            PStr ''#697386'', PStr ''#4c566a'', PStr ''#3b4252'', PStr ''#2e3440'', PStr ''#292f3a'',
            PStr ''#242933''])])]"

subsection \<open>What \<open>df\<close> derives from the snapshot\<close>

definition j_state :: "string \<Rightarrow> snapshot option \<Rightarrow> console_state" where
  "j_state a t =
     (if a \<noteq> [] then Offline
      else case t of None \<Rightarrow> Offline
        | Some s \<Rightarrow> (case sn_state s of None \<Rightarrow> Offline | Some k \<Rightarrow> k))"

definition M_network :: "snapshot option \<Rightarrow> string \<Rightarrow> console_network option" where
  "M_network t r = Option.bind t (\<lambda>s. find (\<lambda>e. cn_name e = r) (sn_networks s))"

definition N_url :: "string \<Rightarrow> string \<Rightarrow> string" where
  "N_url location r =
     (let e = new_url ''api/diagnostics'' location in
      if r = [] then e else search_set ''network'' r e)"

text \<open>The nested loops push onto \<open>e\<close>.\<close>

definition P_addresses :: "snapshot option \<Rightarrow> (string \<times> string) list" where
  "P_addresses t =
     (if t = None then []
      else foldl (\<lambda>e scope. foldl (\<lambda>e r. e @ [(scope, r)]) e
               (or_empty (Option.bind (map_of (or_empty (ns_addressGroups (sn_status (the t)))) scope) id)))
             [] [''lan'', ''public'', ''loopback'', ''other''])"

definition te_events :: "snapshot option \<Rightarrow> console_event list" where
  "te_events t = take 12 (case t of None \<Rightarrow> [] | Some s \<Rightarrow> or_empty (sn_events s))"

definition ne_metrics :: "snapshot option \<Rightarrow> (string \<times> string \<times> bool) list" where
  "ne_metrics t =
     [(''Device'', of_id (map_option (\<lambda>s. ns_deviceId (sn_status s)) t), True),
      (''Networks'', show_nat (case t of None \<Rightarrow> 0 | Some s \<Rightarrow> length (sn_networks s)), False),
      (''Known peers'',
        show_nat (case Option.bind t sn_peers of None \<Rightarrow> 0 | Some ps \<Rightarrow> length ps), False),
      (''Recent events'', show_nat (length (te_events t)), False),
      (''Integrations'',
        show_nat (case Option.bind (Option.bind t sn_registry) rs_definitions of
          None \<Rightarrow> 0 | Some ds \<Rightarrow> length ds), False),
      (''Versions'',
        (if t = None then em_dash
         else or_str (ns_daemonVersion (sn_status (the t))) ''?'' @ '' '' @ middle_dot @ '' IPC ''
           @ or_mark (ns_protocolVersion (sn_status (the t))) @ '' '' @ middle_dot @ '' DB ''
           @ or_mark (ns_storageSchemaVersion (sn_status (the t)))), False)]"

definition peer_tone :: "string \<Rightarrow> string" where
  "peer_tone e = (if e = ''healthy'' then ''green'' else if e = ''degraded'' then ''yellow'' else ''frost'')"

definition runtime_tone :: "string \<Rightarrow> string" where
  "runtime_tone e =
     (if e \<in> set [''failed'', ''backoff''] then ''yellow''
      else if e \<in> set [''running'', ''waiting'', ''completed''] then ''green'' else ''gray'')"

subsection \<open>Its handlers\<close>

text \<open>
  \<open>A\<close>, the \<open>refresh\<close> of a render in which \<open>r\<close> is selected, up to its fetch and after it;
  \<open>awaited\<close> says that \<open>F\<close> awaits it.
\<close>

definition A_start :: "string option \<Rightarrow> bool \<Rightarrow> string \<Rightarrow> bool \<Rightarrow> page \<Rightarrow> page" where
  "A_start e t r awaited p =
     (let e' = (case e of None \<Rightarrow> r | Some n \<Rightarrow> n);
          p1 = (if t then p\<lparr>loading := True\<rparr> else p);
          u = new_url ''api/snapshot'' (href p);
          u' = (if e' \<noteq> [] then search_set ''network'' e' u else u)
      in p1\<lparr>refreshes := refreshes p1 @ [\<lparr>rc_network = e', rc_indicate = t, rc_awaited = awaited\<rparr>],
             sent := sent p1 @ [Get u']\<rparr>)"

definition A_reply :: "bool \<Rightarrow> snapshot reply \<Rightarrow> page \<Rightarrow> page" where
  "A_reply t r p =
     (let p1 = (case r of
            Status n _ \<Rightarrow> p\<lparr>error_text := ''Console API returned '' @ show_nat n\<rparr>
          | Body a \<Rightarrow> p\<lparr>snap := Some a, selectedNetwork := opt_str (sn_selectedNetwork a), error_text := []\<rparr>
          | Failed (Some m) \<Rightarrow> p\<lparr>error_text := m\<rparr>
          | Failed None \<Rightarrow> p\<lparr>error_text := ''Unable to reach the console API''\<rparr>)
      in if t then p1\<lparr>loading := False\<rparr> else p1)"

text \<open>\<open>F\<close> and \<open>I\<close>, the publish and the verification, up to their fetches.\<close>

definition F_publish :: "page \<Rightarrow> page" where
  "F_publish p =
     (if selectedNetwork p \<noteq> []
      then case json_parse (labData p) of
          Some e \<Rightarrow>
            p\<lparr>labBusy := True, labError := [], labs := labs p @ [Publishing (selectedNetwork p)],
              sent := sent p @ [Post (new_url ''api/lab/publish'' (href p))
                (stringify (JObj [(''network'', JStr (selectedNetwork p)), (''stream'', JStr (labStream p)),
                   (''count'', JNum (labCount p)), (''message'', JStr (labMessage p)), (''data'', e)]))]\<rparr>
        | None \<Rightarrow> p\<lparr>labBusy := False, labError := engine_error p\<rparr>
      else p)"

definition I_verify :: "page \<Rightarrow> page" where
  "I_verify p =
     (if selectedNetwork p \<noteq> []
      then p\<lparr>labBusy := True, labError := [], labs := labs p @ [Verifying],
             sent := sent p @ [Post (new_url ''api/lab/verify'' (href p))
               (stringify (jobject
                  [(''network'', Some (JStr (selectedNetwork p))), (''stream'', Some (JStr (labStream p))),
                   (''runId'', labRunId p), (''originDeviceId'', labOrigin p),
                   (''expected'', labExpected p)]))]\<rparr>
      else p)"

subsection \<open>The sections of \<open>df\<close>\<close>

definition df_header_group :: "page \<Rightarrow> jsx" where
  "df_header_group p =
    El ''Rs'' [(''justify'', PStr ''space-between''), (''align'', PStr ''center'')]
      [El ''Rs'' [(''gap'', PStr ''sm'')]
         [El ''Kd'' [(''variant'', PStr ''light''), (''size'', PNum 42), (''radius'', PStr ''md''),
               (''aria-hidden'', PBool True)]
            [El ''J'' [(''fw'', PNum 800), (''ff'', PStr ''monospace'')]
               [Txt ''T'']],
          El ''div'' []
            [El ''$d'' [(''order'', PNum 1), (''size'', PStr ''h3'')]
               [Txt ''Thalweg Console''],
             El ''J'' [(''c'', PStr ''dimmed''), (''size'', PStr ''sm'')]
               [Txt ''A clear view of your local daemon'']]],
       El ''Rs'' [(''gap'', PStr ''sm'')]
         [El ''cl'' [(''color'', PStr (cf (j_state (error_text p) (snap p)))),
               (''variant'', PStr ''light''), (''size'', PStr ''lg''),
               (''leftSection'', PElem (El ''span'' [(''className'', PStr ''status-dot'')] []))]
            [text_child (show_state (j_state (error_text p) (snap p)))],
          El ''_l'' [(''variant'', PStr ''default''), (''loading'', PBool (loading p)),
               (''onClick'', PAct Refresh_clicked)]
            [Txt ''Refresh''],
          El ''_l'' [(''component'', PStr ''a''), (''href'', PStr (N_url (href p) (selectedNetwork p))),
               (''variant'', PStr ''light'')]
            [Txt ''Export diagnostics'']]]"

definition df_network_bar :: "page \<Rightarrow> jsx" where
  "df_network_bar p =
    El ''Fo'' [(''withBorder'', PBool True), (''p'', PStr ''md'')]
      [El ''Rs'' [(''justify'', PStr ''space-between''), (''align'', PStr ''end'')]
         [El ''fd'' [(''label'', PStr ''Network''),
               (''placeholder'', PStr (if snap p = None then ''Waiting for daemon'' else ''No mounted networks'')),
               (''data'', PList (map (\<lambda>n. PObj [(''label'', PStr (cn_name n)), (''value'', PStr (cn_name n))]) (network_list p))),
               (''value'', or_null (selectedNetwork p)),
               (''disabled'', PBool (network_list p = [])), (''onChange'', PAct Network_chosen),
               (''w'', PObj [(''base'', PStr ''100%''), (''sm'', PNum 280)])] [],
          El ''div'' []
            [El ''J'' [(''c'', PStr ''dimmed''), (''size'', PStr ''xs''),
                  (''ta'', PObj [(''base'', PStr ''left''), (''sm'', PStr ''right'')])]
               [Txt ''Network ID''],
             El ''J'' [(''ff'', PStr ''monospace''), (''size'', PStr ''sm'')]
               [text_child (or_str (opt_map cn_id (M_network (snap p) (selectedNetwork p)) []) em_dash)]]]]"

definition df_error_alert :: "page \<Rightarrow> jsx" where
  "df_error_alert p =
    only_if (shown_error p \<noteq> [])
      (El ''pc'' [(''color'', PStr ''red''), (''title'', PStr ''Console unavailable''),
            (''variant'', PStr ''light'')]
         [text_child (shown_error p)])"

definition df_lab_card :: "page \<Rightarrow> jsx" where
  "df_lab_card p =
    only_if (labEnabled p)
      (El ''wl'' [(''withBorder'', PBool True), (''padding'', PStr ''lg'')]
         [lf ''Event Workbench'' (''Explicit lab mode '' @ middle_dot @ '' writes test events''),
          El ''pc'' [(''color'', PStr ''frost''), (''variant'', PStr ''light''), (''mb'', PStr ''md'')]
            [Txt ''Test events use deterministic IDs, so retrying the same run ID is idempotent. They replicate like ordinary events.''],
          El ''bd'' [(''cols'', PObj [(''base'', PNum 1), (''md'', PNum 2)])]
            [El ''wd'' [(''gap'', PStr ''sm'')]
               [El ''Ud'' [(''label'', PStr ''Stream''), (''value'', PStr (labStream p)),
                     (''onChange'', PAct Stream_edited)] [],
                El ''ud'' [(''label'', PStr ''Event count''), (''min'', PNum 1), (''max'', PNum 100),
                     (''value'', PVal (Some (JNum (labCount p)))), (''onChange'', PAct Count_edited)] [],
                El ''Ud'' [(''label'', PStr ''Message''),
                     (''placeholder'', PStr ''Optional note for this run''),
                     (''value'', PStr (labMessage p)), (''onChange'', PAct Message_edited)] [],
                El ''$l'' [(''label'', PStr ''Generic JSON data''), (''autosize'', PBool True),
                     (''minRows'', PNum 4), (''ff'', PStr ''monospace''),
                     (''value'', PStr (labData p)), (''onChange'', PAct Data_edited)] [],
                El ''_l'' [(''disabled'', PBool (selectedNetwork p = [])),
                     (''loading'', PBool (labBusy p)), (''onClick'', PAct Publish_clicked)]
                  [Txt ''Publish deterministic run'']],
             El ''wd'' [(''gap'', PStr ''sm'')]
               [El ''Ud'' [(''label'', PStr ''Run ID''), (''value'', PVal (labRunId p)),
                     (''onChange'', PAct Run_id_edited)] [],
                El ''Ud'' [(''label'', PStr ''Origin device ID''),
                     (''description'', PStr ''Copy from the publishing manifest; leave blank to match any origin''),
                     (''value'', PVal (labOrigin p)), (''onChange'', PAct Origin_edited)] [],
                El ''ud'' [(''label'', PStr ''Expected sequences''), (''min'', PNum 1),
                     (''max'', PNum 100), (''value'', PVal (labExpected p)),
                     (''onChange'', PAct Expected_edited)] [],
                El ''_l'' [(''variant'', PStr ''default''),
                     (''disabled'', PBool (selectedNetwork p = [] \<or> \<not> truthy (labRunId p))),
                     (''loading'', PBool (labBusy p)), (''onClick'', PAct Verify_clicked)]
                  [Txt ''Verify local replica''],
                only_if (labError p \<noteq> [])
                  (El ''pc'' [(''color'', PStr ''red''), (''variant'', PStr ''light'')]
                     [text_child (labError p)]),
                only_if (truthy (labResult p))
                  (El ''Fo'' [(''withBorder'', PBool True), (''p'', PStr ''md''),
                        (''bg'', PStr ''dark.7'')]
                     [El ''J'' [(''size'', PStr ''xs''), (''ff'', PStr ''monospace''),
                           (''className'', PStr ''payload'')]
                        [text_child (pretty 0 (the (labResult p)))]])]]])"

definition df_overview_card :: "(string \<Rightarrow> string option) \<Rightarrow> page \<Rightarrow> jsx" where
  "df_overview_card lo p =
    El ''wl'' [(''withBorder'', PBool True), (''padding'', PStr ''lg'')]
      [lf ''Overview'' (opt_map (\<lambda>s. ''Captured '' @ sf lo (Some (sn_capturedAt s))) (snap p) ''Not yet refreshed''),
       El ''bd'' [(''cols'', PObj [(''base'', PNum 1), (''xs'', PNum 2), (''md'', PNum 4)])]
         (map (\<lambda>(label, val, mono).
           El ''Fo'' [(''key'', PStr label), (''withBorder'', PBool True), (''p'', PStr ''md''),
                (''bg'', PStr ''dark.7'')]
             [El ''J'' [(''c'', PStr ''dimmed''), (''size'', PStr ''xs''), (''fw'', PNum 700),
                   (''tt'', PStr ''uppercase''), (''lts'', PStr ''.06em'')]
                [text_child label],
              El ''J'' [(''mt'', PNum 6), (''fw'', PNum 650),
                   (''ff'', (if mono then PStr ''monospace'' else Undef)),
                   (''truncate'', PBool True)]
                [text_child val]])
          (ne_metrics (snap p)))]"

definition df_address_grid :: "(string \<Rightarrow> string option) \<Rightarrow> page \<Rightarrow> jsx" where
  "df_address_grid lo p =
    El ''Gl'' [(''gap'', PStr ''lg'')]
      [El ''Gl.Col'' [(''span'', PObj [(''base'', PNum 12), (''md'', PNum 6)])]
         [El ''wl'' [(''withBorder'', PBool True), (''padding'', PStr ''lg''), (''h'', PStr ''100%'')]
            [lf ''Node addresses'' ''Advertised locally'',
             (if P_addresses (snap p) = []
               then
                 uf [Txt ''No advertised addresses.'']
               else
                 El ''wd'' [(''gap'', PNum 0)]
                   (map (\<lambda>(index, (scope, address)).
                     El ''G'' [(''key'', PStr (scope @ ''-'' @ address))]
                       [only_if (0 < index)
                          (El ''Pl'' [] []),
                        El ''Rs'' [(''justify'', PStr ''space-between''), (''py'', PStr ''sm''),
                             (''wrap'', PStr ''nowrap'')]
                          [El ''cl'' [(''variant'', PStr ''light''), (''size'', PStr ''sm'')]
                             [text_child scope],
                           El ''J'' [(''ff'', PStr ''monospace''), (''size'', PStr ''xs''),
                                (''truncate'', PBool True), (''className'', PStr ''flex-text'')]
                             [text_child address],
                           El ''J'' [(''c'', PStr ''dimmed''), (''size'', PStr ''xs'')]
                             [Txt ''advertised'']]])
                    (enumerate 0 (take 6 (P_addresses (snap p)))) @
                   [only_if (6 < length (P_addresses (snap p)))
                        (El ''J'' [(''c'', PStr ''dimmed''), (''size'', PStr ''xs''),
                              (''pt'', PStr ''sm'')]
                           [Txt ''+ '',
                            Num (int (length (P_addresses (snap p))) - 6),
                            Txt '' more addresses''])]))]],
       El ''Gl.Col'' [(''span'', PObj [(''base'', PNum 12), (''md'', PNum 6)])]
         [El ''wl'' [(''withBorder'', PBool True), (''padding'', PStr ''lg''), (''h'', PStr ''100%'')]
            [lf ''Streams'' ''Recent 24-hour window'',
             (if stream_list p \<noteq> []
               then
                 El ''wd'' [(''gap'', PNum 0)]
                   (map (\<lambda>(index, s).
                     El ''G'' [(''key'', PStr (ss_name s))]
                       [only_if (0 < index)
                          (El ''Pl'' [] []),
                        El ''Rs'' [(''justify'', PStr ''space-between''), (''py'', PStr ''sm''),
                             (''wrap'', PStr ''nowrap'')]
                          [El ''cl'' [(''variant'', PStr ''light''), (''size'', PStr ''sm'')]
                             [Txt ''stream''],
                           El ''J'' [(''ff'', PStr ''monospace''), (''size'', PStr ''xs''),
                                (''truncate'', PBool True), (''className'', PStr ''flex-text'')]
                             [text_child (ss_name s)],
                           El ''J'' [(''c'', PStr ''dimmed''), (''size'', PStr ''xs''),
                                (''ta'', PStr ''right'')]
                             [Num (ss_eventCount s),
                              Txt ('' '' @ middle_dot @ '' ''),
                              text_child (sf lo (ss_latestAt s))]]])
                    (enumerate 0 (take 6 (stream_list p))) @
                   [only_if (6 < length (stream_list p))
                        (El ''J'' [(''c'', PStr ''dimmed''), (''size'', PStr ''xs''),
                              (''pt'', PStr ''sm'')]
                           [Txt ''+ '',
                            Num (int (length (stream_list p)) - 6),
                            Txt '' more streams''])])
               else
                 uf [Txt ''No events in the recent diagnostic window.''])]]]"

definition df_peers_card :: "(string \<Rightarrow> string option) \<Rightarrow> page \<Rightarrow> jsx" where
  "df_peers_card lo p =
    El ''wl'' [(''withBorder'', PBool True), (''padding'', PStr ''lg'')]
      [lf ''Peers'' (or_str (selectedNetwork p) ''network required''),
       (if peer_list p \<noteq> []
         then
           El ''Eo'' [(''type'', PStr ''auto'')]
             [El ''$'' [(''verticalSpacing'', PStr ''sm''), (''miw'', PNum 760)]
                [El ''$.Thead'' []
                   [El ''$.Tr'' []
                      [El ''$.Th'' []
                         [Txt ''Peer''],
                       El ''$.Th'' []
                         [Txt ''State''],
                       El ''$.Th'' []
                         [Txt ''Last synchronized''],
                       El ''$.Th'' []
                         [Txt ''Retry'']]],
                 El ''$.Tbody'' []
                   (map (\<lambda>peer.
                     El ''$.Tr'' [(''key'', PStr (mp_peerId peer))]
                       [El ''$.Td'' []
                          [El ''J'' [(''ff'', PStr ''monospace''), (''size'', PStr ''sm'')]
                             [text_child (of_id (Some (mp_peerId peer)))],
                           El ''J'' [(''c'', PStr ''dimmed''), (''ff'', PStr ''monospace''),
                                (''size'', PStr ''xs''), (''truncate'', PBool True),
                                (''maw'', PNum 340)]
                             [text_child (mp_address peer)]],
                        El ''$.Td'' []
                          [El ''cl'' [(''color'', PStr (peer_tone (mp_state peer))),
                                (''variant'', PStr ''light'')]
                             [text_child (mp_state peer),
                              text_child (if mp_connected peer then '' '' @ middle_dot @ '' connected'' else [])],
                           only_if (opt_str (mp_lastError peer) \<noteq> [])
                             (El ''J'' [(''c'', PStr ''yellow''), (''size'', PStr ''xs''),
                                   (''mt'', PNum 4)]
                                [text_child (opt_str (mp_lastError peer))])],
                        El ''$.Td'' []
                          [text_child (sf lo (mp_lastSuccessAt peer))],
                        El ''$.Td'' []
                          [El ''J'' [(''size'', PStr ''xs'')]
                             [Num (mp_consecutiveFailures peer),
                              Txt '' failures''],
                           El ''J'' [(''c'', PStr ''dimmed''), (''size'', PStr ''xs'')]
                             [text_child (sf lo (mp_nextAttemptAt peer))]]])
                    (peer_list p))]]
         else
           uf [Txt ''No known peers for this network.''])]"

definition df_registry_card :: "(string \<Rightarrow> string option) \<Rightarrow> page \<Rightarrow> jsx" where
  "df_registry_card lo p =
    El ''wl'' [(''withBorder'', PBool True), (''padding'', PStr ''lg'')]
      [lf ''Registry'' (if opt_map rs_pendingReload (Option.bind (snap p) sn_registry) False then ''Pending reload'' else ''Accepted local definitions''),
       (if definition_list p \<noteq> []
         then
           El ''Eo'' [(''type'', PStr ''auto'')]
             [El ''$'' [(''verticalSpacing'', PStr ''sm''), (''miw'', PNum 760)]
                [El ''$.Thead'' []
                   [El ''$.Tr'' []
                      [El ''$.Th'' []
                         [Txt ''Name''],
                       El ''$.Th'' []
                         [Txt ''Kind''],
                       El ''$.Th'' []
                         [Txt ''State''],
                       El ''$.Th'' []
                         [Txt ''Network''],
                       El ''$.Th'' []
                         [Txt ''Processed''],
                       El ''$.Th'' []
                         [Txt ''Last activity'']]],
                 El ''$.Tbody'' []
                   (map (\<lambda>r.
                     El ''$.Tr'' [(''key'', PStr (rd_name r))]
                       [El ''$.Td'' []
                          [El ''J'' [(''ff'', PStr ''monospace''), (''size'', PStr ''sm'')]
                             [text_child (rd_name r)],
                           only_if (opt_str (rd_lastError r) \<noteq> [])
                             (El ''J'' [(''c'', PStr ''yellow''), (''size'', PStr ''xs''),
                                   (''maw'', PNum 300)]
                                [text_child (opt_str (rd_lastError r))])],
                        El ''$.Td'' []
                          [El ''cl'' [(''variant'', PStr ''light'')]
                             [text_child (rd_kind r)]],
                        El ''$.Td'' []
                          [El ''cl'' [(''color'', PStr (runtime_tone (rd_runtimeState r))),
                                (''variant'', PStr ''light'')]
                             [text_child (rd_runtimeState r)]],
                        El ''$.Td'' []
                          [text_child (rd_network r)],
                        El ''$.Td'' []
                          [Num (rd_processed r)],
                        El ''$.Td'' []
                          [text_child (sf lo (rd_lastSuccessAt r))]])
                    (definition_list p))]]
         else
           uf [Txt ''No accepted registry definitions.''])]"

definition df_siphons_card :: "(string \<Rightarrow> string option) \<Rightarrow> page \<Rightarrow> jsx" where
  "df_siphons_card lo p =
    El ''wl'' [(''withBorder'', PBool True), (''padding'', PStr ''lg'')]
      [lf ''Durable siphons'' (or_str (selectedNetwork p) ''network required''),
       (if siphon_list p \<noteq> []
         then
           El ''Eo'' [(''type'', PStr ''auto'')]
             [El ''$'' [(''verticalSpacing'', PStr ''sm''), (''miw'', PNum 720)]
                [El ''$.Thead'' []
                   [El ''$.Tr'' []
                      [El ''$.Th'' []
                         [Txt ''Name''],
                       El ''$.Th'' []
                         [Txt ''Streams''],
                       El ''$.Th'' []
                         [Txt ''Cursor''],
                       El ''$.Th'' []
                         [Txt ''Pending''],
                       El ''$.Th'' []
                         [Txt ''Updated'']]],
                 El ''$.Tbody'' []
                   (map (\<lambda>d.
                     El ''$.Tr'' [(''key'', PStr (dn_network d @ '':'' @ dn_name d))]
                       [El ''$.Td'' []
                          [El ''J'' [(''ff'', PStr ''monospace''), (''size'', PStr ''sm'')]
                             [text_child (dn_name d)]],
                        El ''$.Td'' []
                          [El ''J'' [(''ff'', PStr ''monospace''), (''size'', PStr ''xs'')]
                             [text_child (if dn_streams d \<noteq> [] then join_with '', '' (dn_streams d) else ''all streams'')]],
                        El ''$.Td'' []
                          [Num (dn_cursor d)],
                        El ''$.Td'' []
                          [(if opt_str (dn_pendingDeliveryId d) \<noteq> []
                             then
                               El ''cl'' [(''color'', PStr ''yellow''), (''variant'', PStr ''light'')]
                                 [Num (dn_pendingCount d),
                                  Txt ('' '' @ middle_dot @ '' attempt ''),
                                  Num (dn_pendingAttempts d)]
                             else
                               El ''cl'' [(''color'', PStr ''green''), (''variant'', PStr ''light'')]
                                 [Txt ''idle''])],
                        El ''$.Td'' []
                          [text_child (sf lo (dn_updatedAt d))]])
                    (siphon_list p))]]
         else
           uf [Txt ''No durable siphons registered for this network.''])]"

definition df_events_card :: "(string \<Rightarrow> string option) \<Rightarrow> page \<Rightarrow> jsx" where
  "df_events_card lo p =
    El ''wl'' [(''withBorder'', PBool True), (''padding'', PStr ''lg'')]
      [lf ''Recent events'' (''Latest 12 '' @ middle_dot @ '' '' @ or_str (selectedNetwork p) ''network required''),
       (if te_events (snap p) = []
         then
           uf [Txt ''No events to display.'']
         else
           El ''Eo'' [(''type'', PStr ''auto'')]
             [El ''$'' [(''highlightOnHover'', PBool True), (''verticalSpacing'', PStr ''sm''),
                   (''miw'', PNum 900)]
                [El ''$.Thead'' []
                   [El ''$.Tr'' []
                      [El ''$.Th'' []
                         [Txt ''Occurred''],
                       El ''$.Th'' []
                         [Txt ''Stream''],
                       El ''$.Th'' []
                         [Txt ''Origin''],
                       El ''$.Th'' []
                         [Txt ''Event''],
                       El ''$.Th'' []
                         [Txt ''Payload'']]],
                 El ''$.Tbody'' []
                   (map (\<lambda>event.
                     El ''$.Tr'' [(''key'', PStr (ev_id event))]
                       [El ''$.Td'' []
                          [text_child (sf lo (Some (ev_occurredAt event)))],
                        El ''$.Td'' []
                          [El ''J'' [(''ff'', PStr ''monospace''), (''size'', PStr ''sm'')]
                             [text_child (ev_stream event)]],
                        El ''$.Td'' []
                          [El ''J'' [(''ff'', PStr ''monospace''), (''size'', PStr ''sm'')]
                             [text_child (of_id (Some (ev_deviceId event)))]],
                        El ''$.Td'' []
                          [El ''J'' [(''ff'', PStr ''monospace''), (''size'', PStr ''sm'')]
                             [text_child (of_id (Some (ev_id event)))]],
                        El ''$.Td'' []
                          [El ''J'' [(''ff'', PStr ''monospace''), (''size'', PStr ''xs''),
                                (''className'', PStr ''payload'')]
                             [text_child (opt_map stringify (ev_payload event) em_dash)]]])
                    (te_events (snap p)))]])]"

definition df_notes_card :: "page \<Rightarrow> jsx" where
  "df_notes_card p =
    El ''wl'' [(''withBorder'', PBool True), (''padding'', PStr ''lg'')]
      [lf ''System notes'' ''Current daemon capabilities'',
       El ''bd'' [(''cols'', PObj [(''base'', PNum 1), (''sm'', PNum 2)]), (''spacing'', PStr ''xs'')]
         (map (\<lambda>f.
           El ''Fo'' [(''key'', PStr (ft_name f)), (''withBorder'', PBool True), (''p'', PStr ''md''),
                (''bg'', PStr ''dark.7'')]
             [El ''Rs'' [(''gap'', PStr ''xs''), (''mb'', PNum 4)]
                [El ''cl'' [(''color'', PStr (if ft_supported f then ''green'' else ''yellow'')),
                      (''variant'', PStr ''light''), (''size'', PStr ''xs'')]
                   [text_child (if ft_supported f then ''Available'' else ''Planned'')],
                 El ''J'' [(''fw'', PNum 650), (''size'', PStr ''sm'')]
                   [text_child (ft_name f)]],
              El ''J'' [(''c'', PStr ''dimmed''), (''size'', PStr ''xs'')]
                [text_child (ft_detail f)]])
          (feature_list p)),
       only_if (warning_list p \<noteq> [])
         (El ''wd'' [(''gap'', PStr ''xs''), (''mt'', PStr ''lg'')]
            (map (\<lambda>warning.
              El ''pc'' [(''key'', PStr warning), (''color'', PStr ''yellow''),
                   (''variant'', PStr ''light''), (''py'', PStr ''xs'')]
                [El ''J'' [(''size'', PStr ''xs'')]
                   [text_child warning]])
             (warning_list p)))]"

definition df_footer_text :: "jsx" where
  "df_footer_text =
    El ''J'' [(''c'', PStr ''dimmed''), (''size'', PStr ''xs''), (''ta'', PStr ''center'')]
      [Txt (''Loopback-only session '' @ middle_dot @ '' payloads are rendered as inert text '' @ middle_dot @ '' refreshes every 2 seconds'')]"

definition df :: "(string \<Rightarrow> string option) \<Rightarrow> page \<Rightarrow> jsx" where
  "df lo p =
    El ''G'' [(''className'', PStr ''app-shell'')]
    [El ''Al'' [(''size'', PStr ''xl''), (''py'', PObj [(''base'', PStr ''lg''), (''sm'', PStr ''xl'')])]
      [El ''wd'' [(''gap'', PStr ''lg'')]
        [df_header_group p,
         df_network_bar p,
         df_error_alert p,
         df_lab_card p,
         df_overview_card lo p,
         df_address_grid lo p,
         df_peers_card lo p,
         df_registry_card lo p,
         df_siphons_card lo p,
         df_events_card lo p,
         df_notes_card p,
         df_footer_text]]]"

subsection \<open>The bundle is the console\<close>

lemma bundle_helpers [simp]:
  "of_id = shortId" "sf = localTime" "cf = stateColor" "j_state = currentState" "M_network = activeNetwork"
  "N_url = diagnosticsURL" "te_events = recent_events" "peer_tone = peerColor" "runtime_tone = runtimeColor"
proof -
  show "of_id = shortId" by (simp add: fun_eq_iff of_id_def shortId_def Let_def)
  show "sf = localTime" by (auto simp: fun_eq_iff sf_def localTime_def Let_def split: option.split)
  show "cf = stateColor"
  proof
    show "cf k = stateColor k" for k by (cases k) (simp_all add: cf_def)
  qed
  show "j_state = currentState"
    by (auto simp: fun_eq_iff j_state_def currentState_def split: option.split)
  show "M_network = activeNetwork"
    by (auto simp: fun_eq_iff M_network_def activeNetwork_def split: option.split)
  show "N_url = diagnosticsURL" by (simp add: fun_eq_iff N_url_def diagnosticsURL_def Let_def)
  show "te_events = recent_events"
    by (auto simp: fun_eq_iff te_events_def recent_events_def or_empty_def split: option.split)
  show "peer_tone = peerColor" by (simp add: fun_eq_iff peer_tone_def peerColor_def)
  show "runtime_tone = runtimeColor" by (auto simp: fun_eq_iff runtime_tone_def runtimeColor_def)
qed

lemma foldl_push: "foldl (\<lambda>e r. e @ [f r]) e xs = e @ map f xs"
  by (induction xs arbitrary: e) simp_all

lemma bundle_addresses [simp]: "P_addresses = addresses"
proof
  show "P_addresses t = addresses t" for t
    by (cases t) (simp_all add: P_addresses_def addresses_def address_scopes_def foldl_push Let_def)
qed

lemma bundle_metrics [simp]: "ne_metrics = metrics"
  by (auto simp: fun_eq_iff ne_metrics_def metrics_def opt_map_def or_empty_def o_def split: option.split)

lemma resolve_simps [simp]:
  "resolve (text_child s) = text_child s" "resolve (only_if b x) = only_if b (resolve x)"
  "resolve (if b then x else y) = (if b then resolve x else resolve y)"
  "resolve_prop (if b then v else w) = (if b then resolve_prop v else resolve_prop w)"
  "resolve_prop (or_null s) = or_null s"
  by (simp_all add: text_child_def only_if_def or_null_def)

text \<open>The bundle's variables, each the component it holds.\<close>

lemma component_names [simp]:
  "component_name ''G'' = ''Box''" "component_name ''Al'' = ''Container''" "component_name ''wd'' = ''Stack''"
  "component_name ''Rs'' = ''Group''" "component_name ''Kd'' = ''ThemeIcon''" "component_name ''J'' = ''Text''"
  "component_name ''$d'' = ''Title''" "component_name ''cl'' = ''Badge''" "component_name ''_l'' = ''Button''"
  "component_name ''Fo'' = ''Paper''" "component_name ''fd'' = ''Select''" "component_name ''pc'' = ''Alert''"
  "component_name ''wl'' = ''Card''" "component_name ''bd'' = ''SimpleGrid''"
  "component_name ''Ud'' = ''TextInput''" "component_name ''ud'' = ''NumberInput''"
  "component_name ''$l'' = ''Textarea''" "component_name ''Gl'' = ''Grid''"
  "component_name ''Gl.Col'' = ''Grid.Col''" "component_name ''Pl'' = ''Divider''"
  "component_name ''Eo'' = ''ScrollArea''" "component_name ''El'' = ''Center''" "component_name ''$'' = ''Table''"
  "component_name ''$.Thead'' = ''Table.Thead''" "component_name ''$.Tbody'' = ''Table.Tbody''"
  "component_name ''$.Tr'' = ''Table.Tr''" "component_name ''$.Th'' = ''Table.Th''"
  "component_name ''$.Td'' = ''Table.Td''" "component_name ''div'' = ''div''" "component_name ''span'' = ''span''"
  by (simp_all add: component_name_def)

lemma bundle_titles [simp]:
  "resolve (lf e t) = SectionTitle e t" "resolve (uf cs) = Empty (map resolve cs)"
  by (simp_all add: lf_def uf_def SectionTitle_def Empty_def)

lemma bundle_sections [simp]:
  "resolve (df_header_group p) = header_group p" "resolve (df_network_bar p) = network_bar p"
  "resolve (df_error_alert p) = error_alert p" "resolve (df_lab_card p) = lab_card p"
  "resolve (df_overview_card lo p) = overview_card lo p"
  "resolve (df_footer_text) = footer_text"
  by (simp_all add: df_header_group_def header_group_def df_network_bar_def network_bar_def
      df_error_alert_def error_alert_def df_lab_card_def lab_card_def df_overview_card_def
      overview_card_def df_footer_text_def footer_text_def case_prod_beta)

lemma bundle_lists [simp]:
  "resolve (df_address_grid lo p) = address_grid lo p"
  "resolve (df_peers_card lo p) = peers_card lo p" "resolve (df_registry_card lo p) = registry_card lo p"
  "resolve (df_siphons_card lo p) = siphons_card lo p" "resolve (df_events_card lo p) = events_card lo p"
  "resolve (df_notes_card p) = notes_card p"
  by (simp_all add: df_address_grid_def address_grid_def df_peers_card_def peers_card_def
      df_registry_card_def registry_card_def df_siphons_card_def siphons_card_def df_events_card_def
      events_card_def df_notes_card_def notes_card_def case_prod_beta o_def)


end
