(* ===== verification/Console_View_Properties.thy ===== *)
theory Console_View_Properties
  imports Console_View
begin

text \<open>
  Properties of what the console renders: which controls a page offers, that data of the daemon is
  shown as inert text, and how much of a long list is shown.
\<close>

subsection \<open>Controls\<close>

definition prop_controls :: "(string \<times> pval) list \<Rightarrow> control list" where
  "prop_controls ps = List.map_filter (\<lambda>(k, v). case v of PAct a \<Rightarrow> Some a | _ \<Rightarrow> None) ps"

definition controls :: "jsx \<Rightarrow> control set" where
  "controls x = (\<Union>(t, ps) \<in> set (elements x). set (prop_controls ps))"

lemma prop_controls_simps [simp]:
  "prop_controls [] = []"
  "prop_controls ((k, v) # ps) = (case v of PAct a \<Rightarrow> a # prop_controls ps | _ \<Rightarrow> prop_controls ps)"
  by (simp_all add: prop_controls_def List.map_filter_def split: pval.split)

lemma controls_simps [simp]:
  "controls (Txt s) = {}" "controls (Num n) = {}" "controls Nothing = {}" "controls (text_child s) = {}"
  "controls (only_if b x) = (if b then controls x else {})"
  "controls (if b then x else y) = (if b then controls x else controls y)"
  by (simp_all add: controls_def text_child_def only_if_def)

lemma controls_El [simp]:
  "controls (El t ps cs) =
     set (prop_controls ps) \<union> (\<Union>(k, v) \<in> set ps. \<Union>(u, qs) \<in> set (prop_elements v). set (prop_controls qs))
       \<union> (\<Union>c \<in> set cs. controls c)"
  by (auto simp: controls_def)

lemma controls_titles [simp]:
  "controls (SectionTitle t d) = {}" "controls (Empty cs) = (\<Union>c \<in> set cs. controls c)"
  by (simp_all add: SectionTitle_def Empty_def)

lemma section_controls:
  "controls (header_group p) = {Refresh_clicked}" "controls (network_bar p) = {Network_chosen}"
  "controls (error_alert p) = {}" "controls (overview_card lo p) = {}" "controls (address_grid lo p) = {}"
  "controls (peers_card lo p) = {}" "controls (registry_card lo p) = {}" "controls (siphons_card lo p) = {}"
  "controls (events_card lo p) = {}" "controls (notes_card p) = {}" "controls footer_text = {}"
  by (simp_all add: header_group_def network_bar_def error_alert_def overview_card_def address_grid_def
      peers_card_def registry_card_def siphons_card_def events_card_def notes_card_def footer_text_def
      or_null_def case_prod_beta)

lemma App_controls:
  "controls (App lo p) = {Refresh_clicked, Network_chosen} \<union> controls (lab_card p)"
  by (simp add: App_def section_controls insert_commute)

lemma lab_card_controls:
  "controls (lab_card p) = (if labEnabled p
     then {Stream_edited, Count_edited, Message_edited, Data_edited, Run_id_edited, Origin_edited,
           Expected_edited, Publish_clicked, Verify_clicked} else {})"
  by (auto simp: lab_card_def)


subsection \<open>Inert text\<close>

text \<open>No element takes raw markup or a source, and every link leads to the given address.\<close>

definition inert_props :: "string \<Rightarrow> (string \<times> pval) list \<Rightarrow> bool" where
  "inert_props url ps \<longleftrightarrow> list_all (\<lambda>(k, v). k \<notin> {''dangerouslySetInnerHTML'', ''src''} \<and>
     (k = ''href'' \<longrightarrow> v = PStr url)) ps"

definition inert :: "string \<Rightarrow> jsx \<Rightarrow> bool" where
  "inert url x \<longleftrightarrow> list_all (\<lambda>(t, ps). inert_props url ps \<and> t \<noteq> ''script'' \<and> t \<noteq> ''iframe'') (elements x)"

lemma inert_props_simps [simp]:
  "inert_props url []"
  "inert_props url ((k, v) # ps) \<longleftrightarrow> k \<notin> {''dangerouslySetInnerHTML'', ''src''} \<and>
     (k = ''href'' \<longrightarrow> v = PStr url) \<and> inert_props url ps"
  by (simp_all add: inert_props_def)

lemma inert_simps [simp]:
  "inert url (Txt s)" "inert url (Num n)" "inert url Nothing" "inert url (text_child s)"
  "inert url (only_if b x) \<longleftrightarrow> (b \<longrightarrow> inert url x)"
  "inert url (if b then x else y) \<longleftrightarrow> (if b then inert url x else inert url y)"
  by (simp_all add: inert_def text_child_def only_if_def)

lemma list_all_concat: "list_all P (concat xss) \<longleftrightarrow> list_all (list_all P) xss"
  by (induction xss) simp_all

lemma inert_El [simp]:
  "inert url (El t ps cs) \<longleftrightarrow> inert_props url ps \<and> t \<noteq> ''script'' \<and> t \<noteq> ''iframe'' \<and>
     list_all (\<lambda>(k, v). list_all (\<lambda>(t, ps). inert_props url ps \<and> t \<noteq> ''script'' \<and> t \<noteq> ''iframe'') (prop_elements v)) ps \<and>
     list_all (inert url) cs"
  by (simp add: inert_def [abs_def] list_all_concat list.pred_map o_def split_def)

lemma inert_titles [simp]:
  "inert url (SectionTitle t d)" "inert url (Empty cs) \<longleftrightarrow> list_all (inert url) cs"
  by (simp_all add: SectionTitle_def Empty_def)

lemma inert_true: "(\<And>x. f x) \<Longrightarrow> list_all f xs"
  by (simp add: list_all_iff)

lemma inert_sections:
  "inert (diagnosticsURL (href p) (selectedNetwork p)) (header_group p)" "inert url (network_bar p)"
  "inert url (error_alert p)" "inert url (lab_card p)" "inert url (overview_card lo p)"
  "inert url (address_grid lo p)" "inert url (peers_card lo p)" "inert url (registry_card lo p)"
  "inert url (siphons_card lo p)" "inert url (events_card lo p)" "inert url (notes_card p)"
  "inert url footer_text"
  by (auto simp: header_group_def network_bar_def error_alert_def lab_card_def overview_card_def
      address_grid_def peers_card_def registry_card_def siphons_card_def events_card_def notes_card_def
      footer_text_def or_null_def list.pred_map o_def case_prod_beta list_all_iff)

text \<open>C15: whatever the daemon's events, names and errors contain, the page shows them as text: no element
  takes raw markup or loads a source, and the one link is the diagnostics address.\<close>

theorem page_is_inert:
  "inert (diagnosticsURL (href p) (selectedNetwork p)) (App lo p)"
  by (simp add: App_def inert_sections)

subsection \<open>Long lists\<close>

definition count_tag :: "string \<Rightarrow> jsx \<Rightarrow> nat" where
  "count_tag t x = length (filter (\<lambda>e. fst e = t) (elements x))"

lemma count_tag_simps [simp]:
  "count_tag t (Txt s) = 0" "count_tag t (Num n) = 0" "count_tag t Nothing = 0"
  "count_tag t (text_child s) = 0" "count_tag t (only_if b x) = of_bool b * count_tag t x"
  "count_tag t (if b then x else y) = (if b then count_tag t x else count_tag t y)"
  by (simp_all add: count_tag_def text_child_def only_if_def)

lemma count_tag_El [simp]:
  "count_tag t (El u ps cs) = (if u = t then 1 else 0)
     + sum_list (map (\<lambda>(k, v). length (filter (\<lambda>e. fst e = t) (prop_elements v))) ps)
     + sum_list (map (count_tag t) cs)"
  by (simp add: count_tag_def [abs_def] filter_concat length_concat o_def split_def)

lemma count_tag_titles [simp]:
  "t \<notin> {''Group'', ''Title'', ''Text''} \<Longrightarrow> count_tag t (SectionTitle a b) = 0"
  "t \<notin> {''Center'', ''Text''} \<Longrightarrow> count_tag t (Empty cs) = sum_list (map (count_tag t) cs)"
  by (auto simp: SectionTitle_def Empty_def)

text \<open>The events table has one row for each of the latest twelve events and no more, the peers and
  registry tables one for each entry, and the address and stream lists stop after six.\<close>

theorem shown_rows:
  "count_tag ''Table.Tr'' (events_card lo p) =
     (let n = length (or_empty (Option.bind (snap p) sn_events)) in if n = 0 then 0 else Suc (min 12 n)) \<and>
   count_tag ''Table.Tr'' (peers_card lo p) = (if peer_list p = [] then 0 else Suc (length (peer_list p))) \<and>
   count_tag ''Table.Tr'' (registry_card lo p) =
     (if definition_list p = [] then 0 else Suc (length (definition_list p))) \<and>
   count_tag ''Box'' (address_grid lo p) =
     min 6 (length (addresses (snap p))) + min 6 (length (stream_list p))"
proof (intro conjI)
  show "count_tag ''Table.Tr'' (events_card lo p) =
     (let n = length (or_empty (Option.bind (snap p) sn_events)) in if n = 0 then 0 else Suc (min 12 n))"
    by (simp add: events_card_def recent_events_def o_def sum_list_triv Let_def min_def)
  show "count_tag ''Table.Tr'' (peers_card lo p) = (if peer_list p = [] then 0 else Suc (length (peer_list p)))"
    by (simp add: peers_card_def o_def sum_list_triv)
  show "count_tag ''Table.Tr'' (registry_card lo p) =
     (if definition_list p = [] then 0 else Suc (length (definition_list p)))"
    by (simp add: registry_card_def o_def sum_list_triv)
  show "count_tag ''Box'' (address_grid lo p) =
     min 6 (length (addresses (snap p))) + min 6 (length (stream_list p))"
    by (simp add: address_grid_def o_def sum_list_triv case_prod_beta min.commute)
qed

end
