(* ===== verification/Select_List.thy ===== *)
theory Select_List
  imports Console_State
begin

text \<open>
  The drop-down the console chooses a network with: Mantine's option data (\<open>getParsedComboboxData\<close>,
  \<open>getOptionsLockup\<close>, \<open>defaultOptionsFilter\<close>, \<open>validateOptions\<close>), the keyboard index
  (\<open>use-combobox\<close>) and \<open>Select\<close>, as bundled into \<open>app.js\<close>. The options shown are given by
  their disabled flags. Lower-casing and trimming are the language's, and arguments here. A number
  is given by the text JavaScript prints for it. Values named like a property every object inherits
  (\<open>constructor\<close>) that are not in the data are outside the model: the code's \<open>in\<close> finds them.
\<close>

subsection \<open>Options\<close>

datatype option_value = Value_string string | Value_number string | Value_bool bool

fun value_text :: "option_value \<Rightarrow> string" where
  "value_text (Value_string v) = v"
| "value_text (Value_number v) = v"
| "value_text (Value_bool b) = (if b then ''true'' else ''false'')"

fun truthy_value :: "option_value \<Rightarrow> bool" where
  "truthy_value (Value_string v) = (v \<noteq> [])"
| "truthy_value (Value_number v) = (v \<noteq> ''0'' \<and> v \<noteq> ''NaN'')"
| "truthy_value (Value_bool b) = b"

record select_option =
  option_value :: option_value
  option_label :: string
  option_disabled :: bool

datatype combobox_datum =
    Bare option_value
  | Only_value option_value bool
  | Full_option select_option
  | Datum_group string "combobox_datum list"

datatype combobox_item = Item select_option | Item_group string "combobox_item list"

fun parse_item :: "combobox_datum \<Rightarrow> combobox_item" where
  "parse_item (Bare v) = Item \<lparr>option_value = v, option_label = value_text v, option_disabled = False\<rparr>"
| "parse_item (Only_value v d) = Item \<lparr>option_value = v, option_label = value_text v, option_disabled = d\<rparr>"
| "parse_item (Datum_group g ds) = Item_group g (map parse_item ds)"
| "parse_item (Full_option e) = Item e"

definition parse_data :: "combobox_datum list option \<Rightarrow> combobox_item list" where
  "parse_data e = (case e of None \<Rightarrow> [] | Some ds \<Rightarrow> map parse_item ds)"

type_synonym lockup = "string \<rightharpoonup> select_option"

fun item_lockup :: "combobox_item \<Rightarrow> lockup \<Rightarrow> lockup" where
  "item_lockup (Item t) e = e(value_text (option_value t) \<mapsto> t)"
| "item_lockup (Item_group g ts) e = e ++ foldl (\<lambda>m t. item_lockup t m) Map.empty ts"

definition options_lockup :: "combobox_item list \<Rightarrow> lockup" where
  "options_lockup ts = foldl (\<lambda>m t. item_lockup t m) Map.empty ts"

text \<open>An item's values, in the order \<open>validateOptions\<close> meets them, and the first that is met twice.\<close>

fun item_options :: "combobox_item \<Rightarrow> select_option list" where
  "item_options (Item t) = [t]"
| "item_options (Item_group g ts) = concat (map item_options ts)"

fun first_duplicate :: "option_value list \<Rightarrow> option_value set \<Rightarrow> option_value option" where
  "first_duplicate [] t = None"
| "first_duplicate (v # vs) t = (if v \<in> t then Some v else first_duplicate vs (insert v t))"

definition validate_options :: "combobox_item list \<Rightarrow> option_value option" where
  "validate_options e = first_duplicate (map option_value (concat (map item_options e))) {}"

fun includes_text :: "string \<Rightarrow> string \<Rightarrow> bool" where
  "includes_text [] r = (r = [])"
| "includes_text (c # e) r = (take (length r) (c # e) = r \<or> includes_text e r)"

text \<open>The filter; a limit of \<open>None\<close> is \<open>Infinity\<close>. A group counts as one entry.\<close>

function filter_options ::
  "(string \<Rightarrow> string) \<Rightarrow> string \<Rightarrow> int option \<Rightarrow> combobox_item list \<Rightarrow> combobox_item list \<Rightarrow> combobox_item list" where
  "filter_options low r n [] i = i"
| "filter_options low r n (t # e) i =
     (if Some (int (length i)) = n then i
      else case t of
          Item_group g ts \<Rightarrow>
            filter_options low r n e
              (i @ [Item_group g (filter_options low r (map_option (\<lambda>k. k - int (length i)) n) ts [])])
        | Item t' \<Rightarrow>
            filter_options low r n e (if includes_text (low (option_label t')) r then i @ [Item t'] else i))"
  by pat_completeness auto
termination
  by (relation "measure (\<lambda>(low, r, n, e, i). size_list size e)") auto

definition default_filter ::
  "(string \<Rightarrow> string) \<Rightarrow> (string \<Rightarrow> string) \<Rightarrow> string \<Rightarrow> int option \<Rightarrow> combobox_item list \<Rightarrow> combobox_item list" where
  "default_filter low trimmed t n e = filter_options low (low (trimmed t)) n e []"

definition is_empty_data :: "combobox_item list \<Rightarrow> bool" where
  "is_empty_data e = list_all (\<lambda>t. case t of Item _ \<Rightarrow> False | Item_group _ ts \<Rightarrow> ts = []) e"

subsection \<open>The keyboard index\<close>

definition last_enabled :: "bool list \<Rightarrow> nat option" where
  "last_enabled t = find (\<lambda>k. \<not> t ! k) (rev [0..<length t])"

definition first_enabled :: "bool list \<Rightarrow> nat option" where
  "first_enabled t = find (\<lambda>k. \<not> t ! k) [0..<length t]"

text \<open>\<open>None\<close>: the scan starts past the options, and reading an option that is not there throws.\<close>

definition previous_index :: "int \<Rightarrow> bool list \<Rightarrow> bool \<Rightarrow> int option" where
  "previous_index e t n =
     (if e - 1 \<ge> int (length t) then None
      else case find (\<lambda>k. \<not> t ! k) (rev [0..<nat e]) of
          Some k \<Rightarrow> Some (int k)
        | None \<Rightarrow> (case (if n then last_enabled t else None) of Some k \<Rightarrow> Some (int k) | None \<Rightarrow> Some e))"

definition next_index :: "int \<Rightarrow> bool list \<Rightarrow> bool \<Rightarrow> int" where
  "next_index e t n =
     (case find (\<lambda>k. \<not> t ! k) [nat (e + 1)..<length t] of
        Some k \<Rightarrow> int k
      | None \<Rightarrow> (case (if n then first_enabled t else None) of Some k \<Rightarrow> int k | None \<Rightarrow> e))"

definition first_index :: "bool list \<Rightarrow> int" where
  "first_index e = (case first_enabled e of Some k \<Rightarrow> int k | None \<Rightarrow> -1)"

datatype later = Update_active | Update_marked | Reset_selected

record combobox =
  opened :: bool
  selected_index :: int
  marked :: "nat option"
  scheduled :: "later list"

definition clear_selected :: "combobox \<Rightarrow> combobox" where
  "clear_selected s = s\<lparr>marked := None\<rparr>"

text \<open>\<open>t\<close>: the disabled flags of the options in the list, if the list is there.\<close>

definition select_index :: "int \<Rightarrow> bool list option \<Rightarrow> combobox \<Rightarrow> combobox" where
  "select_index e t s =
     (case t of
        None \<Rightarrow> s
      | Some r \<Rightarrow>
          (let i = (if e \<ge> int (length r) then 0 else if e < 0 then int (length r) - 1 else e);
               s1 = s\<lparr>selected_index := i\<rparr>
           in if 0 \<le> i \<and> i < int (length r) \<and> \<not> r ! nat i then (clear_selected s1)\<lparr>marked := Some (nat i)\<rparr> else s1))"

definition select_first :: "bool list \<Rightarrow> combobox \<Rightarrow> combobox" where
  "select_first t s = select_index (first_index t) (Some t) s"

definition select_next :: "bool list \<Rightarrow> bool \<Rightarrow> combobox \<Rightarrow> combobox" where
  "select_next t a s = select_index (next_index (selected_index s) t a) (Some t) s"

definition select_previous :: "bool list \<Rightarrow> bool \<Rightarrow> combobox \<Rightarrow> combobox option" where
  "select_previous t a s = map_option (\<lambda>e. select_index e (Some t) s) (previous_index (selected_index s) t a)"

definition select_active :: "nat option \<Rightarrow> bool list \<Rightarrow> combobox \<Rightarrow> combobox" where
  "select_active active t s = select_index (case active of Some n \<Rightarrow> int n | None \<Rightarrow> 0) (Some t) s"

definition reset_selected :: "combobox \<Rightarrow> combobox" where
  "reset_selected s = clear_selected (s\<lparr>selected_index := -1\<rparr>)"

definition run_later :: "later \<Rightarrow> nat option \<Rightarrow> combobox \<Rightarrow> combobox" where
  "run_later e active s =
     (case e of
        Update_active \<Rightarrow> s\<lparr>selected_index := (case active of Some i \<Rightarrow> int i | None \<Rightarrow> -1)\<rparr>
      | Update_marked \<Rightarrow> s\<lparr>selected_index := (case marked s of Some i \<Rightarrow> int i | None \<Rightarrow> -1)\<rparr>
      | Reset_selected \<Rightarrow> reset_selected s)"

definition open_dropdown :: "(combobox \<Rightarrow> combobox) \<Rightarrow> combobox \<Rightarrow> combobox" where
  "open_dropdown on_open s = (if opened s then s else on_open (s\<lparr>opened := True\<rparr>))"

definition close_dropdown :: "combobox \<Rightarrow> combobox" where
  "close_dropdown s = (if opened s then s\<lparr>opened := False, scheduled := scheduled s @ [Reset_selected]\<rparr> else s)"

definition toggle_dropdown :: "(combobox \<Rightarrow> combobox) \<Rightarrow> combobox \<Rightarrow> combobox" where
  "toggle_dropdown on_open s = (if opened s then close_dropdown s else open_dropdown on_open s)"

subsection \<open>Select\<close>

record select_config =
  allowDeselect :: bool
  searchable :: bool
  openOnFocus :: bool
  clearable :: bool
  select_disabled :: bool
  select_readOnly :: bool
  selectFirstOptionOnDropdownOpen :: bool

definition select_defaults :: select_config where
  "select_defaults = \<lparr>allowDeselect = True, searchable = False, openOnFocus = True, clearable = False,
     select_disabled = False, select_readOnly = False, selectFirstOptionOnDropdownOpen = False\<rparr>"

text \<open>
  \<open>own_value\<close> is the component's own value; the value in force is the \<open>value\<close> property when the
  parent gives one, and then the component only reports changes (\<open>changes\<close>).
\<close>

record select_state =
  own_value :: "option_value option"
  given_value :: "option_value option option"
  search_text :: string
  retained :: lockup
  box :: combobox
  changes :: "option_value option list"

definition select_value :: "select_state \<Rightarrow> option_value option" where
  "select_value s = (case given_value s of None \<Rightarrow> own_value s | Some h \<Rightarrow> h)"

definition set_value :: "option_value option \<Rightarrow> select_state \<Rightarrow> select_state" where
  "set_value n s =
     (case given_value s of
        None \<Rightarrow> s\<lparr>own_value := n, changes := changes s @ [n]\<rparr>
      | Some _ \<Rightarrow> s\<lparr>changes := changes s @ [n]\<rparr>)"

definition set_search :: "string \<Rightarrow> select_state \<Rightarrow> select_state" where
  "set_search e s = s\<lparr>search_text := e, box := reset_selected (box s)\<rparr>"

definition chosen_option :: "lockup \<Rightarrow> select_state \<Rightarrow> select_option option" where
  "chosen_option Te s =
     (case select_value s of
        None \<Rightarrow> None
      | Some z \<Rightarrow> (case Te (value_text z) of Some t \<Rightarrow> Some t | None \<Rightarrow> retained s (value_text z)))"

definition chosen_label :: "lockup \<Rightarrow> select_state \<Rightarrow> string" where
  "chosen_label Te s = (case chosen_option Te s of Some t \<Rightarrow> option_label t | None \<Rightarrow> [])"

definition value_or_null :: "option_value option \<Rightarrow> string" where
  "value_or_null z = (case z of Some v \<Rightarrow> value_text v | None \<Rightarrow> ''null'')"

text \<open>\<open>None\<close>: the submitted option is no longer in the data.\<close>

definition submit_option :: "select_config \<Rightarrow> lockup \<Rightarrow> string \<Rightarrow> select_state \<Rightarrow> select_state option" where
  "submit_option c Te e s =
     (case Te e of
        None \<Rightarrow> None
      | Some q \<Rightarrow>
          (let z = select_value s;
               t = (if allowDeselect c \<and> value_text (option_value q) = value_or_null z then None else Some q);
               n = map_option option_value t;
               s1 = (if n \<noteq> z then set_value n s else s);
               s2 = (if given_value s = None
                     then set_search (case t of None \<Rightarrow> [] | Some q' \<Rightarrow> option_label q') s1 else s1)
           in Some (s2\<lparr>box := close_dropdown (box s2)\<rparr>)))"

definition clear_select :: "select_state \<Rightarrow> select_state" where
  "clear_select s = set_search [] (set_value None s)"

definition shows_clear :: "select_config \<Rightarrow> select_state \<Rightarrow> bool" where
  "shows_clear c s \<longleftrightarrow> clearable c \<and> select_value s \<noteq> None \<and> \<not> select_disabled c \<and> \<not> select_readOnly c"

definition on_open :: "select_config \<Rightarrow> bool list \<Rightarrow> combobox \<Rightarrow> combobox" where
  "on_open c t s =
     (if selectFirstOptionOnDropdownOpen c then select_first t s else s\<lparr>scheduled := scheduled s @ [Update_active]\<rparr>)"

definition type_text :: "select_config \<Rightarrow> bool list \<Rightarrow> string \<Rightarrow> select_state \<Rightarrow> select_state" where
  "type_text c t v s = (let s1 = set_search v s in s1\<lparr>box := open_dropdown (on_open c t) (box s1)\<rparr>)"

definition focus_select :: "select_config \<Rightarrow> bool list \<Rightarrow> select_state \<Rightarrow> select_state" where
  "focus_select c t s =
     (if openOnFocus c \<and> searchable c then s\<lparr>box := open_dropdown (on_open c t) (box s)\<rparr> else s)"

definition blur_select :: "select_config \<Rightarrow> lockup \<Rightarrow> select_state \<Rightarrow> select_state" where
  "blur_select c Te s =
     (let s1 = (if searchable c then s\<lparr>box := close_dropdown (box s)\<rparr> else s)
      in set_search (chosen_label Te s1) s1)"

definition click_select :: "select_config \<Rightarrow> bool list \<Rightarrow> select_state \<Rightarrow> select_state" where
  "click_select c t s =
     s\<lparr>box := (if searchable c then open_dropdown (on_open c t) (box s) else toggle_dropdown (on_open c t) (box s))\<rparr>"

text \<open>The effects after a render: a given value is shown by its label, a found option is retained.\<close>

definition sync_given :: "select_option option \<Rightarrow> lockup \<Rightarrow> select_state \<Rightarrow> select_state" where
  "sync_given before Te s =
     (case given_value s of
        None \<Rightarrow> s
      | Some None \<Rightarrow> set_search [] s
      | Some (Some _) \<Rightarrow>
          (case chosen_option Te s of
             None \<Rightarrow> s
           | Some t \<Rightarrow>
               if map_option option_value before \<noteq> Some (option_value t) \<or>
                  map_option option_label before \<noteq> Some (option_label t)
               then set_search (option_label t) s else s))"

definition retain_option :: "lockup \<Rightarrow> select_state \<Rightarrow> select_state" where
  "retain_option Te s =
     (case select_value s of
        None \<Rightarrow> s
      | Some z \<Rightarrow> if truthy_value z \<and> value_text z \<in> dom Te then s\<lparr>retained := (retained s)(value_text z := Te (value_text z))\<rparr> else s)"

subsection \<open>The console's drop-down\<close>

text \<open>The network names as option data, and the selection as the given value.\<close>

definition network_options :: "string list \<Rightarrow> lockup" where
  "network_options names =
     options_lockup (parse_data (Some (map (\<lambda>n. Full_option \<lparr>option_value = Value_string n,
       option_label = n, option_disabled = False\<rparr>) names)))"

definition network_select :: "page \<Rightarrow> select_state \<Rightarrow> select_state" where
  "network_select p s =
     s\<lparr>given_value := Some (if selectedNetwork p = [] then None else Some (Value_string (selectedNetwork p)))\<rparr>"

text \<open>What the page does with the reported changes.\<close>

definition report_change :: "option_value option \<Rightarrow> page \<Rightarrow> page" where
  "report_change v p = choose_network (map_option value_text v) p"

text \<open>The operator clicks a network in the list.\<close>

definition click_network :: "string list \<Rightarrow> string \<Rightarrow> select_state \<Rightarrow> page \<Rightarrow> page option" where
  "click_network names e s p =
     map_option (\<lambda>s'. fold report_change (changes s') p)
       (submit_option select_defaults (network_options names) e ((network_select p s)\<lparr>changes := []\<rparr>))"

end
