(* ===== verification/Select_Properties.thy ===== *)
theory Select_Properties
  imports Select_List
begin

text \<open>
  What the drop-down promises, its filter and its keyboard, and what the console's use of it does:
  clicking the network that is already chosen takes the choice back.
\<close>

subsection \<open>Options\<close>

definition network_option :: "string \<Rightarrow> select_option" where
  "network_option n = \<lparr>option_value = Value_string n, option_label = n, option_disabled = False\<rparr>"

lemma network_lockup:
  "foldl (\<lambda>m t. item_lockup t m) m (map (\<lambda>n. Item (network_option n)) names) n =
    (if n \<in> set names then Some (network_option n) else m n)"
  by (induction names arbitrary: m) (auto simp: network_option_def)

lemma network_options_eq: "network_options names n = (if n \<in> set names then Some (network_option n) else None)"
  using network_lockup [of Map.empty names n]
  by (simp add: network_options_def network_option_def [symmetric] options_lockup_def parse_data_def comp_def)

subsection \<open>The filter\<close>

definition item_matches :: "(string \<Rightarrow> string) \<Rightarrow> string \<Rightarrow> combobox_item \<Rightarrow> bool" where
  "item_matches low r t = (case t of Item q \<Rightarrow> includes_text (low (option_label q)) r | Item_group _ _ \<Rightarrow> False)"

lemma filter_items:
  "int (length i) \<le> k \<Longrightarrow> filter_options low r (Some k) (map Item ts) i =
     i @ take (nat k - length i) (filter (item_matches low r) (map Item ts))"
proof (induction ts arbitrary: i)
  case (Cons t ts)
  show ?case
  proof (cases "int (length i) < k")
    case True
    then have "nat k - length i = Suc (nat k - Suc (length i))" by linarith
    then show ?thesis using Cons.IH [of i] Cons.IH [of "i @ [Item t]"] True by (simp add: item_matches_def)
  next
    case False
    then show ?thesis using Cons.prems by simp
  qed
qed simp

lemma filter_all_items:
  "filter_options low r None (map Item ts) i = i @ filter (item_matches low r) (map Item ts)"
  by (induction ts arbitrary: i) (simp_all add: item_matches_def)

lemma includes_text_iff: "includes_text e r \<longleftrightarrow> (\<exists>p s. e = p @ r @ s)"
proof (induction e r rule: includes_text.induct)
  case (2 c e r)
  have "take (length r) (c # e) = r \<longleftrightarrow> (\<exists>s. c # e = r @ s)"
    by (metis append_eq_conv_conj append_take_drop_id)
  moreover have "(\<exists>p s. c # e = p @ r @ s) \<longleftrightarrow> (\<exists>s. c # e = r @ s) \<or> (\<exists>p s. e = p @ r @ s)"
    by (metis Cons_eq_append_conv append_Cons append_Nil)
  ultimately show ?case using 2 by simp
qed auto

text \<open>On options without groups the filter gives exactly the first options, in order and at most as
  many as the limit allows, whose label in lower case contains the trimmed search text in lower case.\<close>

theorem filter_is_search:
  assumes "0 \<le> k"
  shows "default_filter low trimmed t (Some k) (map Item ts) =
    map Item (take (nat k) (filter (\<lambda>q. \<exists>p s. low (option_label q) = p @ low (trimmed t) @ s) ts))"
proof -
  have "filter (item_matches low (low (trimmed t))) (map Item ts) =
      map Item (filter (\<lambda>q. \<exists>p s. low (option_label q) = p @ low (trimmed t) @ s) ts)"
    by (simp add: filter_map comp_def item_matches_def includes_text_iff)
  then show ?thesis using assms filter_items [of "[]" k] by (simp add: default_filter_def take_map)
qed

text \<open>Of three networks, two contain the text, and a limit of one keeps the first.\<close>

theorem filter_is_search_witness:
  "default_filter id id ''la'' (Some 1) (map Item (map network_option [''home'', ''lab'', ''lakes''])) =
   [Item (network_option ''lab'')]"
  using filter_is_search [of 1 id id "''la''" "map network_option [''home'', ''lab'', ''lakes'']"]
  unfolding includes_text_iff [symmetric] by (simp add: network_option_def)

subsection \<open>The keyboard\<close>

lemma find_index_Some:
  "find P ks = Some k \<Longrightarrow> k \<in> set ks \<and> P k"
  by (auto simp: find_Some_iff)

lemma find_upt_Some:
  assumes "find P [i..<j] = Some k"
  shows "i \<le> k" "k < j" "P k" "\<forall>m. i \<le> m \<longrightarrow> m < k \<longrightarrow> \<not> P m"
proof -
  obtain n where n: "n < length [i..<j]" "P ([i..<j] ! n)" "k = [i..<j] ! n" "\<forall>m<n. \<not> P ([i..<j] ! m)"
    using assms by (auto simp: find_Some_iff)
  then have k: "k = i + n" by simp
  show "i \<le> k" "k < j" "P k" using n k by simp_all
  show "\<forall>m. i \<le> m \<longrightarrow> m < k \<longrightarrow> \<not> P m"
  proof (intro allI impI)
    fix m assume "i \<le> m" "m < k"
    then have "m - i < n" "[i..<j] ! (m - i) = m" using k n(1) by auto
    then show "\<not> P m" using n(4) by metis
  qed
qed

lemma find_upt_None: "find P [i..<j] = None \<Longrightarrow> i \<le> m \<Longrightarrow> m < j \<Longrightarrow> \<not> P m"
  by (auto simp: find_None_iff)

text \<open>The arrow key goes to the next option that is not disabled, past the end to the first one,
  and marks it: if any option is enabled, the option marked is enabled and every option between the
  old index and it, around the end, is disabled.\<close>

theorem next_option_enabled:
  assumes "\<exists>k<length t. \<not> t ! k" and "-1 \<le> selected_index s"
  shows "\<exists>j. marked (select_next t True s) = Some j \<and> selected_index (select_next t True s) = int j \<and>
    j < length t \<and> \<not> t ! j \<and>
    (if selected_index s < int j then \<forall>m. selected_index s < int m \<and> m < j \<longrightarrow> t ! m
     else (\<forall>m. selected_index s < int m \<and> m < length t \<longrightarrow> t ! m) \<and> (\<forall>m<j. t ! m))"
proof -
  let ?e = "selected_index s"
  obtain j where j: "next_index ?e t True = int j" "j < length t" "\<not> t ! j"
    "if ?e < int j then \<forall>m. ?e < int m \<and> m < j \<longrightarrow> t ! m
     else (\<forall>m. ?e < int m \<and> m < length t \<longrightarrow> t ! m) \<and> (\<forall>m<j. t ! m)"
  proof (cases "find (\<lambda>k. \<not> t ! k) [nat (?e + 1)..<length t]")
    case (Some j)
    note f = find_upt_Some [OF Some]
    have lt: "?e < int j" using f(1) assms(2) by linarith
    have between: "\<forall>m. ?e < int m \<and> m < j \<longrightarrow> t ! m"
    proof (intro allI impI)
      fix m assume m: "?e < int m \<and> m < j"
      then have "nat (?e + 1) \<le> m" by linarith
      then show "t ! m" using f(4) m by blast
    qed
    show ?thesis
      by (rule that [of j]) (use Some f(2,3) lt between in \<open>simp_all add: next_index_def\<close>)
  next
    case None
    obtain k where "k < length t" "\<not> t ! k" using assms(1) by blast
    then have "find (\<lambda>k. \<not> t ! k) [0..<length t] \<noteq> None" by (auto simp: find_None_iff)
    then obtain j where first: "find (\<lambda>k. \<not> t ! k) [0..<length t] = Some j" by blast
    note f = find_upt_Some [OF first]
    have after: "\<forall>m. ?e < int m \<and> m < length t \<longrightarrow> t ! m"
    proof (intro allI impI)
      fix m assume m: "?e < int m \<and> m < length t"
      then have "nat (?e + 1) \<le> m" by linarith
      then show "t ! m" using find_upt_None [OF None] m by blast
    qed
    moreover have "\<not> ?e < int j" using after f(2,3) by blast
    moreover have "\<forall>m<j. t ! m" using f(4) by blast
    moreover have "next_index ?e t True = int j" using None first by (simp add: next_index_def first_enabled_def)
    ultimately show ?thesis using f(2,3) that by simp
  qed
  have "select_next t True s = (clear_selected (s\<lparr>selected_index := int j\<rparr>))\<lparr>marked := Some j\<rparr>"
    using j(1-3) by (simp add: select_next_def select_index_def Let_def)
  then show ?thesis using j by (intro exI [of _ j]) (simp add: clear_selected_def)
qed

text \<open>From the last of three options, the first disabled, the arrow goes to the second.\<close>

theorem next_option_enabled_witness:
  "marked (select_next [True, False, False] True
     \<lparr>opened = True, selected_index = 2, marked = None, scheduled = []\<rparr>) = Some 1"
proof -
  let ?t = "[True, False, False]" and ?s = "\<lparr>opened = True, selected_index = 2, marked = None, scheduled = []\<rparr>"
  have "\<exists>k<length ?t. \<not> ?t ! k" by (rule exI [of _ 1]) simp
  then obtain j where j: "marked (select_next ?t True ?s) = Some j" "j < length ?t" "\<not> ?t ! j"
    "if 2 < int j then \<forall>m. 2 < int m \<and> m < j \<longrightarrow> ?t ! m
     else (\<forall>m. 2 < int m \<and> m < length ?t \<longrightarrow> ?t ! m) \<and> (\<forall>m<j. ?t ! m)"
    using next_option_enabled [of ?t ?s] by auto
  then have before: "\<forall>m<j. ?t ! m" by (auto simp: less_Suc_eq split: if_splits)
  have "j \<noteq> 0" using j(3) by (intro notI) simp
  moreover have "j \<noteq> 2" using before by (auto dest: spec [of _ 1])
  ultimately have "j = 1" using j(2) by auto
  with j(1) show ?thesis by simp
qed

subsection \<open>Choosing a network\<close>

text \<open>In the console's network list a click on another network selects it, but a click on the
  network that is already selected deselects it: the drop-down reports no value, and the page
  forgets its network and asks for a snapshot that names none.\<close>

theorem click_toggles_network:
  assumes "e \<in> set names" and "selectedNetwork p \<noteq> []"
  shows "click_network names e s p =
    Some (if e = selectedNetwork p then choose_network None p else choose_network (Some e) p)"
proof -
  have "network_options names e = Some (network_option e)" using assms(1) by (simp add: network_options_eq)
  then show ?thesis using assms(2)
    by (simp add: click_network_def submit_option_def network_select_def select_value_def select_defaults_def
        network_option_def value_or_null_def Let_def set_value_def report_change_def)
qed

theorem click_toggles_network_witness:
  "let p = (new_page ''http://h/'' [])\<lparr>selectedNetwork := ''lab''\<rparr>;
       s = \<lparr>own_value = None, given_value = None, search_text = [], retained = (\<lambda>_. None),
              box = \<lparr>opened = True, selected_index = 1, marked = None, scheduled = []\<rparr>, changes = []\<rparr>
   in selectedNetwork (the (click_network [''home'', ''lab''] ''lab'' s p)) = []"
proof -
  have "click_network [''home'', ''lab''] ''lab'' s ((new_page ''http://h/'' [])\<lparr>selectedNetwork := ''lab''\<rparr>) =
      Some (choose_network None ((new_page ''http://h/'' [])\<lparr>selectedNetwork := ''lab''\<rparr>))" for s
    using click_toggles_network [of "''lab''" "[''home'', ''lab'']" "(new_page ''http://h/'' [])\<lparr>selectedNetwork := ''lab''\<rparr>" s]
    by simp
  then show ?thesis
    by (simp add: Let_def choose_network_def opt_str_def commit_def start_refresh_def run_effect_def)
qed

end
