(* ===== verification/Task_Heap.thy ===== *)
theory Task_Heap
  imports Complex_Main "HOL-Library.Multiset" "HOL-Library.Product_Lexorder"
begin

text \<open>
  The binary heap of the scheduler the console's bundle ships (\<open>push\<close>, \<open>peek\<close> and \<open>pop\<close> of
  \<open>scheduler.production.js\<close> in \<open>app.js\<close>), over a comparison function. The locale \<open>heap_order\<close> says
  what the comparison must promise; under it the operations keep the heap order and the elements,
  and \<open>pop\<close> takes a least element.
\<close>

subsection \<open>The operations\<close>

function sift_up :: "('a \<Rightarrow> 'a \<Rightarrow> real) \<Rightarrow> 'a list \<Rightarrow> 'a \<Rightarrow> nat \<Rightarrow> 'a list" where
  "sift_up cmp e t n =
     (if 0 < n
      then (let r = (n - 1) div 2; a = e ! r in
            if 0 < cmp a t then sift_up cmp (e[r := t, n := a]) t r else e)
      else e)"
  by pat_completeness auto
termination
  by (relation "measure (\<lambda>(cmp, e, t, n). n)") auto

declare sift_up.simps [simp del]

definition heap_push :: "('a \<Rightarrow> 'a \<Rightarrow> real) \<Rightarrow> 'a list \<Rightarrow> 'a \<Rightarrow> 'a list" where
  "heap_push cmp e t = sift_up cmp (e @ [t]) t (length e)"

definition heap_peek :: "'a list \<Rightarrow> 'a option" where
  "heap_peek e = (if e = [] then None else Some (e ! 0))"

function sift_down :: "('a \<Rightarrow> 'a \<Rightarrow> real) \<Rightarrow> 'a list \<Rightarrow> 'a \<Rightarrow> nat \<Rightarrow> 'a list" where
  "sift_down cmp e n r =
     (if r < length e div 2
      then (let s = 2 * (r + 1) - 1; c = e ! s; l = s + 1 in
            if 0 > cmp c n
            then (if l < length e \<and> 0 > cmp (e ! l) c
                  then sift_down cmp (e[r := e ! l, l := n]) n l
                  else sift_down cmp (e[r := c, s := n]) n s)
            else if l < length e \<and> 0 > cmp (e ! l) n
            then sift_down cmp (e[r := e ! l, l := n]) n l
            else e)
      else e)"
  by pat_completeness auto
termination
  by (relation "measure (\<lambda>(cmp, e, n, r). length e - r)") auto

declare sift_down.simps [simp del]

definition heap_pop :: "('a \<Rightarrow> 'a \<Rightarrow> real) \<Rightarrow> 'a list \<Rightarrow> 'a list" where
  "heap_pop cmp e =
     (if e = [] then []
      else (let t = e ! 0; n = last e; e1 = butlast e in
            if n \<noteq> t then sift_down cmp (e1[0 := n]) n 0 else e1))"

subsection \<open>Elements\<close>

lemma half_less: "0 < n \<Longrightarrow> (n - Suc 0) div 2 < n"
  by linarith

lemma sift_up_eq:
  "sift_up cmp e t n =
     (if 0 < n \<and> 0 < cmp (e ! ((n - 1) div 2)) t
      then sift_up cmp (e[(n - 1) div 2 := t, n := e ! ((n - 1) div 2)]) t ((n - 1) div 2) else e)"
  by (subst sift_up.simps) (simp add: Let_def)

text \<open>The child \<open>pop\<close> moves up, if it moves one.\<close>

definition down_child :: "('a \<Rightarrow> 'a \<Rightarrow> real) \<Rightarrow> 'a list \<Rightarrow> 'a \<Rightarrow> nat \<Rightarrow> nat option" where
  "down_child cmp e n r =
     (if r < length e div 2
      then (if 0 > cmp (e ! (2 * r + 1)) n
            then (if 2 * r + 2 < length e \<and> 0 > cmp (e ! (2 * r + 2)) (e ! (2 * r + 1))
                  then Some (2 * r + 2) else Some (2 * r + 1))
            else if 2 * r + 2 < length e \<and> 0 > cmp (e ! (2 * r + 2)) n then Some (2 * r + 2) else None)
      else None)"

lemma sift_down_eq:
  "sift_down cmp e n r =
     (case down_child cmp e n r of None \<Rightarrow> e | Some j \<Rightarrow> sift_down cmp (e[r := e ! j, j := n]) n j)"
  by (subst sift_down.simps) (simp add: down_child_def Let_def)

lemma down_child_bounds: "down_child cmp e n r = Some j \<Longrightarrow> r < j \<and> j < length e \<and> r = (j - 1) div 2"
  by (auto simp: down_child_def split: if_splits)

lemma sift_up_induct [case_names step]:
  assumes "\<And>e n. (0 < n \<Longrightarrow> P (e[(n - 1) div 2 := t, n := e ! ((n - 1) div 2)]) ((n - 1) div 2)) \<Longrightarrow> P e n"
  shows "P e n"
proof (induction n arbitrary: e rule: less_induct)
  case (less n)
  show ?case by (rule assms, rule less.IH) (simp add: half_less)
qed

lemma sift_down_induct [case_names step]:
  assumes "\<And>e r. (\<And>j. down_child cmp e n r = Some j \<Longrightarrow> P (e[r := e ! j, j := n]) j) \<Longrightarrow> P e r"
  shows "P e r"
proof (induction "length e - r" arbitrary: e r rule: less_induct)
  case less
  show ?case
  proof (rule assms)
    fix j assume "down_child cmp e n r = Some j"
    then have "r < j" "j < length e" by (auto dest: down_child_bounds)
    then show "P (e[r := e ! j, j := n]) j" by (intro less) simp
  qed
qed

lemma length_sift_up [simp]: "length (sift_up cmp e t n) = length e"
  by (induction e n rule: sift_up_induct [where t = t]) (subst sift_up_eq, simp)

lemma length_sift_down [simp]: "length (sift_down cmp e n r) = length e"
  by (induction e r rule: sift_down_induct [where n = n and cmp = cmp])
    (subst sift_down_eq, simp split: option.split)

lemma mset_sift_up: "n < length e \<Longrightarrow> e ! n = t \<Longrightarrow> mset (sift_up cmp e t n) = mset e"
proof (induction e n rule: sift_up_induct [where t = t])
  case (step e n)
  show ?case
  proof (cases "0 < n \<and> 0 < cmp (e ! ((n - 1) div 2)) t")
    case True
    let ?r = "(n - 1) div 2"
    have r: "?r < n" using True half_less by simp
    have "mset (sift_up cmp e t n) = mset (sift_up cmp (e[?r := t, n := e ! ?r]) t ?r)"
      using True by (subst sift_up_eq) simp
    also have "\<dots> = mset (e[?r := t, n := e ! ?r])"
      by (rule step.IH) (use True r step.prems in simp_all)
    also have "\<dots> = mset e" using mset_swap [of n e ?r] r step.prems by simp
    finally show ?thesis .
  next
    case False
    then show ?thesis by (subst sift_up_eq) auto
  qed
qed

lemma mset_heap_push: "mset (heap_push cmp e t) = add_mset t (mset e)"
  by (simp add: heap_push_def mset_sift_up)

lemma mset_sift_down: "r < length e \<Longrightarrow> e ! r = n \<Longrightarrow> mset (sift_down cmp e n r) = mset e"
proof (induction e r rule: sift_down_induct [where n = n and cmp = cmp])
  case (step e r)
  show ?case
  proof (cases "down_child cmp e n r")
    case None
    then show ?thesis by (subst sift_down_eq) simp
  next
    case (Some j)
    have j: "r < j" "j < length e" using down_child_bounds [OF Some] by auto
    have "mset (sift_down cmp e n r) = mset (sift_down cmp (e[r := e ! j, j := n]) n j)"
      using Some by (subst sift_down_eq) simp
    also have "\<dots> = mset (e[r := e ! j, j := n])" by (rule step.IH [OF Some]) (use j in simp_all)
    also have "\<dots> = mset e" using mset_swap [of j e r] j step.prems by simp
    finally show ?thesis .
  qed
qed

lemma heap_pop_eq:
  assumes "distinct e" "e \<noteq> []"
  shows "heap_pop cmp e = (if length e = 1 then [] else sift_down cmp ((butlast e)[0 := last e]) (last e) 0)"
proof -
  obtain x xs where e: "e = x # xs" using assms(2) by (cases e) auto
  show ?thesis
  proof (cases xs)
    case Nil
    then show ?thesis by (simp add: heap_pop_def e)
  next
    case (Cons y ys)
    then have "last xs \<in> set xs" by simp
    then have "last xs \<noteq> x" using assms(1) e by auto
    with Cons show ?thesis by (simp add: heap_pop_def e Let_def)
  qed
qed

lemma mset_replaced: "1 < length e \<Longrightarrow> mset ((butlast e)[0 := last e]) = mset e - {#e ! 0#}"
proof -
  assume "1 < length e"
  then obtain x xs where e: "e = x # xs" "xs \<noteq> []" by (cases e) auto
  have "mset xs = mset (butlast xs @ [last xs])" using e(2) by simp
  also have "\<dots> = add_mset (last xs) (mset (butlast xs))" by simp
  finally show ?thesis using e by simp
qed

lemma mset_heap_pop:
  assumes "distinct e" "e \<noteq> []"
  shows "mset (heap_pop cmp e) = mset e - {#e ! 0#}"
proof (cases "length e = 1")
  case True
  then obtain x where "e = [x]" by (cases e) auto
  then show ?thesis by (simp add: heap_pop_def)
next
  case False
  then have len: "1 < length e" using assms(2) by (cases e) auto
  with assms have "mset (heap_pop cmp e) = mset ((butlast e)[0 := last e])"
    by (simp add: heap_pop_eq mset_sift_down)
  with mset_replaced [OF len] show ?thesis by simp
qed

subsection \<open>The heap order\<close>

locale heap_order =
  fixes cmp :: "'a \<Rightarrow> 'a \<Rightarrow> real" and key :: "'a \<Rightarrow> 'k :: linorder"
  assumes cmp_pos: "0 < cmp a b \<longleftrightarrow> key b < key a"
    and cmp_neg: "cmp a b < 0 \<longleftrightarrow> key a < key b"
begin

definition heap :: "'a list \<Rightarrow> bool" where
  "heap e \<longleftrightarrow> (\<forall>i. 0 < i \<longrightarrow> i < length e \<longrightarrow> key (e ! ((i - 1) div 2)) \<le> key (e ! i))"

lemma heap_least: "heap e \<Longrightarrow> i < length e \<Longrightarrow> key (e ! 0) \<le> key (e ! i)"
proof (induction i rule: less_induct)
  case (less i)
  show ?case
  proof (cases "i = 0")
    case False
    then have p: "(i - 1) div 2 < i" by auto
    with less have "key (e ! 0) \<le> key (e ! ((i - 1) div 2))" by simp
    also have "\<dots> \<le> key (e ! i)" using less.prems False by (simp add: heap_def)
    finally show ?thesis .
  qed simp
qed

text \<open>The order holds but for the element at \<open>n\<close>, which is on its way up, or down from \<open>r\<close>.\<close>

definition rising :: "'a list \<Rightarrow> nat \<Rightarrow> bool" where
  "rising e n \<longleftrightarrow>
     (\<forall>i. 0 < i \<longrightarrow> i < length e \<longrightarrow> i \<noteq> n \<longrightarrow> key (e ! ((i - 1) div 2)) \<le> key (e ! i)) \<and>
     (\<forall>i. 0 < i \<longrightarrow> i < length e \<longrightarrow> (i - 1) div 2 = n \<longrightarrow> 0 < n \<longrightarrow> key (e ! ((n - 1) div 2)) \<le> key (e ! i))"

definition sinking :: "'a list \<Rightarrow> nat \<Rightarrow> bool" where
  "sinking e r \<longleftrightarrow>
     (\<forall>i. 0 < i \<longrightarrow> i < length e \<longrightarrow> (i - 1) div 2 \<noteq> r \<longrightarrow> key (e ! ((i - 1) div 2)) \<le> key (e ! i)) \<and>
     (\<forall>i. 0 < i \<longrightarrow> i < length e \<longrightarrow> (i - 1) div 2 = r \<longrightarrow> 0 < r \<longrightarrow> key (e ! ((r - 1) div 2)) \<le> key (e ! i))"

lemma risingD1: "rising e n \<Longrightarrow> 0 < i \<Longrightarrow> i < length e \<Longrightarrow> i \<noteq> n \<Longrightarrow> key (e ! ((i - 1) div 2)) \<le> key (e ! i)"
  unfolding rising_def by blast

lemma risingD2:
  "rising e n \<Longrightarrow> 0 < i \<Longrightarrow> i < length e \<Longrightarrow> (i - 1) div 2 = n \<Longrightarrow> 0 < n \<Longrightarrow>
    key (e ! ((n - 1) div 2)) \<le> key (e ! i)"
  unfolding rising_def by blast

lemma risingI:
  assumes "\<And>i. 0 < i \<Longrightarrow> i < length e \<Longrightarrow> i \<noteq> n \<Longrightarrow> key (e ! ((i - 1) div 2)) \<le> key (e ! i)"
    and "\<And>i. 0 < i \<Longrightarrow> i < length e \<Longrightarrow> (i - 1) div 2 = n \<Longrightarrow> 0 < n \<Longrightarrow>
      key (e ! ((n - 1) div 2)) \<le> key (e ! i)"
  shows "rising e n"
  unfolding rising_def using assms by blast

text \<open>One exchange on the way up: the parent's place gets the new element.\<close>

lemma rising_exchange:
  assumes "rising e n" "0 < n" "n < length e" "key (e ! n) < key (e ! ((n - 1) div 2))"
  shows "rising (e[(n - 1) div 2 := e ! n, n := e ! ((n - 1) div 2)]) ((n - 1) div 2)"
proof -
  define r where "r = (n - 1) div 2"
  define f where "f = e[r := e ! n, n := e ! r]"
  have r: "r < n" using assms(2) half_less r_def by simp
  have lt: "key (e ! n) < key (e ! r)" using assms(4) r_def by simp
  have f: "f ! i = (if i = n then e ! r else if i = r then e ! n else e ! i)" if "i < length e" for i
    using that r assms(3) by (simp add: f_def nth_list_update)
  have len: "length f = length e" by (simp add: f_def)
  have "rising f r"
  proof (rule risingI)
    fix i assume i: "0 < i" "i < length f" "i \<noteq> r"
    define p where "p = (i - 1) div 2"
    have p: "p < i" using i(1) half_less p_def by simp
    have fi: "f ! p = (if p = n then e ! r else if p = r then e ! n else e ! p)"
      using f [of p] p i(2) len by simp
    show "key (f ! ((i - 1) div 2)) \<le> key (f ! i)"
    proof (cases "i = n")
      case True
      then have "p = r" by (simp add: p_def r_def)
      then show ?thesis using True fi f [of i] lt r assms(3) unfolding p_def [symmetric] by simp
    next
      case False
      have le: "key (e ! p) \<le> key (e ! i)" using risingD1 [OF assms(1) i(1) _ False] i(2) len p_def by simp
      have "key (e ! r) \<le> key (e ! i)" if "p = n"
        using risingD2 [OF assms(1) i(1) _ _ assms(2)] that i(2) len p_def r_def by simp
      then show ?thesis using False i fi f [of i] len le lt unfolding p_def [symmetric] by auto
    qed
  next
    fix i assume i: "0 < i" "i < length f" "(i - 1) div 2 = r" "0 < r"
    define p where "p = (r - 1) div 2"
    have p: "p < r" using i(4) half_less p_def by simp
    have le: "key (e ! p) \<le> key (e ! r)"
      using risingD1 [OF assms(1) i(4)] r assms(3) p_def by simp
    have fp: "f ! p = e ! p" using f [of p] p r assms(3) by simp
    have "r < i" using i(1,3) half_less [of i] by simp
    have "key (e ! r) \<le> key (e ! i)" if "i \<noteq> n"
      using risingD1 [OF assms(1) i(1) _ that] i(2,3) len by simp
    then show "key (f ! ((r - 1) div 2)) \<le> key (f ! i)"
      using le fp f [of i] i(2) len \<open>r < i\<close> unfolding p_def [symmetric] by auto
  qed
  then show ?thesis by (simp add: f_def r_def)
qed

lemma rising_heap: "rising e n \<Longrightarrow> n = 0 \<or> key (e ! ((n - 1) div 2)) \<le> key (e ! n) \<Longrightarrow> heap e"
  unfolding heap_def rising_def by blast

lemma heap_sift_up:
  "rising e n \<Longrightarrow> n < length e \<Longrightarrow> e ! n = t \<Longrightarrow> heap (sift_up cmp e t n)"
proof (induction e n rule: sift_up_induct [where t = t])
  case (step e n)
  let ?r = "(n - 1) div 2"
  show ?case
  proof (cases "0 < n \<and> 0 < cmp (e ! ?r) t")
    case False
    then have "heap e"
      using rising_heap [OF step.prems(1)] step.prems(3) by (auto simp: cmp_pos not_less)
    then show ?thesis using False by (subst sift_up_eq) auto
  next
    case True
    let ?e = "e[?r := t, n := e ! ?r]"
    have r: "?r < n" using True half_less by simp
    have "rising ?e ?r"
      using rising_exchange [OF step.prems(1) _ step.prems(2)] True step.prems(3) by (simp add: cmp_pos)
    then have "heap (sift_up cmp ?e t ?r)" using step.IH True r step.prems(2) by simp
    then show ?thesis using True by (subst sift_up_eq) simp
  qed
qed

lemma heap_push_heap: "heap e \<Longrightarrow> heap (heap_push cmp e t)"
  unfolding heap_push_def
proof (rule heap_sift_up)
  assume h: "heap e"
  show "rising (e @ [t]) (length e)"
    using h by (auto simp: rising_def heap_def nth_append)
qed simp_all

lemma sinkingD1:
  "sinking e r \<Longrightarrow> 0 < i \<Longrightarrow> i < length e \<Longrightarrow> (i - 1) div 2 \<noteq> r \<Longrightarrow> key (e ! ((i - 1) div 2)) \<le> key (e ! i)"
  unfolding sinking_def by blast

lemma sinkingD2:
  "sinking e r \<Longrightarrow> 0 < i \<Longrightarrow> i < length e \<Longrightarrow> (i - 1) div 2 = r \<Longrightarrow> 0 < r \<Longrightarrow>
    key (e ! ((r - 1) div 2)) \<le> key (e ! i)"
  unfolding sinking_def by blast

lemma sinkingI:
  assumes "\<And>i. 0 < i \<Longrightarrow> i < length e \<Longrightarrow> (i - 1) div 2 \<noteq> r \<Longrightarrow> key (e ! ((i - 1) div 2)) \<le> key (e ! i)"
    and "\<And>i. 0 < i \<Longrightarrow> i < length e \<Longrightarrow> (i - 1) div 2 = r \<Longrightarrow> 0 < r \<Longrightarrow>
      key (e ! ((r - 1) div 2)) \<le> key (e ! i)"
  shows "sinking e r"
  unfolding sinking_def using assms by blast

lemma child_cases:
  assumes "0 < i" "(i - 1) div 2 = (r :: nat)"
  shows "i = 2 * r + 1 \<or> i = 2 * r + 2"
  using assms by presburger

lemma down_child_None:
  assumes "down_child cmp e n r = None" "0 < i" "i < length e" "(i - 1) div 2 = r"
  shows "key n \<le> key (e ! i)"
proof -
  have "r < length e div 2" using assms(2-4) by linarith
  then show ?thesis using assms(1,3) child_cases [OF assms(2,4)]
    by (auto simp: down_child_def cmp_neg not_less split: if_splits)
qed

lemma down_child_Some:
  assumes "down_child cmp e n r = Some j"
  shows "key (e ! j) < key n"
  using assms by (auto simp: down_child_def cmp_neg not_less split: if_splits)

lemma down_child_least:
  assumes "down_child cmp e n r = Some j" "0 < i" "i < length e" "(i - 1) div 2 = r"
  shows "key (e ! j) \<le> key (e ! i)"
  using assms(1,3) child_cases [OF assms(2,4)]
  by (auto simp: down_child_def cmp_neg not_less split: if_splits)

text \<open>One exchange on the way down: the least child takes the element's place.\<close>

lemma sinking_exchange:
  assumes "sinking e r" "down_child cmp e (e ! r) r = Some j"
  shows "sinking (e[r := e ! j, j := e ! r]) j"
proof -
  have j: "r < j" "j < length e" "(j - 1) div 2 = r" using down_child_bounds [OF assms(2)] by auto
  define f where "f = e[r := e ! j, j := e ! r]"
  have f: "f ! i = (if i = j then e ! r else if i = r then e ! j else e ! i)" if "i < length e" for i
    using that j(1,2) by (simp add: f_def nth_list_update)
  have len: "length f = length e" by (simp add: f_def)
  have lt: "key (e ! j) < key (e ! r)" by (rule down_child_Some [OF assms(2)])
  have "sinking f j"
  proof (rule sinkingI)
    fix i assume i: "0 < i" "i < length f" "(i - 1) div 2 \<noteq> j"
    define p where "p = (i - 1) div 2"
    have p: "p < i" "p \<noteq> j" using i(1,3) half_less p_def by simp_all
    have fp: "f ! p = (if p = r then e ! j else e ! p)" using f [of p] p i(2) len by simp
    have fi: "f ! i = (if i = j then e ! r else if i = r then e ! j else e ! i)"
      using f [of i] i(2) len by simp
    show "key (f ! ((i - 1) div 2)) \<le> key (f ! i)"
    proof (cases "p = r")
      case True
      then have "key (e ! j) \<le> key (e ! i)" using down_child_least [OF assms(2) i(1)] i(2) len p_def by simp
      then show ?thesis using True fp fi lt p(1) unfolding p_def [symmetric] by auto
    next
      case False
      then have le: "key (e ! p) \<le> key (e ! i)" using sinkingD1 [OF assms(1) i(1)] i(2) len p_def by simp
      have "i \<noteq> j" using False j(3) p_def by auto
      have "key (e ! p) \<le> key (e ! j)" if "i = r"
        using sinkingD2 [OF assms(1) _ j(2,3)] that i(1) j(1) p_def by simp
      then show ?thesis using fp fi le False \<open>i \<noteq> j\<close> unfolding p_def [symmetric] by auto
    qed
  next
    fix i assume i: "0 < i" "i < length f" "(i - 1) div 2 = j" "0 < j"
    have "j < i" using i(1,3) half_less [of i] by simp
    have "key (e ! j) \<le> key (e ! i)"
      using sinkingD1 [OF assms(1) i(1)] i(2,3) len j(1) by simp
    moreover have "f ! r = e ! j" "f ! i = e ! i"
      using f [of r] f [of i] j(1,2) i(2) len \<open>j < i\<close> by simp_all
    ultimately show "key (f ! ((j - 1) div 2)) \<le> key (f ! i)" using j(3) by simp
  qed
  then show ?thesis by (simp add: f_def)
qed

lemma heap_sift_down:
  "sinking e r \<Longrightarrow> r < length e \<Longrightarrow> e ! r = n \<Longrightarrow> heap (sift_down cmp e n r)"
proof (induction e r rule: sift_down_induct [where n = n and cmp = cmp])
  case (step e r)
  show ?case
  proof (cases "down_child cmp e n r")
    case None
    have "heap e"
      unfolding heap_def
    proof (intro allI impI)
      fix i assume i: "0 < i" "i < length e"
      show "key (e ! ((i - 1) div 2)) \<le> key (e ! i)"
        using sinkingD1 [OF step.prems(1) i] down_child_None [OF None i] step.prems(3) by blast
    qed
    then show ?thesis using None by (subst sift_down_eq) simp
  next
    case (Some j)
    have j: "r < j" "j < length e" using down_child_bounds [OF Some] by auto
    have "sinking (e[r := e ! j, j := n]) j"
      using sinking_exchange [OF step.prems(1)] Some step.prems(3) by simp
    then have "heap (sift_down cmp (e[r := e ! j, j := n]) n j)" using step.IH [OF Some] j by simp
    then show ?thesis using Some by (subst sift_down_eq) simp
  qed
qed

lemma sinking_root:
  assumes "heap e" "1 < length e"
  shows "sinking ((butlast e)[0 := x]) 0"
proof (rule sinkingI)
  fix i assume i: "0 < i" "i < length ((butlast e)[0 := x])" "(i - 1) div 2 \<noteq> 0"
  have "(i - 1) div 2 < i" using i(1) half_less by simp
  then have "((butlast e)[0 := x]) ! ((i - 1) div 2) = e ! ((i - 1) div 2)" "((butlast e)[0 := x]) ! i = e ! i"
    using i by (simp_all add: nth_butlast)
  moreover have "key (e ! ((i - 1) div 2)) \<le> key (e ! i)"
    using assms(1) i(1,2) unfolding heap_def by simp
  ultimately show "key (((butlast e)[0 := x]) ! ((i - 1) div 2)) \<le> key (((butlast e)[0 := x]) ! i)" by simp
qed simp

lemma heap_pop_heap:
  assumes "heap e" "distinct e"
  shows "heap (heap_pop cmp e)"
proof (cases "length e \<le> 1")
  case True
  then have "heap_pop cmp e = []"
    by (cases e) (simp_all add: heap_pop_def)
  then show ?thesis by (simp add: heap_def)
next
  case False
  let ?e = "(butlast e)[0 := last e]"
  have "sinking ?e 0" using sinking_root [OF assms(1)] False by simp
  then have "heap (sift_down cmp ?e (last e) 0)"
    by (rule heap_sift_down) (use False in simp_all)
  moreover have "e \<noteq> []" "length e \<noteq> 1" using False by auto
  ultimately show ?thesis using assms(2) by (simp add: heap_pop_eq)
qed

text \<open>What \<open>peek\<close> shows, and \<open>pop\<close> takes, is a least element.\<close>

lemma heap_peek_least:
  assumes "heap e" "heap_peek e = Some t" "x \<in> set e"
  shows "key t \<le> key x"
proof -
  from assms(3) obtain i where "i < length e" "x = e ! i" by (auto simp: in_set_conv_nth)
  with assms(1,2) heap_least show ?thesis by (auto simp: heap_peek_def split: if_splits)
qed

end

end
