(* ===== verification/Scheduler.thy ===== *)
theory Scheduler
  imports Task_Heap
begin

text \<open>
  The scheduler the console's bundle ships, \<open>scheduler.production.js\<close> in \<open>app.js\<close>: React runs
  every render and effect of the console through it. A task object is its id, and \<open>store\<close> holds
  its fields, which the code changes in place; the module's variables are the fields of \<open>sched\<close>
  (\<open>c l u d f p m h g S C T w\<close> in the minified file). The host is part of the state: messages
  posted to the \<open>MessageChannel\<close>, timeouts armed with \<open>setTimeout\<close>, and the clock. A callback of
  the application is arbitrary: what it calls and how it ends is any function of the state.
\<close>

subsection \<open>Tasks and state\<close>

datatype 'f callback = Null | Not_callable | Callable 'f

record 'f task =
  task_callback :: "'f callback"
  priorityLevel :: int
  startTime :: real
  expirationTime :: real
  sortIndex :: real

record 'f sched =
  store :: "nat \<Rightarrow> 'f task"
  taskQ :: "nat list"
  timerQ :: "nat list"
  taskId :: nat
  currentTask :: "nat option"
  currentPriority :: int
  performing :: bool
  hostScheduled :: bool
  hostTimeout :: bool
  needsPaint :: bool
  loopRunning :: bool
  timerHandle :: int
  startedAt :: real
  frameInterval :: real
  posted :: nat
  timeouts :: "(int \<times> real) list"
  nextHandle :: int
  clock :: real

definition blank_task :: "'f task" where
  "blank_task = \<lparr>task_callback = Null, priorityLevel = 0, startTime = 0, expirationTime = 0, sortIndex = -1\<rparr>"

definition init_sched :: "real \<Rightarrow> 'f sched" where
  "init_sched now =
     \<lparr>store = (\<lambda>_. blank_task), taskQ = [], timerQ = [], taskId = 1, currentTask = None,
      currentPriority = 3, performing = False, hostScheduled = False, hostTimeout = False,
      needsPaint = False, loopRunning = False, timerHandle = -1, startedAt = -1, frameInterval = 5,
      posted = 0, timeouts = [], nextHandle = 1, clock = now\<rparr>"

definition compare_tasks :: "(nat \<Rightarrow> 'f task) \<Rightarrow> nat \<Rightarrow> nat \<Rightarrow> real" where
  "compare_tasks st e t =
     (let n = sortIndex (st e) - sortIndex (st t) in if n = 0 then real e - real t else n)"

definition task_key :: "(nat \<Rightarrow> 'f task) \<Rightarrow> nat \<Rightarrow> real \<times> nat" where
  "task_key st i = (sortIndex (st i), i)"

interpretation tasks: heap_order "compare_tasks st" "task_key st" for st :: "nat \<Rightarrow> 'f task"
  by unfold_locales (auto simp: compare_tasks_def task_key_def Let_def less_prod_def')

abbreviation task_heap :: "(nat \<Rightarrow> 'f task) \<Rightarrow> nat list \<Rightarrow> bool" where
  "task_heap st \<equiv> heap_order.heap (task_key st)"

subsection \<open>The host\<close>

definition post_message :: "'f sched \<Rightarrow> 'f sched" where
  "post_message s = s\<lparr>posted := posted s + 1\<rparr>"

definition request_host_callback :: "'f sched \<Rightarrow> 'f sched" where
  "request_host_callback s = (if loopRunning s then s else post_message (s\<lparr>loopRunning := True\<rparr>))"

definition request_host_timeout :: "real \<Rightarrow> 'f sched \<Rightarrow> 'f sched" where
  "request_host_timeout n s =
     s\<lparr>timerHandle := nextHandle s, timeouts := timeouts s @ [(nextHandle s, clock s + n)],
       nextHandle := nextHandle s + 1\<rparr>"

definition cancel_host_timeout :: "'f sched \<Rightarrow> 'f sched" where
  "cancel_host_timeout s =
     s\<lparr>timeouts := filter (\<lambda>(handle, _). handle \<noteq> timerHandle s) (timeouts s), timerHandle := -1\<rparr>"

subsection \<open>Timers\<close>

definition pop_timer :: "'f sched \<Rightarrow> 'f sched" where
  "pop_timer s = s\<lparr>timerQ := heap_pop (compare_tasks (store s)) (timerQ s)\<rparr>"

definition pop_task :: "'f sched \<Rightarrow> 'f sched" where
  "pop_task s = s\<lparr>taskQ := heap_pop (compare_tasks (store s)) (taskQ s)\<rparr>"

definition push_timer :: "nat \<Rightarrow> real \<Rightarrow> 'f sched \<Rightarrow> 'f sched" where
  "push_timer i key s =
     (let st = (store s)(i := (store s i)\<lparr>sortIndex := key\<rparr>)
      in s\<lparr>store := st, timerQ := heap_push (compare_tasks st) (timerQ s) i\<rparr>)"

definition push_task :: "nat \<Rightarrow> real \<Rightarrow> 'f sched \<Rightarrow> 'f sched" where
  "push_task i key s =
     (let st = (store s)(i := (store s i)\<lparr>sortIndex := key\<rparr>)
      in s\<lparr>store := st, taskQ := heap_push (compare_tasks st) (taskQ s) i\<rparr>)"

lemma length_heap_pop [simp]: "length (heap_pop cmp e) = length e - 1"
  by (cases e) (simp_all add: heap_pop_def Let_def)

lemma heap_peek_eq_None [simp]: "heap_peek e = None \<longleftrightarrow> e = []"
  by (simp add: heap_peek_def)

lemma heap_peek_Some: "heap_peek e = Some i \<longleftrightarrow> e \<noteq> [] \<and> i = e ! 0"
  by (auto simp: heap_peek_def)

lemma length_timers [simp]:
  "length (timerQ (pop_timer s)) = length (timerQ s) - 1"
  "timerQ (push_task i k s) = timerQ s"
  by (simp_all add: pop_timer_def push_task_def Let_def)

function advance_timers :: "real \<Rightarrow> 'f sched \<Rightarrow> 'f sched" where
  "advance_timers e s =
     (case heap_peek (timerQ s) of
        None \<Rightarrow> s
      | Some i \<Rightarrow>
          (case task_callback (store s i) of
             Null \<Rightarrow> advance_timers e (pop_timer s)
           | _ \<Rightarrow> if startTime (store s i) \<le> e
                 then advance_timers e (push_task i (expirationTime (store s i)) (pop_timer s)) else s))"
  by pat_completeness auto
termination
  by (relation "measure (\<lambda>(e, s). length (timerQ s))") (auto simp: heap_peek_Some)

declare advance_timers.simps [simp del]

definition handle_timeout :: "real \<Rightarrow> 'f sched \<Rightarrow> 'f sched" where
  "handle_timeout e s =
     (let s1 = advance_timers e (s\<lparr>hostTimeout := False\<rparr>) in
      if hostScheduled s1 then s1
      else if heap_peek (taskQ s1) \<noteq> None then request_host_callback (s1\<lparr>hostScheduled := True\<rparr>)
      else (case heap_peek (timerQ s1) of
              None \<Rightarrow> s1 | Some i \<Rightarrow> request_host_timeout (startTime (store s1 i) - e) s1))"

subsection \<open>The operations of the module\<close>

definition should_yield :: "'f sched \<Rightarrow> bool" where
  "should_yield s = (if needsPaint s then True else \<not> (clock s - startedAt s < frameInterval s))"

definition priority_timeout :: "int \<Rightarrow> real" where
  "priority_timeout r =
     (if r = 1 then -1 else if r = 2 then 250 else if r = 5 then 1073741823 else if r = 4 then 10000 else 5000)"

text \<open>\<open>delay\<close> is the number in the \<open>delay\<close> field of the options object, if there is one.\<close>

definition schedule_callback :: "int \<Rightarrow> 'f callback \<Rightarrow> real option \<Rightarrow> 'f sched \<Rightarrow> 'f sched" where
  "schedule_callback r i delay s =
     (let now = clock s;
          a = (case delay of Some d \<Rightarrow> (if 0 < d then now + d else now) | None \<Rightarrow> now);
          x = a + priority_timeout r;
          n = taskId s;
          s1 = s\<lparr>taskId := n + 1,
                 store := (store s)(n := \<lparr>task_callback = i, priorityLevel = r, startTime = a,
                                           expirationTime = x, sortIndex = -1\<rparr>)\<rparr>
      in if now < a
         then (let s2 = push_timer n a s1
               in if heap_peek (taskQ s2) = None \<and> heap_peek (timerQ s2) = Some n
                  then request_host_timeout (a - now)
                         (if hostTimeout s2 then cancel_host_timeout s2 else s2\<lparr>hostTimeout := True\<rparr>)
                  else s2)
         else (let s2 = push_task n x s1
               in if hostScheduled s2 \<or> performing s2 then s2
                  else request_host_callback (s2\<lparr>hostScheduled := True\<rparr>)))"

definition cancel_callback :: "nat \<Rightarrow> 'f sched \<Rightarrow> 'f sched" where
  "cancel_callback i s = s\<lparr>store := (store s)(i := (store s i)\<lparr>task_callback := Null\<rparr>)\<rparr>"

definition force_frame_rate :: "real \<Rightarrow> 'f sched \<Rightarrow> 'f sched" where
  "force_frame_rate e s =
     (if 0 > e \<or> 125 < e then s
      else s\<lparr>frameInterval := (if 0 < e then real_of_int \<lfloor>1000 / e\<rfloor> else 5)\<rparr>)"

definition request_paint :: "'f sched \<Rightarrow> 'f sched" where
  "request_paint s = s\<lparr>needsPaint := True\<rparr>"

definition run_priority :: "int \<Rightarrow> int" where
  "run_priority e = (if e = 1 \<or> e = 2 \<or> e = 3 \<or> e = 4 \<or> e = 5 then e else 3)"

definition next_priority :: "int \<Rightarrow> int" where
  "next_priority f = (if f = 1 \<or> f = 2 \<or> f = 3 then 3 else f)"

text \<open>
  What application code does to the scheduler: calls of its operations, in order, with time going
  by. \<open>Run_with_priority\<close>, \<open>Run_next\<close> and \<open>Run_wrapped\<close> hold the calls of the function they run;
  their \<open>finally\<close> makes the priority the old one however that function ends.
\<close>

datatype 'f api =
    Schedule_callback int "'f callback" "real option"
  | Cancel_callback nat
  | Force_frame_rate real
  | Request_paint
  | Elapse real
  | Run_with_priority int "'f api list"
  | Run_next "'f api list"
  | Run_wrapped int "'f api list"

fun apply_api :: "'f api \<Rightarrow> 'f sched \<Rightarrow> 'f sched"
  and apply_apis :: "'f api list \<Rightarrow> 'f sched \<Rightarrow> 'f sched" where
  "apply_api (Schedule_callback r i delay) s = schedule_callback r i delay s"
| "apply_api (Cancel_callback i) s = cancel_callback i s"
| "apply_api (Force_frame_rate e) s = force_frame_rate e s"
| "apply_api Request_paint s = request_paint s"
| "apply_api (Elapse d) s = s\<lparr>clock := clock s + max 0 d\<rparr>"
| "apply_api (Run_with_priority e fs) s =
     (apply_apis fs (s\<lparr>currentPriority := run_priority e\<rparr>))\<lparr>currentPriority := currentPriority s\<rparr>"
| "apply_api (Run_next fs) s =
     (apply_apis fs (s\<lparr>currentPriority := next_priority (currentPriority s)\<rparr>))\<lparr>currentPriority := currentPriority s\<rparr>"
| "apply_api (Run_wrapped t fs) s =
     (apply_apis fs (s\<lparr>currentPriority := t\<rparr>))\<lparr>currentPriority := currentPriority s\<rparr>"
| "apply_apis [] s = s"
| "apply_apis (a # as) s = apply_apis as (apply_api a s)"

datatype 'f outcome = Finished | Continues 'f | Threw
datatype loop_exit = Idle | More | Raised

type_synonym 'f application = "'f \<Rightarrow> bool \<Rightarrow> 'f sched \<Rightarrow> 'f api list \<times> 'f outcome"

definition put_callback :: "nat \<Rightarrow> 'f callback \<Rightarrow> 'f sched \<Rightarrow> 'f sched" where
  "put_callback i g s = s\<lparr>store := (store s)(i := (store s i)\<lparr>task_callback := g\<rparr>)\<rparr>"

definition peek_current :: "'f sched \<Rightarrow> 'f sched" where
  "peek_current s = s\<lparr>currentTask := heap_peek (taskQ s)\<rparr>"

text \<open>The work loop of \<open>performWorkUntilDeadline\<close>. Callbacks may add tasks for ever, so it has fuel.\<close>

fun work_loop :: "'f application \<Rightarrow> nat \<Rightarrow> real \<Rightarrow> 'f sched \<Rightarrow> ('f sched \<times> loop_exit) option" where
  "work_loop user 0 t s = None"
| "work_loop user (Suc k) t s =
     (case currentTask s of
        None \<Rightarrow>
          (case heap_peek (timerQ s) of
             None \<Rightarrow> Some (s, Idle)
           | Some u \<Rightarrow> Some (request_host_timeout (startTime (store s u) - t) s, Idle))
      | Some i \<Rightarrow>
          if expirationTime (store s i) > t \<and> should_yield s then Some (s, More)
          else (case task_callback (store s i) of
                  Callable g \<Rightarrow>
                    (let s1 = (put_callback i Null s)\<lparr>currentPriority := priorityLevel (store s i)\<rparr>;
                         (calls, out) = user g (expirationTime (store s i) \<le> t) s1;
                         s2 = apply_apis calls s1
                     in case out of
                          Threw \<Rightarrow> Some (s2, Raised)
                        | Continues g' \<Rightarrow> Some (advance_timers (clock s2) (put_callback i (Callable g') s2), More)
                        | Finished \<Rightarrow>
                            work_loop user k (clock s2)
                              (peek_current (advance_timers (clock s2)
                                 (if heap_peek (taskQ s2) = Some i then pop_task s2 else s2))))
                | _ \<Rightarrow> work_loop user k t (peek_current (pop_task s))))"

definition start_work :: "'f sched \<Rightarrow> 'f sched" where
  "start_work s =
     (let s1 = s\<lparr>startedAt := clock s, hostScheduled := False\<rparr>;
          s2 = (if hostTimeout s1 then cancel_host_timeout (s1\<lparr>hostTimeout := False\<rparr>) else s1)
      in peek_current (advance_timers (clock s) (s2\<lparr>performing := True\<rparr>)))"

definition end_work :: "int \<Rightarrow> loop_exit \<Rightarrow> 'f sched \<Rightarrow> 'f sched" where
  "end_work a x s =
     (let s1 = s\<lparr>currentTask := None, currentPriority := a, performing := False\<rparr>
      in if x = Idle then s1\<lparr>loopRunning := False\<rparr> else post_message s1)"

definition perform_work :: "'f application \<Rightarrow> nat \<Rightarrow> 'f sched \<Rightarrow> 'f sched option" where
  "perform_work user k s =
     (let s0 = s\<lparr>needsPaint := False\<rparr> in
      if loopRunning s0
      then (case work_loop user k (clock s0) (start_work s0) of
              None \<Rightarrow> None
            | Some (s1, x) \<Rightarrow> Some (end_work (currentPriority s0) x s1))
      else Some s0)"

text \<open>
  The steps of the page's event loop: application code runs, the posted message arrives, an armed
  timeout fires (at any time: the host clamps long delays and rounds short ones).
\<close>

inductive sched_step :: "'f application \<Rightarrow> 'f sched \<Rightarrow> 'f sched \<Rightarrow> bool" for user where
  application: "sched_step user s (apply_api a s)"
| message: "0 < posted s \<Longrightarrow> perform_work user k (s\<lparr>posted := posted s - 1\<rparr>) = Some s' \<Longrightarrow>
    sched_step user s s'"
| timeout: "(handle, due) \<in> set (timeouts s) \<Longrightarrow>
    sched_step user s (handle_timeout (clock s) (s\<lparr>timeouts := filter (\<lambda>(h, _). h \<noteq> handle) (timeouts s)\<rparr>))"

inductive sched_reachable :: "'f application \<Rightarrow> 'f sched \<Rightarrow> bool" for user where
  start: "sched_reachable user (init_sched now)"
| step: "sched_reachable user s \<Longrightarrow> sched_step user s s' \<Longrightarrow> sched_reachable user s'"

end
