(* ===== verification/Scheduler_Invariants.thy ===== *)
theory Scheduler_Invariants
  imports Scheduler
begin

text \<open>
  What holds of the scheduler's state between any two steps, and inside the work loop: both queues
  are heaps of distinct, allocated tasks, and work that is queued has a message or a timeout on its
  way. Every operation keeps it, so it holds in every reachable state.
\<close>

subsection \<open>Queues\<close>

lemma heap_peek_Nil [simp]: "heap_peek [] = None"
  by simp

definition queue_wf :: "'f sched \<Rightarrow> bool" where
  "queue_wf s \<longleftrightarrow>
     task_heap (store s) (taskQ s) \<and> task_heap (store s) (timerQ s) \<and>
     distinct (taskQ s) \<and> distinct (timerQ s) \<and> set (taskQ s) \<inter> set (timerQ s) = {} \<and>
     (\<forall>i\<in>set (taskQ s) \<union> set (timerQ s). i < taskId s) \<and>
     (\<forall>i\<in>set (timerQ s). sortIndex (store s i) = startTime (store s i)) \<and>
     (\<forall>i\<in>set (taskQ s). sortIndex (store s i) = expirationTime (store s i))"

lemma heap_cong:
  assumes "\<And>i. i \<in> set e \<Longrightarrow> sortIndex (st i) = sortIndex (st' i)"
  shows "task_heap st e = task_heap st' e"
proof -
  have "task_key st (e ! i) = task_key st' (e ! i)" if "i < length e" for i
    using assms that by (simp add: task_key_def)
  moreover have "(i - 1) div 2 < length e" if "i < length e" for i :: nat using that by linarith
  ultimately show ?thesis unfolding tasks.heap_def by metis
qed

lemma set_heap_push [simp]: "set (heap_push cmp e t) = insert t (set e)"
  by (metis mset_heap_push set_mset_add_mset_insert set_mset_mset)

lemma distinct_heap_push [simp]: "distinct (heap_push cmp e t) \<longleftrightarrow> distinct e \<and> t \<notin> set e"
proof -
  have "mset (heap_push cmp e t) = mset (t # e)" by (simp add: mset_heap_push)
  then have "distinct (heap_push cmp e t) = distinct (t # e)" by (rule mset_eq_imp_distinct_iff)
  then show ?thesis by auto
qed

lemma mset_heap_pop_rest:
  assumes "distinct e" "e \<noteq> []"
  shows "mset (heap_pop cmp e) = mset (tl e)"
  using mset_heap_pop [OF assms, of cmp] assms(2) by (cases e) simp_all

lemma heap_pop_members:
  assumes "distinct e"
  shows "set (heap_pop cmp e) = set (tl e)" "distinct (heap_pop cmp e)"
proof -
  have m: "mset (heap_pop cmp e) = mset (tl e)"
    using mset_heap_pop_rest [OF assms] by (cases "e = []") (simp_all add: heap_pop_def)
  show "set (heap_pop cmp e) = set (tl e)" using m by (rule mset_eq_setD)
  show "distinct (heap_pop cmp e)"
    using mset_eq_imp_distinct_iff [OF m] assms by (simp add: distinct_tl)
qed

lemma set_tl_sub: "set (tl e) \<subseteq> set e"
  by (cases e) auto

lemma queue_wf_pop_task: "queue_wf s \<Longrightarrow> queue_wf (pop_task s)"
  using set_tl_sub [of "taskQ s"]
  by (auto simp: queue_wf_def pop_task_def heap_pop_members tasks.heap_pop_heap)

lemma queue_wf_pop_timer: "queue_wf s \<Longrightarrow> queue_wf (pop_timer s)"
  using set_tl_sub [of "timerQ s"]
  by (auto simp: queue_wf_def pop_timer_def heap_pop_members tasks.heap_pop_heap)

text \<open>Writing a task outside the queues leaves their order alone.\<close>

lemma heap_fun_upd: "i \<notin> set e \<Longrightarrow> task_heap (st(i := x)) e = task_heap st e"
  by (rule heap_cong) auto

lemma queue_wf_push_task:
  assumes "queue_wf s" "i \<notin> set (taskQ s)" "i \<notin> set (timerQ s)" "i < taskId s" "k = expirationTime (store s i)"
  shows "queue_wf (push_task i k s)"
  using assms by (auto simp: queue_wf_def push_task_def Let_def heap_fun_upd tasks.heap_push_heap)

lemma queue_wf_push_timer:
  assumes "queue_wf s" "i \<notin> set (taskQ s)" "i \<notin> set (timerQ s)" "i < taskId s" "k = startTime (store s i)"
  shows "queue_wf (push_timer i k s)"
  using assms by (auto simp: queue_wf_def push_timer_def Let_def heap_fun_upd tasks.heap_push_heap)

lemma queue_wf_put_callback: "queue_wf s \<Longrightarrow> queue_wf (put_callback i g s)"
proof -
  have "task_heap ((store s)(i := (store s i)\<lparr>task_callback := g\<rparr>)) e = task_heap (store s) e" for e
    by (rule heap_cong) auto
  then show "queue_wf s \<Longrightarrow> queue_wf (put_callback i g s)"
    by (auto simp: queue_wf_def put_callback_def)
qed

lemma cancel_is_put_callback: "cancel_callback i s = put_callback i Null s"
  by (simp add: cancel_callback_def put_callback_def)

lemma first_timer:
  assumes "queue_wf s" "heap_peek (timerQ s) = Some i" "j \<in> set (timerQ s)"
  shows "startTime (store s i) \<le> startTime (store s j)"
proof -
  have "task_key (store s) i \<le> task_key (store s) j"
    using assms tasks.heap_peek_least unfolding queue_wf_def by blast
  moreover have "i \<in> set (timerQ s)" using assms(2) by (auto simp: heap_peek_Some)
  ultimately show ?thesis using assms(1,3) by (auto simp: task_key_def queue_wf_def less_eq_prod_def)
qed

lemma popped_timer:
  assumes "queue_wf s" "heap_peek (timerQ s) = Some i"
  shows "i \<notin> set (taskQ s)" "i \<notin> set (timerQ (pop_timer s))" "i < taskId s"
proof -
  obtain r where r: "timerQ s = i # r" using assms(2) by (cases "timerQ s") (auto simp: heap_peek_Some)
  show "i \<notin> set (taskQ s)" "i < taskId s" using assms(1) r by (auto simp: queue_wf_def)
  show "i \<notin> set (timerQ (pop_timer s))"
    using assms(1) r by (auto simp: queue_wf_def pop_timer_def heap_pop_members)
qed

subsection \<open>What each operation leaves alone\<close>

text \<open>Everything but the queues and the store.\<close>

definition same_host :: "'f sched \<Rightarrow> 'f sched \<Rightarrow> bool" where
  "same_host s s' \<longleftrightarrow> s' = s\<lparr>store := store s', taskQ := taskQ s', timerQ := timerQ s'\<rparr>"

lemma same_hostI: "s' = s\<lparr>store := st, taskQ := q, timerQ := l\<rparr> \<Longrightarrow> same_host s s'"
  by (simp add: same_host_def)

lemma same_hostE: "same_host s s' \<Longrightarrow> (\<And>st q l. s' = s\<lparr>store := st, taskQ := q, timerQ := l\<rparr> \<Longrightarrow> P) \<Longrightarrow> P"
  unfolding same_host_def by blast

lemma same_hostD:
  assumes "same_host s s'"
  shows "performing s' = performing s" "hostScheduled s' = hostScheduled s" "hostTimeout s' = hostTimeout s"
    "loopRunning s' = loopRunning s" "posted s' = posted s" "timeouts s' = timeouts s" "clock s' = clock s"
    "currentPriority s' = currentPriority s" "taskId s' = taskId s" "needsPaint s' = needsPaint s"
    "startedAt s' = startedAt s" "frameInterval s' = frameInterval s" "currentTask s' = currentTask s"
  using assms by (rule same_hostE, simp)+

lemma same_host_refl: "same_host s s"
  by (simp add: same_host_def)

lemma same_host_trans: "same_host s s' \<Longrightarrow> same_host s' s'' \<Longrightarrow> same_host s s''"
  by (elim same_hostE) (simp add: same_host_def)

lemma same_host_queues:
  "same_host s (pop_timer s)" "same_host s (pop_task s)" "same_host s (push_timer i k s)"
  "same_host s (push_task i k s)" "same_host s (put_callback i g s)"
  by (simp_all add: same_host_def pop_timer_def pop_task_def push_timer_def push_task_def put_callback_def Let_def)

lemma advance_timers_cases [case_names stop drop move]:
  assumes "advance_timers e s = s \<Longrightarrow> P"
    and "\<And>i. heap_peek (timerQ s) = Some i \<Longrightarrow> task_callback (store s i) = Null \<Longrightarrow>
      advance_timers e s = advance_timers e (pop_timer s) \<Longrightarrow> P"
    and "\<And>i. heap_peek (timerQ s) = Some i \<Longrightarrow> task_callback (store s i) \<noteq> Null \<Longrightarrow> startTime (store s i) \<le> e \<Longrightarrow>
      advance_timers e s = advance_timers e (push_task i (expirationTime (store s i)) (pop_timer s)) \<Longrightarrow> P"
  shows P
proof (cases "heap_peek (timerQ s)")
  case None
  then show ?thesis by (intro assms(1)) (simp add: advance_timers.simps [of e s] heap_peek_def)
next
  case (Some i)
  show ?thesis
  proof (cases "task_callback (store s i) = Null")
    case True
    then show ?thesis by (intro assms(2) [OF Some]) (simp_all add: advance_timers.simps [of e s] Some)
  next
    case False
    then have eq: "advance_timers e s =
        (if startTime (store s i) \<le> e
         then advance_timers e (push_task i (expirationTime (store s i)) (pop_timer s)) else s)"
      by (cases "task_callback (store s i)") (simp_all add: advance_timers.simps [of e s] Some)
    show ?thesis
    proof (cases "startTime (store s i) \<le> e")
      case True
      with eq False show ?thesis by (intro assms(3) [OF Some]) simp_all
    next
      case False
      with eq show ?thesis by (intro assms(1)) simp
    qed
  qed
qed

lemma advance_timers_induct [case_names step]:
  assumes "\<And>s. (\<And>s'. length (timerQ s') < length (timerQ s) \<Longrightarrow> P s') \<Longrightarrow> P s"
  shows "P s"
  by (rule measure_induct_rule [of "\<lambda>s. length (timerQ s)"]) (rule assms)

lemma peek_pop_shorter: "heap_peek (timerQ s) = Some i \<Longrightarrow> length (timerQ (pop_timer s)) < length (timerQ s)"
  by (cases "timerQ s") (auto simp: heap_peek_Some)

lemma advance_timers_keeps:
  "same_host s (advance_timers e s) \<and> (queue_wf s \<longrightarrow> queue_wf (advance_timers e s))"
proof (induction s rule: advance_timers_induct)
  case (step s)
  show ?case
  proof (cases rule: advance_timers_cases [of e s])
    case stop
    then show ?thesis by (simp add: same_host_refl)
  next
    case (drop i)
    from step.IH [OF peek_pop_shorter [OF drop(1)]] show ?thesis
      unfolding drop(3) using same_host_queues(1) same_host_trans queue_wf_pop_timer by blast
  next
    case (move i)
    let ?s = "push_task i (expirationTime (store s i)) (pop_timer s)"
    have "same_host s ?s" using same_host_queues same_host_trans by blast
    moreover have "queue_wf ?s" if "queue_wf s"
      by (intro queue_wf_push_task queue_wf_pop_timer that)
        (use popped_timer [OF that move(1)] in \<open>simp_all add: pop_timer_def\<close>)
    moreover have "length (timerQ ?s) < length (timerQ s)" using peek_pop_shorter [OF move(1)] by simp
    ultimately show ?thesis unfolding move(4) using step.IH same_host_trans by blast
  qed
qed

lemmas same_host_advance = advance_timers_keeps [THEN conjunct1]
lemmas queue_wf_advance = advance_timers_keeps [THEN conjunct2, rule_format]




subsection \<open>The host\<close>

definition timers_armed :: "'f sched \<Rightarrow> bool" where
  "timers_armed s \<longleftrightarrow>
     timerQ s = [] \<or> (\<exists>(handle, due)\<in>set (timeouts s). \<forall>i\<in>set (timerQ s). due \<le> startTime (store s i))"

text \<open>Messages: none inside the work loop, else one exactly while the message loop runs.\<close>

definition host_base :: "'f sched \<Rightarrow> bool" where
  "host_base s \<longleftrightarrow>
     (if performing s then posted s = 0 \<and> loopRunning s \<and> \<not> hostScheduled s
      else posted s = of_bool (loopRunning s) \<and> (hostScheduled s \<longrightarrow> loopRunning s))"

definition host_wf :: "'f sched \<Rightarrow> bool" where
  "host_wf s \<longleftrightarrow> host_base s \<and> (loopRunning s \<or> taskQ s = [] \<and> timers_armed s)"

definition sched_inv :: "'f sched \<Rightarrow> bool" where
  "sched_inv s \<longleftrightarrow> queue_wf s \<and> host_wf s"

lemma queue_wf_cong:
  "store s' = store s \<Longrightarrow> taskQ s' = taskQ s \<Longrightarrow> timerQ s' = timerQ s \<Longrightarrow> taskId s' = taskId s \<Longrightarrow>
    queue_wf s' = queue_wf s"
  by (simp add: queue_wf_def)

lemma host_fields [simp]:
  "store (request_host_callback s) = store s" "taskQ (request_host_callback s) = taskQ s"
  "timerQ (request_host_callback s) = timerQ s" "taskId (request_host_callback s) = taskId s"
  "performing (request_host_callback s) = performing s"
  "store (request_host_timeout n s) = store s" "taskQ (request_host_timeout n s) = taskQ s"
  "timerQ (request_host_timeout n s) = timerQ s" "taskId (request_host_timeout n s) = taskId s"
  "performing (request_host_timeout n s) = performing s" "host_base (request_host_timeout n s) = host_base s"
  "loopRunning (request_host_timeout n s) = loopRunning s" "clock (request_host_timeout n s) = clock s"
  "store (cancel_host_timeout s) = store s" "taskQ (cancel_host_timeout s) = taskQ s"
  "timerQ (cancel_host_timeout s) = timerQ s" "taskId (cancel_host_timeout s) = taskId s"
  "performing (cancel_host_timeout s) = performing s" "host_base (cancel_host_timeout s) = host_base s"
  "clock (cancel_host_timeout s) = clock s" "loopRunning (cancel_host_timeout s) = loopRunning s"
  "store (peek_current s) = store s" "taskQ (peek_current s) = taskQ s"
  "timerQ (peek_current s) = timerQ s" "taskId (peek_current s) = taskId s"
  "performing (peek_current s) = performing s" "host_base (peek_current s) = host_base s"
  "store (end_work a x s) = store s" "taskQ (end_work a x s) = taskQ s" "timerQ (end_work a x s) = timerQ s"
  "taskId (end_work a x s) = taskId s" "timeouts (end_work a x s) = timeouts s"
  by (simp_all add: request_host_callback_def post_message_def request_host_timeout_def host_base_def
      cancel_host_timeout_def peek_current_def end_work_def Let_def)

lemma queue_wf_host [simp]:
  "queue_wf (request_host_callback s) = queue_wf s" "queue_wf (request_host_timeout n s) = queue_wf s"
  "queue_wf (cancel_host_timeout s) = queue_wf s" "queue_wf (peek_current s) = queue_wf s"
  "queue_wf (end_work a x s) = queue_wf s"
  by (rule queue_wf_cong; simp)+

lemma host_timeout_flag [simp]:
  "queue_wf (s\<lparr>hostTimeout := b\<rparr>) = queue_wf s" "host_base (s\<lparr>hostTimeout := b\<rparr>) = host_base s"
  by (simp_all add: queue_wf_def host_base_def)

lemma armed_for_first:
  assumes "queue_wf s" "heap_peek (timerQ s) = Some i" "n = startTime (store s i) - clock s"
  shows "timers_armed (request_host_timeout n s)"
proof -
  have "\<forall>j\<in>set (timerQ s). clock s + n \<le> startTime (store s j)"
    using first_timer [OF assms(1,2)] assms(3) by simp
  then show ?thesis by (auto simp: timers_armed_def request_host_timeout_def)
qed

lemma host_wf_arm:
  assumes "queue_wf s" "host_base s" "loopRunning s \<or> taskQ s = []" "heap_peek (timerQ s) = Some i"
    "n = startTime (store s i) - clock s"
  shows "host_wf (request_host_timeout n s)"
  using assms armed_for_first by (auto simp: host_wf_def)

lemma host_wf_callback:
  assumes "host_base s" "\<not> performing s"
  shows "host_wf (request_host_callback (s\<lparr>hostScheduled := True\<rparr>))"
  using assms by (auto simp: host_wf_def host_base_def request_host_callback_def post_message_def)

subsection \<open>The operations keep the invariant\<close>

definition new_task :: "int \<Rightarrow> 'f callback \<Rightarrow> real \<Rightarrow> 'f sched \<Rightarrow> 'f sched" where
  "new_task r i a s =
     s\<lparr>taskId := taskId s + 1,
       store := (store s)(taskId s := \<lparr>task_callback = i, priorityLevel = r, startTime = a,
                                       expirationTime = a + priority_timeout r, sortIndex = -1\<rparr>)\<rparr>"

definition scheduled_start :: "real option \<Rightarrow> 'f sched \<Rightarrow> real" where
  "scheduled_start delay s = (case delay of Some d \<Rightarrow> clock s + max 0 d | None \<Rightarrow> clock s)"

lemma schedule_callback_eq:
  "schedule_callback r i delay s =
     (let a = scheduled_start delay s; n = taskId s; s1 = new_task r i a s
      in if clock s < a
         then (let s2 = push_timer n a s1
               in if taskQ s2 = [] \<and> heap_peek (timerQ s2) = Some n
                  then request_host_timeout (a - clock s)
                         (if hostTimeout s2 then cancel_host_timeout s2 else s2\<lparr>hostTimeout := True\<rparr>)
                  else s2)
         else (let s2 = push_task n (a + priority_timeout r) s1
               in if hostScheduled s2 \<or> performing s2 then s2
                  else request_host_callback (s2\<lparr>hostScheduled := True\<rparr>)))"
proof -
  have "(case delay of Some d \<Rightarrow> (if 0 < d then clock s + d else clock s) | None \<Rightarrow> clock s) = scheduled_start delay s"
    by (auto simp: scheduled_start_def split: option.split)
  then show ?thesis by (simp add: schedule_callback_def new_task_def Let_def)
qed

lemma queue_wf_new_task:
  assumes "queue_wf s"
  shows "queue_wf (new_task r i a s)" "taskId s \<notin> set (taskQ s)" "taskId s \<notin> set (timerQ s)"
proof -
  have n: "taskId s \<notin> set (taskQ s)" "taskId s \<notin> set (timerQ s)"
    using assms by (auto simp: queue_wf_def)
  then show "taskId s \<notin> set (taskQ s)" "taskId s \<notin> set (timerQ s)" by simp_all
  have "\<forall>i\<in>set (timerQ s). i \<noteq> taskId s" using n(2) by blast
  with assms n show "queue_wf (new_task r i a s)"
    by (auto simp: queue_wf_def new_task_def heap_fun_upd less_Suc_eq)
qed

lemma new_task_fields [simp]:
  "taskQ (new_task r i a s) = taskQ s" "timerQ (new_task r i a s) = timerQ s"
  "taskId (new_task r i a s) = taskId s + 1" "performing (new_task r i a s) = performing s"
  "loopRunning (new_task r i a s) = loopRunning s" "timeouts (new_task r i a s) = timeouts s"
  "host_base (new_task r i a s) = host_base s" "hostScheduled (new_task r i a s) = hostScheduled s"
  "clock (new_task r i a s) = clock s" "startTime (store (new_task r i a s) (taskId s)) = a"
  "expirationTime (store (new_task r i a s) (taskId s)) = a + priority_timeout r"
  "j \<noteq> taskId s \<Longrightarrow> store (new_task r i a s) j = store s j"
  by (simp_all add: new_task_def host_base_def)

lemma push_fields [simp]:
  "performing (push_timer n k s) = performing s" "host_base (push_timer n k s) = host_base s"
  "loopRunning (push_timer n k s) = loopRunning s" "hostScheduled (push_timer n k s) = hostScheduled s"
  "timeouts (push_timer n k s) = timeouts s" "clock (push_timer n k s) = clock s" "taskQ (push_timer n k s) = taskQ s"
  "set (timerQ (push_timer n k s)) = insert n (set (timerQ s))"
  "startTime (store (push_timer n k s) i) = startTime (store s i)"
  "performing (push_task n k s) = performing s" "host_base (push_task n k s) = host_base s"
  "loopRunning (push_task n k s) = loopRunning s" "hostScheduled (push_task n k s) = hostScheduled s"
  by (simp_all add: push_timer_def push_task_def Let_def host_base_def)

lemma host_wf_timer_behind:
  assumes "timers_armed s" "n \<notin> set (timerQ s)" "queue_wf (push_timer n k s1)"
    and "heap_peek (timerQ (push_timer n k s1)) \<noteq> Some n"
    and s1: "s1 = new_task r i a s" "n = taskId s"
  shows "timers_armed (push_timer n k s1)"
proof -
  let ?s = "push_timer n k s1"
  have same: "startTime (store ?s j) = startTime (store s j)" if "j \<in> set (timerQ s)" for j
    using that assms(2) s1 by (metis new_task_fields(12) push_fields(9))
  have mem: "set (timerQ ?s) = insert n (set (timerQ s))" using s1 by simp
  then have "timerQ ?s \<noteq> []" by (metis empty_set insert_not_empty)
  then obtain h where h: "heap_peek (timerQ ?s) = Some h" "h \<noteq> n"
    using assms(4) by (cases "heap_peek (timerQ ?s)") auto
  have "h \<in> set (timerQ ?s)" using h(1) by (metis heap_peek_Some length_greater_0_conv nth_mem)
  then have hs: "h \<in> set (timerQ s)" using h(2) mem by blast
  with assms(1) obtain x due where due: "(x, due) \<in> set (timeouts s)" "due \<le> startTime (store s h)"
    unfolding timers_armed_def by fastforce
  have "\<forall>j\<in>set (timerQ ?s). due \<le> startTime (store ?s j)"
    using first_timer [OF assms(3) h(1)] due(2) same [OF hs] by fastforce
  moreover have "(x, due) \<in> set (timeouts ?s)" using due(1) s1 by simp
  ultimately show ?thesis unfolding timers_armed_def by blast
qed


lemma sched_inv_schedule:
  assumes "sched_inv s"
  shows "sched_inv (schedule_callback r i delay s)"
proof -
  define a where "a = scheduled_start delay s"
  define n where "n = taskId s"
  define s1 where "s1 = new_task r i a s"
  have q: "queue_wf s" and h: "host_wf s" using assms by (simp_all add: sched_inv_def)
  note new = queue_wf_new_task [OF q]
  have s1: "queue_wf s1" "n \<notin> set (taskQ s1)" "n \<notin> set (timerQ s1)" "n < taskId s1"
    "startTime (store s1 n) = a" "expirationTime (store s1 n) = a + priority_timeout r" "host_base s1" "clock s1 = clock s"
    using new h by (simp_all add: s1_def n_def host_wf_def)
  show ?thesis
  proof (cases "clock s < a")
    case True
    define s2 where "s2 = push_timer n a s1"
    have q2: "queue_wf s2" unfolding s2_def by (rule queue_wf_push_timer) (use s1 in simp_all)
    have b2: "host_base s2" using s1 by (simp add: s2_def)
    have c2: "clock s2 = clock s" "startTime (store s2 n) = a" using s1 by (simp_all add: s2_def)
    show ?thesis
    proof (cases "taskQ s2 = [] \<and> heap_peek (timerQ s2) = Some n")
      case first: True
      define s3 where "s3 = (if hostTimeout s2 then cancel_host_timeout s2 else s2\<lparr>hostTimeout := True\<rparr>)"
      have s3: "queue_wf s3" "host_base s3" "taskQ s3 = []" "heap_peek (timerQ s3) = Some n"
        "clock s3 = clock s" "startTime (store s3 n) = a"
        using q2 b2 c2 first by (cases "hostTimeout s2"; simp add: s3_def)+
      have "taskQ s1 = []" using first by (simp add: s2_def)
      with True first have "schedule_callback r i delay s = request_host_timeout (a - clock s) s3"
        by (simp add: schedule_callback_eq a_def [symmetric] n_def [symmetric]
            s1_def [symmetric] s2_def [symmetric] s3_def [symmetric])
      moreover have "host_wf (request_host_timeout (a - clock s) s3)"
        by (rule host_wf_arm [OF s3(1,2) _ s3(4)]) (use s3 in simp_all)
      ultimately show ?thesis using s3(1) by (simp add: sched_inv_def)
    next
      case False
      have "taskQ s2 = taskQ s1" by (simp add: s2_def)
      with True False have "schedule_callback r i delay s = s2"
        by (auto simp add: schedule_callback_eq a_def [symmetric] n_def [symmetric]
            s1_def [symmetric] s2_def [symmetric])
      moreover have "host_wf s2"
      proof (cases "loopRunning s")
        case True
        then show ?thesis using b2 by (simp add: host_wf_def s2_def s1_def)
      next
        case no: False
        then have t: "taskQ s = []" "timers_armed s" using h by (simp_all add: host_wf_def)
        have "taskQ s2 = []" using t by (simp add: s2_def s1_def)
        then have "heap_peek (timerQ s2) \<noteq> Some n" using False by simp
        then have "timers_armed s2"
          unfolding s2_def using host_wf_timer_behind [OF t(2) _ _ _ s1_def n_def] s1(3) q2
          by (simp add: s2_def s1_def)
        then show ?thesis using b2 \<open>taskQ s2 = []\<close> by (simp add: host_wf_def)
      qed
      ultimately show ?thesis using q2 by (simp add: sched_inv_def)
    qed
  next
    case False
    define s2 where "s2 = push_task n (a + priority_timeout r) s1"
    have q2: "queue_wf s2" unfolding s2_def by (rule queue_wf_push_task) (use s1 in simp_all)
    have b2: "host_base s2" using s1 by (simp add: s2_def)
    have fl: "hostScheduled s2 = hostScheduled s1" "performing s2 = performing s1" by (simp_all add: s2_def)
    show ?thesis
    proof (cases "hostScheduled s2 \<or> performing s2")
      case True
      then have "loopRunning s2" using b2 by (auto simp: host_base_def split: if_splits)
      then have "host_wf s2" using b2 by (simp add: host_wf_def)
      moreover have "schedule_callback r i delay s = s2"
        using True False fl by (auto simp: schedule_callback_eq a_def [symmetric] n_def [symmetric]
            s1_def [symmetric] s2_def [symmetric])
      ultimately show ?thesis using q2 by (simp add: sched_inv_def)
    next
      case no: False
      then have "schedule_callback r i delay s = request_host_callback (s2\<lparr>hostScheduled := True\<rparr>)"
        using False fl by (auto simp: schedule_callback_eq a_def [symmetric] n_def [symmetric]
            s1_def [symmetric] s2_def [symmetric])
      moreover have "queue_wf (s2\<lparr>hostScheduled := True\<rparr>)" using q2 by (simp add: queue_wf_def)
      moreover have "host_wf (request_host_callback (s2\<lparr>hostScheduled := True\<rparr>))"
        using host_wf_callback [OF b2] no by simp
      ultimately show ?thesis by (simp add: sched_inv_def)
    qed
  qed
qed

text \<open>The state but for what the invariant does not speak of.\<close>

lemma sched_inv_cong:
  assumes "store s' = store s" "taskQ s' = taskQ s" "timerQ s' = timerQ s" "taskId s' = taskId s"
    "performing s' = performing s" "posted s' = posted s" "loopRunning s' = loopRunning s"
    "hostScheduled s' = hostScheduled s" "timeouts s' = timeouts s"
  shows "sched_inv s' = sched_inv s"
  using assms by (simp add: sched_inv_def host_wf_def host_base_def timers_armed_def queue_wf_def)

lemma sched_inv_fields [simp]:
  "sched_inv (s\<lparr>currentPriority := p\<rparr>) = sched_inv s" "sched_inv (s\<lparr>frameInterval := w\<rparr>) = sched_inv s"
  "sched_inv (s\<lparr>needsPaint := b\<rparr>) = sched_inv s" "sched_inv (s\<lparr>clock := t\<rparr>) = sched_inv s"
  "sched_inv (peek_current s) = sched_inv s"
  by (rule sched_inv_cong; simp add: peek_current_def)+

lemma put_callback_fields [simp]:
  "taskQ (put_callback i g s) = taskQ s" "timerQ (put_callback i g s) = timerQ s"
  "timeouts (put_callback i g s) = timeouts s" "loopRunning (put_callback i g s) = loopRunning s"
  "performing (put_callback i g s) = performing s" "host_base (put_callback i g s) = host_base s"
  "startTime (store (put_callback i g s) j) = startTime (store s j)"
  "expirationTime (store (put_callback i g s) j) = expirationTime (store s j)"
  by (simp_all add: put_callback_def host_base_def)

lemma sched_inv_put_callback: "sched_inv s \<Longrightarrow> sched_inv (put_callback i g s)"
  using queue_wf_put_callback [of s i g] by (simp add: sched_inv_def host_wf_def timers_armed_def)

lemma performing_schedule [simp]: "performing (schedule_callback r i delay s) = performing s"
  by (simp add: schedule_callback_eq Let_def)

lemma api_keeps:
  shows "performing (apply_api a s) = performing s \<and> (sched_inv s \<longrightarrow> sched_inv (apply_api a s))"
    and "performing (apply_apis as s) = performing s \<and> (sched_inv s \<longrightarrow> sched_inv (apply_apis as s))"
proof (induction a s and as s rule: apply_api_apply_apis.induct)
  case (1 r i delay s)
  then show ?case by (simp add: sched_inv_schedule)
next
  case (2 i s)
  then show ?case by (simp add: cancel_is_put_callback sched_inv_put_callback)
next
  case (3 e s)
  then show ?case by (simp add: force_frame_rate_def)
next
  case (4 s)
  then show ?case by (simp add: request_paint_def)
next
  case (5 d s)
  then show ?case by simp
next
  case (6 e fs s)
  then show ?case by simp
next
  case (7 fs s)
  then show ?case by simp
next
  case (8 t fs s)
  then show ?case by simp
qed simp_all

lemmas performing_api [simp] = api_keeps(1) [THEN conjunct1] api_keeps(2) [THEN conjunct1]
lemmas sched_inv_api = api_keeps(1) [THEN conjunct2, rule_format]
lemmas sched_inv_apis = api_keeps(2) [THEN conjunct2, rule_format]


subsection \<open>The work loop\<close>

definition in_loop :: "real \<Rightarrow> 'f sched \<Rightarrow> bool" where
  "in_loop t s \<longleftrightarrow> sched_inv s \<and> performing s \<and> t = clock s \<and> currentTask s = heap_peek (taskQ s)"

lemma sched_inv_performing:
  "performing s \<Longrightarrow> sched_inv s \<longleftrightarrow> queue_wf s \<and> posted s = 0 \<and> loopRunning s \<and> \<not> hostScheduled s"
  by (auto simp: sched_inv_def host_wf_def host_base_def)

lemma sched_inv_same_host:
  assumes "same_host s s'" "performing s" "sched_inv s" "queue_wf s'"
  shows "sched_inv s'"
  using assms by (simp add: sched_inv_performing same_hostD)

lemma in_loop_next:
  assumes "sched_inv s" "performing s" "same_host s s'" "queue_wf s'"
  shows "in_loop (clock s) (peek_current s')"
proof -
  have "sched_inv s'" by (rule sched_inv_same_host [OF assms(3,2,1,4)])
  then have "sched_inv (peek_current s')" by simp
  moreover have "performing (peek_current s')" "clock (peek_current s') = clock s"
    using assms(2,3) by (simp_all add: peek_current_def same_hostD)
  ultimately show ?thesis by (simp add: in_loop_def) (simp add: peek_current_def)
qed

lemma work_loop_inv:
  "work_loop user k t s = Some (s', x) \<Longrightarrow> in_loop t s \<Longrightarrow>
    sched_inv s' \<and> performing s' \<and> (x = Idle \<longrightarrow> taskQ s' = [] \<and> timers_armed s')"
proof (induction k arbitrary: t s)
  case (Suc k)
  have inv: "sched_inv s" "performing s" "t = clock s" "currentTask s = heap_peek (taskQ s)"
    using Suc.prems(2) by (simp_all add: in_loop_def)
  then have q: "queue_wf s" by (simp add: sched_inv_def)
  show ?case
  proof (cases "currentTask s")
    case None
    then have t: "taskQ s = []" using inv(4) by simp
    show ?thesis
    proof (cases "heap_peek (timerQ s)")
      case None
      then have "s' = s" "timerQ s = []" using Suc.prems(1) \<open>currentTask s = None\<close> by auto
      then show ?thesis using inv t by (simp add: timers_armed_def)
    next
      case (Some u)
      then have s': "s' = request_host_timeout (startTime (store s u) - clock s) s"
        using Suc.prems(1) \<open>currentTask s = None\<close> inv(3) by auto
      have "host_wf s'" unfolding s'
        by (rule host_wf_arm [OF q _ _ Some refl]) (use inv t in \<open>simp_all add: sched_inv_def host_wf_def\<close>)
      moreover have "timers_armed s'" unfolding s' by (rule armed_for_first [OF q Some refl])
      ultimately show ?thesis using inv q t by (simp add: s' sched_inv_def)
    qed
  next
    case (Some i)
    show ?thesis
    proof (cases "expirationTime (store s i) > t \<and> should_yield s")
      case True
      then show ?thesis using Suc.prems(1) Some inv by simp
    next
      case False
      show ?thesis
      proof (cases "\<exists>g. task_callback (store s i) = Callable g")
        case no: False
        then have "work_loop user k t (peek_current (pop_task s)) = Some (s', x)"
          using Suc.prems(1) Some False by (cases "task_callback (store s i)") (simp_all split: if_splits)
        moreover have "in_loop t (peek_current (pop_task s))"
          unfolding inv(3) by (rule in_loop_next [OF inv(1,2) same_host_queues(2) queue_wf_pop_task [OF q]])
        ultimately show ?thesis by (rule Suc.IH)
      next
        case True
        then obtain g where g: "task_callback (store s i) = Callable g" by blast
        define s1 where "s1 = (put_callback i Null s)\<lparr>currentPriority := priorityLevel (store s i)\<rparr>"
        obtain calls out where r: "user g (expirationTime (store s i) \<le> t) s1 = (calls, out)" by fastforce
        define s2 where "s2 = apply_apis calls s1"
        have "sched_inv s1" "performing s1"
          using sched_inv_put_callback [OF inv(1)] inv(2) by (simp_all add: s1_def)
        then have s2: "sched_inv s2" "performing s2" by (simp_all add: s2_def sched_inv_apis)
        then have q2: "queue_wf s2" by (simp add: sched_inv_def)
        note run = Suc.prems(1) [unfolded work_loop.simps] Some False g r s1_def [symmetric] s2_def [symmetric]
        show ?thesis
        proof (cases out)
          case Threw
          then have "s' = s2" "x = Raised" using run by (auto simp: Let_def)
          then show ?thesis using s2 by simp
        next
          case (Continues g')
          let ?s = "put_callback i (Callable g') s2"
          have s': "s' = advance_timers (clock s2) ?s" "x = More" using run Continues by (auto simp: Let_def)
          have "sched_inv ?s" "performing ?s" using s2 by (simp_all add: sched_inv_put_callback)
          moreover have "queue_wf s'" unfolding s' by (rule queue_wf_advance [OF queue_wf_put_callback [OF q2]])
          ultimately have "sched_inv s'"
            unfolding s' using sched_inv_same_host [OF same_host_advance] by blast
          then show ?thesis using s2(2) same_hostD(1) [OF same_host_advance, of "clock s2" ?s] by (simp add: s')
        next
          case Finished
          define s3 where "s3 = (if heap_peek (taskQ s2) = Some i then pop_task s2 else s2)"
          have "work_loop user k (clock s2) (peek_current (advance_timers (clock s2) s3)) = Some (s', x)"
            using run Finished by (auto simp: Let_def s3_def split: if_splits)
          moreover have "same_host s2 s3" "queue_wf s3"
            by (simp_all add: s3_def same_host_queues same_host_refl queue_wf_pop_task [OF q2] q2)
          then have "in_loop (clock s2) (peek_current (advance_timers (clock s2) s3))"
            by (intro in_loop_next s2 queue_wf_advance same_host_trans [OF _ same_host_advance])
          ultimately show ?thesis by (rule Suc.IH)
        qed
      qed
    qed
  qed
qed simp

lemma start_work_inv:
  assumes "queue_wf s" "loopRunning s" "posted s = 0"
  shows "in_loop (clock s) (start_work s)"
proof -
  define s1 where "s1 = s\<lparr>startedAt := clock s, hostScheduled := False\<rparr>"
  define s2 where "s2 = (if hostTimeout s1 then cancel_host_timeout (s1\<lparr>hostTimeout := False\<rparr>) else s1)"
  have "queue_wf s2" using assms(1) by (auto simp: s2_def s1_def queue_wf_def)
  then have q: "queue_wf (s2\<lparr>performing := True\<rparr>)" by (simp add: queue_wf_def)
  have "sched_inv (s2\<lparr>performing := True\<rparr>)"
    using q assms(2,3) by (simp add: sched_inv_performing s2_def s1_def cancel_host_timeout_def)
  moreover have "clock s2 = clock s" by (simp add: s2_def s1_def)
  ultimately have "in_loop (clock s) (peek_current (advance_timers (clock s) (s2\<lparr>performing := True\<rparr>)))"
    using in_loop_next [OF _ _ same_host_advance queue_wf_advance [OF q]] by fastforce
  then show ?thesis by (simp add: start_work_def s1_def [symmetric] s2_def [symmetric])
qed

lemma perform_work_inv:
  assumes "perform_work user k s = Some s'" "queue_wf s" "loopRunning s" "posted s = 0"
  shows "sched_inv s'"
proof -
  let ?s = "s\<lparr>needsPaint := False\<rparr>"
  obtain s1 x where w: "work_loop user k (clock ?s) (start_work ?s) = Some (s1, x)"
    and s': "s' = end_work (currentPriority s) x s1"
    using assms(1,3) by (auto simp: perform_work_def Let_def split: option.splits)
  have "queue_wf ?s" using assms(2) by (simp add: queue_wf_def)
  from work_loop_inv [OF w start_work_inv [OF this]] assms(3,4)
  have s1: "queue_wf s1" "host_base s1" "performing s1" "x = Idle \<longrightarrow> taskQ s1 = [] \<and> timers_armed s1"
    by (auto simp: sched_inv_def host_wf_def)
  have "host_wf s'"
    using s1 by (auto simp: s' host_wf_def host_base_def end_work_def Let_def post_message_def timers_armed_def)
  then show ?thesis using s1 by (simp add: s' sched_inv_def)
qed

end
