(* ===== verification/Scheduler_Properties.thy ===== *)
theory Scheduler_Properties
  imports Scheduler_Invariants
begin

text \<open>
  What the scheduler promises: its heaps are priority queues, a task never waits without a wake-up
  on its way, tasks are ordered by expiration and then by arrival, a callback that throws is not run
  again, and a slice of work ends.
\<close>

subsection \<open>The heap is a sorted queue\<close>

definition queue_of :: "(nat \<Rightarrow> 'f task) \<Rightarrow> nat list \<Rightarrow> nat list" where
  "queue_of st e = sort_key (task_key st) e"

lemma task_key_inj: "inj_on (task_key st) A"
  by (rule inj_onI) (simp add: task_key_def)

lemma queue_of_eqI: "mset e = mset q \<Longrightarrow> sorted (map (task_key st) q) \<Longrightarrow> queue_of st e = q"
  unfolding queue_of_def by (rule sort_key_inj_key_eq) (auto intro: task_key_inj)

lemma mset_queue_of [simp]: "mset (queue_of st e) = mset e"
  by (simp add: queue_of_def)

lemma set_queue_of [simp]: "set (queue_of st e) = set e"
  by (simp add: queue_of_def)

lemma queue_of_push: "queue_of st (heap_push cmp e t) = insort_key (task_key st) t (queue_of st e)"
  by (rule queue_of_eqI) (simp_all add: mset_heap_push queue_of_def sorted_insort_key)

lemma queue_of_nonempty:
  assumes "task_heap st e" "e \<noteq> []"
  shows "queue_of st e = e ! 0 # queue_of st (tl e)"
proof (rule queue_of_eqI)
  obtain x xs where e: "e = x # xs" using assms(2) by (cases e) auto
  show "mset e = mset (e ! 0 # queue_of st (tl e))" by (simp add: e)
  have "task_key st x \<le> task_key st y" if "y \<in> set xs" for y
    using tasks.heap_peek_least [OF assms(1), of x y] that by (simp add: e heap_peek_def)
  then show "sorted (map (task_key st) (e ! 0 # queue_of st (tl e)))"
    by (simp add: e queue_of_def)
qed

lemma queue_of_pop:
  assumes "task_heap st e" "distinct e"
  shows "queue_of st (heap_pop cmp e) = tl (queue_of st e)"
proof (cases "e = []")
  case True
  then show ?thesis by (simp add: heap_pop_def queue_of_def)
next
  case False
  have "queue_of st (heap_pop cmp e) = queue_of st (tl e)"
    by (rule queue_of_eqI) (simp_all add: mset_heap_pop_rest [OF assms(2) False] queue_of_def)
  then show ?thesis using queue_of_nonempty [OF assms(1) False] by simp
qed

text \<open>C32: The scheduler's binary heap implements a queue sorted by sort index and then id: push
  inserts into it in order, peek shows its first task, pop removes that one, and all three keep
  the heap order, for every heap of distinct tasks.\<close>

theorem heap_refines_sorted_queue:
  assumes "task_heap st e" "distinct e"
  shows "queue_of st (heap_push (compare_tasks st) e t) = insort_key (task_key st) t (queue_of st e) \<and>
    heap_peek e = (case queue_of st e of [] \<Rightarrow> None | x # _ \<Rightarrow> Some x) \<and>
    queue_of st (heap_pop (compare_tasks st) e) = tl (queue_of st e) \<and>
    task_heap st (heap_push (compare_tasks st) e t) \<and>
    task_heap st (heap_pop (compare_tasks st) e)"
proof (intro conjI)
  show "queue_of st (heap_push (compare_tasks st) e t) = insort_key (task_key st) t (queue_of st e)"
    by (rule queue_of_push)
  show "heap_peek e = (case queue_of st e of [] \<Rightarrow> None | x # _ \<Rightarrow> Some x)"
    using queue_of_nonempty [OF assms(1)] by (cases "e = []") (simp_all add: heap_peek_def queue_of_def)
  show "queue_of st (heap_pop (compare_tasks st) e) = tl (queue_of st e)"
    by (rule queue_of_pop [OF assms])
  show "task_heap st (heap_push (compare_tasks st) e t)" by (rule tasks.heap_push_heap [OF assms(1)])
  show "task_heap st (heap_pop (compare_tasks st) e)" by (rule tasks.heap_pop_heap [OF assms])
qed

text \<open>Two tasks, and a third that goes between them.\<close>

theorem heap_refines_sorted_queue_witness:
  "let st = (\<lambda>i :: nat. (blank_task :: nat task)\<lparr>sortIndex := real (i mod 2)\<rparr>)
   in queue_of st (heap_push (compare_tasks st) [2, 1] 4) = [2, 4, 1]"
proof -
  let ?st = "\<lambda>i :: nat. (blank_task :: nat task)\<lparr>sortIndex := real (i mod 2)\<rparr>"
  have "task_heap ?st [2, 1]"
    unfolding tasks.heap_def by (auto simp: task_key_def less_Suc_eq)
  from heap_refines_sorted_queue [OF this, of 4] show ?thesis
    by (simp add: queue_of_def task_key_def)
qed

subsection \<open>Reachable states\<close>

lemma handle_timeout_inv:
  assumes "queue_wf s" "host_base s" "\<not> performing s" "loopRunning s \<or> taskQ s = []"
  shows "sched_inv (handle_timeout (clock s) s) \<and> \<not> performing (handle_timeout (clock s) s)"
proof -
  define s1 where "s1 = advance_timers (clock s) (s\<lparr>hostTimeout := False\<rparr>)"
  note same = same_hostD [OF same_host_advance [of "s\<lparr>hostTimeout := False\<rparr>" "clock s"], folded s1_def]
  have q: "queue_wf s1" unfolding s1_def by (rule queue_wf_advance) (use assms in simp)
  have b: "host_base s1" using assms(2,3) same by (simp add: host_base_def)
  have np: "\<not> performing s1" "clock s1 = clock s" "loopRunning s1 = loopRunning s" using assms(3) same by simp_all
  have eq: "handle_timeout (clock s) s =
      (if hostScheduled s1 then s1
       else if taskQ s1 \<noteq> [] then request_host_callback (s1\<lparr>hostScheduled := True\<rparr>)
       else (case heap_peek (timerQ s1) of
               None \<Rightarrow> s1 | Some i \<Rightarrow> request_host_timeout (startTime (store s1 i) - clock s) s1))"
    unfolding handle_timeout_def s1_def [symmetric] Let_def by simp
  consider "hostScheduled s1" | "\<not> hostScheduled s1" "taskQ s1 \<noteq> []"
    | "\<not> hostScheduled s1" "taskQ s1 = []" "timerQ s1 = []"
    | i where "\<not> hostScheduled s1" "taskQ s1 = []" "heap_peek (timerQ s1) = Some i"
    by (cases "heap_peek (timerQ s1)") auto
  then show ?thesis
  proof cases
    case 1
    then have "loopRunning s1" using b np(1) by (simp add: host_base_def)
    then show ?thesis using 1 q b np by (simp add: eq sched_inv_def host_wf_def)
  next
    case 2
    then have "handle_timeout (clock s) s = request_host_callback (s1\<lparr>hostScheduled := True\<rparr>)" by (simp add: eq)
    moreover have "queue_wf (s1\<lparr>hostScheduled := True\<rparr>)" using q by (simp add: queue_wf_def)
    ultimately show ?thesis using host_wf_callback [OF b np(1)] np(1) by (simp add: sched_inv_def)
  next
    case 3
    then show ?thesis using q b np by (simp add: eq sched_inv_def host_wf_def timers_armed_def)
  next
    case 4
    then have "handle_timeout (clock s) s = request_host_timeout (startTime (store s1 i) - clock s) s1"
      by (simp add: eq)
    moreover have "host_wf (request_host_timeout (startTime (store s1 i) - clock s) s1)"
      by (rule host_wf_arm [OF q b _ 4(3)]) (use 4 np in simp_all)
    ultimately show ?thesis using q np by (simp add: sched_inv_def)
  qed
qed

lemma perform_work_not_performing:
  "perform_work user k s = Some s' \<Longrightarrow> loopRunning s \<Longrightarrow> \<not> performing s'"
  by (auto simp: perform_work_def Let_def end_work_def post_message_def split: option.splits if_splits)

lemma sched_inv_reachable: "sched_reachable user s \<Longrightarrow> sched_inv s \<and> \<not> performing s"
proof (induction rule: sched_reachable.induct)
  case (start now)
  show ?case
    by (simp add: init_sched_def sched_inv_def queue_wf_def host_wf_def host_base_def timers_armed_def
        heap_order.heap_def [OF tasks.heap_order_axioms])
next
  case (step s s')
  from step.hyps(2) show ?case
  proof cases
    case (application a)
    then show ?thesis using step.IH by (simp add: sched_inv_api)
  next
    case (message k)
    have s: "queue_wf s" "loopRunning s" "posted s = 1"
      using step.IH message(1) by (auto simp: sched_inv_def host_wf_def host_base_def)
    then have "queue_wf (s\<lparr>posted := posted s - 1\<rparr>)" by (simp add: queue_wf_def)
    then have "sched_inv s'" by (rule perform_work_inv [OF message(2)]) (use s in simp_all)
    moreover have "\<not> performing s'" by (rule perform_work_not_performing [OF message(2)]) (use s in simp)
    ultimately show ?thesis ..
  next
    case (timeout handle due)
    let ?s = "s\<lparr>timeouts := filter (\<lambda>(h, _). h \<noteq> handle) (timeouts s)\<rparr>"
    have "queue_wf ?s" "host_base ?s" "\<not> performing ?s" "loopRunning ?s \<or> taskQ ?s = []"
      using step.IH by (auto simp: sched_inv_def host_wf_def queue_wf_def host_base_def)
    from handle_timeout_inv [OF this] show ?thesis using timeout by simp
  qed
qed

text \<open>C34: No task is stranded. In every state the page's event loop reaches, whatever the
  application calls and however its callbacks end: while a task waits in the task queue, exactly one
  message to run it is posted; while only delayed tasks wait, a timeout is armed that is due no later
  than the start of every one of them.\<close>

theorem no_task_stranded:
  assumes "sched_reachable user s"
  shows "(taskQ s \<noteq> [] \<longrightarrow> posted s = 1) \<and>
    (timerQ s \<noteq> [] \<longrightarrow> posted s = 1 \<or>
      (\<exists>(handle, due)\<in>set (timeouts s). \<forall>i\<in>set (timerQ s). due \<le> startTime (store s i)))"
  using sched_inv_reachable [OF assms]
  by (auto simp: sched_inv_def host_wf_def host_base_def timers_armed_def)


text \<open>The premise holds of the state after one call that asks for a task at once.\<close>

theorem no_task_stranded_witness:
  "posted (apply_api (Schedule_callback 3 (Callable (0 :: nat)) None) (init_sched 0)) = 1"
proof -
  let ?s = "apply_api (Schedule_callback 3 (Callable (0 :: nat)) None) (init_sched 0)"
  have "sched_reachable (\<lambda>_ _ _. ([], Finished)) ?s"
    by (rule sched_reachable.step [OF sched_reachable.start sched_step.application])
  moreover have "taskQ ?s \<noteq> []"
    by (simp add: init_sched_def schedule_callback_def push_task_def Let_def priority_timeout_def
        heap_push_def sift_up.simps request_host_callback_def post_message_def)
  ultimately show ?thesis using no_task_stranded by blast
qed

text \<open>C33: The scheduler's state is well formed in every reachable state: both queues are heaps of
  distinct tasks the scheduler has created, no task is in both, the delayed tasks are ordered by their
  start and the others by their expiration, and no task is being performed between two steps.\<close>

theorem scheduler_well_formed:
  assumes "sched_reachable user s"
  shows "task_heap (store s) (taskQ s) \<and> task_heap (store s) (timerQ s) \<and>
    distinct (taskQ s @ timerQ s) \<and> (\<forall>i\<in>set (taskQ s @ timerQ s). i < taskId s) \<and>
    (\<forall>i\<in>set (timerQ s). sortIndex (store s i) = startTime (store s i)) \<and>
    (\<forall>i\<in>set (taskQ s). sortIndex (store s i) = expirationTime (store s i)) \<and> \<not> performing s"
  using sched_inv_reachable [OF assms] by (auto simp: sched_inv_def queue_wf_def)

text \<open>Two delayed tasks in the order of their start, whatever order they came in.\<close>

theorem scheduler_well_formed_witness:
  "task_heap (store (apply_api (Schedule_callback 3 (Callable (1 :: nat)) (Some 10))
      (apply_api (Schedule_callback 3 (Callable 0) (Some 20)) (init_sched 0))))
     (timerQ (apply_api (Schedule_callback 3 (Callable (1 :: nat)) (Some 10))
      (apply_api (Schedule_callback 3 (Callable 0) (Some 20)) (init_sched 0))))"
proof -
  have "sched_reachable (\<lambda>_ _ _. ([], Finished)) (apply_api (Schedule_callback 3 (Callable (1 :: nat)) (Some 10))
      (apply_api (Schedule_callback 3 (Callable 0) (Some 20)) (init_sched 0)))"
    by (rule sched_reachable.step [OF sched_reachable.step [OF sched_reachable.start sched_step.application]
          sched_step.application])
  then show ?thesis by (rule scheduler_well_formed [THEN conjunct2, THEN conjunct1])
qed

subsection \<open>Order of the tasks\<close>

lemma queue_of_cong:
  assumes "\<And>i. i \<in> set e \<Longrightarrow> sortIndex (st i) = sortIndex (st' i)"
  shows "queue_of st e = queue_of st' e"
proof (rule queue_of_eqI)
  have "map (task_key st) (queue_of st' e) = map (task_key st') (queue_of st' e)"
    by (rule map_cong) (simp_all add: task_key_def assms)
  moreover have "sorted (map (task_key st') (queue_of st' e))" by (simp add: queue_of_def)
  ultimately show "sorted (map (task_key st) (queue_of st' e))" by (simp only:)
qed simp

lemma sorted_split:
  fixes n :: nat
  assumes "sorted (map (task_key st) q)" "sortIndex (st n) = x" "\<forall>i\<in>set q. i < n"
  shows "sorted (map (task_key st) (filter (\<lambda>i. sortIndex (st i) \<le> x) q @ n # filter (\<lambda>i. x < sortIndex (st i)) q))"
  using assms sorted_filter [OF assms(1)]
  by (fastforce simp: sorted_append task_key_def less_eq_prod_def)

text \<open>A callback scheduled without delay gets its place by expiration time: behind every queued
  task that expires no later, equal ones included (first come, first served), and before every one
  that expires later. Its expiration time is now plus the timeout of its priority.\<close>

theorem schedule_position:
  fixes r :: int and g :: "'f callback"
  assumes "sched_reachable user s"
  defines "x \<equiv> clock s + priority_timeout r" and "s' \<equiv> schedule_callback r g None s"
  shows "queue_of (store s') (taskQ s') =
           filter (\<lambda>i. expirationTime (store s i) \<le> x) (queue_of (store s) (taskQ s)) @ taskId s #
           filter (\<lambda>i. x < expirationTime (store s i)) (queue_of (store s) (taskQ s)) \<and>
    task_callback (store s' (taskId s)) = g \<and> expirationTime (store s' (taskId s)) = x"
proof (intro conjI)
  define n where "n = taskId s"
  have q: "queue_wf s" using sched_inv_reachable [OF assms(1)] by (simp add: sched_inv_def)
  note new = queue_wf_new_task [OF q, folded n_def]
  define s2 where "s2 = push_task n x (new_task r g (clock s) s)"
  have s2: "store s' = store s2" "taskQ s' = taskQ s2"
    by (simp_all add: s'_def schedule_callback_eq scheduled_start_def s2_def n_def x_def Let_def)
  have st: "store s2 n = \<lparr>task_callback = g, priorityLevel = r, startTime = clock s, expirationTime = x, sortIndex = x\<rparr>"
    by (simp add: s2_def push_task_def new_task_def n_def x_def Let_def)
  have other: "store s2 i = store s i" if "i \<noteq> n" for i
    using that by (simp add: s2_def push_task_def new_task_def n_def Let_def)
  have exp: "sortIndex (store s i) = expirationTime (store s i)" if "i \<in> set (taskQ s)" for i
    using q that by (simp add: queue_wf_def)
  show "task_callback (store s' (taskId s)) = g" "expirationTime (store s' (taskId s)) = x"
    using st by (simp_all add: s2 n_def)
  let ?q = "queue_of (store s2) (taskQ s)"
  have old: "?q = queue_of (store s) (taskQ s)"
    by (rule queue_of_cong) (use new(2) other in metis)
  have lt: "\<forall>i\<in>set ?q. i < n" using q by (auto simp: queue_wf_def n_def)
  have eq: "filter (\<lambda>i. sortIndex (store s2 i) \<le> x) ?q = filter (\<lambda>i. sortIndex (store s i) \<le> x) ?q"
    "filter (\<lambda>i. x < sortIndex (store s2 i)) ?q = filter (\<lambda>i. x < sortIndex (store s i)) ?q"
    by (rule filter_cong [OF refl]; use lt other in force)+
  have "taskQ s2 = heap_push (compare_tasks (store s2)) (taskQ s) n"
    by (simp add: s2_def push_task_def Let_def)
  moreover have "queue_of (store s2) (heap_push (compare_tasks (store s2)) (taskQ s) n) =
      filter (\<lambda>i. sortIndex (store s2 i) \<le> x) ?q @ n # filter (\<lambda>i. x < sortIndex (store s2 i)) ?q"
  proof (rule queue_of_eqI)
    have "mset (filter (\<lambda>i. sortIndex (store s2 i) \<le> x) ?q) + mset (filter (\<lambda>i. x < sortIndex (store s2 i)) ?q) = mset ?q"
      by (metis (mono_tags, lifting) filter_cong linorder_not_le mset_filter multiset_partition)
    then show "mset (heap_push (compare_tasks (store s2)) (taskQ s) n) =
        mset (filter (\<lambda>i. sortIndex (store s2 i) \<le> x) ?q @ n # filter (\<lambda>i. x < sortIndex (store s2 i)) ?q)"
      by (simp add: mset_heap_push)
    show "sorted (map (task_key (store s2))
        (filter (\<lambda>i. sortIndex (store s2 i) \<le> x) ?q @ n # filter (\<lambda>i. x < sortIndex (store s2 i)) ?q))"
      by (rule sorted_split) (use st lt in \<open>simp_all add: queue_of_def\<close>)
  qed
  moreover have "filter (\<lambda>i. sortIndex (store s i) \<le> x) ?q = filter (\<lambda>i. expirationTime (store s i) \<le> x) ?q"
    "filter (\<lambda>i. x < sortIndex (store s i)) ?q = filter (\<lambda>i. x < expirationTime (store s i)) ?q"
    by (rule filter_cong [OF refl]; use exp in simp)+
  ultimately show "queue_of (store s') (taskQ s') =
           filter (\<lambda>i. expirationTime (store s i) \<le> x) (queue_of (store s) (taskQ s)) @ taskId s #
           filter (\<lambda>i. x < expirationTime (store s i)) (queue_of (store s) (taskQ s))"
    using eq old by (simp add: s2 n_def)
qed


text \<open>A user-blocking callback asked for after a normal one goes before it.\<close>

theorem schedule_position_witness:
  "queue_of (store (schedule_callback 2 (Callable (1 :: nat)) None (apply_api (Schedule_callback 3 (Callable 0) None) (init_sched 0))))
     (taskQ (schedule_callback 2 (Callable (1 :: nat)) None (apply_api (Schedule_callback 3 (Callable 0) None) (init_sched 0)))) =
   [2, 1]"
proof -
  let ?s = "apply_api (Schedule_callback 3 (Callable (0 :: nat)) None) (init_sched 0)"
  have r: "sched_reachable (\<lambda>_ _ _. ([], Finished)) ?s"
    by (rule sched_reachable.step [OF sched_reachable.start sched_step.application])
  have s: "taskQ ?s = [1]" "taskId ?s = 2" "expirationTime (store ?s (Suc 0)) = 5000" "clock ?s = 0"
    by (simp_all add: init_sched_def schedule_callback_def push_task_def Let_def priority_timeout_def
        heap_push_def sift_up.simps request_host_callback_def post_message_def)
  show ?thesis
    using schedule_position [OF r, where r = 2 and g = "Callable 1"]
    by (simp add: s queue_of_def priority_timeout_def del: apply_api.simps)
qed

subsection \<open>A slice of work ends\<close>

fun quiet_api :: "'f api \<Rightarrow> bool" where
  "quiet_api (Schedule_callback _ _ _) = False"
| "quiet_api (Run_with_priority _ fs) = (\<forall>f\<in>set fs. quiet_api f)"
| "quiet_api (Run_next fs) = (\<forall>f\<in>set fs. quiet_api f)"
| "quiet_api (Run_wrapped _ fs) = (\<forall>f\<in>set fs. quiet_api f)"
| "quiet_api _ = True"

lemma quiet_keeps_queues:
  shows "quiet_api a \<Longrightarrow> taskQ (apply_api a s) = taskQ s \<and> timerQ (apply_api a s) = timerQ s"
    and "\<forall>a\<in>set as. quiet_api a \<Longrightarrow> taskQ (apply_apis as s) = taskQ s \<and> timerQ (apply_apis as s) = timerQ s"
  by (induction a s and as s rule: apply_api_apply_apis.induct)
    (simp_all add: cancel_callback_def force_frame_rate_def request_paint_def)

definition waiting :: "'f sched \<Rightarrow> nat" where
  "waiting s = length (taskQ s) + length (timerQ s)"

lemma length_heap_push [simp]: "length (heap_push cmp e t) = length e + 1"
  by (simp add: heap_push_def)

lemma waiting_advance: "waiting (advance_timers e s) \<le> waiting s"
proof (induction s rule: advance_timers_induct)
  case (step s)
  show ?case
  proof (cases rule: advance_timers_cases [of e s])
    case (drop i)
    have "waiting (pop_timer s) \<le> waiting s" by (simp add: waiting_def pop_timer_def)
    with step.IH [OF peek_pop_shorter [OF drop(1)]] show ?thesis unfolding drop(3) by (rule order_trans)
  next
    case (move i)
    let ?s = "push_task i (expirationTime (store s i)) (pop_timer s)"
    have less: "length (timerQ ?s) < length (timerQ s)" using peek_pop_shorter [OF move(1)] by simp
    then have "waiting ?s \<le> waiting s" by (simp add: waiting_def push_task_def pop_timer_def Let_def)
    with step.IH [OF less] show ?thesis unfolding move(4) by (rule order_trans)
  qed simp
qed

lemma waiting_pop:
  "heap_peek (taskQ s) = Some i \<Longrightarrow> waiting (pop_task s) < waiting s"
  by (cases "taskQ s") (auto simp: waiting_def pop_task_def heap_peek_def)

lemma work_loop_returns:
  assumes quiet: "\<forall>g late s. \<forall>a\<in>set (fst (user g late s)). quiet_api a"
  shows "waiting s < k \<Longrightarrow> currentTask s = heap_peek (taskQ s) \<Longrightarrow> \<exists>r. work_loop user k t s = Some r"
proof (induction k arbitrary: t s)
  case (Suc k)
  show ?case
  proof (cases "currentTask s")
    case None
    then show ?thesis by (simp split: option.split)
  next
    case (Some i)
    then have peek: "heap_peek (taskQ s) = Some i" using Suc.prems(2) by simp
    have next_step: "\<exists>r. work_loop user k t' (peek_current s') = Some r" if "waiting s' < waiting s" for t' s'
      by (rule Suc.IH) (use that Suc.prems(1) in \<open>simp_all add: waiting_def peek_current_def\<close>)
    show ?thesis
    proof (cases "task_callback (store s i)")
      case (Callable g)
      define s1 where "s1 = (put_callback i Null s)\<lparr>currentPriority := priorityLevel (store s i)\<rparr>"
      obtain calls out where r: "user g (expirationTime (store s i) \<le> t) s1 = (calls, out)" by fastforce
      define s2 where "s2 = apply_apis calls s1"
      have "\<forall>a\<in>set calls. quiet_api a" using quiet r by (metis fst_conv)
      then have "taskQ s2 = taskQ s1 \<and> timerQ s2 = timerQ s1" unfolding s2_def by (rule quiet_keeps_queues(2))
      then have same: "taskQ s2 = taskQ s" "timerQ s2 = timerQ s" by (simp_all add: s1_def)
      then have "heap_peek (taskQ s2) = Some i" "waiting s2 = waiting s" using peek by (simp_all add: waiting_def)
      then have "waiting (advance_timers (clock s2) (pop_task s2)) < waiting s"
        using waiting_pop waiting_advance [of "clock s2" "pop_task s2"] by (metis le_less_trans)
      from next_step [OF this] \<open>heap_peek (taskQ s2) = Some i\<close> show ?thesis
        using Some Callable r by (cases out) (simp_all add: s1_def [symmetric] s2_def [symmetric] Let_def)
    qed (use Some next_step [OF waiting_pop [OF peek]] in simp_all)
  qed
qed simp

text \<open>A slice of work ends. When the callbacks it runs schedule nothing new, they may cancel,
  change priorities, ask for a paint, take time, throw or ask to go on, performWorkUntilDeadline
  returns, after no more rounds than there are waiting tasks, plus one.\<close>

theorem perform_work_terminates:
  assumes "\<forall>g late s. \<forall>a\<in>set (fst (user g late s)). quiet_api a"
    and "length (taskQ s) + length (timerQ s) < k"
  shows "\<exists>s'. perform_work user k s = Some s'"
proof -
  let ?s = "s\<lparr>needsPaint := False\<rparr>"
  obtain u where u: "start_work ?s = peek_current (advance_timers (clock s) u)" "taskQ u = taskQ s" "timerQ u = timerQ s"
    by (fastforce simp: start_work_def Let_def)
  have "waiting (advance_timers (clock s) u) \<le> waiting u" by (rule waiting_advance)
  then have "waiting (start_work ?s) < k" using assms(2) u by (simp add: waiting_def peek_current_def)
  moreover have "currentTask (start_work ?s) = heap_peek (taskQ (start_work ?s))" by (simp add: u peek_current_def)
  ultimately obtain r where "work_loop user k (clock ?s) (start_work ?s) = Some r"
    using work_loop_returns [OF assms(1)] by blast
  then show ?thesis by (cases r) (simp add: perform_work_def Let_def)
qed

text \<open>One task whose callback takes a millisecond: fuel two is enough.\<close>

theorem perform_work_terminates_witness:
  "\<exists>s'. perform_work (\<lambda>_ _ _. ([Elapse 1], Finished)) 2
     (schedule_callback 3 (Callable (0 :: nat)) None (init_sched 0)) = Some s'"
  by (rule perform_work_terminates)
    (simp_all add: init_sched_def schedule_callback_def push_task_def Let_def priority_timeout_def
        request_host_callback_def post_message_def)


subsection \<open>Callbacks that throw\<close>

definition dropped :: "nat \<Rightarrow> 'f sched \<Rightarrow> bool" where
  "dropped i s \<longleftrightarrow> task_callback (store s i) = Null \<and> i < taskId s"

lemma dropped_host [simp]:
  "dropped i (request_host_callback s) = dropped i s" "dropped i (request_host_timeout n s) = dropped i s"
  "dropped i (cancel_host_timeout s) = dropped i s" "dropped i (s\<lparr>currentPriority := p\<rparr>) = dropped i s"
  "dropped i (s\<lparr>hostScheduled := b\<rparr>) = dropped i s" "dropped i (s\<lparr>hostTimeout := b\<rparr>) = dropped i s"
  "dropped i (s\<lparr>clock := t\<rparr>) = dropped i s" "dropped i (s\<lparr>needsPaint := b\<rparr>) = dropped i s"
  "dropped i (s\<lparr>frameInterval := w\<rparr>) = dropped i s"
  "dropped i (push_timer j x s) = dropped i s" "dropped i (push_task j x s) = dropped i s"
  by (simp_all add: dropped_def push_timer_def push_task_def Let_def)

lemma dropped_schedule: "dropped i s \<Longrightarrow> dropped i (schedule_callback r g delay s)"
proof -
  assume d: "dropped i s"
  then have "dropped i (new_task r g a s)" for a by (simp add: dropped_def new_task_def)
  then show ?thesis by (simp add: schedule_callback_eq Let_def)
qed

lemma dropped_api:
  shows "dropped i s \<Longrightarrow> dropped i (apply_api a s)" and "dropped i s \<Longrightarrow> dropped i (apply_apis as s)"
proof (induction a s and as s rule: apply_api_apply_apis.induct)
  case (2 j s)
  then show ?case by (simp add: dropped_def cancel_callback_def)
qed (simp_all add: dropped_schedule force_frame_rate_def request_paint_def)

text \<open>C35: A callback that throws is contained. When the message arrives in a reachable state and the
  callback of the first task throws, whatever it called before, the slice still ends with the priority
  restored and no task current, another message is posted so that the remaining tasks run, and the
  task's callback is gone: it is never run again, only taken out of the queue.\<close>

theorem thrown_callback_contained:
  assumes reach: "sched_reachable user s" and msg: "0 < posted s"
  defines "s0 \<equiv> s\<lparr>posted := posted s - 1\<rparr>"
  defines "b \<equiv> start_work (s0\<lparr>needsPaint := False\<rparr>)"
  assumes first: "heap_peek (taskQ b) = Some i" "task_callback (store b i) = Callable g"
    and due: "expirationTime (store b i) \<le> clock s \<or> \<not> should_yield b"
    and throws: "snd (user g (expirationTime (store b i) \<le> clock s)
      ((put_callback i Null b)\<lparr>currentPriority := priorityLevel (store b i)\<rparr>)) = Threw"
  shows "\<exists>s'. perform_work user (Suc k) s0 = Some s' \<and> currentPriority s' = currentPriority s \<and>
    currentTask s' = None \<and> \<not> performing s' \<and> posted s' = 1 \<and> task_callback (store s' i) = Null"
proof -
  have inv: "sched_inv s" "\<not> performing s" using sched_inv_reachable [OF reach] by simp_all
  then have s: "loopRunning s" "posted s = 1" using msg by (auto simp: sched_inv_def host_wf_def host_base_def)
  have s0: "queue_wf s0" "loopRunning s0" "posted s0 = 0" "clock s0 = clock s"
    using inv(1) s by (simp_all add: s0_def sched_inv_def queue_wf_def)
  have loop: "in_loop (clock s) b"
    unfolding b_def s0(4) [symmetric] using start_work_inv [of "s0\<lparr>needsPaint := False\<rparr>"] s0 by (simp add: queue_wf_def)
  define s1 where "s1 = (put_callback i Null b)\<lparr>currentPriority := priorityLevel (store b i)\<rparr>"
  obtain calls where r: "user g (expirationTime (store b i) \<le> clock s) s1 = (calls, Threw)"
    using throws by (metis prod.collapse s1_def)
  define s2 where "s2 = apply_apis calls s1"
  have w: "work_loop user (Suc k) (clock s) b = Some (s2, Raised)"
    using loop first due r by (auto simp: in_loop_def Let_def s1_def s2_def)
  then have p: "perform_work user (Suc k) s0 = Some (end_work (currentPriority s0) Raised s2)"
    using s0(2,4) by (simp add: perform_work_def b_def Let_def)
  have "posted s2 = 0"
    using work_loop_inv [OF w loop] sched_inv_performing by blast
  moreover have "i < taskId s1"
    using loop first(1) by (auto simp: in_loop_def sched_inv_def queue_wf_def heap_peek_Some s1_def put_callback_def)
  then have "dropped i s1" by (simp add: dropped_def s1_def put_callback_def)
  then have "dropped i s2" unfolding s2_def by (rule dropped_api(2))
  moreover have "currentPriority s0 = currentPriority s" by (simp add: s0_def)
  ultimately show ?thesis
    by (intro exI [of _ "end_work (currentPriority s0) Raised s2"] conjI p)
      (simp_all add: end_work_def post_message_def dropped_def)
qed

text \<open>One task, due at once, whose callback throws.\<close>

theorem thrown_callback_contained_witness:
  "\<exists>s'. perform_work (\<lambda>_ _ _. ([], Threw)) 1
      ((apply_api (Schedule_callback 1 (Callable (0 :: nat)) None) (init_sched 0))\<lparr>posted := 0\<rparr>) = Some s' \<and>
    currentPriority s' = 3 \<and> currentTask s' = None \<and> \<not> performing s' \<and> posted s' = 1 \<and>
    task_callback (store s' 1) = Null"
proof -
  let ?s = "apply_api (Schedule_callback 1 (Callable (0 :: nat)) None) (init_sched 0)"
  have r: "sched_reachable (\<lambda>_ _ _. ([], Threw)) ?s"
    by (rule sched_reachable.step [OF sched_reachable.start sched_step.application])
  have s: "posted ?s = 1" "currentPriority ?s = 3" "clock ?s = 0" "timerQ ?s = []" "taskQ ?s = [1]"
      "store ?s (Suc 0) = \<lparr>task_callback = Callable 0, priorityLevel = 1, startTime = 0, expirationTime = -1, sortIndex = -1\<rparr>"
    by (simp_all add: init_sched_def schedule_callback_def push_task_def Let_def priority_timeout_def
        heap_push_def sift_up.simps request_host_callback_def post_message_def)
  have b: "taskQ (start_work (?s\<lparr>posted := 0, needsPaint := False\<rparr>)) = [1]"
      "store (start_work (?s\<lparr>posted := 0, needsPaint := False\<rparr>)) = store ?s"
    by (simp_all add: start_work_def Let_def advance_timers.simps cancel_host_timeout_def s del: apply_api.simps)
  show ?thesis
    using thrown_callback_contained [OF r, of 1 "0 :: nat" 0]
    by (simp add: s b heap_peek_def del: apply_api.simps)
qed

end
