(* ===== verification/Floating_Position.thy ===== *)
theory Floating_Position
  imports Complex_Main
begin

text \<open>
  The positioning of the console's drop-downs: \<open>floating-ui.utils.mjs\<close> and
  \<open>floating-ui.core.mjs\<close> as bundled into \<open>app.js\<close>. A placement is one of the library's twelve
  strings, a side with an alignment or none. Coordinates are real numbers. The platform (what the
  DOM answers) is a record of functions of a world \<open>'w\<close>, which only the \<open>apply\<close> callback of the
  size middleware changes; an awaited call is the call.
\<close>

subsection \<open>Placements\<close>

datatype side = Top | Right | Bottom | Left
datatype alignment = Start | End
datatype placement = Placement side "alignment option"
datatype axis = X | Y

definition get_side :: "placement \<Rightarrow> side" where
  "get_side e = (case e of Placement s _ \<Rightarrow> s)"

definition get_alignment :: "placement \<Rightarrow> alignment option" where
  "get_alignment e = (case e of Placement _ a \<Rightarrow> a)"

fun opposite_axis :: "axis \<Rightarrow> axis" where
  "opposite_axis X = Y"
| "opposite_axis Y = X"

fun side_axis_of :: "side \<Rightarrow> axis" where
  "side_axis_of Top = Y"
| "side_axis_of Bottom = Y"
| "side_axis_of Right = X"
| "side_axis_of Left = X"

definition side_axis :: "placement \<Rightarrow> axis" where
  "side_axis e = side_axis_of (get_side e)"

definition alignment_axis :: "placement \<Rightarrow> axis" where
  "alignment_axis e = opposite_axis (side_axis e)"

fun opposite_side :: "side \<Rightarrow> side" where
  "opposite_side Left = Right"
| "opposite_side Right = Left"
| "opposite_side Bottom = Top"
| "opposite_side Top = Bottom"

definition opposite_placement :: "placement \<Rightarrow> placement" where
  "opposite_placement e = Placement (opposite_side (get_side e)) (get_alignment e)"

fun flip_alignment :: "alignment \<Rightarrow> alignment" where
  "flip_alignment Start = End"
| "flip_alignment End = Start"

definition opposite_alignment :: "placement \<Rightarrow> placement" where
  "opposite_alignment e = Placement (get_side e) (map_option flip_alignment (get_alignment e))"

definition expanded_placements :: "placement \<Rightarrow> placement list" where
  "expanded_placements e =
     (let t = opposite_placement e in [opposite_alignment e, t, opposite_alignment t])"

fun side_list :: "side \<Rightarrow> bool \<Rightarrow> bool \<Rightarrow> side list" where
  "side_list Top t n = (if n then (if t then [Right, Left] else [Left, Right]) else (if t then [Left, Right] else [Right, Left]))"
| "side_list Bottom t n = (if n then (if t then [Right, Left] else [Left, Right]) else (if t then [Left, Right] else [Right, Left]))"
| "side_list Left t n = (if t then [Top, Bottom] else [Bottom, Top])"
| "side_list Right t n = (if t then [Top, Bottom] else [Bottom, Top])"

datatype side_direction = No_direction | Direction_start | Direction_end

definition opposite_axis_placements :: "placement \<Rightarrow> bool \<Rightarrow> side_direction \<Rightarrow> bool \<Rightarrow> placement list" where
  "opposite_axis_placements e t n r =
     (let i = get_alignment e;
          a = map (\<lambda>s. Placement s i) (side_list (get_side e) (n = Direction_start) r)
      in if i \<noteq> None \<and> t then a @ map opposite_alignment a else a)"

subsection \<open>Rectangles\<close>

record rect =
  rx :: real
  ry :: real
  rwidth :: real
  rheight :: real

record rects =
  reference :: rect
  floating :: rect

record sides =
  topside :: real
  rightside :: real
  bottomside :: real
  leftside :: real

record client_rect = rect +
  crtop :: real
  crright :: real
  crbottom :: real
  crleft :: real

definition coord :: "axis \<Rightarrow> rect \<Rightarrow> real" where
  "coord a r = (case a of X \<Rightarrow> rx r | Y \<Rightarrow> ry r)"

definition axis_length :: "axis \<Rightarrow> rect \<Rightarrow> real" where
  "axis_length a r = (case a of Y \<Rightarrow> rheight r | X \<Rightarrow> rwidth r)"

fun side_value :: "side \<Rightarrow> sides \<Rightarrow> real" where
  "side_value Top e = topside e"
| "side_value Right e = rightside e"
| "side_value Bottom e = bottomside e"
| "side_value Left e = leftside e"

definition clamp :: "real \<Rightarrow> real \<Rightarrow> real \<Rightarrow> real" where
  "clamp e t n = max e (min t n)"

definition rect_to_client :: "rect \<Rightarrow> client_rect" where
  "rect_to_client e =
     \<lparr>rx = rx e, ry = ry e, rwidth = rwidth e, rheight = rheight e,
      crtop = ry e, crright = rx e + rwidth e, crbottom = ry e + rheight e, crleft = rx e\<rparr>"

datatype padding = Pad_all real | Pad_sides "real option" "real option" "real option" "real option"

definition or_zero :: "real option \<Rightarrow> real" where
  "or_zero e = (case e of None \<Rightarrow> 0 | Some v \<Rightarrow> v)"

fun padding_object :: "padding \<Rightarrow> sides" where
  "padding_object (Pad_all e) = \<lparr>topside = e, rightside = e, bottomside = e, leftside = e\<rparr>"
| "padding_object (Pad_sides t r b l) =
     \<lparr>topside = or_zero t, rightside = or_zero r, bottomside = or_zero b, leftside = or_zero l\<rparr>"

text \<open>The two sides on the alignment axis, the one that may overflow first.\<close>

definition alignment_sides :: "placement \<Rightarrow> rects \<Rightarrow> bool \<Rightarrow> side list" where
  "alignment_sides e t n =
     (let r = get_alignment e; i = alignment_axis e;
          s = (if i = X then (if r = Some (if n then End else Start) then Right else Left)
               else if r = Some Start then Bottom else Top);
          s' = (if axis_length i (reference t) > axis_length i (floating t) then opposite_side s else s)
      in [s', opposite_side s'])"

text \<open>Where the floating element goes, by placement.\<close>

definition coords_from_placement :: "rects \<Rightarrow> placement \<Rightarrow> bool \<Rightarrow> real \<times> real" where
  "coords_from_placement e t n =
     (let r = reference e; i = floating e;
          l = (side_axis t = Y); a = alignment_axis t;
          u = rx r + rwidth r / 2 - rwidth i / 2;
          d = ry r + rheight r / 2 - rheight i / 2;
          f = axis_length a r / 2 - axis_length a i / 2;
          p = (case get_side t of
                 Top \<Rightarrow> (u, ry r - rheight i)
               | Bottom \<Rightarrow> (u, ry r + rheight r)
               | Right \<Rightarrow> (rx r + rwidth r, d)
               | Left \<Rightarrow> (rx r - rwidth i, d))
      in case get_alignment t of
           None \<Rightarrow> p
         | Some m \<Rightarrow>
             (let k = f * (if m = End then 1 else -1) * (if n \<and> l then -1 else 1)
              in case a of X \<Rightarrow> (fst p + k, snd p) | Y \<Rightarrow> (fst p, snd p + k)))"

subsection \<open>State of a positioning run\<close>

record arrow_data =
  arrow_at :: "axis \<times> real"
  centerOffset :: real
  alignmentOffset :: "real option"

record hide_data =
  referenceHidden :: "(sides \<times> bool) option"
  escaped :: "(sides \<times> bool) option"

record middleware_data =
  data_arrow :: "arrow_data option"
  data_flip :: "(nat \<times> (placement \<times> real list) list) option"
  data_hide :: hide_data
  data_offset :: "(real \<times> real \<times> placement) option"
  data_shift :: "(real \<times> real \<times> bool \<times> bool) option"

record mw_state =
  st_x :: real
  st_y :: real
  st_initial :: placement
  st_placement :: placement
  st_data :: middleware_data
  st_rects :: rects

datatype reset = Reset | Reset_placement "placement option" | Reset_rects rects | Reset_measure

record mw_result =
  res_x :: "real option"
  res_y :: "real option"
  res_data :: middleware_data
  res_reset :: "reset option"

type_synonym 'w middleware = "mw_state \<Rightarrow> 'w \<Rightarrow> mw_result \<times> 'w"

definition no_data :: middleware_data where
  "no_data = \<lparr>data_arrow = None, data_flip = None,
     data_hide = \<lparr>referenceHidden = None, escaped = None\<rparr>, data_offset = None, data_shift = None\<rparr>"

definition nothing :: "mw_state \<Rightarrow> mw_result" where
  "nothing t = \<lparr>res_x = None, res_y = None, res_data = st_data t, res_reset = None\<rparr>"

datatype element_context = Context_floating | Context_reference

text \<open>
  The platform. \<open>offset_scale\<close> is what \<open>getScale\<close> answers for the offset parent when that is an
  element; \<open>to_viewport\<close> is there if the platform converts rectangles; \<open>arrow_parent_size\<close> is the
  client size of the arrow's offset parent when that is an element.
\<close>

record 'w platform =
  is_rtl :: "'w \<Rightarrow> bool"
  element_rects :: "'w \<Rightarrow> rects"
  element_rects_of :: "'w \<Rightarrow> rect \<Rightarrow> rects"
  client_rects :: "'w \<Rightarrow> rect list"
  clipping_rect :: "'w \<Rightarrow> element_context \<Rightarrow> string \<Rightarrow> string \<Rightarrow> rect"
  offset_scale :: "'w \<Rightarrow> (real \<times> real) option"
  to_viewport :: "'w \<Rightarrow> (rect \<Rightarrow> rect) option"
  floating_dimensions :: "'w \<Rightarrow> real \<times> real"
  arrow_dimensions :: "'w \<Rightarrow> rect"
  arrow_parent_size :: "'w \<Rightarrow> axis \<Rightarrow> real option"
  floating_client_size :: "'w \<Rightarrow> axis \<Rightarrow> real"

record detect_options =
  opt_boundary :: string
  opt_rootBoundary :: string
  opt_elementContext :: element_context
  opt_altBoundary :: bool
  opt_padding :: padding

fun other_context :: "element_context \<Rightarrow> element_context" where
  "other_context Context_floating = Context_reference"
| "other_context Context_reference = Context_floating"

definition detect_overflow :: "'w platform \<Rightarrow> mw_state \<Rightarrow> detect_options \<Rightarrow> 'w \<Rightarrow> sides" where
  "detect_overflow i e t w =
     (let p = padding_object (opt_padding t);
          u = opt_elementContext t;
          m = (if opt_altBoundary t then other_context u else u);
          h = rect_to_client (clipping_rect i w m (opt_boundary t) (opt_rootBoundary t));
          a = st_rects e;
          g = (if u = Context_floating
               then \<lparr>rx = st_x e, ry = st_y e, rwidth = rwidth (floating a), rheight = rheight (floating a)\<rparr>
               else reference a);
          v = (case offset_scale i w of Some s \<Rightarrow> s | None \<Rightarrow> (1, 1));
          y = rect_to_client (case to_viewport i w of Some f \<Rightarrow> f g | None \<Rightarrow> g)
      in \<lparr>topside = (crtop h - crtop y + topside p) / snd v,
          rightside = (crright y - crright h + rightside p) / fst v,
          bottomside = (crbottom y - crbottom h + bottomside p) / snd v,
          leftside = (crleft h - crleft y + leftside p) / fst v\<rparr>)"

subsection \<open>The run\<close>

definition apply_result :: "mw_result \<Rightarrow> mw_state \<Rightarrow> mw_state" where
  "apply_result r s =
     s\<lparr>st_x := (case res_x r of None \<Rightarrow> st_x s | Some v \<Rightarrow> v),
       st_y := (case res_y r of None \<Rightarrow> st_y s | Some v \<Rightarrow> v),
       st_data := res_data r\<rparr>"

definition place_again :: "bool \<Rightarrow> mw_state \<Rightarrow> mw_state" where
  "place_again c s =
     (let xy = coords_from_placement (st_rects s) (st_placement s) c in s\<lparr>st_x := fst xy, st_y := snd xy\<rparr>)"

definition apply_reset :: "'w platform \<Rightarrow> 'w \<Rightarrow> bool \<Rightarrow> reset \<Rightarrow> mw_state \<Rightarrow> mw_state" where
  "apply_reset i w c x s =
     (case x of
        Reset \<Rightarrow> s
      | Reset_placement None \<Rightarrow> place_again c s
      | Reset_placement (Some f) \<Rightarrow> place_again c (s\<lparr>st_placement := f\<rparr>)
      | Reset_rects l \<Rightarrow> place_again c (s\<lparr>st_rects := l\<rparr>)
      | Reset_measure \<Rightarrow> place_again c (s\<lparr>st_rects := element_rects i w\<rparr>))"

definition max_resets :: nat where "max_resets = 50"

function run_middleware ::
  "'w platform \<Rightarrow> bool \<Rightarrow> 'w middleware option list \<Rightarrow> nat \<Rightarrow> nat \<Rightarrow> mw_state \<Rightarrow> 'w \<Rightarrow> mw_state \<times> 'w" where
  "run_middleware i c a n p s w =
     (if n < length a
      then (case a ! n of
              None \<Rightarrow> run_middleware i c a (n + 1) p s w
            | Some f \<Rightarrow>
                (let (r, w') = f s w; s' = apply_result r s
                 in case res_reset r of
                      Some x \<Rightarrow>
                        if p < max_resets
                        then run_middleware i c a 0 (p + 1) (apply_reset i w' c x s') w'
                        else run_middleware i c a (n + 1) p s' w'
                    | None \<Rightarrow> run_middleware i c a (n + 1) p s' w'))
      else (s, w))"
  by pat_completeness auto
termination
  by (relation "measures [\<lambda>(i, c, a, n, p, s, w). max_resets - p, \<lambda>(i, c, a, n, p, s, w). length a - n]")
    auto

declare run_middleware.simps [simp del]

definition start_state :: "'w platform \<Rightarrow> placement \<Rightarrow> 'w \<Rightarrow> mw_state" where
  "start_state i r w =
     place_again (is_rtl i w)
       \<lparr>st_x = 0, st_y = 0, st_initial = r, st_placement = r, st_data = no_data, st_rects = element_rects i w\<rparr>"

definition compute_position :: "'w platform \<Rightarrow> placement \<Rightarrow> 'w middleware option list \<Rightarrow> 'w \<Rightarrow> mw_state \<times> 'w" where
  "compute_position i r a w = run_middleware i (is_rtl i w) a 0 0 (start_state i r w) w"

end
