(* ===== verification/Floating_Middleware.thy ===== *)
theory Floating_Middleware
  imports Floating_Position
begin

text \<open>
  The middlewares of \<open>floating-ui.core.mjs\<close> in \<open>app.js\<close>: arrow, flip, hide, inline, offset, shift
  with its limiter, and size. Their options are records, with the code's defaults in place; an
  option that is a function of the state has been evaluated.
\<close>

subsection \<open>arrow\<close>

definition nonzero_or :: "real option \<Rightarrow> real \<Rightarrow> real" where
  "nonzero_or v e = (case v of Some c \<Rightarrow> (if c \<noteq> 0 then c else e) | None \<Rightarrow> e)"

definition arrow :: "'w platform \<Rightarrow> bool \<Rightarrow> padding \<Rightarrow> 'w middleware" where
  "arrow i present padding t w =
     (if \<not> present then (nothing t, w)
      else
        (let d = padding_object padding;
             f = \<lparr>rx = st_x t, ry = st_y t, rwidth = 0, rheight = 0\<rparr>;
             a = st_rects t;
             p = alignment_axis (st_placement t);
             h = arrow_dimensions i w;
             lo = (case p of Y \<Rightarrow> topside d | X \<Rightarrow> leftside d);
             hi = (case p of Y \<Rightarrow> bottomside d | X \<Rightarrow> rightside d);
             b = axis_length p (reference a) + coord p (reference a) - coord p f - axis_length p (floating a);
             x = coord p f - coord p (reference a);
             C = nonzero_or (arrow_parent_size i w p)
                   (nonzero_or (Some (floating_client_size i w p)) (axis_length p (floating a)));
             v = b / 2 - x / 2;
             T = C / 2 - axis_length p h / 2 - 1;
             E = min lo T; ee = min hi T;
             D = C - axis_length p h - ee;
             centre = C / 2 - axis_length p h / 2 + v;
             k = clamp E centre D;
             A = (data_arrow (st_data t) = None \<and> get_alignment (st_placement t) \<noteq> None \<and> centre \<noteq> k \<and>
                  axis_length p (reference a) / 2 - (if centre < E then E else ee) - axis_length p h / 2 < 0);
             j = (if A then (if centre < E then centre - E else centre - D) else 0);
             old = (case data_arrow (st_data t) of None \<Rightarrow> None | Some c \<Rightarrow> alignmentOffset c);
             data = \<lparr>arrow_at = (p, k), centerOffset = centre - k - j,
                     alignmentOffset = (if A then Some j else old)\<rparr>
         in (\<lparr>res_x = (if p = X then Some (coord p f + j) else None),
              res_y = (if p = Y then Some (coord p f + j) else None),
              res_data = (st_data t)\<lparr>data_arrow := Some data\<rparr>,
              res_reset = (if A then Some Reset else None)\<rparr>, w)))"

definition arrow_moved :: "middleware_data \<Rightarrow> bool" where
  "arrow_moved d =
     (case data_arrow d of None \<Rightarrow> False
      | Some a \<Rightarrow> (case alignmentOffset a of None \<Rightarrow> False | Some v \<Rightarrow> v \<noteq> 0))"

subsection \<open>flip\<close>

datatype cross_axis = Cross_off | Cross_on | Cross_alignment
datatype fallback = Best_fit | Initial_placement

record flip_options =
  flip_mainAxis :: bool
  flip_crossAxis :: cross_axis
  flip_fallbackPlacements :: "placement list option"
  flip_fallbackStrategy :: fallback
  flip_fallbackAxisSideDirection :: side_direction
  flip_flipAlignment :: bool
  flip_detect :: detect_options

text \<open>\<open>overflows[k]\<close>, which is \<open>undefined\<close> past the end.\<close>

definition overflow_at :: "real list \<Rightarrow> nat \<Rightarrow> real option" where
  "overflow_at v k = (if k < length v then Some (v ! k) else None)"

definition fits_main :: "placement \<times> real list \<Rightarrow> bool" where
  "fits_main e = (case overflow_at (snd e) 0 of Some v \<Rightarrow> v \<le> 0 | None \<Rightarrow> False)"

definition exceeds_main :: "placement \<times> real list \<Rightarrow> bool" where
  "exceeds_main e = (case overflow_at (snd e) 0 of Some v \<Rightarrow> v > 0 | None \<Rightarrow> False)"

definition flip_candidates :: "flip_options \<Rightarrow> placement \<Rightarrow> bool \<Rightarrow> placement list" where
  "flip_candidates e o' y =
     (let b = (case flip_fallbackPlacements e of
                 Some d \<Rightarrow> d
               | None \<Rightarrow>
                   (if get_alignment o' = None \<or> \<not> flip_flipAlignment e then [opposite_placement o']
                    else expanded_placements o') @
                   (if flip_fallbackAxisSideDirection e \<noteq> No_direction
                    then opposite_axis_placements o' (flip_flipAlignment e) (flip_fallbackAxisSideDirection e) y
                    else []))
      in o' # b)"

definition flip_overflows :: "flip_options \<Rightarrow> sides \<Rightarrow> placement \<Rightarrow> rects \<Rightarrow> bool \<Rightarrow> real list" where
  "flip_overflows e C r a y =
     (if flip_mainAxis e then [side_value (get_side r) C] else []) @
     (if flip_crossAxis e \<noteq> Cross_off then map (\<lambda>s. side_value s C) (alignment_sides r a y) else [])"

definition flip_total :: "real list \<Rightarrow> real" where
  "flip_total v = sum_list (filter (\<lambda>e. e > 0) v)"

text \<open>The placement \<open>flip\<close> settles on when no candidate is left to try.\<close>

definition flip_choice :: "flip_options \<Rightarrow> placement \<Rightarrow> (placement \<times> real list) list \<Rightarrow> placement option" where
  "flip_choice e o' T =
     (case sort_key (\<lambda>c. or_zero (overflow_at (snd c) 1)) (filter fits_main T) of
        c # _ \<Rightarrow> Some (fst c)
      | [] \<Rightarrow>
          (case flip_fallbackStrategy e of
             Best_fit \<Rightarrow>
               (case sort_key snd (map (\<lambda>c. (fst c, flip_total (snd c)))
                       (filter (\<lambda>c. flip_fallbackAxisSideDirection e \<noteq> No_direction \<longrightarrow>
                          side_axis (fst c) = side_axis o' \<or> side_axis (fst c) = Y) T)) of
                  c # _ \<Rightarrow> Some (fst c) | [] \<Rightarrow> None)
           | Initial_placement \<Rightarrow> Some o'))"

definition flip :: "'w platform \<Rightarrow> flip_options \<Rightarrow> 'w middleware" where
  "flip i e t w =
     (if arrow_moved (st_data t) then (nothing t, w)
      else
        (let r = st_placement t; o' = st_initial t; y = is_rtl i w;
             S = flip_candidates e o' y;
             C = detect_overflow i t (flip_detect e) w;
             v = flip_overflows e C r (st_rects t) y;
             (index, seen) = (case data_flip (st_data t) of None \<Rightarrow> (0, []) | Some d \<Rightarrow> d);
             T = seen @ [(r, v)]
         in if list_all (\<lambda>x. x \<le> 0) v then (nothing t, w)
            else
              (let n = index + 1
               in if n < length S \<and>
                     (flip_crossAxis e \<noteq> Cross_alignment \<or> side_axis o' = side_axis (S ! n) \<or>
                      list_all (\<lambda>c. side_axis (fst c) \<noteq> side_axis o' \<or> exceeds_main c) T)
                  then ((nothing t)\<lparr>res_data := (st_data t)\<lparr>data_flip := Some (n, T)\<rparr>,
                                    res_reset := Some (Reset_placement (Some (S ! n)))\<rparr>, w)
                  else if flip_choice e o' T \<noteq> Some r
                  then ((nothing t)\<lparr>res_reset := Some (Reset_placement (flip_choice e o' T))\<rparr>, w)
                  else (nothing t, w))))"

subsection \<open>hide\<close>

definition hide_offsets :: "sides \<Rightarrow> rect \<Rightarrow> sides" where
  "hide_offsets e t =
     \<lparr>topside = topside e - rheight t, rightside = rightside e - rwidth t,
      bottomside = bottomside e - rheight t, leftside = leftside e - rwidth t\<rparr>"

definition any_side_hidden :: "sides \<Rightarrow> bool" where
  "any_side_hidden e = list_ex (\<lambda>t. side_value t e \<ge> 0) [Top, Right, Bottom, Left]"

datatype hide_strategy = Reference_hidden | Escaped

definition hide :: "'w platform \<Rightarrow> hide_strategy \<Rightarrow> detect_options \<Rightarrow> 'w middleware" where
  "hide r i a t w =
     (let old = data_hide (st_data t);
          new = (case i of
                   Reference_hidden \<Rightarrow>
                     (let e = hide_offsets
                                (detect_overflow r t (a\<lparr>opt_elementContext := Context_reference\<rparr>) w)
                                (reference (st_rects t))
                      in old\<lparr>referenceHidden := Some (e, any_side_hidden e)\<rparr>)
                 | Escaped \<Rightarrow>
                     (let e = hide_offsets
                                (detect_overflow r t (a\<lparr>opt_altBoundary := True\<rparr>) w)
                                (floating (st_rects t))
                      in old\<lparr>escaped := Some (e, any_side_hidden e)\<rparr>))
      in ((nothing t)\<lparr>res_data := (st_data t)\<lparr>data_hide := new\<rparr>\<rparr>, w))"

subsection \<open>inline\<close>

definition bounding_rect :: "client_rect list \<Rightarrow> rect" where
  "bounding_rect e =
     (let t = Min (set (map crleft e)); n = Min (set (map crtop e));
          r = Max (set (map crright e)); b = Max (set (map crbottom e))
      in \<lparr>rx = t, ry = n, rwidth = r - t, rheight = b - n\<rparr>)"

fun group_lines :: "client_rect list \<Rightarrow> client_rect option \<Rightarrow> client_rect list list \<Rightarrow> client_rect list list" where
  "group_lines [] r n = n"
| "group_lines (i # t) r n =
     (let new = (case r of None \<Rightarrow> True | Some r' \<Rightarrow> ry i - ry r' > rheight r' / 2)
      in group_lines t (Some i) (if new then n @ [[i]] else butlast n @ [last n @ [i]]))"

definition rects_by_line :: "client_rect list \<Rightarrow> client_rect list" where
  "rects_by_line e = map (\<lambda>l. rect_to_client (bounding_rect l)) (group_lines (sort_key ry e) None [])"

record inline_options =
  inline_padding :: padding
  inline_x :: "real option"
  inline_y :: "real option"

definition inline_rect :: "inline_options \<Rightarrow> placement \<Rightarrow> client_rect list \<Rightarrow> client_rect" where
  "inline_rect opt n u =
     (let d = rects_by_line u; f = rect_to_client (bounding_rect u); p = padding_object (inline_padding opt)
      in case (inline_x opt, inline_y opt, length d = 2 \<and>
               (crleft (d ! 0) > crright (d ! 1) \<or> crleft (d ! 1) > crright (d ! 0))) of
           (Some c, Some l, True) \<Rightarrow>
             (case find (\<lambda>e. c > crleft e - leftside p \<and> c < crright e + rightside p \<and>
                             l > crtop e - topside p \<and> l < crbottom e + bottomside p) d of
                Some e \<Rightarrow> e | None \<Rightarrow> f)
         | _ \<Rightarrow>
             (if length d \<ge> 2
              then (if side_axis n = Y
                    then (let e = hd d; t = last d; r = (get_side n = Top);
                              left = (if r then crleft e else crleft t);
                              right = (if r then crright e else crright t)
                          in rect_to_client \<lparr>rx = left, ry = crtop e, rwidth = right - left,
                                             rheight = crbottom t - crtop e\<rparr>)
                    else (let e = (get_side n = Left); t = Max (set (map crright d)); r = Min (set (map crleft d));
                              i = filter (\<lambda>q. if e then crleft q = r else crright q = t) d;
                              top = crtop (hd i); bottom = crbottom (last i)
                          in rect_to_client \<lparr>rx = r, ry = top, rwidth = t - r, rheight = bottom - top\<rparr>))
              else f))"

definition inline :: "'w platform \<Rightarrow> inline_options \<Rightarrow> 'w middleware" where
  "inline a opt t w =
     (let u = map rect_to_client (client_rects a w)
      in if u = [] then (nothing t, w)
         else (let h = element_rects_of a w (rect.truncate (inline_rect opt (st_placement t) u));
                   q = reference (st_rects t); z = reference h
               in if rx q \<noteq> rx z \<or> ry q \<noteq> ry z \<or> rwidth q \<noteq> rwidth z \<or> rheight q \<noteq> rheight z
                  then ((nothing t)\<lparr>res_reset := Some (Reset_rects h)\<rparr>, w)
                  else (nothing t, w)))"

subsection \<open>offset\<close>

datatype offset_value = Offset_number real | Offset_axes "real option" "real option" "real option"

definition offset_coords :: "offset_value \<Rightarrow> placement \<Rightarrow> bool \<Rightarrow> real \<times> real" where
  "offset_coords d n a =
     (let c = (side_axis n = Y);
          l = (if get_side n \<in> set [Left, Top] then -1 else 1);
          u = (if a \<and> c then -1 else 1);
          (f, q, m) = (case d of Offset_number v \<Rightarrow> (v, 0, None)
                       | Offset_axes v v' v'' \<Rightarrow> (or_zero v, or_zero v', v''));
          p = (case (get_alignment n, m) of
                 (Some s, Some m') \<Rightarrow> (if s = End then m' * -1 else m')
               | _ \<Rightarrow> q)
      in if c then (p * u, f * l) else (f * l, p * u))"

definition offset :: "'w platform \<Rightarrow> offset_value \<Rightarrow> 'w middleware" where
  "offset i e t w =
     (let a = st_placement t; s = offset_coords e a (is_rtl i w)
      in if (case data_offset (st_data t) of Some (_, _, p) \<Rightarrow> a = p | None \<Rightarrow> False) \<and> arrow_moved (st_data t)
         then (nothing t, w)
         else (\<lparr>res_x = Some (st_x t + fst s), res_y = Some (st_y t + snd s),
                res_data = (st_data t)\<lparr>data_offset := Some (fst s, snd s, a)\<rparr>, res_reset = None\<rparr>, w))"

subsection \<open>shift\<close>

type_synonym limiter = "mw_state \<Rightarrow> real \<times> real"

definition no_limit :: limiter where
  "no_limit t = (st_x t, st_y t)"

definition shift_axis :: "sides \<Rightarrow> axis \<Rightarrow> real \<Rightarrow> real" where
  "shift_axis d e t =
     clamp (t + (case e of Y \<Rightarrow> topside d | X \<Rightarrow> leftside d)) t
       (t - (case e of Y \<Rightarrow> bottomside d | X \<Rightarrow> rightside d))"

definition axis_coord :: "axis \<Rightarrow> mw_state \<Rightarrow> real" where
  "axis_coord a t = (case a of X \<Rightarrow> st_x t | Y \<Rightarrow> st_y t)"

definition set_axis_coord :: "axis \<Rightarrow> real \<Rightarrow> mw_state \<Rightarrow> mw_state" where
  "set_axis_coord a v t = (case a of X \<Rightarrow> t\<lparr>st_x := v\<rparr> | Y \<Rightarrow> t\<lparr>st_y := v\<rparr>)"

record shift_options =
  shift_mainAxis :: bool
  shift_crossAxis :: bool
  shift_detect :: detect_options

definition shift :: "'w platform \<Rightarrow> shift_options \<Rightarrow> limiter \<Rightarrow> 'w middleware" where
  "shift i e c t w =
     (let d = detect_overflow i t (shift_detect e) w;
          f = side_axis (st_placement t); p = opposite_axis f;
          m = (if shift_mainAxis e then shift_axis d p (axis_coord p t) else axis_coord p t);
          h = (if shift_crossAxis e then shift_axis d f (axis_coord f t) else axis_coord f t);
          q = c (set_axis_coord f h (set_axis_coord p m t));
          on = (\<lambda>a. if a = p then shift_mainAxis e else shift_crossAxis e)
      in (\<lparr>res_x = Some (fst q), res_y = Some (snd q),
           res_data = (st_data t)\<lparr>data_shift := Some (fst q - st_x t, snd q - st_y t, on X, on Y)\<rparr>,
           res_reset = None\<rparr>, w))"

datatype limit_offset = Limit_number real | Limit_axes "real option" "real option"

record limit_options =
  limit_offset :: limit_offset
  limit_mainAxis :: bool
  limit_crossAxis :: bool

definition into_range :: "real \<Rightarrow> real \<Rightarrow> real \<Rightarrow> real" where
  "into_range p t n = (if p < t then t else if p > n then n else p)"

definition limit_shift :: "limit_options \<Rightarrow> limiter" where
  "limit_shift e t =
     (let a = st_rects t; d = side_axis (st_placement t); f = opposite_axis d;
          p = axis_coord f t; m = axis_coord d t;
          (gm, gc) = (case limit_offset e of Limit_number h \<Rightarrow> (h, 0) | Limit_axes u v \<Rightarrow> (or_zero u, or_zero v));
          p' = (if limit_mainAxis e
                then into_range p (coord f (reference a) - axis_length f (floating a) + gm)
                       (coord f (reference a) + axis_length f (reference a) - gm)
                else p);
          b = (get_side (st_placement t) \<in> set [Left, Top]);
          moved = (case data_offset (st_data t) of None \<Rightarrow> 0 | Some (x, y, _) \<Rightarrow> (case d of X \<Rightarrow> x | Y \<Rightarrow> y));
          m' = (if limit_crossAxis e
                then into_range m
                       (coord d (reference a) - axis_length d (floating a) + (if b then moved else 0) + (if b then 0 else gc))
                       (coord d (reference a) + axis_length d (reference a) + (if b then 0 else moved) - (if b then gc else 0))
                else m)
      in case f of X \<Rightarrow> (p', m') | Y \<Rightarrow> (m', p'))"

subsection \<open>size\<close>

type_synonym 'w apply_size = "mw_state \<Rightarrow> real \<Rightarrow> real \<Rightarrow> 'w \<Rightarrow> 'w"

definition available_size :: "mw_state \<Rightarrow> sides \<Rightarrow> bool \<Rightarrow> real \<times> real" where
  "available_size t c rtl =
     (let n = st_placement t; l = get_side n; u = get_alignment n; d = (side_axis n = Y);
          f = rwidth (floating (st_rects t)); p = rheight (floating (st_rects t));
          (m, h) = (if l = Top \<or> l = Bottom
                    then (l, if u = Some (if rtl then Start else End) then Left else Right)
                    else (if u = Some End then Top else Bottom, l));
          g = p - topside c - bottomside c; q = f - leftside c - rightside c;
          v = min (p - side_value m c) g; y = min (f - side_value h c) q;
          b = data_shift (st_data t);
          C = (case b of Some (_, _, True, _) \<Rightarrow> q | _ \<Rightarrow> y);
          S = (case b of Some (_, _, _, True) \<Rightarrow> g | _ \<Rightarrow> v)
      in if b = None \<and> u = None
         then (if d then (f - 2 * max (leftside c) (rightside c), S)
               else (C, p - 2 * max (topside c) (bottomside c)))
         else (C, S))"

definition size_middleware :: "'w platform \<Rightarrow> detect_options \<Rightarrow> 'w apply_size \<Rightarrow> 'w middleware" where
  "size_middleware i s app t w =
     (let c = detect_overflow i t s w;
          (C, S) = available_size t c (is_rtl i w);
          w' = app t C S w;
          (width, height) = floating_dimensions i w'
      in if rwidth (floating (st_rects t)) \<noteq> width \<or> rheight (floating (st_rects t)) \<noteq> height
         then ((nothing t)\<lparr>res_reset := Some Reset_measure\<rparr>, w')
         else (nothing t, w'))"

end
