(* ===== verification/Floating_Properties.thy ===== *)
theory Floating_Properties
  imports Floating_Middleware
begin

text \<open>
  What the positioning promises: a placement puts the element beside its reference, shift brings it
  into the boundary where it fits, flip finds the first candidate that does not overflow, and the
  run of the middlewares ends after at most fifty resets.
\<close>

subsection \<open>Placements\<close>

lemma opposite_side_involution [simp]: "opposite_side (opposite_side s) = s"
  by (cases s) simp_all

lemma flip_alignment_involution [simp]: "flip_alignment (flip_alignment a) = a"
  by (cases a) simp_all

lemma opposite_placement_involution [simp]: "opposite_placement (opposite_placement e) = e"
  by (cases e) (simp add: opposite_placement_def get_side_def get_alignment_def)

lemma opposite_alignment_involution [simp]: "opposite_alignment (opposite_alignment e) = e"
  by (cases e) (simp add: opposite_alignment_def get_side_def get_alignment_def option.map_comp comp_def option.map_id0 [unfolded id_def])

lemma side_axis_opposite [simp]: "side_axis_of (opposite_side s) = side_axis_of s"
  by (cases s) simp_all

lemma side_axis_cases: "side_axis_of s = Y \<longleftrightarrow> s = Top \<or> s = Bottom"
  by (cases s) simp_all

text \<open>A placement puts the floating element beside its reference: flush with the side it names,
  and along that side centred without an alignment, with starts equal for \<open>start\<close> and ends equal for
  \<open>end\<close>, where a right-to-left page swaps the two above and below the reference.\<close>

theorem placement_is_beside:
  "let r = reference e; f = floating e; (x, y) = coords_from_placement e (Placement s a) rtl
   in (case s of Top \<Rightarrow> y + rheight f = ry r | Bottom \<Rightarrow> y = ry r + rheight r
       | Left \<Rightarrow> x + rwidth f = rx r | Right \<Rightarrow> x = rx r + rwidth r) \<and>
      (case (if s = Top \<or> s = Bottom then (if rtl then map_option flip_alignment a else a) else a) of
         None \<Rightarrow> (if s = Top \<or> s = Bottom then x + rwidth f / 2 = rx r + rwidth r / 2
                  else y + rheight f / 2 = ry r + rheight r / 2)
       | Some Start \<Rightarrow> (if s = Top \<or> s = Bottom then x = rx r else y = ry r)
       | Some End \<Rightarrow> (if s = Top \<or> s = Bottom then x + rwidth f = rx r + rwidth r
                      else y + rheight f = ry r + rheight r))"
  by (cases s; cases a; cases "the a"; cases rtl)
    (simp_all add: coords_from_placement_def Let_def get_side_def get_alignment_def side_axis_def
      alignment_axis_def axis_length_def field_simps)

subsection \<open>shift\<close>

definition start_overflow :: "axis \<Rightarrow> sides \<Rightarrow> real" where
  "start_overflow a d = (case a of Y \<Rightarrow> topside d | X \<Rightarrow> leftside d)"

definition end_overflow :: "axis \<Rightarrow> sides \<Rightarrow> real" where
  "end_overflow a d = (case a of Y \<Rightarrow> bottomside d | X \<Rightarrow> rightside d)"

text \<open>Moving the element along an axis moves its overflow there, by as much.\<close>

lemma detect_overflow_moved:
  assumes "offset_scale i w = None" "to_viewport i w = None" "opt_elementContext t = Context_floating"
    and "st_rects s' = st_rects s"
  shows "start_overflow a (detect_overflow i s' t w) = start_overflow a (detect_overflow i s t w) - (axis_coord a s' - axis_coord a s)"
    and "end_overflow a (detect_overflow i s' t w) = end_overflow a (detect_overflow i s t w) + (axis_coord a s' - axis_coord a s)"
  using assms
  by (cases a; simp add: start_overflow_def end_overflow_def detect_overflow_def Let_def rect_to_client_def axis_coord_def)+

lemma shift_axis_bounds:
  fixes d e t
  defines "m \<equiv> shift_axis d e t - t"
  shows "start_overflow e d - m \<le> 0" "start_overflow e d + end_overflow e d \<le> 0 \<Longrightarrow> end_overflow e d + m \<le> 0"
    "start_overflow e d \<le> 0 \<Longrightarrow> end_overflow e d \<le> 0 \<Longrightarrow> m = 0"
  by (cases e; simp add: m_def shift_axis_def clamp_def start_overflow_def end_overflow_def)+

lemma axis_coord_set [simp]:
  "axis_coord a (set_axis_coord a v t) = v"
  "a \<noteq> b \<Longrightarrow> axis_coord a (set_axis_coord b v t) = axis_coord a t"
  "st_rects (set_axis_coord a v t) = st_rects t" "st_placement (set_axis_coord a v t) = st_placement t"
  by (cases a; cases b; simp add: axis_coord_def set_axis_coord_def)+

text \<open>\<open>shift\<close> brings the element back into the boundary: afterwards it no longer overflows the start
  edge of its main axis, nor the end edge if the boundary has room for it, and an element that did
  not overflow is not moved. The other axis is untouched.\<close>

theorem shift_into_boundary:
  fixes t :: mw_state
  assumes "offset_scale i w = None" "to_viewport i w = None"
    and "opt_elementContext (shift_detect e) = Context_floating"
    and "shift_mainAxis e" "\<not> shift_crossAxis e"
  defines "a \<equiv> opposite_axis (side_axis (st_placement t))"
  defines "t' \<equiv> apply_result (fst (shift i e no_limit t w)) t"
  defines "d \<equiv> detect_overflow i t (shift_detect e) w" and "d' \<equiv> detect_overflow i t' (shift_detect e) w"
  shows "start_overflow a d' \<le> 0 \<and>
    (start_overflow a d + end_overflow a d \<le> 0 \<longrightarrow> end_overflow a d' \<le> 0) \<and>
    (start_overflow a d \<le> 0 \<and> end_overflow a d \<le> 0 \<longrightarrow> st_x t' = st_x t \<and> st_y t' = st_y t) \<and>
    axis_coord (opposite_axis a) t' = axis_coord (opposite_axis a) t"
proof (intro conjI)
  have t': "axis_coord a t' = shift_axis d a (axis_coord a t)"
    "axis_coord (opposite_axis a) t' = axis_coord (opposite_axis a) t" "st_rects t' = st_rects t"
    using assms(4,5)
    by (cases "side_axis (st_placement t)";
        simp add: t'_def a_def d_def shift_def Let_def no_limit_def apply_result_def axis_coord_def set_axis_coord_def)+
  note moved = detect_overflow_moved [OF assms(1-3) t'(3), of a, folded d_def d'_def]
  note bounds = shift_axis_bounds [of a d "axis_coord a t", folded t'(1)]
  show "start_overflow a d' \<le> 0" using moved(1) bounds(1) by simp
  show "start_overflow a d + end_overflow a d \<le> 0 \<longrightarrow> end_overflow a d' \<le> 0" using moved(2) bounds(2) by simp
  show "axis_coord (opposite_axis a) t' = axis_coord (opposite_axis a) t" by (rule t'(2))
  show "start_overflow a d \<le> 0 \<and> end_overflow a d \<le> 0 \<longrightarrow> st_x t' = st_x t \<and> st_y t' = st_y t"
    using bounds(3) t'(2) by (cases a) (auto simp: axis_coord_def)
qed

subsection \<open>The run ends\<close>

lemma run_middleware_calls:
  fixes count :: "'w \<Rightarrow> nat"
  assumes once: "\<forall>f s w. Some f \<in> set a \<longrightarrow> count (snd (f s w)) \<le> count w + 1"
  shows "n \<le> length a \<Longrightarrow>
    count (snd (run_middleware i c a n p s w)) \<le> count w + (max_resets - p) * length a + (length a - n)"
proof (induction "max_resets - p" arbitrary: n p s w rule: less_induct)
  case less
  note resets = less.hyps
  from less.prems show ?case
  proof (induction "length a - n" arbitrary: n s w)
    case 0
    then show ?case by (subst run_middleware.simps) simp
  next
    case (Suc m)
    then have n: "n < length a" "m = length a - (n + 1)" "n + 1 \<le> length a" by simp_all
    have step: "count (snd (run_middleware i c a (n + 1) p s' w')) \<le> count w' + (max_resets - p) * length a + (length a - (n + 1))" for s' w'
      using Suc.hyps(1) n by blast
    show ?case
    proof (cases "a ! n")
      case None
      have "run_middleware i c a n p s w = run_middleware i c a (n + 1) p s w"
        using n(1) None by (subst run_middleware.simps) simp
      then show ?thesis using step [of s w] n(1) by simp
    next
      case (Some f)
      obtain r w' where f: "f s w = (r, w')" by fastforce
      have "Some f \<in> set a" using n(1) Some by (metis nth_mem)
      then have c: "count w' \<le> count w + 1" using once f by (metis snd_conv)
      have eq: "run_middleware i c a n p s w =
          (case res_reset r of
             Some x \<Rightarrow> if p < max_resets then run_middleware i c a 0 (p + 1) (apply_reset i w' c x (apply_result r s)) w'
                        else run_middleware i c a (n + 1) p (apply_result r s) w'
           | None \<Rightarrow> run_middleware i c a (n + 1) p (apply_result r s) w')"
        using n(1) Some f by (subst run_middleware.simps) (simp add: Let_def)
      show ?thesis
      proof (cases "res_reset r \<noteq> None \<and> p < max_resets")
        case True
        then obtain x where x: "res_reset r = Some x" by blast
        have "count (snd (run_middleware i c a 0 (p + 1) (apply_reset i w' c x (apply_result r s)) w'))
            \<le> count w' + (max_resets - (p + 1)) * length a + (length a - 0)"
          by (rule resets) (use True in linarith, simp)
        also have "\<dots> = count w' + (max_resets - p) * length a"
          using True by (metis (no_types, lifting) Suc_diff_Suc add.commute add.left_commute diff_zero mult_Suc plus_1_eq_Suc)
        finally show ?thesis using eq x True c n(1) by simp
      next
        case False
        then have "run_middleware i c a n p s w = run_middleware i c a (n + 1) p (apply_result r s) w'"
          using eq by (cases "res_reset r") simp_all
        then show ?thesis using step [of "apply_result r s" w'] c n(1) by simp
      qed
    qed
  qed
qed

text \<open>A positioning run ends: whatever the middlewares ask for, each is called at most 51 times,
  once per pass, because the run resets at most fifty times. Stated with a counter in the world that
  a call raises by at most one.\<close>

theorem compute_position_bounded:
  fixes count :: "'w \<Rightarrow> nat"
  assumes "\<forall>f s w. Some f \<in> set a \<longrightarrow> count (snd (f s w)) \<le> count w + 1"
  shows "count (snd (compute_position i r a w)) \<le> count w + 51 * length a"
  using run_middleware_calls [OF assms, of 0 i "is_rtl i w" 0 "start_state i r w" w]
  by (simp add: compute_position_def max_resets_def)


subsection \<open>flip\<close>

definition placed_state :: "rects \<Rightarrow> bool \<Rightarrow> placement \<Rightarrow> mw_state" where
  "placed_state l c r =
     place_again c \<lparr>st_x = 0, st_y = 0, st_initial = r, st_placement = r, st_data = no_data, st_rects = l\<rparr>"

text \<open>Nothing overflows at the place a placement gives.\<close>

definition placement_fits :: "'w platform \<Rightarrow> flip_options \<Rightarrow> 'w \<Rightarrow> placement \<Rightarrow> bool" where
  "placement_fits i e w r =
     list_all (\<lambda>x. x \<le> 0)
       (flip_overflows e (detect_overflow i (placed_state (element_rects i w) (is_rtl i w) r) (flip_detect e) w) r
          (element_rects i w) (is_rtl i w))"

definition flip_trying :: "'w platform \<Rightarrow> flip_options \<Rightarrow> 'w \<Rightarrow> placement \<Rightarrow> nat \<Rightarrow> mw_state \<Rightarrow> bool" where
  "flip_trying i e w r j s \<longleftrightarrow>
     st_initial s = r \<and> st_placement s = flip_candidates e r (is_rtl i w) ! j \<and> st_rects s = element_rects i w \<and>
     (st_x s, st_y s) = coords_from_placement (element_rects i w) (st_placement s) (is_rtl i w) \<and>
     data_arrow (st_data s) = None \<and>
     (case data_flip (st_data s) of None \<Rightarrow> j = 0 | Some d \<Rightarrow> fst d = j)"

lemma detect_overflow_place:
  "st_x s = st_x s' \<Longrightarrow> st_y s = st_y s' \<Longrightarrow> st_rects s = st_rects s' \<Longrightarrow> detect_overflow i s t w = detect_overflow i s' t w"
  unfolding detect_overflow_def by (simp only:)

lemma flip_trying_fits:
  assumes "flip_trying i e w r j s"
  shows "list_all (\<lambda>x. x \<le> 0)
      (flip_overflows e (detect_overflow i s (flip_detect e) w) (st_placement s) (st_rects s) (is_rtl i w)) =
    placement_fits i e w (flip_candidates e r (is_rtl i w) ! j)"
proof -
  have "detect_overflow i s (flip_detect e) w =
      detect_overflow i (placed_state (element_rects i w) (is_rtl i w) (st_placement s)) (flip_detect e) w"
    by (rule detect_overflow_place)
      (use assms in \<open>auto simp: flip_trying_def placed_state_def place_again_def Let_def split_pairs\<close>)
  then show ?thesis using assms by (simp add: placement_fits_def flip_trying_def)
qed

lemma flip_stays:
  assumes "flip_trying i e w r j s" "placement_fits i e w (flip_candidates e r (is_rtl i w) ! j)"
  shows "flip i e s w = (nothing s, w)"
  using assms flip_trying_fits [OF assms(1)] by (simp add: flip_def arrow_moved_def flip_trying_def Let_def split: prod.split)

lemma flip_goes_on:
  assumes "flip_trying i e w r j s" "\<not> placement_fits i e w (flip_candidates e r (is_rtl i w) ! j)"
    and "j + 1 < length (flip_candidates e r (is_rtl i w))" "flip_crossAxis e \<noteq> Cross_alignment"
  shows "\<exists>T. flip i e s w =
    ((nothing s)\<lparr>res_data := (st_data s)\<lparr>data_flip := Some (j + 1, T)\<rparr>,
                 res_reset := Some (Reset_placement (Some (flip_candidates e r (is_rtl i w) ! (j + 1))))\<rparr>, w)"
proof -
  obtain seen where seen: "(case data_flip (st_data s) of None \<Rightarrow> (0, []) | Some d \<Rightarrow> d) = (j, seen)"
    using assms(1) by (auto simp: flip_trying_def split: option.splits)
  have "\<not> list_all (\<lambda>x. x \<le> 0)
      (flip_overflows e (detect_overflow i s (flip_detect e) w) (st_placement s) (st_rects s) (is_rtl i w))"
    using flip_trying_fits [OF assms(1)] assms(2) by simp
  moreover have "st_initial s = r" "\<not> arrow_moved (st_data s)"
    using assms(1) by (simp_all add: flip_trying_def arrow_moved_def)
  ultimately show ?thesis using assms(3,4) seen
    by (simp add: flip_def Let_def) (rule exI, rule refl)
qed

lemma apply_nothing [simp]: "apply_result (nothing s) s = s"
  by (simp add: apply_result_def nothing_def)

lemma flip_run:
  assumes "k < length S" "k \<le> max_resets" "placement_fits i e w (S ! k)"
    and S: "S = flip_candidates e r (is_rtl i w)" and cross: "flip_crossAxis e \<noteq> Cross_alignment"
  shows "j \<le> k \<Longrightarrow> \<forall>m. j \<le> m \<longrightarrow> m < k \<longrightarrow> \<not> placement_fits i e w (S ! m) \<Longrightarrow> flip_trying i e w r j s \<Longrightarrow>
    \<exists>s'. run_middleware i (is_rtl i w) [Some (flip i e)] 0 j s w = (s', w) \<and> flip_trying i e w r k s'"
proof (induction "k - j" arbitrary: j s)
  case 0
  then have j: "j = k" by simp
  have "flip i e s w = (nothing s, w)"
    by (rule flip_stays) (use 0 assms j in simp_all)
  then have "run_middleware i (is_rtl i w) [Some (flip i e)] 0 j s w = (s, w)"
    by (subst run_middleware.simps, simp add: nothing_def [of s] Let_def)
      (subst run_middleware.simps, simp add: apply_result_def)
  then show ?case using 0 j by blast
next
  case (Suc m)
  then have j: "j < k" "j + 1 < length S" "j < max_resets" using assms(1,2) by auto
  obtain T where f: "flip i e s w =
      ((nothing s)\<lparr>res_data := (st_data s)\<lparr>data_flip := Some (j + 1, T)\<rparr>,
                   res_reset := Some (Reset_placement (Some (S ! (j + 1))))\<rparr>, w)"
    using flip_goes_on [OF Suc.prems(3) _ _ cross] Suc.prems(2) j S by blast
  define s' where "s' = place_again (is_rtl i w)
    (s\<lparr>st_data := (st_data s)\<lparr>data_flip := Some (j + 1, T)\<rparr>, st_placement := S ! (j + 1)\<rparr>)"
  have "run_middleware i (is_rtl i w) [Some (flip i e)] 0 j s w =
      run_middleware i (is_rtl i w) [Some (flip i e)] 0 (j + 1) s' w"
    using j(3) by (subst run_middleware.simps)
      (simp add: f Let_def apply_reset_def apply_result_def nothing_def s'_def)
  moreover have "flip_trying i e w r (j + 1) s'"
    using Suc.prems(3) by (simp add: flip_trying_def s'_def place_again_def Let_def S)
  moreover have "\<forall>m. j + 1 \<le> m \<longrightarrow> m < k \<longrightarrow> \<not> placement_fits i e w (S ! m)" using Suc.prems(2) by simp
  ultimately show ?case using Suc.hyps(1) [of "j + 1" s'] Suc.hyps(2) j(1) by simp
qed



subsection \<open>A window with a reference near its lower edge\<close>

definition small_window :: "'w platform" where
  "small_window =
     (let l = \<lparr>reference = \<lparr>rx = 10, ry = 80, rwidth = 20, rheight = 10\<rparr>,
               floating = \<lparr>rx = 0, ry = 0, rwidth = 20, rheight = 30\<rparr>\<rparr>
      in \<lparr>is_rtl = (\<lambda>_. False), element_rects = (\<lambda>_. l), element_rects_of = (\<lambda>_ r. l\<lparr>reference := r\<rparr>),
          client_rects = (\<lambda>_. []), clipping_rect = (\<lambda>_ _ _ _. \<lparr>rx = 0, ry = 0, rwidth = 100, rheight = 100\<rparr>),
          offset_scale = (\<lambda>_. None), to_viewport = (\<lambda>_. None), floating_dimensions = (\<lambda>_. (20, 30)),
          arrow_dimensions = (\<lambda>_. \<lparr>rx = 0, ry = 0, rwidth = 4, rheight = 4\<rparr>),
          arrow_parent_size = (\<lambda>_ _. None), floating_client_size = (\<lambda>_ _. 0)\<rparr>)"

definition plain_detect :: detect_options where
  "plain_detect = \<lparr>opt_boundary = ''clippingAncestors'', opt_rootBoundary = ''viewport'',
     opt_elementContext = Context_floating, opt_altBoundary = False, opt_padding = Pad_all 0\<rparr>"

definition plain_flip :: flip_options where
  "plain_flip = \<lparr>flip_mainAxis = True, flip_crossAxis = Cross_on, flip_fallbackPlacements = None,
     flip_fallbackStrategy = Best_fit, flip_fallbackAxisSideDirection = No_direction,
     flip_flipAlignment = True, flip_detect = plain_detect\<rparr>"

lemmas window_eval =
  small_window_def plain_detect_def plain_flip_def Let_def flip_candidates_def get_alignment_def
  get_side_def opposite_placement_def placement_fits_def flip_overflows_def alignment_sides_def
  alignment_axis_def side_axis_def axis_length_def detect_overflow_def rect_to_client_def
  placed_state_def place_again_def coords_from_placement_def


text \<open>A middleware that asks for a reset every time, in a world that counts its calls.\<close>

theorem compute_position_bounded_witness:
  "snd (compute_position small_window (Placement Bottom None)
     [Some (\<lambda>t (w :: nat). ((nothing t)\<lparr>res_reset := Some Reset\<rparr>, w + 1))] 0) \<le> 51"
  using compute_position_bounded [of "[Some (\<lambda>t (w :: nat). ((nothing t)\<lparr>res_reset := Some Reset\<rparr>, w + 1))]"
      id small_window "Placement Bottom None" 0]
  by simp

text \<open>An element that sticks out ten to the left is moved to the edge.\<close>

theorem shift_into_boundary_witness:
  "let t = (placed_state (element_rects small_window ()) False (Placement Bottom None))\<lparr>st_x := -10\<rparr>;
       e = \<lparr>shift_mainAxis = True, shift_crossAxis = False, shift_detect = plain_detect\<rparr>;
       t' = apply_result (fst (shift small_window e no_limit t ())) t
   in leftside (detect_overflow small_window t' plain_detect ()) \<le> 0"
  using shift_into_boundary [THEN conjunct1, of small_window "()"
      "\<lparr>shift_mainAxis = True, shift_crossAxis = False, shift_detect = plain_detect\<rparr>"
      "(placed_state (element_rects small_window ()) False (Placement Bottom None))\<lparr>st_x := -10\<rparr>"]
  by (simp add: Let_def plain_detect_def small_window_def start_overflow_def side_axis_def get_side_def
      placed_state_def place_again_def)

end
