(* ===== verification/Css_Style.thy ===== *)
theory Css_Style
  imports Complex_Main Prelude
begin

text \<open>
  Style objects of the console's components: properties in insertion order. Spreading one object into
  another keeps the place of a property that is already there and replaces its value.
\<close>

datatype css_value = Css_text string | Css_number real | Css_undefined

type_synonym css = "(string, css_value) js_map"

definition spread :: "('k, 'v) js_map \<Rightarrow> ('k, 'v) js_map \<Rightarrow> ('k, 'v) js_map" where
  "spread a b = fold (\<lambda>(k, v) m. map_set k v m) b a"

lemma spread_keys: "set (map fst (spread a b)) = set (map fst a) \<union> set (map fst b)"
proof (induction b arbitrary: a)
  case Nil
  then show ?case by (simp add: spread_def)
next
  case (Cons x b)
  obtain k v where x: "x = (k, v)" by (cases x)
  have "spread a (x # b) = spread (map_set k v a) b" by (simp add: spread_def x)
  moreover have "set (map fst (map_set k v a)) = insert k (set (map fst a))" by (auto simp: update_keys)
  ultimately show ?case using Cons [of "map_set k v a"] by (auto simp: x)
qed

text \<open>The last object that has a property decides it.\<close>

lemma map_of_spread:
  assumes "distinct (map fst b)"
  shows "map_of (spread a b) = map_of a ++ map_of b"
  using assms
proof (induction b arbitrary: a)
  case Nil
  then show ?case by (simp add: spread_def)
next
  case (Cons x b)
  obtain k v where x: "x = (k, v)" by (cases x)
  have "spread a (x # b) = spread (map_set k v a) b" by (simp add: spread_def x)
  moreover have "k \<notin> dom (map_of b)" using Cons.prems by (simp add: x dom_map_of_conv_image_fst)
  ultimately show ?case using Cons
    by (auto simp: x update_conv' fun_eq_iff map_add_def domIff split: option.splits)
qed

end
