(* ===== verification/Floating_Arrow.thy ===== *)
theory Floating_Arrow
  imports Css_Style Floating_Position
begin

text \<open>
  The arrow of a drop-down or tooltip, as bundled into \<open>app.js\<close>: Mantine's arrow styles, the corner
  a merged arrow squares off, and the position a page written from right to left asks for. Sizes are
  real numbers; an arrow position that is not known is \<open>undefined\<close>.
\<close>

datatype arrow_position = Arrow_center | Arrow_side | Arrow_merge

fun side_name :: "side \<Rightarrow> string" where
  "side_name Top = ''top''"
| "side_name Right = ''right''"
| "side_name Bottom = ''bottom''"
| "side_name Left = ''left''"

definition known :: "real option \<Rightarrow> css_value" where
  "known t = (case t of Some x \<Rightarrow> Css_number x | None \<Rightarrow> Css_undefined)"

text \<open>The missing alignment is the alignment \<open>center\<close>.\<close>

definition vertical_arrow :: "alignment option \<Rightarrow> real option \<Rightarrow> real \<Rightarrow> arrow_position \<Rightarrow> css" where
  "vertical_arrow e t n r =
     (if e = None \<or> r = Arrow_center then [(''top'', known t)]
      else if e = Some End then [(''bottom'', Css_number n)]
      else if e = Some Start then [(''top'', Css_number n)]
      else [])"

definition horizontal_arrow :: "alignment option \<Rightarrow> real option \<Rightarrow> real \<Rightarrow> arrow_position \<Rightarrow> bool \<Rightarrow> css" where
  "horizontal_arrow e t n r ltr =
     (if e = None \<or> r = Arrow_center then [(''left'', known t)]
      else if e = Some End then [(if ltr then ''right'' else ''left'', Css_number n)]
      else if e = Some Start then [(if ltr then ''left'' else ''right'', Css_number n)]
      else [])"

fun radius_by_side :: "side \<Rightarrow> string" where
  "radius_by_side Bottom = ''borderTopLeftRadius''"
| "radius_by_side Left = ''borderTopRightRadius''"
| "radius_by_side Right = ''borderBottomLeftRadius''"
| "radius_by_side Top = ''borderBottomRightRadius''"

definition merged_arrow :: "placement \<Rightarrow> real \<Rightarrow> bool \<Rightarrow> css option" where
  "merged_arrow e t ltr =
     (case get_alignment e of
        None \<Rightarrow> None
      | Some i \<Rightarrow>
          (let a = [(''width'', Css_number t), (''height'', Css_number t), (''position'', Css_text ''absolute'')];
               start = (i = Start);
               across = (if start then (if ltr then ''left'' else ''right'') else (if ltr then ''right'' else ''left''));
               along = (if start then ''top'' else ''bottom'')
           in Some (case get_side e of
                Bottom \<Rightarrow> spread a
                  [(''top'', Css_number (- t)), (across, Css_number 0),
                   (''clipPath'', Css_text (if start = (\<not> ltr) then ''polygon(100% 0%, 0% 100%, 100% 100%)''
                                            else ''polygon(0% 0%, 0% 100%, 100% 100%)''))]
              | Top \<Rightarrow> spread a
                  [(''bottom'', Css_number (- t)), (across, Css_number 0),
                   (''clipPath'', Css_text (if start = (\<not> ltr) then ''polygon(0% 0%, 100% 0%, 100% 100%)''
                                            else ''polygon(0% 0%, 100% 0%, 0% 100%)''))]
              | Left \<Rightarrow> spread a
                  [(''right'', Css_number (- t)), (along, Css_number 0),
                   (''clipPath'', Css_text (if start then ''polygon(0% 0%, 100% 0%, 0% 100%)''
                                            else ''polygon(0% 0%, 0% 100%, 100% 100%)''))]
              | Right \<Rightarrow> spread a
                  [(''left'', Css_number (- t)), (along, Css_number 0),
                   (''clipPath'', Css_text (if start then ''polygon(0% 0%, 100% 0%, 100% 100%)''
                                            else ''polygon(100% 0%, 0% 100%, 100% 100%)''))])))"

record arrow_props =
  arrow_size :: real
  arrow_offset :: real
  arrow_radius :: real
  arrow_place :: arrow_position
  arrow_x :: "real option"
  arrow_y :: "real option"

definition arrow_styles :: "placement \<Rightarrow> arrow_props \<Rightarrow> bool \<Rightarrow> css" where
  "arrow_styles e p ltr =
     (case (if arrow_place p = Arrow_merge then merged_arrow e (arrow_size p) ltr else None) of
        Some n \<Rightarrow> n
      | None \<Rightarrow>
          (let t = arrow_size p; c = get_side e; l = get_alignment e; n = arrow_offset p; i = arrow_place p;
               u = spread [(''width'', Css_number t), (''height'', Css_number t),
                           (''transform'', Css_text ''rotate(45deg)''), (''position'', Css_text ''absolute'')]
                     [(radius_by_side c, Css_number (arrow_radius p))];
               d = Css_number (- t / 2); none = Css_text ''transparent''
           in case c of
                Left \<Rightarrow> spread (spread u (vertical_arrow l (arrow_y p) n i))
                  [(''right'', d), (''borderLeftColor'', none), (''borderBottomColor'', none),
                   (''clipPath'', Css_text ''polygon(100% 0, 0 0, 100% 100%)'')]
              | Right \<Rightarrow> spread (spread u (vertical_arrow l (arrow_y p) n i))
                  [(''left'', d), (''borderRightColor'', none), (''borderTopColor'', none),
                   (''clipPath'', Css_text ''polygon(0 100%, 0 0, 100% 100%)'')]
              | Top \<Rightarrow> spread (spread u (horizontal_arrow l (arrow_x p) n i ltr))
                  [(''bottom'', d), (''borderTopColor'', none), (''borderLeftColor'', none),
                   (''clipPath'', Css_text ''polygon(0 100%, 100% 100%, 100% 0)'')]
              | Bottom \<Rightarrow> spread (spread u (horizontal_arrow l (arrow_x p) n i ltr))
                  [(''top'', d), (''borderBottomColor'', none), (''borderRightColor'', none),
                   (''clipPath'', Css_text ''polygon(0 100%, 0 0, 100% 0)'')]))"

text \<open>The corner of the drop-down where a merged arrow joins it.\<close>

definition squared_corner :: "placement \<Rightarrow> bool \<Rightarrow> css option" where
  "squared_corner e ltr =
     (case get_alignment e of
        None \<Rightarrow> None
      | Some r \<Rightarrow>
          (let i = (r = Start \<and> ltr \<or> r = End \<and> \<not> ltr)
           in Some (case get_side e of
                Bottom \<Rightarrow> if i then [(''borderTopLeftRadius'', Css_number 0)] else [(''borderTopRightRadius'', Css_number 0)]
              | Top \<Rightarrow> if i then [(''borderBottomLeftRadius'', Css_number 0)] else [(''borderBottomRightRadius'', Css_number 0)]
              | Left \<Rightarrow> if r = Start then [(''borderTopRightRadius'', Css_number 0)]
                        else [(''borderBottomRightRadius'', Css_number 0)]
              | Right \<Rightarrow> if r = Start then [(''borderTopLeftRadius'', Css_number 0)]
                         else [(''borderBottomLeftRadius'', Css_number 0)])))"

text \<open>The arrow element's style, over the style it is given; \<open>None\<close> renders nothing.\<close>

definition floating_arrow :: "bool \<Rightarrow> css \<Rightarrow> placement \<Rightarrow> arrow_props \<Rightarrow> bool \<Rightarrow> css option" where
  "floating_arrow visible c e p ltr = (if visible then Some (spread c (arrow_styles e p ltr)) else None)"

definition floating_position :: "bool \<Rightarrow> placement \<Rightarrow> placement" where
  "floating_position rtl t =
     (if rtl \<and> (get_side t = Right \<or> get_side t = Left)
      then Placement (if get_side t = Right then Left else Right) (get_alignment t) else t)"

subsection \<open>Properties\<close>

lemma spread_simps [simp]:
  "spread a [] = a" "spread a ((k, v) # b) = spread (map_set k v a) b"
  by (simp_all add: spread_def)

lemma floating_position_twice: "floating_position b (floating_position b t) = t"
  by (cases t) (auto simp: floating_position_def get_side_def get_alignment_def)

text \<open>The arrow sticks out of the edge of the drop-down that faces the reference, by half its size,
  or by its size where it is merged into a corner; the edge it sticks out of is set by nothing else.\<close>

theorem arrow_faces_reference:
  "map_of (arrow_styles e p ltr) (side_name (opposite_side (get_side e))) =
     Some (Css_number (if arrow_place p = Arrow_merge \<and> get_alignment e \<noteq> None then - arrow_size p else - arrow_size p / 2))"
proof (cases "arrow_place p = Arrow_merge \<and> get_alignment e \<noteq> None")
  case True
  then obtain i where "get_alignment e = Some i" by auto
  with True show ?thesis
    by (cases "get_side e"; cases i; cases ltr) (simp_all add: arrow_styles_def merged_arrow_def Let_def)
next
  case False
  then have "(if arrow_place p = Arrow_merge then merged_arrow e (arrow_size p) ltr else None) = None"
    by (auto simp: merged_arrow_def)
  then show ?thesis using False
    by (cases "get_side e") (auto simp: arrow_styles_def Let_def update_conv')
qed

text \<open>A merged arrow joins the drop-down at the corner that is squared off.\<close>

lemma squared_corner_defined: "squared_corner e ltr = None \<longleftrightarrow> merged_arrow e t ltr = None"
  by (auto simp: squared_corner_def merged_arrow_def Let_def split: option.splits)

end
