(* ===== verification/Number_Format.thy ===== *)
theory Number_Format
  imports Main
begin

text \<open>
  The text side of the console's number fields: the functions of \<open>react-number-format.es.js\<close> bundled
  into \<open>app.js\<close> that format a numeric string, take the format off again, find what an edit
  changed and put the caret. Decimal separators are single characters, as the library requires;
  texts hold no line breaks and separators no \<open>$\<close>. A numeric string is what the field keeps as its
  value: an optional minus, digits, an optional point with digits.
\<close>

subsection \<open>Strings\<close>

definition is_digit :: "char \<Rightarrow> bool" where
  "is_digit c \<longleftrightarrow> c \<in> set ''0123456789''"

definition has_digit :: "string \<Rightarrow> bool" where
  "has_digit e = list_ex is_digit e"

definition char_has_digit :: "char option \<Rightarrow> bool" where
  "char_has_digit e = (case e of None \<Rightarrow> False | Some c \<Rightarrow> is_digit c)"

text \<open>\<open>e[k]\<close>, \<open>undefined\<close> out of range, and \<open>substring\<close>, which clamps and orders its bounds.\<close>

definition char_at :: "string \<Rightarrow> int \<Rightarrow> char option" where
  "char_at e k = (if 0 \<le> k \<and> k < int (length e) then Some (e ! nat k) else None)"

definition js_substring :: "string \<Rightarrow> int \<Rightarrow> int \<Rightarrow> string" where
  "js_substring e a b =
     (let lo = max 0 (min (min a b) (int (length e))); hi = max 0 (min (max a b) (int (length e)))
      in take (nat (hi - lo)) (drop (nat lo) e))"

definition starts_with :: "string \<Rightarrow> string \<Rightarrow> bool" where
  "starts_with e p \<longleftrightarrow> take (length p) e = p"

definition ends_with :: "string \<Rightarrow> string \<Rightarrow> bool" where
  "ends_with e p \<longleftrightarrow> length p \<le> length e \<and> drop (length e - length p) e = p"

text \<open>The parts of \<open>split(".")\<close> the code reads: the first, and the second or the empty string.\<close>

definition before_dot :: "string \<Rightarrow> string" where
  "before_dot e = takeWhile (\<lambda>c. c \<noteq> CHR ''.'') e"

definition after_dot :: "string \<Rightarrow> string" where
  "after_dot e = takeWhile (\<lambda>c. c \<noteq> CHR ''.'') (drop 1 (dropWhile (\<lambda>c. c \<noteq> CHR ''.'') e))"

subsection \<open>Grouping and numeric strings\<close>

datatype group_style = Thousand | Lakh | Wan

text \<open>
  The regular expressions match a digit by the run of digits behind it: a multiple of three for
  thousands, of four for wan, an odd number from three on for lakh.
\<close>

fun group_here :: "group_style \<Rightarrow> nat \<Rightarrow> bool" where
  "group_here Thousand k = (0 < k \<and> 3 dvd k)"
| "group_here Wan k = (0 < k \<and> 4 dvd k)"
| "group_here Lakh k = (3 \<le> k \<and> odd k)"

fun insert_groups :: "string \<Rightarrow> group_style \<Rightarrow> string \<Rightarrow> string" where
  "insert_groups t n [] = []"
| "insert_groups t n (c # e) =
     (if is_digit c \<and> group_here n (length (takeWhile is_digit e)) then c # t @ insert_groups t n e
      else c # insert_groups t n e)"

definition apply_thousand_separator :: "string \<Rightarrow> string \<Rightarrow> group_style \<Rightarrow> string" where
  "apply_thousand_separator e t n =
     (let z = (\<lambda>c. c \<notin> set ''123456789'')
      in takeWhile z e @ insert_groups t n (dropWhile z e))"

record split_parts =
  beforeDecimal :: string
  afterDecimal :: string
  hasNegation :: bool
  addNegation :: bool

definition split_decimal :: "string \<Rightarrow> bool \<Rightarrow> split_parts" where
  "split_decimal e t =
     (let n = (char_at e 0 = Some CHR ''-''); e' = remove1 CHR ''-'' e
      in \<lparr>beforeDecimal = before_dot e', afterDecimal = after_dot e', hasNegation = n, addNegation = (n \<and> t)\<rparr>)"

definition fix_leading_zero :: "string \<Rightarrow> string" where
  "fix_leading_zero e =
     (if e = [] then e
      else (let t = (char_at e 0 = Some CHR ''-''); e' = (if t then drop 1 e else e);
                r = dropWhile (\<lambda>c. c = CHR ''0'') (before_dot e'); r' = (if r = [] then ''0'' else r);
                i = after_dot e'
            in (if t then ''-'' else []) @ r' @ (if i = [] then [] else CHR ''.'' # i)))"

definition limit_to_scale :: "string \<Rightarrow> nat \<Rightarrow> bool \<Rightarrow> string" where
  "limit_to_scale e t n =
     concat (map (\<lambda>a. if a < length e then [e ! a] else if n then ''0'' else []) [0..<t])"

definition repeat_string :: "string \<Rightarrow> nat \<Rightarrow> string" where
  "repeat_string e t = concat (replicate t e)"

text \<open>\<open>Number\<close> of the exponent JavaScript prints: a sign or none, and digits. No exponent is \<open>NaN\<close>.\<close>

definition digit_value :: "char \<Rightarrow> nat" where
  "digit_value c = of_char c - 48"

definition digits_value :: "string \<Rightarrow> nat" where
  "digits_value ds = foldl (\<lambda>v c. 10 * v + digit_value c) 0 ds"

definition exponent_value :: "string \<Rightarrow> int" where
  "exponent_value a =
     (case a of
        [] \<Rightarrow> 0
      | c # ds \<Rightarrow> if c = CHR ''-'' then - int (digits_value ds)
                 else if c = CHR ''+'' then int (digits_value ds) else int (digits_value a))"

definition is_e :: "char \<Rightarrow> bool" where
  "is_e c \<longleftrightarrow> c = CHR ''e'' \<or> c = CHR ''E''"

text \<open>\<open>toNumericString\<close> of the text JavaScript gives a number, which may have an exponent.\<close>

definition to_numeric_string :: "string \<Rightarrow> string" where
  "to_numeric_string t0 =
     (let n = (if char_at t0 0 = Some CHR ''-'' then ''-'' else []);
          t = (if n \<noteq> [] then drop 1 t0 else t0);
          i = takeWhile (\<lambda>c. \<not> is_e c) t;
          a = exponent_value (takeWhile (\<lambda>c. \<not> is_e c) (drop 1 (dropWhile (\<lambda>c. \<not> is_e c) t)))
      in if a = 0 then n @ i
         else (let i' = remove1 CHR ''.'' i; k = 1 + a; s = int (length i')
               in n @ (if k < 0 then ''0.'' @ repeat_string ''0'' (nat \<bar>k\<bar>) @ i'
                       else if k \<ge> s then i' @ repeat_string ''0'' (nat (k - s))
                       else (if take (nat k) i' = [] then ''0'' else take (nat k) i') @ ''.'' @ drop (nat k) i')))"

subsection \<open>What an edit changed\<close>

record change =
  from_start :: int
  from_end :: int
  to_start :: int
  to_end :: int

fun common_prefix :: "string \<Rightarrow> string \<Rightarrow> nat" where
  "common_prefix (a # e) (b # t) = (if a = b then Suc (common_prefix e t) else 0)"
| "common_prefix _ _ = 0"

text \<open>The code compares with \<open>undefined\<close> past the shorter string: the scan stops there.\<close>

definition find_change_range :: "string \<Rightarrow> string \<Rightarrow> change" where
  "find_change_range e t =
     (let n = common_prefix e t; r = common_prefix (rev (drop n e)) (rev (drop n t))
      in \<lparr>from_start = int n, from_end = int (length e - r), to_start = int n, to_end = int (length t - r)\<rparr>)"

definition default_change :: "string \<Rightarrow> change" where
  "default_change e = \<lparr>from_start = 0, from_end = 0, to_start = 0, to_end = int (length e)\<rparr>"

subsection \<open>Formatting\<close>

record number_props =
  decimalScale :: "nat option"
  fixedDecimalScale :: bool
  prefix :: string
  suffix :: string
  allowNegative :: bool
  thousandsGroupStyle :: group_style
  thousandSeparator :: string
  decimalSeparator :: char
  allowedDecimalSeparators :: "char list"

definition get_separators :: "string option option \<Rightarrow> char option \<Rightarrow> char list option \<Rightarrow> string \<times> char \<times> char list" where
  "get_separators n t r =
     (let t' = (case t of None \<Rightarrow> CHR ''.'' | Some c \<Rightarrow> c);
          n' = (case n of None \<Rightarrow> [] | Some None \<Rightarrow> '','' | Some (Some v) \<Rightarrow> v)
      in (n', t', case r of None \<Rightarrow> [t', CHR ''.''] | Some v \<Rightarrow> v))"

definition shows_decimal :: "number_props \<Rightarrow> string \<Rightarrow> bool" where
  "shows_decimal t e \<longleftrightarrow>
     decimalScale t \<noteq> Some 0 \<and> CHR ''.'' \<in> set e \<or>
     (case decimalScale t of None \<Rightarrow> False | Some n \<Rightarrow> n \<noteq> 0 \<and> fixedDecimalScale t)"

definition format_number :: "string \<Rightarrow> number_props \<Rightarrow> string" where
  "format_number e t =
     (if e = [] \<or> e = ''-'' then e
      else
        (let f = split_decimal e (allowNegative t);
             p = beforeDecimal f;
             m = (case decimalScale t of None \<Rightarrow> afterDecimal f
                  | Some n \<Rightarrow> limit_to_scale (afterDecimal f) n (fixedDecimalScale t));
             p1 = (if thousandSeparator t \<noteq> [] then apply_thousand_separator p (thousandSeparator t) (thousandsGroupStyle t) else p);
             p2 = prefix t @ p1;
             m1 = m @ suffix t;
             p3 = (if addNegation f then CHR ''-'' # p2 else p2)
         in p3 @ (if shows_decimal t e then [decimalSeparator t] else []) @ m1))"

definition handle_negation :: "string \<Rightarrow> bool \<Rightarrow> string" where
  "handle_negation e t =
     (let k = count_list e CHR ''-''; e' = filter (\<lambda>c. c \<noteq> CHR ''-'') e
      in if 0 < k \<and> \<not> 1 < k \<and> t then CHR ''-'' # e' else e')"

definition strip_negation :: "number_props \<Rightarrow> string \<Rightarrow> int \<Rightarrow> int \<Rightarrow> string \<times> int \<times> int \<times> bool" where
  "strip_negation p e t n =
     (let i = (\<not> starts_with (prefix p) ''-'' \<and> starts_with e ''--'');
          r = (if starts_with (prefix p) ''-'' \<or> starts_with e ''--'' then False
               else if starts_with (suffix p) ''-'' \<and> length e = length (suffix p) then False
               else char_at e 0 = Some CHR ''-'');
          s = (if i then 2 else if r then 1 else 0)
      in (drop s e, t - int s, n - int s, r))"

text \<open>The characters \<open>match(/(^-)|[0-9]|m/g)\<close> keeps.\<close>

definition keep_numeric :: "char \<Rightarrow> string \<Rightarrow> string" where
  "keep_numeric m e =
     (case e of [] \<Rightarrow> []
      | c # r \<Rightarrow> (if c = CHR ''-'' \<or> is_digit c \<or> c = m then [c] else []) @ filter (\<lambda>x. is_digit x \<or> x = m) r)"

fun dot_first :: "char \<Rightarrow> string \<Rightarrow> string" where
  "dot_first m [] = []"
| "dot_first m (c # e) = (if c = m then CHR ''.'' # filter (\<lambda>x. x \<noteq> m) e else c # dot_first m e)"

definition remove_formatting :: "string \<Rightarrow> change \<Rightarrow> string \<Rightarrow> number_props \<Rightarrow> string" where
  "remove_formatting e0 t lastValue n =
     (let u0 = to_start t; d0 = to_end t; m = decimalSeparator n; a = prefix n; z = suffix n;
          h = (char_at e0 d0 = Some m)
      in if has_digit e0 \<and> (e0 = a \<or> e0 = z) \<and> lastValue = [] then e0
         else
           (let e1 = (if d0 - u0 = 1 \<and> (case char_at e0 u0 of None \<Rightarrow> False | Some c \<Rightarrow> c \<in> set (allowedDecimalSeparators n))
                      then js_substring e0 0 u0 @ (if decimalScale n = Some 0 then [] else [m]) @
                           js_substring e0 (u0 + 1) (int (length e0))
                      else e0);
                (e2, u, d, y) = strip_negation n e1 u0 d0;
                (C, x, S, _) = strip_negation n lastValue (from_start t) (from_end t);
                w = js_substring e2 u d;
                e3 = (if e2 \<noteq> [] \<and> C \<noteq> [] \<and>
                         (x > int (length C) - int (length z) \<or> S < int (length a)) \<and> \<not> (w \<noteq> [] \<and> starts_with z w)
                      then C else e2);
                T = (if starts_with e3 a then int (length a) else if u < int (length a) then u else 0);
                e4 = js_substring e3 T (int (length e3));
                d' = d - T;
                ee = int (length e4) - int (length z);
                E = (if ends_with e4 z then ee else if d' > ee then d' else int (length e4));
                e5 = js_substring e4 0 E;
                e6 = handle_negation (if y then CHR ''-'' # e5 else e5) (allowNegative n);
                e7 = dot_first m (keep_numeric m e6);
                f = split_decimal e7 (allowNegative n)
            in if to_end t - to_start t < from_end t - from_start t \<and> beforeDecimal f = [] \<and> h \<and>
                  list_all (\<lambda>c. c = CHR ''0'') (afterDecimal f)
               then (if addNegation f then ''-'' else [])
               else e7))"

subsection \<open>The caret\<close>

definition clamp_int :: "int \<Rightarrow> int \<Rightarrow> int \<Rightarrow> int" where
  "clamp_int e t n = min (max e t) n"

definition allowed_at :: "bool list \<Rightarrow> int \<Rightarrow> bool" where
  "allowed_at n t \<longleftrightarrow> 0 \<le> t \<and> t < int (length n) \<and> n ! nat t"

definition first_true :: "bool list \<Rightarrow> int" where
  "first_true n = (if True \<in> set n then int (length (takeWhile Not n)) else -1)"

definition last_true :: "bool list \<Rightarrow> int" where
  "last_true n = (if True \<in> set n then int (length n - 1 - length (takeWhile Not (rev n))) else -1)"

function caret_left :: "bool list \<Rightarrow> int \<Rightarrow> int" where
  "caret_left n t = (if t \<ge> 0 \<and> \<not> allowed_at n t then caret_left n (t - 1) else t)"
  by pat_completeness auto
termination
  by (relation "measure (\<lambda>(n, t). nat (t + 1))") auto

function caret_right :: "bool list \<Rightarrow> int \<Rightarrow> int \<Rightarrow> int" where
  "caret_right n i t = (if t \<le> i \<and> \<not> allowed_at n t then caret_right n i (t + 1) else t)"
  by pat_completeness auto
termination
  by (relation "measure (\<lambda>(n, i, t). nat (i + 1 - t))") auto

declare caret_left.simps [simp del] caret_right.simps [simp del]

datatype direction = To_left | To_right

definition caret_in_boundary :: "string \<Rightarrow> int \<Rightarrow> bool list \<Rightarrow> direction \<Rightarrow> int" where
  "caret_in_boundary e t0 n r =
     (let i = int (length e); t1 = clamp_int t0 0 i;
          t = (case r of
                 To_left \<Rightarrow> (let k = caret_left n t1 in if k = -1 then first_true n else k)
               | To_right \<Rightarrow> (let k = caret_right n i t1 in if k > i then last_true n else k))
      in if t = -1 then i else t)"

definition unknown_format_boundary :: "string \<Rightarrow> bool list" where
  "unknown_format_boundary e =
     map (\<lambda>n. char_has_digit (char_at e (int n)) \<or> char_has_digit (char_at e (int n - 1))) [0..<length e + 1]"

text \<open>\<open>fill(false, a, b)\<close>: a negative bound counts from the end.\<close>

definition fill_false :: "bool list \<Rightarrow> int \<Rightarrow> int \<Rightarrow> bool list" where
  "fill_false v a b =
     (let l = int (length v); rel = (\<lambda>k. if k < 0 then max 0 (l + k) else min k l)
      in map (\<lambda>(n, x). if rel a \<le> int n \<and> int n < rel b then False else x) (enumerate 0 v))"

definition number_boundary :: "string \<Rightarrow> string \<Rightarrow> string \<Rightarrow> bool list" where
  "number_boundary e n r =
     (let i = replicate (length e + 1) True; a = (char_at e 0 = Some CHR ''-'');
          i1 = fill_false i 0 (int (min (length n + of_bool a) (length e)));
          z = int (length e)
      in fill_false i1 (z - int (length r) + 1) (z + 1))"

text \<open>Where the caret goes when the text \<open>n\<close> with the caret at \<open>r\<close> becomes the formatted \<open>e\<close>.\<close>

fun match_chars :: "(nat \<Rightarrow> nat \<Rightarrow> bool) \<Rightarrow> nat \<Rightarrow> nat list \<Rightarrow> nat set \<Rightarrow> nat option list" where
  "match_chars same u [] used = []"
| "match_chars same u (p # ps) used =
     (case find (\<lambda>m. same p m \<and> m \<notin> used) [0..<u] of
        None \<Rightarrow> None # match_chars same u ps used
      | Some m \<Rightarrow> Some m # match_chars same u ps (insert m used))"

fun scan_right :: "nat \<Rightarrow> (nat \<Rightarrow> bool) \<Rightarrow> nat \<Rightarrow> nat \<Rightarrow> nat" where
  "scan_right 0 bad l g = g"
| "scan_right (Suc k) bad l g = (if g < l \<and> bad g then scan_right k bad l (g + 1) else g)"

fun scan_left :: "(nat \<Rightarrow> bool) \<Rightarrow> nat \<Rightarrow> nat" where
  "scan_left bad 0 = 0"
| "scan_left bad (Suc g) = (if bad (Suc g) then scan_left bad g else Suc g)"

definition caret_position ::
  "string \<Rightarrow> string \<Rightarrow> string \<Rightarrow> nat \<Rightarrow> bool list \<Rightarrow> (char \<Rightarrow> bool) \<Rightarrow> nat" where
  "caret_position e t0 n0 r0 i a =
     (let k = first_true i; c = take (nat (if k < 0 then max 0 (int (length e) + k) else k)) e;
          fix = (t0 = [] \<and> \<not> starts_with n0 c);
          n = (if fix then c @ n0 else n0); r = (if fix then r0 + length c else r0);
          l = length n; u = length e;
          f = match_chars (\<lambda>p m. n ! p = e ! m) u [0..<l] {};
          g = scan_right (l + 1) (\<lambda>g. f ! g = None \<or> \<not> a (n ! g)) l r;
          v = (if g \<ge> l then u else case f ! g of None \<Rightarrow> u | Some m \<Rightarrow> m);
          q = (if r = 0 then None else Some (scan_left (\<lambda>g. f ! g = None) (r - 1)));
          w = (case q of None \<Rightarrow> 0 | Some g \<Rightarrow> (case (if g < l then f ! g else None) of None \<Rightarrow> 0 | Some m \<Rightarrow> m + 1))
      in if w > v then v else if int r - int w < int v - int r then w else v)"


subsection \<open>An edit of the field\<close>

text \<open>The properties a field is made with: equal separators are refused.\<close>

datatype props_error = Same_separators char

definition validate_props :: "number_props \<Rightarrow> props_error + number_props" where
  "validate_props e =
     (if thousandSeparator e = [decimalSeparator e] then Inl (Same_separators (decimalSeparator e))
      else Inr (if starts_with (prefix e) ''-'' \<and> allowNegative e then e\<lparr>allowNegative := False\<rparr> else e))"

record selection =
  selectionStart :: int
  selectionEnd :: int

definition range_from_selection :: "selection \<Rightarrow> int \<Rightarrow> change" where
  "range_from_selection e t =
     (let n = min (selectionStart e) t
      in \<lparr>from_start = n, from_end = selectionEnd e, to_start = n, to_end = t\<rparr>)"

definition current_caret :: "selection \<Rightarrow> int" where
  "current_caret e = max (selectionStart e) (selectionEnd e)"

record shown_value =
  formattedValue :: string
  numAsString :: string

datatype edit_result = Refused shown_value | Accepted shown_value

text \<open>
  The field's change handler: the new text \<open>e\<close> is stripped with the range of the edit, formatted,
  and the formatted text stripped again; \<open>is_allowed\<close> may refuse the outcome, and then the field
  shows the old text.
\<close>

definition change_value ::
  "number_props \<Rightarrow> (shown_value \<Rightarrow> bool) option \<Rightarrow> selection option \<Rightarrow> shown_value \<Rightarrow> string \<Rightarrow> int \<Rightarrow> edit_result" where
  "change_value p is_allowed sel old e caret =
     (let i = (case sel of Some s \<Rightarrow> range_from_selection s caret | None \<Rightarrow> find_change_range (formattedValue old) e);
          c = format_number (remove_formatting e i (formattedValue old) p) p;
          n = remove_formatting c (default_change c) [] p;
          new = \<lparr>formattedValue = c, numAsString = n\<rparr>
      in case is_allowed of
           Some ok \<Rightarrow> if ok new then Accepted new else Refused old
         | None \<Rightarrow> Accepted new)"

datatype key = Arrow_left | Arrow_right | Backspace | Delete | Other_key

text \<open>Where a key puts the caret before the browser acts on it, and whether the browser still does.\<close>

definition key_move :: "string \<Rightarrow> bool list \<Rightarrow> (char \<Rightarrow> bool) \<Rightarrow> key \<Rightarrow> selection \<Rightarrow> int option \<times> bool" where
  "key_move a v y n s =
     (let r = selectionStart s; i = selectionEnd s;
          target = (case n of
                      Arrow_left \<Rightarrow> Some (max (r - 1) 0) | Backspace \<Rightarrow> Some (max (r - 1) 0)
                    | Arrow_right \<Rightarrow> Some (min (r + 1) (int (length a)))
                    | Delete \<Rightarrow> Some r | Other_key \<Rightarrow> None);
          c = (n = Arrow_left \<or> n = Arrow_right);
          valid = (\<lambda>k. case char_at a k of Some z \<Rightarrow> y z | None \<Rightarrow> False)
      in case target of
           None \<Rightarrow> (None, False)
         | Some k \<Rightarrow>
             if r \<noteq> i \<and> \<not> c then (None, False)
             else (let l = (if c then caret_in_boundary a k v (if n = Arrow_left then To_left else To_right)
                            else if n = Delete \<and> \<not> valid k then caret_in_boundary a k v To_right
                            else if n = Backspace \<and> \<not> valid k then caret_in_boundary a k v To_left
                            else k)
                   in (if l \<noteq> k then Some l else None, c \<and> l \<noteq> k)))"

text \<open>
  The number field's own key handler: the carets it sets, in order, and whether it stops the key.
  \<open>absent\<close>: no thousand separator was given at all, which then equals the \<open>undefined\<close> character
  before the start and behind the end of the text.
\<close>

definition number_key :: "number_props \<Rightarrow> bool \<Rightarrow> string \<Rightarrow> key + char \<Rightarrow> selection \<Rightarrow> int list \<times> bool" where
  "number_key p absent d r s =
     (let a = selectionStart s; u = selectionEnd s; l = int (length (prefix p)); g = decimalSeparator p;
          back = (r = Inl Backspace); del = (r = Inl Delete);
          sc = (case decimalScale p of Some k \<Rightarrow> k \<noteq> 0 \<and> fixedDecimalScale p | None \<Rightarrow> False);
          at = (\<lambda>k c. char_at d k = Some c);
          group = (\<lambda>k. case char_at d k of Some c \<Rightarrow> thousandSeparator p = [c] | None \<Rightarrow> absent)
      in if (back \<or> del) \<and> u < l \<and> d \<noteq> ''-'' then ([], True)
         else if a \<noteq> u then ([], False)
         else ((if back \<and> at 0 CHR ''-'' \<and> a = l + 1 \<and> allowNegative p then [1] else []) @
               (if sc \<and> back \<and> at (a - 1) g then [a - 1] else []) @
               (case r of Inr c \<Rightarrow> (if c \<in> set (allowedDecimalSeparators p) \<and> at a g then [a + 1] else [])
                | Inl _ \<Rightarrow> []) @
               (if back \<and> group (a - 1) then [a - 1] else []) @
               (if del \<and> group a then [a + 1] else []),
               sc \<and> (back \<and> at (a - 1) g \<or> del \<and> at a g)))"

end
