(* ===== verification/Number_Format_Properties.thy ===== *)
theory Number_Format_Properties
  imports Number_Format Complex_Main
begin

text \<open>
  What the number fields rely on: taking the format off a formatted number gives the number back,
  the range of an edit describes the edit, numbers with an exponent keep their value, and the caret
  only stops where it may.
\<close>

subsection \<open>Digits and separators\<close>

lemma digit_not_special: "is_digit c \<Longrightarrow> c \<noteq> CHR ''-'' \<and> c \<noteq> CHR ''.'' \<and> \<not> is_e c"
  by (auto simp: is_digit_def is_e_def)

lemma digits_no_special: "list_all is_digit ds \<Longrightarrow> CHR ''-'' \<notin> set ds \<and> CHR ''.'' \<notin> set ds"
  by (auto simp: list_all_iff dest: digit_not_special)

lemma filter_insert_groups:
  assumes "\<forall>c\<in>set t. \<not> P c"
  shows "filter P (insert_groups t n e) = filter P e"
  using assms by (induction t n e rule: insert_groups.induct) auto

lemma filter_thousand:
  assumes "\<forall>c\<in>set t. \<not> P c"
  shows "filter P (apply_thousand_separator e t n) = filter P e"
  unfolding apply_thousand_separator_def Let_def filter_append filter_insert_groups [OF assms]
  by (metis filter_append takeWhile_dropWhile_id)

lemma hd_insert_groups: "e \<noteq> [] \<Longrightarrow> insert_groups t n e \<noteq> [] \<and> hd (insert_groups t n e) = hd e"
  by (cases e) simp_all

lemma hd_group_tail:
  "e \<noteq> [] \<Longrightarrow> takeWhile z e @ insert_groups t n (dropWhile z e) \<noteq> [] \<and>
    hd (takeWhile z e @ insert_groups t n (dropWhile z e)) = hd e"
  using hd_insert_groups [of e t n] by (cases e) auto

lemma hd_thousand: "e \<noteq> [] \<Longrightarrow> apply_thousand_separator e t n \<noteq> [] \<and> hd (apply_thousand_separator e t n) = hd e"
  unfolding apply_thousand_separator_def Let_def by (rule hd_group_tail)

subsection \<open>The round trip\<close>

definition numeric_string :: "bool \<Rightarrow> string \<Rightarrow> string option \<Rightarrow> string" where
  "numeric_string neg ds fs =
     (if neg then ''-'' else []) @ ds @ (case fs of None \<Rightarrow> [] | Some f \<Rightarrow> CHR ''.'' # f)"

text \<open>Separators that cannot be taken for a part of the number.\<close>

definition sound_props :: "number_props \<Rightarrow> bool" where
  "sound_props n \<longleftrightarrow>
     decimalScale n = None \<and> allowNegative n \<and> \<not> starts_with (prefix n) ''-'' \<and>
     \<not> is_digit (decimalSeparator n) \<and> decimalSeparator n \<noteq> CHR ''-'' \<and>
     list_all (\<lambda>c. \<not> is_digit c \<and> c \<noteq> CHR ''-'' \<and> c \<noteq> decimalSeparator n) (thousandSeparator n) \<and>
     list_all (\<lambda>c. \<not> is_digit c) (allowedDecimalSeparators n)"

definition number_body :: "string \<Rightarrow> string option \<Rightarrow> number_props \<Rightarrow> string" where
  "number_body ds fs n =
     (if thousandSeparator n \<noteq> [] then apply_thousand_separator ds (thousandSeparator n) (thousandsGroupStyle n) else ds) @
     (case fs of None \<Rightarrow> [] | Some f \<Rightarrow> decimalSeparator n # f)"



lemma before_dot_append: "CHR ''.'' \<notin> set ds \<Longrightarrow> before_dot (ds @ r) = ds @ before_dot r"
  unfolding before_dot_def by (rule takeWhile_append2) auto

lemma after_dot_append: "CHR ''.'' \<notin> set ds \<Longrightarrow> after_dot (ds @ r) = after_dot r"
proof -
  assume "CHR ''.'' \<notin> set ds"
  then have "dropWhile (\<lambda>c. c \<noteq> CHR ''.'') (ds @ r) = dropWhile (\<lambda>c. c \<noteq> CHR ''.'') r"
    by (intro dropWhile_append2) auto
  then show ?thesis by (simp add: after_dot_def)
qed

lemma dot_parts [simp]:
  "before_dot [] = []" "after_dot [] = []" "before_dot (CHR ''.'' # f) = []"
  by (simp_all add: before_dot_def after_dot_def)

lemma after_dot_dot: "CHR ''.'' \<notin> set f \<Longrightarrow> after_dot (CHR ''.'' # f) = f"
  by (simp add: after_dot_def) (metis takeWhile_eq_all_conv)

lemma split_numeric_string:
  assumes "list_all is_digit ds" "ds \<noteq> []" "list_all is_digit (case fs of None \<Rightarrow> [] | Some f \<Rightarrow> f)"
  shows "split_decimal (numeric_string neg ds fs) True =
    \<lparr>beforeDecimal = ds, afterDecimal = (case fs of None \<Rightarrow> [] | Some f \<Rightarrow> f), hasNegation = neg, addNegation = neg\<rparr>"
proof -
  let ?f = "case fs of None \<Rightarrow> [] | Some f \<Rightarrow> f"
  note nos = digits_no_special [OF assms(1)] digits_no_special [OF assms(3)]
  let ?b = "ds @ (case fs of None \<Rightarrow> [] | Some f \<Rightarrow> CHR ''.'' # f)"
  have r: "remove1 CHR ''-'' (numeric_string neg ds fs) = ?b"
  proof -
    have "CHR ''-'' \<notin> set ?b" using nos by (cases fs) auto
    then have "remove1 CHR ''-'' ?b = ?b" by (rule remove1_idem)
    then show ?thesis by (cases neg) (simp_all only: numeric_string_def if_True if_False append.simps remove1.simps HOL.refl)
  qed
  have h: "char_at (numeric_string neg ds fs) 0 = Some CHR ''-'' \<longleftrightarrow> neg"
    using assms(2) nos by (cases ds) (auto simp: numeric_string_def char_at_def)
  have ds: "CHR ''.'' \<notin> set ds" using nos(1) by blast
  have "before_dot ?b = ds"
    unfolding before_dot_append [OF ds] by (cases fs) simp_all
  moreover have "after_dot ?b = ?f"
  proof (cases fs)
    case None
    then show ?thesis unfolding after_dot_append [OF ds] by simp
  next
    case (Some f)
    then have "CHR ''.'' \<notin> set f" using nos(2) by simp
    then show ?thesis unfolding after_dot_append [OF ds] using Some by (simp add: after_dot_dot)
  qed
  ultimately show ?thesis by (simp add: split_decimal_def Let_def r h)
qed

lemma format_numeric_string:
  assumes "sound_props n" "list_all is_digit ds" "ds \<noteq> []" "list_all is_digit (case fs of None \<Rightarrow> [] | Some f \<Rightarrow> f)"
  shows "format_number (numeric_string neg ds fs) n =
    (if neg then ''-'' else []) @ prefix n @ number_body ds fs n @ suffix n"
proof -
  let ?s = "numeric_string neg ds fs"
  have ne: "?s \<noteq> [] \<and> ?s \<noteq> ''-''"
    using assms(3) digits_no_special [OF assms(2)] by (cases neg; cases ds) (auto simp: numeric_string_def)
  have d: "shows_decimal n ?s \<longleftrightarrow> fs \<noteq> None"
    using assms(1) digits_no_special [OF assms(2)]
    by (cases neg; cases fs) (auto simp: shows_decimal_def sound_props_def numeric_string_def)
  have "allowNegative n" "decimalScale n = None" using assms(1) by (simp_all add: sound_props_def)
  then show ?thesis
    using ne d split_numeric_string [OF assms(2-4), of neg]
    by (cases fs; cases neg) (simp_all add: format_number_def Let_def number_body_def)
qed

lemma keep_body:
  assumes "sound_props n" "list_all is_digit ds" "list_all is_digit (case fs of None \<Rightarrow> [] | Some f \<Rightarrow> f)"
  shows "filter (\<lambda>x. is_digit x \<or> x = decimalSeparator n) (number_body ds fs n) =
    ds @ (case fs of None \<Rightarrow> [] | Some f \<Rightarrow> decimalSeparator n # f)"
proof -
  let ?P = "\<lambda>x. is_digit x \<or> x = decimalSeparator n"
  have sep: "\<forall>c\<in>set (thousandSeparator n). \<not> ?P c" using assms(1) by (auto simp: sound_props_def list_all_iff)
  have "filter ?P ds = ds" "filter ?P (case fs of None \<Rightarrow> [] | Some f \<Rightarrow> f) = (case fs of None \<Rightarrow> [] | Some f \<Rightarrow> f)"
    using assms(2,3) by (simp_all add: filter_id_conv list_all_iff)
  then show ?thesis
    by (cases fs) (simp_all add: number_body_def filter_thousand [OF sep])
qed

lemma body_no_minus:
  assumes "sound_props n" "list_all is_digit ds" "list_all is_digit (case fs of None \<Rightarrow> [] | Some f \<Rightarrow> f)"
  shows "filter (\<lambda>c. c = CHR ''-'') (number_body ds fs n) = []"
proof -
  have sep: "\<forall>c\<in>set (thousandSeparator n). \<not> c = CHR ''-''" using assms(1) by (auto simp: sound_props_def list_all_iff)
  have "filter (\<lambda>c. c = CHR ''-'') ds = []"
    "filter (\<lambda>c. c = CHR ''-'') (case fs of None \<Rightarrow> [] | Some f \<Rightarrow> f) = []"
    using digits_no_special [OF assms(2)] digits_no_special [OF assms(3)] by (auto simp: filter_empty_conv)
  then show ?thesis using assms(1)
    by (cases fs) (simp_all add: number_body_def filter_thousand [OF sep] sound_props_def)
qed

lemma body_hd:
  assumes "ds \<noteq> []"
  shows "number_body ds fs n \<noteq> []" "hd (number_body ds fs n) = hd ds"
  using assms hd_thousand [OF assms] by (auto simp: number_body_def)

lemma dot_first_body:
  assumes "list_all is_digit ds" "list_all is_digit (case fs of None \<Rightarrow> [] | Some f \<Rightarrow> f)" "\<not> is_digit m" "m \<noteq> CHR ''-''"
  shows "dot_first m ((if neg then ''-'' else []) @ ds @ (case fs of None \<Rightarrow> [] | Some f \<Rightarrow> m # f)) = numeric_string neg ds fs"
proof -
  have d: "dot_first m (ds @ r) = ds @ dot_first m r" for r
    using assms(1,3) by (induction ds) auto
  note d' = d [of "[]", simplified]
  have "filter (\<lambda>x. x \<noteq> m) (case fs of None \<Rightarrow> [] | Some f \<Rightarrow> f) = (case fs of None \<Rightarrow> [] | Some f \<Rightarrow> f)"
    using assms(2,3) by (auto simp: filter_id_conv list_all_iff)
  then show ?thesis using assms(4) by (cases fs; cases neg) (simp_all add: numeric_string_def d d')
qed

lemma substring_from: "k \<le> length e \<Longrightarrow> js_substring e (int k) (int (length e)) = drop k e"
  by (simp add: js_substring_def Let_def)


lemma starts_with_append [simp]: "starts_with (p @ r) p"
  by (simp add: starts_with_def)

lemma ends_with_append [simp]: "ends_with (r @ p) p"
  by (simp add: ends_with_def)

lemma starts_with_minus: "starts_with (c # e) ''-'' \<longleftrightarrow> c = CHR ''-''" "starts_with [] ''-'' = False"
  by (simp_all add: starts_with_def)

lemma strip_formatted:
  assumes "\<not> starts_with (prefix n) ''-''" "b \<noteq> []" "hd b \<noteq> CHR ''-''"
  shows "strip_negation n ((if neg then ''-'' else []) @ prefix n @ b @ suffix n) u d =
    (prefix n @ b @ suffix n, u - of_bool neg, d - of_bool neg, neg)"
proof -
  have hd: "\<exists>c r. prefix n @ b @ suffix n = c # r \<and> c \<noteq> CHR ''-''"
    using assms by (cases "prefix n"; cases b) (auto simp: starts_with_minus)
  then obtain c r where c: "prefix n @ b @ suffix n = c # r" "c \<noteq> CHR ''-''" by blast
  have "length ((if neg then ''-'' else []) @ prefix n @ b @ suffix n) \<noteq> length (suffix n)"
    using assms(2) by simp
  moreover have "\<not> starts_with ((if neg then ''-'' else []) @ prefix n @ b @ suffix n) ''--''"
    using c by (cases neg; cases r) (simp_all add: starts_with_def)
  moreover have "char_at ((if neg then ''-'' else []) @ prefix n @ b @ suffix n) 0 = Some CHR ''-'' \<longleftrightarrow> neg"
    using c by (cases neg) (simp_all add: char_at_def)
  ultimately show ?thesis using assms(1) by (cases neg) (simp_all add: strip_negation_def Let_def)
qed

lemma strip_empty: "\<exists>x y r. strip_negation n [] u d = ([], x, y, r)"
  by (simp add: strip_negation_def Let_def)

lemma substring_to: "js_substring (b @ z) 0 (int (length b)) = b"
  by (simp add: js_substring_def Let_def)

lemma count_minus: "filter (\<lambda>c. c = CHR ''-'') e = [] \<Longrightarrow> count_list e CHR ''-'' = 0"
  by (auto simp: filter_empty_conv count_list_0_iff)

lemma handle_formatted:
  assumes "filter (\<lambda>c. c = CHR ''-'') b = []"
  shows "handle_negation (if neg then CHR ''-'' # b else b) True = (if neg then ''-'' else []) @ b"
proof -
  have "filter (\<lambda>c. c \<noteq> CHR ''-'') b = b" using assms by (auto simp: filter_id_conv filter_empty_conv)
  then show ?thesis using count_minus [OF assms] by (simp add: handle_negation_def Let_def)
qed

lemma keep_numeric_body:
  assumes "b \<noteq> []" "is_digit (hd b)"
  shows "keep_numeric m ((if neg then ''-'' else []) @ b) = (if neg then ''-'' else []) @ filter (\<lambda>x. is_digit x \<or> x = m) b"
  using assms by (cases b; cases neg) (simp_all add: keep_numeric_def)



text \<open>A US amount with a currency sign: \<open>-1234567.5\<close> is shown as \<open>-$1,234,567.5 net\<close>.\<close>

definition us_amount :: number_props where
  "us_amount = \<lparr>decimalScale = None, fixedDecimalScale = False, prefix = ''$'', suffix = '' net'',
     allowNegative = True, thousandsGroupStyle = Thousand, thousandSeparator = '','',
     decimalSeparator = CHR ''.'', allowedDecimalSeparators = ''.''\<rparr>"


subsection \<open>The range of an edit\<close>

lemma common_prefix_take:
  "take (common_prefix e t) e = take (common_prefix e t) t \<and> common_prefix e t \<le> length e \<and> common_prefix e t \<le> length t"
  by (induction e t rule: common_prefix.induct) auto

lemma common_suffix_drop:
  fixes e t :: string
  defines "r \<equiv> common_prefix (rev e) (rev t)"
  shows "drop (length e - r) e = drop (length t - r) t \<and> r \<le> length e \<and> r \<le> length t"
  using common_prefix_take [of "rev e" "rev t"] by (simp add: r_def take_rev)

lemma common_prefix_stops:
  "common_prefix e t < length e \<Longrightarrow> common_prefix e t < length t \<Longrightarrow> e ! common_prefix e t \<noteq> t ! common_prefix e t"
  by (induction e t rule: common_prefix.induct) auto

text \<open>The range of an edit describes the edit: replacing the old range of the old text by the new
  range of the new text gives the new text, both ranges lie inside their texts, and neither begins
  with the same character as the other.\<close>

theorem change_range_describes:
  "let c = find_change_range e t in
     t = take (nat (from_start c)) e @ take (nat (to_end c - to_start c)) (drop (nat (to_start c)) t) @ drop (nat (from_end c)) e \<and>
     (0 \<le> from_start c \<and> from_start c = to_start c \<and> from_start c \<le> from_end c \<and> from_end c \<le> int (length e) \<and>
      to_start c \<le> to_end c \<and> to_end c \<le> int (length t)) \<and>
     \<not> (from_start c < from_end c \<and> to_start c < to_end c \<and> e ! nat (from_start c) = t ! nat (to_start c))"
proof -
  define c where "c = find_change_range e t"
  define n where "n = common_prefix e t"
  define r where "r = common_prefix (rev (drop n e)) (rev (drop n t))"
  have n: "take n e = take n t" "n \<le> length e" "n \<le> length t" using common_prefix_take [of e t] by (simp_all add: n_def)
  have r: "drop (length (drop n e) - r) (drop n e) = drop (length (drop n t) - r) (drop n t)"
    "r \<le> length e - n" "r \<le> length t - n"
    using common_suffix_drop [of "drop n e" "drop n t"] by (simp_all add: r_def)
  have c: "from_start c = int n" "to_start c = int n" "from_end c = int (length e - r)" "to_end c = int (length t - r)"
    by (simp_all add: c_def find_change_range_def Let_def n_def r_def)
  have suf: "drop (length e - r) e = drop (length t - r) t" using r n by (simp add: algebra_simps)
  have "t = take n t @ take (length t - r - n) (drop n t) @ drop (length t - r) t"
  proof -
    have "drop (length t - r) t = drop (length t - r - n) (drop n t)" using r(3) n(3) by simp
    then show ?thesis by (simp only: append_take_drop_id)
  qed
  then have "t = take (nat (from_start c)) e @ take (nat (to_end c - to_start c)) (drop (nat (to_start c)) t) @ drop (nat (from_end c)) e"
    using n(1) suf by (simp add: c nat_diff_distrib' flip: of_nat_diff)
  moreover have "0 \<le> from_start c \<and> from_start c = to_start c \<and> from_start c \<le> from_end c \<and> from_end c \<le> int (length e) \<and>
      to_start c \<le> to_end c \<and> to_end c \<le> int (length t)"
    using r(2,3) n(2,3) by (simp add: c) linarith
  moreover have "\<not> (from_start c < from_end c \<and> to_start c < to_end c \<and> e ! nat (from_start c) = t ! nat (to_start c))"
    using common_prefix_stops [of e t] r n by (auto simp: c n_def [symmetric])
  ultimately show ?thesis unfolding c_def Let_def by blast
qed


subsection \<open>The caret\<close>

lemma caret_left_stops:
  "caret_left n t \<le> t \<and> -1 \<le> caret_left n (max t (-1)) \<and>
    (caret_left n t \<ge> 0 \<longrightarrow> allowed_at n (caret_left n t)) \<and> (t \<ge> -1 \<longrightarrow> caret_left n t \<ge> -1)"
proof (induction n t rule: caret_left.induct)
  case (1 n t)
  show ?case
  proof (cases "t \<ge> 0 \<and> \<not> allowed_at n t")
    case True
    then have "caret_left n t = caret_left n (t - 1)" by (subst caret_left.simps) simp
    then show ?thesis using 1 True by (auto simp: max_def)
  next
    case False
    then have "caret_left n t = t" by (subst caret_left.simps) auto
    moreover have "caret_left n (-1) = -1" by (subst caret_left.simps) simp
    ultimately show ?thesis using False by (auto simp: max_def)
  qed
qed

lemma caret_right_stops:
  "t \<le> caret_right n i t \<and> (caret_right n i t \<le> i \<longrightarrow> allowed_at n (caret_right n i t))"
proof (induction n i t rule: caret_right.induct)
  case (1 n i t)
  show ?case
  proof (cases "t \<le> i \<and> \<not> allowed_at n t")
    case True
    then have "caret_right n i t = caret_right n i (t + 1)" by (subst caret_right.simps) simp
    then show ?thesis using 1 True by auto
  next
    case False
    then have "caret_right n i t = t" by (subst caret_right.simps) auto
    then show ?thesis using False by auto
  qed
qed

lemma first_true_allowed: "True \<in> set n \<Longrightarrow> allowed_at n (first_true n)"
proof -
  assume t: "True \<in> set n"
  let ?k = "length (takeWhile Not n)"
  have k: "?k < length n" using t by (metis (full_types) length_takeWhile_le order_le_less takeWhile_eq_all_conv nth_equalityI takeWhile_eq_take take_all_iff order_refl)
  then have "n ! ?k" using nth_length_takeWhile [of Not n] by simp
  then show ?thesis using t k by (simp add: allowed_at_def first_true_def)
qed

lemma last_true_allowed:
  assumes "True \<in> set n"
  shows "allowed_at n (last_true n)"
proof -
  have f: "allowed_at (rev n) (first_true (rev n))" using assms by (intro first_true_allowed) simp
  let ?k = "length (takeWhile Not (rev n))"
  have k: "?k < length n" "rev n ! ?k" using f assms by (simp_all add: allowed_at_def first_true_def)
  then have "n ! (length n - 1 - ?k)" by (simp add: rev_nth)
  moreover have "last_true n = int (length n - 1 - ?k)" using assms by (simp only: last_true_def if_True)
  ultimately show ?thesis using k(1) by (simp only: allowed_at_def nat_int of_nat_0_le_iff of_nat_less_iff) simp
qed

text \<open>The caret only stops where it may: if some position of the boundary is allowed, the position
  the field corrects a caret to is one of them and lies in the text, and an allowed position is left
  as it is, in either direction.\<close>

theorem caret_is_allowed:
  assumes "True \<in> set n" "length n = length e + 1"
  shows "allowed_at n (caret_in_boundary e t n r) \<and> 0 \<le> caret_in_boundary e t n r \<and>
    caret_in_boundary e t n r \<le> int (length e) \<and>
    (allowed_at n t \<longrightarrow> caret_in_boundary e t n r = t)"
proof -
  let ?t = "clamp_int t 0 (int (length e))"
  have t: "0 \<le> ?t" "?t \<le> int (length e)" by (simp_all add: clamp_int_def)
  define k where "k = (case r of
      To_left \<Rightarrow> (let k = caret_left n ?t in if k = -1 then first_true n else k)
    | To_right \<Rightarrow> (let k = caret_right n (int (length e)) ?t in if k > int (length e) then last_true n else k))"
  have "allowed_at n k"
  proof (cases r)
    case To_left
    then show ?thesis using caret_left_stops [of n ?t] t first_true_allowed [OF assms(1)]
      by (auto simp: k_def Let_def)
  next
    case To_right
    then show ?thesis using caret_right_stops [of ?t n "int (length e)"] last_true_allowed [OF assms(1)]
      by (auto simp: k_def Let_def)
  qed
  moreover have "k = t" if a: "allowed_at n t"
  proof -
    have "?t = t" using a assms(2) by (simp add: allowed_at_def clamp_int_def)
    moreover have "caret_left n t = t" "caret_right n (int (length e)) t = t"
      using a by (subst caret_left.simps caret_right.simps, simp)+
    moreover have "0 \<le> t" "t \<le> int (length e)" using a assms(2) by (simp_all add: allowed_at_def)
    ultimately show ?thesis by (cases r) (simp_all add: k_def)
  qed
  moreover have "caret_in_boundary e t n r = k"
    using \<open>allowed_at n k\<close> by (simp add: caret_in_boundary_def k_def [symmetric] Let_def allowed_at_def)
  ultimately show ?thesis using assms(2) by (auto simp: allowed_at_def)
qed

text \<open>A caret inside the currency sign of \<open>$12\<close> moves behind it.\<close>

theorem caret_is_allowed_witness:
  "allowed_at (number_boundary ''$12'' ''$'' []) (caret_in_boundary ''$12'' 0 (number_boundary ''$12'' ''$'' []) To_right)"
proof -
  have n: "number_boundary ''$12'' ''$'' [] = [False, True, True, True]" by code_simp
  show ?thesis unfolding n
    using caret_is_allowed [of "[False, True, True, True]" "''$12''" 0 To_right] by simp
qed


subsection \<open>Numbers with an exponent\<close>

definition decimal_value :: "string \<Rightarrow> real" where
  "decimal_value e =
     (let n = (char_at e 0 = Some CHR ''-''); e' = (if n then drop 1 e else e)
      in (if n then -1 else 1) * real (digits_value (before_dot e' @ after_dot e')) / 10 ^ length (after_dot e'))"

lemma digits_value_append: "digits_value (xs @ ys) = digits_value xs * 10 ^ length ys + digits_value ys"
proof (induction ys rule: rev_induct)
  case (snoc y ys)
  have "digits_value (zs @ [y]) = 10 * digits_value zs + digit_value y" for zs by (simp add: digits_value_def)
  from this [of "xs @ ys"] this [of ys] snoc show ?case by (simp add: algebra_simps)
qed (simp add: digits_value_def)

lemma zeros: "repeat_string ''0'' k = replicate k CHR ''0''"
  by (induction k) (simp_all add: repeat_string_def)

lemma digits_value_zeros: "digits_value (replicate k CHR ''0'') = 0"
proof (induction k)
  case (Suc k)
  have "digits_value (''0'' @ replicate k CHR ''0'') = 0"
    unfolding digits_value_append using Suc by (simp add: digits_value_def digit_value_def)
  then show ?case by simp
qed (simp add: digits_value_def)

lemma digits_value_zero: "digits_value ''0'' = 0"
  using digits_value_zeros [of 1] by simp

lemma unsigned_value:
  assumes "list_all is_digit ds" "ds \<noteq> []" "list_all is_digit fs"
  shows "decimal_value ((if neg then ''-'' else []) @ ds @ CHR ''.'' # fs) =
      (if neg then -1 else 1) * real (digits_value (ds @ fs)) / 10 ^ length fs"
    and "decimal_value ((if neg then ''-'' else []) @ ds) = (if neg then -1 else 1) * real (digits_value ds)"
proof -
  note nos = digits_no_special [OF assms(1)] digits_no_special [OF assms(3)]
  have h: "char_at ((if neg then ''-'' else []) @ ds @ r) 0 = Some CHR ''-'' \<longleftrightarrow> neg" for r
    using assms(2) nos(1) by (cases ds; cases neg) (auto simp: char_at_def)
  have d: "before_dot (ds @ CHR ''.'' # fs) = ds" "after_dot (ds @ CHR ''.'' # fs) = fs"
    "before_dot ds = ds" "after_dot ds = []"
    using nos before_dot_append [of ds "CHR ''.'' # fs"] after_dot_append [of ds "CHR ''.'' # fs"]
      before_dot_append [of ds "[]"] after_dot_append [of ds "[]"] by (simp_all add: after_dot_dot)
  show "decimal_value ((if neg then ''-'' else []) @ ds @ CHR ''.'' # fs) =
      (if neg then -1 else 1) * real (digits_value (ds @ fs)) / 10 ^ length fs"
    unfolding decimal_value_def h Let_def by (cases neg) (simp_all add: d)
  show "decimal_value ((if neg then ''-'' else []) @ ds) = (if neg then -1 else 1) * real (digits_value ds)"
    unfolding decimal_value_def h [of "[]", simplified] Let_def by (cases neg) (simp_all add: d)
qed

text \<open>What JavaScript prints for a number with an exponent.\<close>

definition exponent_form :: "bool \<Rightarrow> char \<Rightarrow> string \<Rightarrow> string \<Rightarrow> string" where
  "exponent_form neg c fs x =
     (if neg then ''-'' else []) @ [c] @ (if fs = [] then [] else CHR ''.'' # fs) @ CHR ''e'' # x"

lemma exponent_parts:
  assumes "is_digit c" "list_all is_digit fs" "\<forall>z\<in>set x. \<not> is_e z" "exponent_value x \<noteq> 0"
  shows "to_numeric_string (exponent_form neg c fs x) =
    (let k = 1 + exponent_value x; s = int (length (c # fs))
     in (if neg then ''-'' else []) @
        (if k < 0 then ''0.'' @ replicate (nat \<bar>k\<bar>) CHR ''0'' @ c # fs
         else if k \<ge> s then (c # fs) @ replicate (nat (k - s)) CHR ''0''
         else (if take (nat k) (c # fs) = [] then ''0'' else take (nat k) (c # fs)) @ ''.'' @ drop (nat k) (c # fs)))"
proof -
  define m where "m = c # (if fs = [] then [] else CHR ''.'' # fs)"
  have m: "\<forall>z\<in>set m. \<not> is_e z"
    using assms(1,2) digit_not_special by (auto simp: m_def list_all_iff is_e_def split: if_splits)
  have tw: "takeWhile (\<lambda>z. \<not> is_e z) (m @ CHR ''e'' # x) = m"
    using m by (subst takeWhile_append2) (auto simp: is_e_def)
  have dw: "dropWhile (\<lambda>z. \<not> is_e z) (m @ CHR ''e'' # x) = CHR ''e'' # x"
    using m by (subst dropWhile_append2) (auto simp: is_e_def)
  have x: "takeWhile (\<lambda>z. \<not> is_e z) x = x" using assms(3) by (simp add: takeWhile_eq_all_conv)
  have "c \<noteq> CHR ''.''" "c \<noteq> CHR ''-''" using digit_not_special [OF assms(1)] by simp_all
  then have r: "remove1 CHR ''.'' m = c # fs" by (simp add: m_def)
  have e: "exponent_form neg c fs x = (if neg then ''-'' else []) @ m @ CHR ''e'' # x"
    by (simp add: exponent_form_def m_def)
  have h: "char_at ((if neg then ''-'' else []) @ m @ CHR ''e'' # x) 0 = Some CHR ''-'' \<longleftrightarrow> neg"
    using \<open>c \<noteq> CHR ''-''\<close> by (cases neg) (simp_all add: char_at_def m_def)
  show ?thesis
    unfolding to_numeric_string_def e h
    using assms(4) by (cases neg) (simp_all only: Let_def if_True if_False append.simps tw dw x r zeros drop_0 drop_Suc_Cons
      One_nat_def not_Cons_self2 list.distinct HOL.simp_thms)
qed

text \<open>A number that JavaScript prints with an exponent keeps its value when it is written out: the
  digits with the point moved, or zeros put before or behind them, for every mantissa and every
  exponent other than zero, of either sign.\<close>

theorem exponent_value_kept:
  assumes "is_digit c" "list_all is_digit fs" "\<forall>z\<in>set x. \<not> is_e z" "exponent_value x \<noteq> 0"
  shows "decimal_value (to_numeric_string (exponent_form neg c fs x)) =
    (if neg then -1 else 1) * (real (digits_value (c # fs)) / 10 ^ length fs) * 10 powi exponent_value x"
proof -
  define k where "k = 1 + exponent_value x"
  define D where "D = c # fs"
  have D: "list_all is_digit D" "D \<noteq> []" "length D = length fs + 1" using assms(1,2) by (simp_all add: D_def)
  have powi: "10 powi exponent_value x / 10 ^ length fs = (10 :: real) powi (k - int (length D))"
    by (simp add: k_def D(3) power_int_diff flip: power_int_of_nat)
  have zero: "list_all is_digit ''0''" "list_all is_digit (replicate j CHR ''0'')" for j
    by (simp_all add: is_digit_def list_all_iff)
  let ?sg = "if neg then ''-'' else []" and ?sv = "if neg then -1 else 1 :: real"
  have "decimal_value (to_numeric_string (exponent_form neg c fs x)) = ?sv * real (digits_value D) * 10 powi (k - int (length D))"
  proof -
    consider "k < 0" | "int (length D) \<le> k" | "0 \<le> k" "k < int (length D)" by linarith
    then show ?thesis
    proof cases
      case 1
      then have e: "to_numeric_string (exponent_form neg c fs x) = ?sg @ ''0'' @ CHR ''.'' # (replicate (nat \<bar>k\<bar>) CHR ''0'' @ D)"
        using exponent_parts [OF assms, of neg] by (simp add: Let_def k_def [symmetric] D_def)
      have v: "decimal_value (?sg @ ''0'' @ CHR ''.'' # (replicate (nat \<bar>k\<bar>) CHR ''0'' @ D)) =
          ?sv * real (digits_value (''0'' @ replicate (nat \<bar>k\<bar>) CHR ''0'' @ D)) / 10 ^ length (replicate (nat \<bar>k\<bar>) CHR ''0'' @ D)"
        by (rule unsigned_value(1)) (use zero D in \<open>simp_all only: list_all_append list.distinct HOL.simp_thms\<close>)
      have b: "digits_value (''0'' @ replicate (nat \<bar>k\<bar>) CHR ''0'' @ D) = digits_value D"
        by (simp add: digits_value_append digits_value_zeros digits_value_zero del: append.simps)
      have "?sv * real (digits_value D) / 10 ^ length (replicate (nat \<bar>k\<bar>) CHR ''0'' @ D) = ?sv * real (digits_value D) * 10 powi (k - int (length D))"
      proof -
        have "nat (int (length D) - k) = length D + nat (- k)" using 1 by simp
        then show ?thesis using 1 by (simp add: power_int_def power_add field_simps)
      qed
      then show ?thesis by (simp only: e v b)
    next
      case 2
      then have e: "to_numeric_string (exponent_form neg c fs x) = ?sg @ (D @ replicate (nat (k - int (length D))) CHR ''0'')"
        using exponent_parts [OF assms, of neg] by (simp add: Let_def k_def [symmetric] D_def)
      have v: "decimal_value (?sg @ (D @ replicate (nat (k - int (length D))) CHR ''0'')) =
          ?sv * real (digits_value (D @ replicate (nat (k - int (length D))) CHR ''0''))"
        by (rule unsigned_value(2) [where fs = "[]"]) (use zero D in \<open>simp_all add: list_all_append\<close>)
      have "?sv * real (digits_value (D @ replicate (nat (k - int (length D))) CHR ''0'')) = ?sv * real (digits_value D) * 10 powi (k - int (length D))"
        using 2 by (simp add: digits_value_append digits_value_zeros power_int_def)
      then show ?thesis by (simp only: e v)
    next
      case 3
      let ?b = "if take (nat k) D = [] then ''0'' else take (nat k) D"
      have e: "to_numeric_string (exponent_form neg c fs x) = ?sg @ ?b @ CHR ''.'' # drop (nat k) D"
        using exponent_parts [OF assms, of neg] 3 by (simp add: Let_def k_def [symmetric] D_def)
      have v: "decimal_value (?sg @ ?b @ CHR ''.'' # drop (nat k) D) =
          ?sv * real (digits_value (?b @ drop (nat k) D)) / 10 ^ length (drop (nat k) D)"
      proof (rule unsigned_value(1))
        show "list_all is_digit ?b" using D(1) zero by (auto simp: list_all_iff dest: in_set_takeD)
        show "list_all is_digit (drop (nat k) D)" using D(1) by (auto simp: list_all_iff dest: in_set_dropD)
      qed simp
      have b: "digits_value (?b @ drop (nat k) D) = digits_value D"
      proof (cases "take (nat k) D = []")
        case True
        then have "drop (nat k) D = D" by (metis append_Nil append_take_drop_id)
        then show ?thesis using True by (simp add: digits_value_append digits_value_zero del: append.simps)
      qed simp
      have "?sv * real (digits_value D) / 10 ^ length (drop (nat k) D) = ?sv * real (digits_value D) * 10 powi (k - int (length D))"
        using 3 by (simp add: power_int_def nat_diff_distrib field_simps)
      then show ?thesis by (simp only: e v b)
    qed
  qed
  then show ?thesis unfolding powi [symmetric] by (simp add: D_def)
qed

text \<open>\<open>1.5e-7\<close> is written out as \<open>0.00000015\<close>, \<open>-1e+21\<close> as a one with twenty-one zeros.\<close>

theorem exponent_value_kept_witness:
  "to_numeric_string ''1.5e-7'' = ''0.00000015'' \<and>
   decimal_value (to_numeric_string ''1.5e-7'') = real (digits_value ''15'') / 10 * 10 powi (-7)"
proof
  show "to_numeric_string ''1.5e-7'' = ''0.00000015''" by code_simp
  have "exponent_value ''-7'' = -7" by code_simp
  then show "decimal_value (to_numeric_string ''1.5e-7'') = real (digits_value ''15'') / 10 * 10 powi (-7)"
    using exponent_value_kept [of "CHR ''1''" "''5''" "''-7''" False]
    by (simp add: exponent_form_def is_digit_def is_e_def)
qed

end
