(* ===== verification/Number_Input.thy ===== *)
theory Number_Input
  imports Js_Values
begin

text \<open>
  The number fields of the console: Mantine's \<open>NumberInput\<close> as bundled into \<open>app.js\<close>. The value is a
  number, a text that is not yet one, or a big integer; the parent may hold it. Numbers are finite
  decimals. Texts are what react-number-format reports: an optional minus, digits, a point, digits.
  Timers of a held button are part of the state; focus and the caret go to the DOM and are left out,
  except where a text and its caret are computed.
\<close>

subsection \<open>Arithmetic on decimals\<close>

text \<open>\<open>Math.round(d * 10 ** r)\<close>, and a scaled integer back as a number.\<close>

definition round_scaled :: "nat \<Rightarrow> dec \<Rightarrow> int" where
  "round_scaled r d =
     (let k = int r + exponent d
      in if 0 \<le> k then mantissa d * 10 ^ nat k
         else (2 * mantissa d + 10 ^ nat (- k)) div (2 * 10 ^ nat (- k)))"

definition unscaled :: "nat \<Rightarrow> int \<Rightarrow> dec" where
  "unscaled r n = norm_dec n (- int r)"

text \<open>The order of numbers, on a common exponent.\<close>

definition dec_le :: "dec \<Rightarrow> dec \<Rightarrow> bool" where
  "dec_le a b \<longleftrightarrow>
     (let e = min (exponent a) (exponent b)
      in mantissa a * 10 ^ nat (exponent a - e) \<le> mantissa b * 10 ^ nat (exponent b - e))"

definition dec_less :: "dec \<Rightarrow> dec \<Rightarrow> bool" where
  "dec_less a b \<longleftrightarrow> \<not> dec_le b a"

definition dec_max :: "dec \<Rightarrow> dec \<Rightarrow> dec" where
  "dec_max a b = (if dec_less a b then b else a)"

definition dec_min :: "dec \<Rightarrow> dec \<Rightarrow> dec" where
  "dec_min a b = (if dec_less b a then b else a)"

text \<open>\<open>2 ** 53 - 1\<close>.\<close>

definition max_safe :: dec where
  "max_safe = Dec 9007199254740991 0"

definition min_safe :: dec where
  "min_safe = Dec (-9007199254740991) 0"

definition clamp_number :: "dec \<Rightarrow> dec option \<Rightarrow> dec option \<Rightarrow> dec" where
  "clamp_number e t n =
     (case (t, n) of
        (None, None) \<Rightarrow> e
      | (Some lo, None) \<Rightarrow> dec_max e lo
      | (None, Some hi) \<Rightarrow> dec_min e hi
      | (Some lo, Some hi) \<Rightarrow> dec_min (dec_max e lo) hi)"

subsection \<open>Texts\<close>

definition all_digits :: "string \<Rightarrow> bool" where
  "all_digits s \<longleftrightarrow> s \<noteq> [] \<and> list_all is_digit s"

definition unsign :: "string \<Rightarrow> bool \<times> string" where
  "unsign s = (case s of c # r \<Rightarrow> if c = CHR ''-'' then (True, r) else (False, s) | [] \<Rightarrow> (False, []))"

definition int_digits :: "string \<Rightarrow> string" where
  "int_digits s = takeWhile is_digit s"

text \<open>What follows the leading digits: \<open>None\<close> without a point, else the text behind it.\<close>

definition behind_point :: "string \<Rightarrow> string option" where
  "behind_point s =
     (case dropWhile is_digit s of c # r \<Rightarrow> if c = CHR ''.'' then Some r else None | [] \<Rightarrow> None)"

definition signed_dec :: "bool \<Rightarrow> string \<Rightarrow> string \<Rightarrow> dec" where
  "signed_dec neg i f = norm_dec ((if neg then -1 else 1) * int (nat_value (i @ f))) (- int (length f))"

text \<open>\<open>parseFloat\<close> and \<open>Number\<close>; \<open>None\<close> is \<open>NaN\<close>.\<close>

definition parse_float :: "string \<Rightarrow> dec option" where
  "parse_float s =
     (let (neg, u) = unsign s; i = int_digits u;
          f = (case behind_point u of Some r \<Rightarrow> int_digits r | None \<Rightarrow> [])
      in if i @ f = [] then None else Some (signed_dec neg i f))"

definition text_number :: "string \<Rightarrow> dec option" where
  "text_number s =
     (let t = trim s; (neg, u) = unsign t; i = int_digits u; r = drop (length i) u
      in if t = [] then Some (Dec 0 0)
         else case r of
                [] \<Rightarrow> if i = [] then None else Some (signed_dec neg i [])
              | c # f \<Rightarrow> if c = CHR ''.'' \<and> list_all is_digit f \<and> i @ f \<noteq> [] then Some (signed_dec neg i f) else None)"

text \<open>The regular expressions of the module, on texts.\<close>

definition zero_text :: "string \<Rightarrow> bool" where
  "zero_text s \<longleftrightarrow>
     (let (neg, u) = unsign s
      in case u of
           [] \<Rightarrow> False
         | c # r \<Rightarrow> c = CHR ''0'' \<and>
             (case r of [] \<Rightarrow> neg | d # z \<Rightarrow> d = CHR ''.'' \<and> list_all (\<lambda>x. x = CHR ''0'') z))"

definition leading_zero_text :: "string \<Rightarrow> bool" where
  "leading_zero_text s \<longleftrightarrow>
     (let u = snd (unsign s); i = int_digits u
      in 2 \<le> length i \<and> hd i = CHR ''0'' \<and>
         (case behind_point u of
            None \<Rightarrow> u = i
          | Some f \<Rightarrow> f = [] \<or> all_digits f \<or> (f \<noteq> [] \<and> last f = CHR ''.'' \<and> all_digits (butlast f))))"

text \<open>Ends in a point, digits and a zero.\<close>

definition trailing_zero_text :: "string \<Rightarrow> bool" where
  "trailing_zero_text s \<longleftrightarrow>
     (let f = takeWhile is_digit (rev s)
      in f \<noteq> [] \<and> hd f = CHR ''0'' \<and> length f < length s \<and> rev s ! length f = CHR ''.'')"

definition trailing_point_text :: "string \<Rightarrow> bool" where
  "trailing_point_text s \<longleftrightarrow>
     (let u = snd (unsign s) in u \<noteq> [] \<and> last u = CHR ''.'' \<and> all_digits (butlast u))"

definition integer_text :: "string \<Rightarrow> bool" where
  "integer_text s \<longleftrightarrow> all_digits (snd (unsign s))"

text \<open>\<open>/^0+(?=\d)/\<close> removed.\<close>

fun drop_leading_zeros :: "string \<Rightarrow> string" where
  "drop_leading_zeros (c # d # s) =
     (if c = CHR ''0'' \<and> is_digit d then drop_leading_zeros (d # s) else c # d # s)"
| "drop_leading_zeros s = s"


subsection \<open>Values and limits\<close>

datatype field_value = Number dec | Text string | Big int

datatype clamp_behavior = Clamp_blur | Clamp_strict | Clamp_none

record number_config =
  fmax :: "field_value option"
  fmin :: "field_value option"
  fstep :: field_value
  startValue :: field_value
  clampBehavior :: clamp_behavior
  allowNegative :: bool
  allowLeadingZeros :: bool
  trimLeadingZeroesOnBlur :: bool
  allowDecimal :: bool
  decimalScale :: "nat option"
  withKeyboardEvents :: bool
  field_disabled :: bool
  field_readOnly :: bool
  hideControls :: bool
  stepHold :: "(int \<times> (nat \<Rightarrow> int)) option"

text \<open>\<open>od\<close>, with the defaults of the properties it does not name.\<close>

definition number_defaults :: number_config where
  "number_defaults =
     \<lparr>fmax = None, fmin = None, fstep = Number (Dec 1 0), startValue = Number (Dec 0 0),
      clampBehavior = Clamp_blur, allowNegative = True, allowLeadingZeros = True,
      trimLeadingZeroesOnBlur = True, allowDecimal = True, decimalScale = None, withKeyboardEvents = True,
      field_disabled = False, field_readOnly = False, hideControls = False, stepHold = None\<rparr>"

definition is_number_text :: "string \<Rightarrow> bool" where
  "is_number_text e \<longleftrightarrow> e \<noteq> [] \<and> text_number e \<noteq> None"

definition can_increment :: "field_value \<Rightarrow> bool" where
  "can_increment e =
     (case e of
        Number d \<Rightarrow> dec_less d max_safe
      | Text s \<Rightarrow> s = [] \<or> (case text_number s of None \<Rightarrow> False | Some d \<Rightarrow> dec_less d max_safe)
      | Big _ \<Rightarrow> False)"

definition is_bigint_string :: "string \<Rightarrow> bool \<Rightarrow> bool" where
  "is_bigint_string e t \<longleftrightarrow> \<not> (e = [] \<or> e = ''-'' \<or> (\<not> t \<and> fst (unsign e))) \<and> integer_text e"

definition can_increment_bigint :: "field_value \<Rightarrow> bool \<Rightarrow> bool" where
  "can_increment_bigint e t =
     (case e of Big _ \<Rightarrow> True | Text s \<Rightarrow> s = [] \<or> is_bigint_string s t | Number _ \<Rightarrow> False)"

definition parse_bigint :: "string \<Rightarrow> int option" where
  "parse_bigint e =
     (if integer_text e
      then Some ((if fst (unsign e) then -1 else 1) * int (nat_value (snd (unsign e)))) else None)"

definition to_bigint :: "field_value option \<Rightarrow> int option" where
  "to_bigint e =
     (case e of
        Some (Big n) \<Rightarrow> Some n
      | Some (Number d) \<Rightarrow>
          (case norm_dec (mantissa d) (exponent d) of
             Dec m x \<Rightarrow> if 0 \<le> x then Some (m * 10 ^ nat x) else None)
      | _ \<Rightarrow> None)"

definition to_number :: "field_value option \<Rightarrow> dec option" where
  "to_number e = (case e of Some (Number d) \<Rightarrow> Some d | _ \<Rightarrow> None)"

definition clamp_bigint :: "int \<Rightarrow> int option \<Rightarrow> int option \<Rightarrow> int" where
  "clamp_bigint e t n =
     (case t of
        Some lo \<Rightarrow> if e < lo then lo else (case n of Some hi \<Rightarrow> if hi < e then hi else e | None \<Rightarrow> e)
      | None \<Rightarrow> (case n of Some hi \<Rightarrow> if hi < e then hi else e | None \<Rightarrow> e))"

text \<open>A number can be reported as one: finite, and of less than fourteen characters as text.\<close>

definition valid_number :: "dec option \<Rightarrow> string \<Rightarrow> bool" where
  "valid_number e t \<longleftrightarrow>
     (case e of None \<Rightarrow> False | Some d \<Rightarrow> dec_less d max_safe) \<and> length (remove1 (CHR ''.'') t) < 14 \<and> t \<noteq> []"

definition in_range :: "dec option \<Rightarrow> dec option \<Rightarrow> dec option \<Rightarrow> bool" where
  "in_range e t n =
     (case e of
        None \<Rightarrow> True
      | Some d \<Rightarrow> (case t of None \<Rightarrow> True | Some lo \<Rightarrow> dec_le lo d) \<and> (case n of None \<Rightarrow> True | Some hi \<Rightarrow> dec_le d hi))"

text \<open>The decimals of \<open>String(e)\<close>, the exponent it may be printed with included.\<close>

definition decimals :: "field_value \<Rightarrow> nat" where
  "decimals e =
     (case e of
        Number d \<Rightarrow> nat (- exponent (norm_dec (mantissa d) (exponent d)))
      | Text s \<Rightarrow>
          (let f = takeWhile is_digit (rev s)
           in if length f < length s \<and> rev s ! length f = CHR ''.'' then length f else 0)
      | Big _ \<Rightarrow> 0)"

text \<open>\<open>toFixed\<close> of a number that is a multiple of \<open>10 ** - r\<close>, given scaled.\<close>

definition to_fixed :: "nat \<Rightarrow> int \<Rightarrow> string" where
  "to_fixed r n =
     (let ds = show_nat (nat \<bar>n\<bar>); p = replicate (Suc r - length ds) (CHR ''0'') @ ds; k = length p - r
      in (if n < 0 then ''-'' else []) @ take k p @ (if r = 0 then [] else ''.'' @ drop k p))"

text \<open>\<open>BigInt.prototype.toString\<close>.\<close>

definition show_bigint :: "int \<Rightarrow> string" where
  "show_bigint n = (if n < 0 then ''-'' else []) @ show_nat (nat \<bar>n\<bar>)"

subsection \<open>Leaving the field\<close>

definition trim_number :: "string \<Rightarrow> dec option \<Rightarrow> dec option \<Rightarrow> field_value" where
  "trim_number e t n =
     (let a = drop_leading_zeros e in
      case parse_float a of
        None \<Rightarrow> Text a
      | Some x \<Rightarrow>
          if dec_less max_safe x then (case t of None \<Rightarrow> Text a | Some hi \<Rightarrow> Number hi)
          else let s = clamp_number x n t in
               if trailing_point_text e then Text (drop_leading_zeros (show_dec s) @ ''.'') else Number s)"

definition trim_bigint :: "string \<Rightarrow> int option \<Rightarrow> int option \<Rightarrow> clamp_behavior \<Rightarrow> field_value" where
  "trim_bigint e lo hi c =
     (if e = [] \<or> e = ''-'' then Text e
      else case parse_bigint e of
             None \<Rightarrow> Text e
           | Some n \<Rightarrow> Big (if c = Clamp_blur then clamp_bigint n lo hi else n))"

text \<open>The value the blur handler leaves; \<open>he\<close> is the big-integer mode.\<close>

definition blur_value :: "number_config \<Rightarrow> bool \<Rightarrow> field_value \<Rightarrow> field_value" where
  "blur_value o' he v =
     (if he
      then (case v of
              Big n \<Rightarrow> if clampBehavior o' = Clamp_blur
                       then Big (clamp_bigint n (to_bigint (fmin o')) (to_bigint (fmax o'))) else v
            | Text s \<Rightarrow> if trimLeadingZeroesOnBlur o'
                        then trim_bigint s (to_bigint (fmin o')) (to_bigint (fmax o')) (clampBehavior o') else v
            | Number _ \<Rightarrow> v)
      else (case v of
              Number d \<Rightarrow> if clampBehavior o' = Clamp_blur
                          then Number (clamp_number d (to_number (fmin o')) (to_number (fmax o'))) else v
            | Text s \<Rightarrow> if trimLeadingZeroesOnBlur o' \<and> decimals v < 15
                        then trim_number s (to_number (fmax o')) (to_number (fmin o')) else v
            | Big _ \<Rightarrow> v))"


subsection \<open>The field\<close>

text \<open>
  \<open>own\<close> is the field's own value, \<open>held_by_parent\<close> the \<open>value\<close> property if there is one; \<open>changed\<close>
  logs the calls of \<open>onChange\<close>, \<open>stepped\<close> those of \<open>onValueChange\<close> by a step, \<open>limits_hit\<close> those of
  \<open>onMinReached\<close> (\<open>False\<close>) and \<open>onMaxReached\<close> (\<open>True\<close>). A held button's timers carry the direction.
\<close>

record step_change =
  step_float :: "dec option"
  step_text :: string
  step_up :: bool

record number_field =
  own :: field_value
  held_by_parent :: "field_value option"
  bigint_mode :: bool
  changed :: "field_value list"
  stepped :: "step_change list"
  limits_hit :: "bool list"
  hold_timers :: "(nat \<times> bool \<times> int) list"
  hold_current :: "nat option"
  next_handle :: nat
  hold_count :: nat

definition current_value :: "number_field \<Rightarrow> field_value" where
  "current_value s = (case held_by_parent s of None \<Rightarrow> own s | Some v \<Rightarrow> v)"

definition is_big :: "field_value \<Rightarrow> bool" where
  "is_big v = (case v of Big _ \<Rightarrow> True | _ \<Rightarrow> False)"

definition start_field :: "field_value option \<Rightarrow> field_value option \<Rightarrow> number_field" where
  "start_field l u =
     \<lparr>own = (case u of None \<Rightarrow> Text [] | Some v \<Rightarrow> v), held_by_parent = l,
      bigint_mode = ((case l of Some v \<Rightarrow> is_big v | None \<Rightarrow> False) \<or> (case u of Some v \<Rightarrow> is_big v | None \<Rightarrow> False)) \<and>
        \<not> (case l of Some (Number _) \<Rightarrow> True | _ \<Rightarrow> False),
      changed = [], stepped = [], limits_hit = [], hold_timers = [], hold_current = None, next_handle = 1,
      hold_count = 0\<rparr>"

text \<open>The parent renders the field with a value: its kind decides the mode.\<close>

definition render_field :: "field_value option \<Rightarrow> number_field \<Rightarrow> number_field" where
  "render_field l s =
     s\<lparr>held_by_parent := l,
       bigint_mode := (case l of Some (Big _) \<Rightarrow> True | Some (Number _) \<Rightarrow> False | _ \<Rightarrow> bigint_mode s)\<rparr>"

definition set_field :: "field_value \<Rightarrow> number_field \<Rightarrow> number_field" where
  "set_field v s =
     (case held_by_parent s of
        None \<Rightarrow> s\<lparr>own := v, changed := changed s @ [v]\<rparr>
      | Some _ \<Rightarrow> s\<lparr>changed := changed s @ [v]\<rparr>)"

text \<open>An edit, as react-number-format reports it: the number read, and the text.\<close>

definition typed_value :: "number_config \<Rightarrow> bool \<Rightarrow> dec option \<Rightarrow> string \<Rightarrow> field_value" where
  "typed_value o' he e t =
     (if he
      then (if \<not> is_bigint_string t (allowNegative o') \<or> (allowLeadingZeros o' \<and> leading_zero_text t) then Text t
            else case parse_bigint t of None \<Rightarrow> Text t | Some n \<Rightarrow> Big n)
      else (case e of
              None \<Rightarrow> Text t
            | Some d \<Rightarrow>
                if valid_number e t \<and> \<not> zero_text t \<and> \<not> (allowLeadingZeros o' \<and> leading_zero_text t) \<and>
                   \<not> trailing_zero_text t \<and> \<not> trailing_point_text t
                then Number d else Text t))"

definition on_value_change :: "number_config \<Rightarrow> bool \<Rightarrow> dec option \<Rightarrow> string \<Rightarrow> number_field \<Rightarrow> number_field" where
  "on_value_change o' by_event e t s =
     (if by_event then set_field (typed_value o' (bigint_mode s) e t) s else s)"

text \<open>Whether an edit is let through; \<open>g\<close> is the verdict of the parent's own \<open>isAllowed\<close>.\<close>

definition edit_allowed :: "number_config \<Rightarrow> bool \<Rightarrow> bool \<Rightarrow> dec option \<Rightarrow> string \<Rightarrow> bool" where
  "edit_allowed o' he g e t =
     (if \<not> g then False
      else if clampBehavior o' \<noteq> Clamp_strict then True
      else if \<not> he then in_range e (to_number (fmin o')) (to_number (fmax o'))
      else if t = [] \<or> t = ''-'' then True
      else case parse_bigint t of
             None \<Rightarrow> True
           | Some n \<Rightarrow> (case to_bigint (fmin o') of None \<Rightarrow> True | Some lo \<Rightarrow> lo \<le> n) \<and>
                       (case to_bigint (fmax o') of None \<Rightarrow> True | Some hi \<Rightarrow> n \<le> hi))"

subsection \<open>Stepping\<close>

definition step_of :: "number_config \<Rightarrow> dec" where
  "step_of o' = (case fstep o' of Number d \<Rightarrow> d | _ \<Rightarrow> Dec 1 0)"

definition start_of :: "number_config \<Rightarrow> dec" where
  "start_of o' = (case startValue o' of Number d \<Rightarrow> d | _ \<Rightarrow> Dec 0 0)"

definition big_or :: "int \<Rightarrow> field_value \<Rightarrow> int" where
  "big_or k v = (case to_bigint (Some v) of Some n \<Rightarrow> n | None \<Rightarrow> k)"

definition report_step :: "field_value \<Rightarrow> dec option \<Rightarrow> string \<Rightarrow> bool \<Rightarrow> number_field \<Rightarrow> number_field" where
  "report_step v x t up s =
     (let s1 = set_field v s in s1\<lparr>stepped := stepped s1 @ [\<lparr>step_float = x, step_text = t, step_up = up\<rparr>]\<rparr>)"

definition safe_number :: "int \<Rightarrow> dec option" where
  "safe_number n = (if \<bar>n\<bar> \<le> 9007199254740991 then Some (int_dec n) else None)"

definition report_big :: "int \<Rightarrow> bool \<Rightarrow> number_field \<Rightarrow> number_field" where
  "report_big e up s = report_step (Big e) (safe_number e) (show_bigint e) up s"

text \<open>A number given as an integer scaled by \<open>10 ** r\<close>: as \<open>toFixed\<close> prints it and \<open>parseFloat\<close> reads it.\<close>

definition report_scaled :: "nat \<Rightarrow> int \<Rightarrow> bool \<Rightarrow> number_field \<Rightarrow> number_field" where
  "report_scaled r n up s = report_step (Number (unscaled r n)) (Some (unscaled r n)) (to_fixed r n) up s"

text \<open>The number a field holds, if it holds one: a number, or a text that reads as one.\<close>

definition held_number :: "field_value \<Rightarrow> dec option" where
  "held_number v =
     (case v of Number d \<Rightarrow> Some d | Text t \<Rightarrow> (if t = [] then None else text_number t) | Big _ \<Rightarrow> None)"

definition increment_big :: "number_config \<Rightarrow> number_field \<Rightarrow> number_field" where
  "increment_big o' s =
     (let hi = to_bigint (fmax o'); by = big_or 1 (fstep o');
          move = (\<lambda>t. let n = t + by in
                    case hi of
                      Some z \<Rightarrow> if z < n then report_big z True (s\<lparr>limits_hit := limits_hit s @ [True]\<rparr>)
                                else report_big n True s
                    | None \<Rightarrow> report_big n True s)
      in if \<not> can_increment_bigint (current_value s) (allowNegative o') then s
         else case current_value s of
                Big t \<Rightarrow> move t
              | Text t \<Rightarrow>
                  if t = [] then report_big (clamp_bigint (big_or 0 (startValue o')) (to_bigint (fmin o')) hi) True s
                  else (case parse_bigint t of None \<Rightarrow> s | Some n \<Rightarrow> move n)
              | Number _ \<Rightarrow> s)"

definition decrement_big :: "number_config \<Rightarrow> number_field \<Rightarrow> number_field" where
  "decrement_big o' s =
     (let lo = (case to_bigint (fmin o') of Some m \<Rightarrow> Some m | None \<Rightarrow> if allowNegative o' then None else Some 0);
          by = big_or 1 (fstep o');
          move = (\<lambda>t. let n = t - by in
                    case lo of
                      Some z \<Rightarrow> if n < z then report_big z False (s\<lparr>limits_hit := limits_hit s @ [False]\<rparr>)
                                else report_big n False s
                    | None \<Rightarrow> report_big n False s)
      in if \<not> can_increment_bigint (current_value s) (allowNegative o') then s
         else case current_value s of
                Big t \<Rightarrow> move t
              | Text t \<Rightarrow>
                  if t = [] then report_big (clamp_bigint (big_or 0 (startValue o')) lo (to_bigint (fmax o'))) False s
                  else (case parse_bigint t of None \<Rightarrow> s | Some n \<Rightarrow> move n)
              | Number _ \<Rightarrow> s)"


text \<open>\<open>toFixed\<close> rounds half away from zero.\<close>

definition fixed_scaled :: "nat \<Rightarrow> dec \<Rightarrow> int" where
  "fixed_scaled r d =
     (if mantissa d < 0 then - round_scaled r (Dec (- mantissa d) (exponent d)) else round_scaled r d)"

definition step_scale :: "number_config \<Rightarrow> field_value \<Rightarrow> nat" where
  "step_scale o' v = max (decimals v) (decimals (Number (step_of o')))"

definition increment_number :: "number_config \<Rightarrow> number_field \<Rightarrow> number_field" where
  "increment_number o' s =
     (let R = current_value s; r = step_scale o' R; hi = to_number (fmax o')
      in if \<not> can_increment R then s
         else case held_number R of
                None \<Rightarrow>
                  report_scaled r (fixed_scaled r (clamp_number (start_of o') (to_number (fmin o')) hi)) True s
              | Some d \<Rightarrow>
                  (let n = round_scaled r d + round_scaled r (step_of o') in
                   case hi of
                     None \<Rightarrow> report_scaled r n True s
                   | Some z \<Rightarrow>
                       if dec_less z (unscaled r n)
                       then report_scaled r (fixed_scaled r z) True (s\<lparr>limits_hit := limits_hit s @ [True]\<rparr>)
                       else report_scaled r n True s))"

definition lowest :: "number_config \<Rightarrow> dec" where
  "lowest o' =
     (case to_number (fmin o') of Some d \<Rightarrow> d | None \<Rightarrow> if allowNegative o' then min_safe else Dec 0 0)"

definition decrement_number :: "number_config \<Rightarrow> number_field \<Rightarrow> number_field" where
  "decrement_number o' s =
     (let R = current_value s; r = step_scale o' R
      in if \<not> can_increment R then s
         else case held_number R of
                None \<Rightarrow>
                  report_scaled r (fixed_scaled r (clamp_number (start_of o') (Some (lowest o')) (to_number (fmax o')))) False s
              | Some d \<Rightarrow>
                  (let n = round_scaled r d - round_scaled r (step_of o') in
                   if dec_less (unscaled r n) (lowest o')
                   then report_scaled r (fixed_scaled r (lowest o')) False (s\<lparr>limits_hit := limits_hit s @ [False]\<rparr>)
                   else report_scaled r n False s))"

definition step_field :: "number_config \<Rightarrow> bool \<Rightarrow> number_field \<Rightarrow> number_field" where
  "step_field o' up s =
     (if bigint_mode s then (if up then increment_big o' s else decrement_big o' s)
      else if up then increment_number o' s else decrement_number o' s)"

subsection \<open>The keyboard, the buttons, the clipboard\<close>

datatype field_key = Arrow_up | Arrow_down | Other_key

definition field_key_down :: "number_config \<Rightarrow> field_key \<Rightarrow> number_field \<Rightarrow> number_field" where
  "field_key_down o' x s =
     (if field_readOnly o' \<or> \<not> withKeyboardEvents o' then s
      else case x of Arrow_up \<Rightarrow> step_field o' True s | Arrow_down \<Rightarrow> step_field o' False s | Other_key \<Rightarrow> s)"

definition blur_field :: "number_config \<Rightarrow> number_field \<Rightarrow> number_field" where
  "blur_field o' s =
     (let v = blur_value o' (bigint_mode s) (current_value s)
      in if current_value s \<noteq> v then set_field v s else s)"

definition hold_step :: "number_config \<Rightarrow> bool \<Rightarrow> number_field \<Rightarrow> number_field" where
  "hold_step o' up s = (let s1 = step_field o' up s in s1\<lparr>hold_count := hold_count s1 + 1\<rparr>)"

definition arm_hold :: "bool \<Rightarrow> int \<Rightarrow> number_field \<Rightarrow> number_field" where
  "arm_hold up n s =
     s\<lparr>hold_timers := hold_timers s @ [(next_handle s, up, n)], hold_current := Some (next_handle s),
       next_handle := next_handle s + 1\<rparr>"

text \<open>A button goes down, a held button's timer fires, the pointer leaves.\<close>

definition press_button :: "number_config \<Rightarrow> bool \<Rightarrow> number_field \<Rightarrow> number_field" where
  "press_button o' up s =
     (let s1 = hold_step o' up s in case stepHold o' of None \<Rightarrow> s1 | Some (first, _) \<Rightarrow> arm_hold up first s1)"

definition hold_fires :: "number_config \<Rightarrow> nat \<Rightarrow> number_field \<Rightarrow> number_field" where
  "hold_fires o' h s =
     (case filter (\<lambda>(i, _). i = h) (hold_timers s) of
        [] \<Rightarrow> s
      | (_, up, _) # _ \<Rightarrow>
          (let s1 = hold_step o' up (s\<lparr>hold_timers := filter (\<lambda>(i, _). i \<noteq> h) (hold_timers s)\<rparr>)
           in case stepHold o' of None \<Rightarrow> s1 | Some (_, next) \<Rightarrow> arm_hold up (next (hold_count s1)) s1))"

definition release_button :: "number_field \<Rightarrow> number_field" where
  "release_button s =
     (let s1 = (case hold_current s of
                  None \<Rightarrow> s
                | Some h \<Rightarrow> s\<lparr>hold_timers := filter (\<lambda>(i, _). i \<noteq> h) (hold_timers s)\<rparr>)
      in s1\<lparr>hold_current := None, hold_count := 0\<rparr>)"

definition up_disabled :: "number_config \<Rightarrow> field_value \<Rightarrow> bool" where
  "up_disabled o' v \<longleftrightarrow>
     field_disabled o' \<or>
     (case (v, to_number (fmax o')) of (Number d, Some z) \<Rightarrow> dec_le z d | _ \<Rightarrow> False) \<or>
     (case (v, to_bigint (fmax o')) of (Big n, Some z) \<Rightarrow> z \<le> n | _ \<Rightarrow> False)"

definition down_disabled :: "number_config \<Rightarrow> field_value \<Rightarrow> bool" where
  "down_disabled o' v \<longleftrightarrow>
     field_disabled o' \<or>
     (case (v, to_number (fmin o')) of (Number d, Some z) \<Rightarrow> dec_le d z | _ \<Rightarrow> False) \<or>
     (case (v, to_bigint (fmin o')) of (Big n, Some z) \<Rightarrow> n \<le> z | _ \<Rightarrow> False)"

definition shows_buttons :: "number_config \<Rightarrow> number_field \<Rightarrow> bool" where
  "shows_buttons o' s \<longleftrightarrow>
     \<not> (hideControls o' \<or> field_readOnly o' \<or>
        \<not> (if bigint_mode s then can_increment_bigint (current_value s) (allowNegative o') else can_increment (current_value s)))"

definition scale_shown :: "number_config \<Rightarrow> number_field \<Rightarrow> nat option" where
  "scale_shown o' s = (if bigint_mode s then Some 0 else if allowDecimal o' then decimalScale o' else Some 0)"

text \<open>
  Pasted text with another decimal separator goes in with the field's own; \<open>None\<close> leaves the paste to
  the browser. The result is the new text and the caret.
\<close>

definition paste_number :: "char \<Rightarrow> char list \<Rightarrow> string \<Rightarrow> string \<Rightarrow> nat \<Rightarrow> nat \<Rightarrow> (string \<times> nat) option" where
  "paste_number n seps t old a b =
     (let r = filter (\<lambda>c. c \<noteq> n) seps
      in if list_ex (\<lambda>c. c \<in> set t) r
         then (let i = fold (\<lambda>c. map (\<lambda>x. if x = c then n else x)) r t
               in Some (take a old @ i @ drop b old, a + length i))
         else None)"

end
