(* ===== verification/Decimal_Value.thy ===== *)
theory Decimal_Value
  imports Complex_Main Number_Input
begin

text \<open>
  The rational value of a decimal, on which the arithmetic and the order of the number fields and of the
  style properties are those of the rationals.
\<close>

subsection \<open>The value of a decimal\<close>

definition dec_val :: "dec \<Rightarrow> rat" where
  "dec_val d = of_int (mantissa d) * 10 powi exponent d"

lemma dec_val_int [simp]: "dec_val (Dec n 0) = of_int n"
  by (simp add: dec_val_def)

lemma ten_powi_pos [simp]: "0 < (10 :: rat) powi e"
  by (simp add: power_int_def)

lemma powi_nat: "0 \<le> e \<Longrightarrow> (10 :: rat) powi e = 10 ^ nat e"
  by (simp add: power_int_def)

lemma dec_val_norm [simp]: "dec_val (norm_dec m e) = of_int m * 10 powi e"
proof (induction m e rule: norm_dec.induct)
  case (1 m e)
  show ?case
  proof (cases "m = 0 \<or> m mod 10 \<noteq> 0")
    case True
    then show ?thesis by (subst norm_dec.simps) (auto simp: dec_val_def)
  next
    case False
    then have "dec_val (norm_dec m e) = of_int (m div 10) * 10 powi (e + 1)"
      using 1 by (subst norm_dec.simps) simp
    moreover have "(of_int m :: rat) = of_int (m div 10) * 10"
      using False by (metis mult.commute of_int_mult of_int_numeral mod_0_imp_dvd dvd_mult_div_cancel)
    ultimately show ?thesis by (simp add: power_int_add)
  qed
qed

lemma scale_common:
  assumes "e \<le> x"
  shows "of_int (m * 10 ^ nat (x - e)) * (10 :: rat) powi e = of_int m * 10 powi x"
proof -
  have "(10 :: rat) powi x = 10 powi (x - e) * 10 powi e" by (simp flip: power_int_add)
  then show ?thesis using assms by (simp add: powi_nat)
qed

lemma dec_le_val: "dec_le a b \<longleftrightarrow> dec_val a \<le> dec_val b"
proof -
  let ?e = "min (exponent a) (exponent b)"
  let ?x = "mantissa a * 10 ^ nat (exponent a - ?e)" and ?y = "mantissa b * 10 ^ nat (exponent b - ?e)"
  have "dec_val a = of_int ?x * 10 powi ?e" "dec_val b = of_int ?y * 10 powi ?e"
    unfolding dec_val_def by (subst scale_common; simp)+
  moreover have "of_int ?x * (10 :: rat) powi ?e \<le> of_int ?y * 10 powi ?e \<longleftrightarrow> ?x \<le> ?y"
    by (subst mult_le_cancel_right_pos) (simp_all only: ten_powi_pos of_int_le_iff)
  ultimately show ?thesis by (simp only: dec_le_def Let_def)
qed

lemma dec_less_val: "dec_less a b \<longleftrightarrow> dec_val a < dec_val b"
  by (auto simp: dec_less_def dec_le_val)

lemma dec_max_val [simp]: "dec_val (dec_max a b) = max (dec_val a) (dec_val b)"
  by (auto simp: dec_max_def dec_less_val)

lemma dec_min_val [simp]: "dec_val (dec_min a b) = min (dec_val a) (dec_val b)"
  by (auto simp: dec_min_def dec_less_val)

lemma unscaled_val [simp]: "dec_val (unscaled r n) = of_int n / 10 ^ r"
  by (simp add: unscaled_def power_int_minus divide_inverse)

subsection \<open>Trimming a text that begins and ends with printable characters\<close>

lemma strip_unchanged:
  assumes "\<And>w. w \<in> set ws \<Longrightarrow> c \<notin> set w"
  shows "strip ws (c # s) = c # s"
proof -
  have "\<not> (w \<noteq> [] \<and> is_prefix_of w (c # s))" if "w \<in> set ws" for w
    using assms [OF that] by (cases w) auto
  then have "filter (\<lambda>w. w \<noteq> [] \<and> is_prefix_of w (c # s)) ws = []" by (auto simp: filter_empty_conv)
  then show ?thesis by (subst strip.simps) simp
qed

lemma printable_not_space: "33 \<le> byte c \<Longrightarrow> byte c < 128 \<Longrightarrow> w \<in> set white_space \<Longrightarrow> c \<notin> set w"
  by (auto simp: white_space_def)

lemma trim_printable:
  assumes "33 \<le> byte c" "byte c < 128" "33 \<le> byte d" "byte d < 128"
  shows "trim (c # s @ [d]) = c # s @ [d]"
proof -
  have "strip white_space (c # s @ [d]) = c # s @ [d]"
    by (rule strip_unchanged) (rule printable_not_space [OF assms(1,2)])
  moreover have "strip (map rev white_space) (d # rev s @ [c]) = d # rev s @ [c]"
    by (rule strip_unchanged) (auto dest: printable_not_space [OF assms(3,4)])
  ultimately show ?thesis by (simp add: trim_def)
qed

lemmas digit_text_defs = text_number_def unsign_def int_digits_def is_digit_def signed_dec_def norm_dec.simps
  nat_value_def digit_value_def Let_def

end
