(* ===== verification/Number_Input_Properties.thy ===== *)
theory Number_Input_Properties
  imports Decimal_Value Console_State
begin

text \<open>
  What the number fields promise: stepping is exact and stops at the limits, leaving a field brings
  its number into the limits, and what the console's fields, which allow decimals, let through.
\<close>

text \<open>A number with no more decimals than the scale is scaled exactly.\<close>

lemma round_scaled_exact:
  assumes "decimals (Number d) \<le> r"
  shows "of_int (round_scaled r d) = dec_val d * 10 ^ r"
proof -
  let ?k = "int r + exponent d"
  obtain m x where n: "norm_dec (mantissa d) (exponent d) = Dec m x" by (cases "norm_dec (mantissa d) (exponent d)")
  have val: "dec_val d = of_int m * 10 powi x"
    using dec_val_norm [of "mantissa d" "exponent d"] by (simp add: n dec_val_def)
  have x: "0 \<le> x + int r" using assms by (simp add: decimals_def n)
  let ?N = "m * 10 ^ nat (x + int r)"
  have "dec_val d * 10 ^ r = of_int m * 10 powi (x + int r)"
    by (simp add: val power_int_add)
  then have N: "dec_val d * 10 ^ r = of_int ?N" using x by (simp add: powi_nat)
  have sc: "dec_val d * 10 ^ r = of_int (mantissa d) * 10 powi ?k"
    by (simp add: dec_val_def power_int_add)
  show ?thesis
  proof (cases "0 \<le> ?k")
    case True
    then show ?thesis using sc by (simp add: round_scaled_def powi_nat Let_def)
  next
    case False
    let ?p = "10 ^ nat (- ?k) :: int"
    have "(10 :: rat) powi ?k * 10 powi (- ?k) = 1" by (simp flip: power_int_add)
    then have "of_int ?N * 10 powi (- ?k) = (of_int (mantissa d) :: rat)"
      using sc unfolding N by (simp only: mult.assoc)
    then have "(of_int (mantissa d) :: rat) = of_int (?N * ?p)" using False by (simp add: powi_nat)
    then have m: "mantissa d = ?N * ?p" by (simp only: of_int_eq_iff)
    have "(?p + ?N * (2 * ?p)) div (2 * ?p) = ?N + ?p div (2 * ?p)"
      by (rule div_mult_self1) simp
    moreover have "?p div (2 * ?p) = 0" by (simp add: div_pos_pos_trivial)
    ultimately have "(2 * mantissa d + ?p) div (2 * ?p) = ?N" unfolding m by (simp add: algebra_simps)
    then have "round_scaled r d = ?N" using False by (simp add: round_scaled_def Let_def)
    then show ?thesis using N by simp
  qed
qed

lemma norm_dec_uminus_exponent: "exponent (norm_dec (- m) e) = exponent (norm_dec m e)"
proof (induction m e rule: norm_dec.induct)
  case (1 m e)
  show ?case
  proof (cases "m = 0 \<or> m mod 10 \<noteq> 0")
    case True
    then show ?thesis by (subst (1 2) norm_dec.simps) (auto simp: zmod_zminus1_eq_if)
  next
    case False
    then have "(- m) div 10 = - (m div 10)" by (simp add: zdiv_zminus1_eq_if)
    with False 1 show ?thesis by (subst (1 2) norm_dec.simps) (simp add: zmod_zminus1_eq_if)
  qed
qed

lemma fixed_scaled_exact:
  assumes "decimals (Number d) \<le> r"
  shows "of_int (fixed_scaled r d) = dec_val d * 10 ^ r"
proof (cases "mantissa d < 0")
  case True
  let ?d = "Dec (- mantissa d) (exponent d)"
  have "decimals (Number ?d) \<le> r"
    using assms by (simp add: decimals_def norm_dec_uminus_exponent)
  from round_scaled_exact [OF this] True show ?thesis by (simp add: fixed_scaled_def dec_val_def)
next
  case False
  then show ?thesis using round_scaled_exact [OF assms] by (simp add: fixed_scaled_def)
qed

lemma clamp_number_val:
  "dec_val (clamp_number d (Some lo) (Some hi)) = min (max (dec_val d) (dec_val lo)) (dec_val hi)"
  by (simp add: clamp_number_def)

subsection \<open>Stepping\<close>

lemma report_scaled_changed [simp]:
  "changed (report_scaled r n up s) = changed s @ [Number (unscaled r n)]"
  by (simp add: report_scaled_def report_step_def set_field_def Let_def split: option.splits)

lemma step_scale_covers:
  "decimals v \<le> step_scale c v" "decimals (Number (step_of c)) \<le> step_scale c v"
  by (simp_all add: step_scale_def)

lemma sum_scaled:
  assumes "decimals (Number a) \<le> r" "decimals (Number b) \<le> r"
  shows "dec_val (unscaled r (round_scaled r a + round_scaled r b)) = dec_val a + dec_val b"
    "dec_val (unscaled r (round_scaled r a - round_scaled r b)) = dec_val a - dec_val b"
  using assms by (simp_all add: round_scaled_exact field_simps)

lemma limit_scaled:
  assumes "decimals (Number a) \<le> r"
  shows "dec_val (unscaled r (fixed_scaled r a)) = dec_val a"
  using assms by (simp add: fixed_scaled_exact)



text \<open>A limit with more decimals than the value and the step is rounded to theirs: with a maximum of ten
  and a half, a step from ten reaches eleven.\<close>

lemma step_past_fractional_limit:
  "\<exists>u. changed (step_field (number_defaults\<lparr>fmax := Some (Number (Dec 105 (-1)))\<rparr>) True
     (start_field (Some (Number (Dec 10 0))) None)) = [Number u] \<and> dec_val u = 11"
proof -
  have "norm_dec 1 0 = Dec 1 0" "norm_dec 10 0 = Dec 1 1" by (simp_all add: norm_dec.simps)
  then show ?thesis
    by (simp add: step_field_def start_field_def increment_number_def current_value_def is_big_def number_defaults_def
        to_number_def step_of_def can_increment_def dec_less_val held_number_def step_scale_def decimals_def
        round_scaled_def fixed_scaled_def max_safe_def Let_def dec_val_def [of "Dec 105 (-1)"] power_int_minus)
qed

subsection \<open>Leaving a field\<close>

text \<open>Leaving a field that clamps brings its number within the limits; a text becomes a number only
  within the limits.\<close>

theorem blur_in_limits:
  assumes "clampBehavior c = Clamp_blur"
    and "to_number (fmin c) = Some lo" "to_number (fmax c) = Some hi" "dec_le lo hi"
    and "blur_value c False v = Number d"
  shows "dec_le lo d \<and> dec_le d hi"
proof (cases v)
  case (Number x)
  then show ?thesis using assms by (auto simp: blur_value_def dec_le_val clamp_number_val min_def max_def)
next
  case (Text s)
  then have "trim_number s (Some hi) (Some lo) = Number d"
    using assms by (auto simp: blur_value_def split: if_splits)
  then show ?thesis using assms(4)
    by (auto simp: trim_number_def dec_le_val clamp_number_val min_def max_def Let_def
        split: option.splits if_splits)
next
  case (Big n)
  then show ?thesis using assms(5) by (simp add: blur_value_def)
qed

subsection \<open>The console's number fields\<close>

text \<open>The properties \<open>main.tsx\<close> gives the event count: the limits; everything else is the default.\<close>

definition console_number :: number_config where
  "console_number = number_defaults\<lparr>fmin := Some (Number (Dec 1 0)), fmax := Some (Number (Dec 100 0))\<rparr>"

text \<open>\<open>Number(value)\<close>.\<close>

definition number_of_value :: "field_value \<Rightarrow> dec option" where
  "number_of_value v = (case v of Number d \<Rightarrow> Some d | Text t \<Rightarrow> text_number t | Big n \<Rightarrow> Some (int_dec n))"

text \<open>Something happens to the field while it shows the page's count, and the page takes the changes.\<close>

definition edit_count :: "(number_field \<Rightarrow> number_field) \<Rightarrow> page \<Rightarrow> page" where
  "edit_count f p =
     fold (\<lambda>v. edit_number Count_edited (number_of_value v))
       (changed (f (start_field (Some (Number (labCount p))) None))) p"

lemma edit_number_count [simp]: "labCount (edit_number Count_edited x p) = number_or_one x"
  by (simp add: edit_number_def)

lemma typed_count:
  assumes "text_number t = Some d"
  shows "labCount (edit_count (on_value_change console_number True (Some d) t) p) = number_or_one (Some d)"
proof -
  have "number_of_value (typed_value console_number False (Some d) t) = Some d"
    using assms by (simp add: typed_value_def number_of_value_def)
  then show ?thesis
    by (simp add: edit_count_def on_value_change_def start_field_def set_field_def)
qed

lemma left_count:
  "dec_val (labCount (edit_count (blur_field console_number) p)) = min (max (dec_val (labCount p)) 1) 100"
proof -
  let ?d = "labCount p"
  let ?e = "clamp_number ?d (Some (Dec 1 0)) (Some (Dec 100 0))"
  have v: "dec_val ?e = min (max (dec_val ?d) 1) 100" by (simp add: clamp_number_val)
  then have "dec_val ?e \<noteq> 0" by (simp add: min_def max_def)
  then have "mantissa ?e \<noteq> 0" by (auto simp: dec_val_def)
  then have "number_or_one (Some ?e) = ?e" by (simp add: number_or_one_def)
  then show ?thesis using v
    by (auto simp: edit_count_def blur_field_def start_field_def current_value_def blur_value_def console_number_def
        number_defaults_def to_number_def number_of_value_def set_field_def Let_def)
qed

text \<open>A number typed into the console's event count and left there is published as it was typed,
  but for the limits: also a fraction, which the daemon's integer field does not accept.\<close>

theorem typed_count_published:
  assumes "text_number t = Some d"
  shows "dec_val (labCount (edit_count (blur_field console_number)
      (edit_count (on_value_change console_number True (Some d) t) p))) = max 1 (min (dec_val d) 100)"
proof (cases "mantissa d = 0")
  case True
  then have "dec_val (number_or_one (Some d)) = 1" "dec_val d = 0" by (simp_all add: number_or_one_def dec_val_def)
  then show ?thesis by (simp add: left_count typed_count [OF assms])
next
  case False
  then show ?thesis by (simp add: left_count typed_count [OF assms] number_or_one_def min_def max_def)
qed

theorem typed_count_published_witness:
  "dec_val (labCount (edit_count (blur_field console_number)
      (edit_count (on_value_change console_number True (Some (Dec 25 (-1))) ''2.5'') (new_page ''http://h/'' [])))) = 5 / 2"
proof -
  have "trim ''2.5'' = ''2.5''" using trim_printable [of "CHR ''2''" "CHR ''5''" "''.''"] by simp
  then have "text_number ''2.5'' = Some (Dec 25 (-1))"
    by (simp add: digit_text_defs)
  from typed_count_published [OF this] show ?thesis by (simp add: dec_val_def power_int_minus)
qed

end
