(* ===== verification/Transition.thy ===== *)
theory Transition
  imports Css_Style Js_Values
begin

text \<open>
  How the console's drop-downs appear and go: Mantine's transitions as bundled into \<open>app.js\<close>, the
  table of styles, \<open>getTransitionStyles\<close>, the hook \<open>useTransition\<close> and what \<open>Transition\<close> renders.
  The hook's animation frames and timeouts are part of the state; their handles are numbers that the
  browser never gives twice, and \<open>-1\<close> and old handles cancel nothing. A callback is the code it runs
  with what it captured. Durations are whole milliseconds. A name that every object inherits is not a
  name of a transition here.
\<close>

subsection \<open>Styles\<close>

record transition_styles =
  when_in :: css
  when_out :: css
  when_common :: css
  on_property :: string

definition pop_styles :: "string \<Rightarrow> transition_styles" where
  "pop_styles e =
     \<lparr>when_in = [(''opacity'', Css_number 1), (''transform'', Css_text ''scale(1)'')],
      when_out = [(''opacity'', Css_number 0),
        (''transform'', Css_text (''scale(.9) translateY('' @ (if e = ''bottom'' then ''10'' else ''-10'') @ ''px)''))],
      when_common = [],
      on_property = ''transform, opacity''\<rparr>"

definition fade_transitions :: "(string \<times> transition_styles) list" where
  "fade_transitions =
     [(''fade'',
       \<lparr>when_in = [(''opacity'', Css_number 1)],
        when_out = [(''opacity'', Css_number 0)],
        when_common = [],
        on_property = ''opacity''\<rparr>),
      (''fade-up'',
       \<lparr>when_in = [(''opacity'', Css_number 1), (''transform'', Css_text ''translateY(0)'')],
        when_out = [(''opacity'', Css_number 0), (''transform'', Css_text ''translateY(30px)'')],
        when_common = [],
        on_property = ''opacity, transform''\<rparr>),
      (''fade-down'',
       \<lparr>when_in = [(''opacity'', Css_number 1), (''transform'', Css_text ''translateY(0)'')],
        when_out = [(''opacity'', Css_number 0), (''transform'', Css_text ''translateY(-30px)'')],
        when_common = [],
        on_property = ''opacity, transform''\<rparr>),
      (''fade-left'',
       \<lparr>when_in = [(''opacity'', Css_number 1), (''transform'', Css_text ''translateX(0)'')],
        when_out = [(''opacity'', Css_number 0), (''transform'', Css_text ''translateX(30px)'')],
        when_common = [],
        on_property = ''opacity, transform''\<rparr>),
      (''fade-right'',
       \<lparr>when_in = [(''opacity'', Css_number 1), (''transform'', Css_text ''translateX(0)'')],
        when_out = [(''opacity'', Css_number 0), (''transform'', Css_text ''translateX(-30px)'')],
        when_common = [],
        on_property = ''opacity, transform''\<rparr>)]"

definition scale_transitions :: "(string \<times> transition_styles) list" where
  "scale_transitions =
     [(''scale'',
       \<lparr>when_in = [(''opacity'', Css_number 1), (''transform'', Css_text ''scale(1)'')],
        when_out = [(''opacity'', Css_number 0), (''transform'', Css_text ''scale(0)'')],
        when_common = [(''transformOrigin'', Css_text ''top'')],
        on_property = ''transform, opacity''\<rparr>),
      (''scale-y'',
       \<lparr>when_in = [(''opacity'', Css_number 1), (''transform'', Css_text ''scaleY(1)'')],
        when_out = [(''opacity'', Css_number 0), (''transform'', Css_text ''scaleY(0)'')],
        when_common = [(''transformOrigin'', Css_text ''top'')],
        on_property = ''transform, opacity''\<rparr>),
      (''scale-x'',
       \<lparr>when_in = [(''opacity'', Css_number 1), (''transform'', Css_text ''scaleX(1)'')],
        when_out = [(''opacity'', Css_number 0), (''transform'', Css_text ''scaleX(0)'')],
        when_common = [(''transformOrigin'', Css_text ''left'')],
        on_property = ''transform, opacity''\<rparr>)]"

definition turn_transitions :: "(string \<times> transition_styles) list" where
  "turn_transitions =
     [(''skew-up'',
       \<lparr>when_in = [(''opacity'', Css_number 1), (''transform'', Css_text ''translateY(0) skew(0deg, 0deg)'')],
        when_out = [(''opacity'', Css_number 0), (''transform'', Css_text ''translateY(-20px) skew(-10deg, -5deg)'')],
        when_common = [(''transformOrigin'', Css_text ''top'')],
        on_property = ''transform, opacity''\<rparr>),
      (''skew-down'',
       \<lparr>when_in = [(''opacity'', Css_number 1), (''transform'', Css_text ''translateY(0) skew(0deg, 0deg)'')],
        when_out = [(''opacity'', Css_number 0), (''transform'', Css_text ''translateY(20px) skew(-10deg, -5deg)'')],
        when_common = [(''transformOrigin'', Css_text ''bottom'')],
        on_property = ''transform, opacity''\<rparr>),
      (''rotate-left'',
       \<lparr>when_in = [(''opacity'', Css_number 1), (''transform'', Css_text ''translateY(0) rotate(0deg)'')],
        when_out = [(''opacity'', Css_number 0), (''transform'', Css_text ''translateY(20px) rotate(-5deg)'')],
        when_common = [(''transformOrigin'', Css_text ''bottom'')],
        on_property = ''transform, opacity''\<rparr>),
      (''rotate-right'',
       \<lparr>when_in = [(''opacity'', Css_number 1), (''transform'', Css_text ''translateY(0) rotate(0deg)'')],
        when_out = [(''opacity'', Css_number 0), (''transform'', Css_text ''translateY(20px) rotate(5deg)'')],
        when_common = [(''transformOrigin'', Css_text ''top'')],
        on_property = ''transform, opacity''\<rparr>)]"

definition slide_transitions :: "(string \<times> transition_styles) list" where
  "slide_transitions =
     [(''slide-down'',
       \<lparr>when_in = [(''opacity'', Css_number 1), (''transform'', Css_text ''translateY(0)'')],
        when_out = [(''opacity'', Css_number 0), (''transform'', Css_text ''translateY(-100%)'')],
        when_common = [(''transformOrigin'', Css_text ''top'')],
        on_property = ''transform, opacity''\<rparr>),
      (''slide-up'',
       \<lparr>when_in = [(''opacity'', Css_number 1), (''transform'', Css_text ''translateY(0)'')],
        when_out = [(''opacity'', Css_number 0), (''transform'', Css_text ''translateY(100%)'')],
        when_common = [(''transformOrigin'', Css_text ''bottom'')],
        on_property = ''transform, opacity''\<rparr>),
      (''slide-left'',
       \<lparr>when_in = [(''opacity'', Css_number 1), (''transform'', Css_text ''translateX(0)'')],
        when_out = [(''opacity'', Css_number 0), (''transform'', Css_text ''translateX(100%)'')],
        when_common = [(''transformOrigin'', Css_text ''left'')],
        on_property = ''transform, opacity''\<rparr>),
      (''slide-right'',
       \<lparr>when_in = [(''opacity'', Css_number 1), (''transform'', Css_text ''translateX(0)'')],
        when_out = [(''opacity'', Css_number 0), (''transform'', Css_text ''translateX(-100%)'')],
        when_common = [(''transformOrigin'', Css_text ''right'')],
        on_property = ''transform, opacity''\<rparr>)]"

definition pop_transitions :: "(string \<times> transition_styles) list" where
  "pop_transitions =
     [(''pop'', (pop_styles ''bottom'')\<lparr>when_common := [(''transformOrigin'', Css_text ''center center'')]\<rparr>),
      (''pop-bottom-left'', (pop_styles ''bottom'')\<lparr>when_common := [(''transformOrigin'', Css_text ''bottom left'')]\<rparr>),
      (''pop-bottom-right'', (pop_styles ''bottom'')\<lparr>when_common := [(''transformOrigin'', Css_text ''bottom right'')]\<rparr>),
      (''pop-top-left'', (pop_styles ''top'')\<lparr>when_common := [(''transformOrigin'', Css_text ''top left'')]\<rparr>),
      (''pop-top-right'', (pop_styles ''top'')\<lparr>when_common := [(''transformOrigin'', Css_text ''top right'')]\<rparr>)]"

definition transitions :: "(string \<times> transition_styles) list" where
  "transitions =
     fade_transitions @ scale_transitions @ turn_transitions @ slide_transitions @ pop_transitions"

datatype status = Entering | Entered | Exiting | Exited | Pre_exiting | Pre_entering

text \<open>\<open>ts\<close>: which of the two styles a status shows.\<close>

fun status_in :: "status \<Rightarrow> bool" where
  "status_in Entering = True"
| "status_in Entered = True"
| "status_in Exiting = False"
| "status_in Exited = False"
| "status_in Pre_exiting = False"
| "status_in Pre_entering = False"

datatype transition_name = Named string | Custom transition_styles

definition status_styles :: "transition_styles \<Rightarrow> status \<Rightarrow> css" where
  "status_styles e t = (if status_in t then when_in e else when_out e)"

definition transition_css :: "transition_name \<Rightarrow> status \<Rightarrow> int \<Rightarrow> string \<Rightarrow> css" where
  "transition_css e t n r =
     (let i = [(''WebkitBackfaceVisibility'', Css_text ''hidden''),
               (''transitionDuration'', Css_text (show_dec (int_dec n) @ ''ms'')),
               (''transitionTimingFunction'', Css_text r)];
          styles = (\<lambda>d. spread (spread (spread [(''transitionProperty'', Css_text (on_property d))] i)
                     (when_common d)) (status_styles d t))
      in case e of
           Named k \<Rightarrow> (case map_of transitions k of Some d \<Rightarrow> styles d | None \<Rightarrow> [])
         | Custom d \<Rightarrow> styles d)"

subsection \<open>The hook\<close>

record transition_props =
  duration_in :: int
  duration_out :: int
  delay_in :: "int option"
  delay_out :: "int option"
  reduced :: bool

text \<open>The callbacks, with the direction and the duration they captured.\<close>

datatype callback =
    Delayed transition_props bool
  | First_frame bool int
  | Second_frame bool int
  | Finish bool

datatype notice = On_enter | On_entered | On_exit | On_exited

record transition_state =
  mounted :: bool
  current_duration :: int
  status :: status
  finish_ref :: int
  delay_ref :: int
  frame_ref :: int
  frames :: "(int \<times> callback) list"
  timers :: "(int \<times> callback) list"
  fresh :: int
  notices :: "notice list"
  torn_down :: bool

definition init_transition :: "transition_props \<Rightarrow> bool \<Rightarrow> transition_state" where
  "init_transition p r =
     \<lparr>mounted = r, current_duration = (if reduced p then 0 else duration_in p),
      status = (if r then Entered else Exited), finish_ref = -1, delay_ref = -1, frame_ref = -1,
      frames = [], timers = [], fresh = 1, notices = [], torn_down = False\<rparr>"

definition drop_handle :: "int \<Rightarrow> (int \<times> callback) list \<Rightarrow> (int \<times> callback) list" where
  "drop_handle h = filter (\<lambda>(i, _). i \<noteq> h)"

definition cancel_all :: "transition_state \<Rightarrow> transition_state" where
  "cancel_all s =
     s\<lparr>timers := drop_handle (delay_ref s) (drop_handle (finish_ref s) (timers s)),
       frames := drop_handle (frame_ref s) (frames s)\<rparr>"

definition request_frame :: "callback \<Rightarrow> transition_state \<Rightarrow> transition_state" where
  "request_frame c s = s\<lparr>frames := frames s @ [(fresh s, c)], frame_ref := fresh s, fresh := fresh s + 1\<rparr>"

definition set_finish :: "callback \<Rightarrow> transition_state \<Rightarrow> transition_state" where
  "set_finish c s = s\<lparr>timers := timers s @ [(fresh s, c)], finish_ref := fresh s, fresh := fresh s + 1\<rparr>"

definition set_delay :: "callback \<Rightarrow> transition_state \<Rightarrow> transition_state" where
  "set_delay c s = s\<lparr>timers := timers s @ [(fresh s, c)], delay_ref := fresh s, fresh := fresh s + 1\<rparr>"

definition notify :: "notice \<Rightarrow> transition_state \<Rightarrow> transition_state" where
  "notify c s = s\<lparr>notices := notices s @ [c]\<rparr>"

definition final_status :: "bool \<Rightarrow> status" where
  "final_status n = (if n then Entered else Exited)"

definition start_notice :: "bool \<Rightarrow> notice" where
  "start_notice n = (if n then On_enter else On_exit)"

definition end_notice :: "bool \<Rightarrow> notice" where
  "end_notice n = (if n then On_entered else On_exited)"

definition run_transition :: "transition_props \<Rightarrow> bool \<Rightarrow> transition_state \<Rightarrow> transition_state" where
  "run_transition p n s =
     (let l = (if reduced p then 0 else if n then duration_in p else duration_out p);
          s1 = (cancel_all s)\<lparr>current_duration := l\<rparr>
      in if l = 0 then (notify (end_notice n) (notify (start_notice n) s1))\<lparr>status := final_status n\<rparr>
         else request_frame (First_frame n l) s1)"

definition handle_state_change :: "transition_props \<Rightarrow> bool \<Rightarrow> transition_state \<Rightarrow> transition_state" where
  "handle_state_change p e s =
     (let s1 = cancel_all s in
      case (if e then delay_in p else delay_out p) of
        None \<Rightarrow> run_transition p e s1
      | Some _ \<Rightarrow> set_delay (Delayed p e) s1)"

text \<open>A render of the component with new properties; the effect runs when \<open>mounted\<close> changes.\<close>

definition set_mounted :: "transition_props \<Rightarrow> bool \<Rightarrow> transition_state \<Rightarrow> transition_state" where
  "set_mounted p r s = (if r = mounted s then s else handle_state_change p r (s\<lparr>mounted := r\<rparr>))"

definition fire_callback :: "callback \<Rightarrow> transition_state \<Rightarrow> transition_state" where
  "fire_callback c s =
     (case c of
        Delayed p e \<Rightarrow> run_transition p e s
      | First_frame n l \<Rightarrow>
          request_frame (Second_frame n l) (s\<lparr>status := (if n then Pre_entering else Pre_exiting)\<rparr>)
      | Second_frame n l \<Rightarrow>
          set_finish (Finish n) ((notify (start_notice n) s)\<lparr>status := (if n then Entering else Exiting)\<rparr>)
      | Finish n \<Rightarrow> (notify (end_notice n) s)\<lparr>status := final_status n\<rparr>)"

definition fire_frame :: "int \<Rightarrow> callback \<Rightarrow> transition_state \<Rightarrow> transition_state" where
  "fire_frame h c s = fire_callback c (s\<lparr>frames := drop_handle h (frames s)\<rparr>)"

definition fire_timer :: "int \<Rightarrow> callback \<Rightarrow> transition_state \<Rightarrow> transition_state" where
  "fire_timer h c s = fire_callback c (s\<lparr>timers := drop_handle h (timers s)\<rparr>)"

definition tear_down :: "transition_state \<Rightarrow> transition_state" where
  "tear_down s = (cancel_all s)\<lparr>torn_down := True\<rparr>"

inductive transition_step :: "transition_state \<Rightarrow> transition_state \<Rightarrow> bool" where
  rendered: "\<not> torn_down s \<Longrightarrow> transition_step s (set_mounted p r s)"
| frame: "(h, c) \<in> set (frames s) \<Longrightarrow> transition_step s (fire_frame h c s)"
| timer: "(h, c) \<in> set (timers s) \<Longrightarrow> transition_step s (fire_timer h c s)"
| removed: "\<not> torn_down s \<Longrightarrow> transition_step s (tear_down s)"

subsection \<open>What is rendered\<close>

text \<open>
  The children with a style, not rendered, or kept in an \<open>Activity\<close> that shows or hides them.
\<close>

datatype transition_view = Absent | Plain css | Kept bool css

definition hidden_css :: css where
  "hidden_css = [(''display'', Css_text ''none'')]"

definition transition_view ::
  "bool \<Rightarrow> bool \<Rightarrow> bool \<Rightarrow> transition_name \<Rightarrow> string \<Rightarrow> transition_state \<Rightarrow> transition_view" where
  "transition_view testing keep display_none n timing s =
     (let a = mounted s; v = (status s = Exited);
          shown = transition_css n (status s) (current_duration s) (if timing = [] then ''ease'' else timing)
      in if testing then (if a then Plain [] else if keep then Plain hidden_css else Absent)
         else if current_duration s = 0
         then (if keep
               then (if display_none then (if a then Plain [] else Plain hidden_css) else Kept a [])
               else if a then Plain [] else Absent)
         else if keep
         then (let e = (if v then (if display_none then hidden_css else []) else shown)
               in if display_none then Plain e else Kept (\<not> v) e)
         else if v then Absent else Plain shown)"

end
