(* ===== verification/Transition_Properties.thy ===== *)
theory Transition_Properties
  imports Transition
begin

text \<open>
  What the transitions promise: whatever the order of opening, closing, frames and timeouts, a
  drop-down never stays half open, and no style of one phase is left behind in another.
\<close>

subsection \<open>The invariant of the hook\<close>

fun direction :: "callback \<Rightarrow> bool" where
  "direction (Delayed p e) = e"
| "direction (First_frame n l) = n"
| "direction (Second_frame n l) = n"
| "direction (Finish n) = n"

fun frame_callback :: "callback \<Rightarrow> bool" where
  "frame_callback (First_frame n l) = True"
| "frame_callback (Second_frame n l) = True"
| "frame_callback _ = False"

fun remaining :: "callback \<Rightarrow> nat" where
  "remaining (Delayed p e) = 4"
| "remaining (First_frame n l) = 3"
| "remaining (Second_frame n l) = 2"
| "remaining (Finish n) = 1"

definition waiting_steps :: "transition_state \<Rightarrow> nat" where
  "waiting_steps s = sum_list (map (\<lambda>(h, c). remaining c) (frames s @ timers s))"

text \<open>What may be pending: nothing, and then the status is final, or one callback towards the side asked for.\<close>

definition pending_ok :: "transition_state \<Rightarrow> bool" where
  "pending_ok s \<longleftrightarrow>
     (case (frames s, timers s) of
        ([], []) \<Rightarrow> torn_down s \<or> status s = final_status (mounted s)
      | ([(h, c)], []) \<Rightarrow> h = frame_ref s \<and> frame_callback c \<and> direction c = mounted s \<and> \<not> torn_down s
      | ([], [(h, c)]) \<Rightarrow>
          h = (case c of Delayed _ _ \<Rightarrow> delay_ref s | _ \<Rightarrow> finish_ref s) \<and> \<not> frame_callback c \<and>
          direction c = mounted s \<and> \<not> torn_down s
      | _ \<Rightarrow> False)"

lemma no_pair_first: "(\<forall>a b x. l \<noteq> (a, b) # x) \<longleftrightarrow> l = []"
  by (cases l) auto

lemma pending_cases:
  assumes "pending_ok s"
  obtains (none) "frames s = []" "timers s = []" "torn_down s \<or> status s = final_status (mounted s)"
  | (frame) c where "frames s = [(frame_ref s, c)]" "timers s = []" "frame_callback c"
      "direction c = mounted s" "\<not> torn_down s"
  | (delay) p where "frames s = []" "timers s = [(delay_ref s, Delayed p (mounted s))]" "\<not> torn_down s"
  | (finish) "frames s = []" "timers s = [(finish_ref s, Finish (mounted s))]" "\<not> torn_down s"
  using assms
  by (auto simp: pending_ok_def no_pair_first split: list.splits prod.splits callback.splits elim: frame_callback.elims)

lemma cancel_all_clears:
  "pending_ok s \<Longrightarrow> frames (cancel_all s) = []" "pending_ok s \<Longrightarrow> timers (cancel_all s) = []"
  by (erule pending_cases; simp add: cancel_all_def drop_handle_def)+

lemma cancel_all_keeps [simp]:
  "mounted (cancel_all s) = mounted s" "torn_down (cancel_all s) = torn_down s"
  by (simp_all add: cancel_all_def)

lemma run_transition_ok:
  assumes "frames (cancel_all s) = []" "timers (cancel_all s) = []" "\<not> torn_down s"
  shows "pending_ok (run_transition p (mounted s) s)"
    "waiting_steps (run_transition p (mounted s) s) \<le> 3"
  using assms
  by (simp_all add: run_transition_def pending_ok_def waiting_steps_def request_frame_def notify_def Let_def)

lemma set_mounted_ok:
  assumes "pending_ok s" "\<not> torn_down s"
  shows "pending_ok (set_mounted p r s)"
proof (cases "r = mounted s")
  case True
  then show ?thesis using assms by (simp add: set_mounted_def)
next
  case False
  let ?s = "cancel_all (s\<lparr>mounted := r\<rparr>)"
  have c: "frames ?s = []" "timers ?s = []"
    using cancel_all_clears [OF assms(1)] by (simp_all add: cancel_all_def)
  then have "frames (cancel_all ?s) = []" "timers (cancel_all ?s) = []"
    by (simp_all add: cancel_all_def drop_handle_def)
  from run_transition_ok(1) [OF this] have "pending_ok (run_transition p r ?s)" using assms(2) by simp
  moreover have "pending_ok (set_delay (Delayed p r) ?s)"
    using c assms(2) by (simp add: pending_ok_def set_delay_def)
  ultimately show ?thesis
    using False by (cases r) (auto simp: set_mounted_def handle_state_change_def Let_def split: option.splits)
qed

text \<open>A callback that runs leaves the hook in order, and closer to its end.\<close>

lemma callback_ok:
  assumes "frames s = []" "timers s = []" "direction c = mounted s" "\<not> torn_down s"
  shows "pending_ok (fire_callback c s)" "waiting_steps (fire_callback c s) < remaining c"
proof -
  have "frames (cancel_all s) = []" "timers (cancel_all s) = []"
    using assms by (simp_all add: cancel_all_def drop_handle_def)
  note run = run_transition_ok [OF this assms(4)]
  show "pending_ok (fire_callback c s)"
    using assms run(1)
    by (cases c) (simp_all add: fire_callback_def pending_ok_def request_frame_def set_finish_def notify_def final_status_def)
  show "waiting_steps (fire_callback c s) < remaining c"
  proof (cases c)
    case (Delayed p e)
    then show ?thesis using run(2) [of p] assms(3) by (simp add: fire_callback_def)
  qed (use assms in \<open>simp_all add: fire_callback_def waiting_steps_def request_frame_def set_finish_def notify_def\<close>)
qed

lemma fire_ok:
  assumes "pending_ok s"
  shows "(h, c) \<in> set (frames s) \<Longrightarrow> pending_ok (fire_frame h c s) \<and> waiting_steps (fire_frame h c s) < waiting_steps s"
    and "(h, c) \<in> set (timers s) \<Longrightarrow> pending_ok (fire_timer h c s) \<and> waiting_steps (fire_timer h c s) < waiting_steps s"
proof -
  assume "(h, c) \<in> set (frames s)"
  with assms have *: "frames s = [(h, c)]" "timers s = []" "direction c = mounted s" "\<not> torn_down s"
    by (auto elim: pending_cases)
  from callback_ok [of "s\<lparr>frames := drop_handle h (frames s)\<rparr>" c] *
  show "pending_ok (fire_frame h c s) \<and> waiting_steps (fire_frame h c s) < waiting_steps s"
    by (simp add: fire_frame_def drop_handle_def) (simp add: waiting_steps_def *)
next
  assume "(h, c) \<in> set (timers s)"
  with assms have *: "timers s = [(h, c)]" "frames s = []" "direction c = mounted s" "\<not> torn_down s"
    by (auto elim: pending_cases)
  from callback_ok [of "s\<lparr>timers := drop_handle h (timers s)\<rparr>" c] *
  show "pending_ok (fire_timer h c s) \<and> waiting_steps (fire_timer h c s) < waiting_steps s"
    by (simp add: fire_timer_def drop_handle_def) (simp add: waiting_steps_def *)
qed

lemma pending_ok_step:
  assumes "pending_ok s" "transition_step s t"
  shows "pending_ok t"
  using assms(2)
proof cases
  case (rendered p r)
  then show ?thesis using set_mounted_ok [OF assms(1)] by simp
next
  case (frame h c)
  then show ?thesis using fire_ok(1) [OF assms(1)] by simp
next
  case (timer h c)
  then show ?thesis using fire_ok(2) [OF assms(1)] by simp
next
  case removed
  then show ?thesis using cancel_all_clears [OF assms(1)] by (simp add: tear_down_def pending_ok_def)
qed

definition starting_transition :: "transition_state \<Rightarrow> bool" where
  "starting_transition s \<longleftrightarrow> (\<exists>p r. s = init_transition p r)"

lemma pending_ok_start: "starting_transition s \<Longrightarrow> pending_ok s"
  by (auto simp: starting_transition_def init_transition_def pending_ok_def final_status_def)

interpretation transition_runs: state_machine transition_step starting_transition pending_ok
  by unfold_locales (auto intro: pending_ok_start pending_ok_step)


text \<open>A closed drop-down is opened, and its two frames and its timeout run.\<close>

definition plain_transition :: transition_props where
  "plain_transition = \<lparr>duration_in = 150, duration_out = 150, delay_in = None, delay_out = None, reduced = False\<rparr>"

lemma opening_steps:
  "set_mounted plain_transition True (init_transition plain_transition False) =
    \<lparr>mounted = True, current_duration = 150, status = Exited, finish_ref = -1, delay_ref = -1,
      frame_ref = 1, frames = [(1, First_frame True 150)], timers = [], fresh = 2, notices = [], torn_down = False\<rparr>"
  "fire_frame 1 (First_frame True 150)
    \<lparr>mounted = True, current_duration = 150, status = Exited, finish_ref = -1, delay_ref = -1,
      frame_ref = 1, frames = [(1, First_frame True 150)], timers = [], fresh = 2, notices = [], torn_down = False\<rparr> =
    \<lparr>mounted = True, current_duration = 150, status = Pre_entering, finish_ref = -1, delay_ref = -1,
      frame_ref = 2, frames = [(2, Second_frame True 150)], timers = [], fresh = 3, notices = [], torn_down = False\<rparr>"
  "fire_frame 2 (Second_frame True 150)
    \<lparr>mounted = True, current_duration = 150, status = Pre_entering, finish_ref = -1, delay_ref = -1,
      frame_ref = 2, frames = [(2, Second_frame True 150)], timers = [], fresh = 3, notices = [], torn_down = False\<rparr> =
    \<lparr>mounted = True, current_duration = 150, status = Entering, finish_ref = 3, delay_ref = -1,
      frame_ref = 2, frames = [], timers = [(3, Finish True)], fresh = 4, notices = [On_enter], torn_down = False\<rparr>"
  "fire_timer 3 (Finish True)
    \<lparr>mounted = True, current_duration = 150, status = Entering, finish_ref = 3, delay_ref = -1,
      frame_ref = 2, frames = [], timers = [(3, Finish True)], fresh = 4, notices = [On_enter], torn_down = False\<rparr> =
    \<lparr>mounted = True, current_duration = 150, status = Entered, finish_ref = 3, delay_ref = -1,
      frame_ref = 2, frames = [], timers = [], fresh = 4, notices = [On_enter, On_entered], torn_down = False\<rparr>"
  by (simp add: plain_transition_def init_transition_def set_mounted_def handle_state_change_def run_transition_def
      cancel_all_def drop_handle_def request_frame_def)
    (simp_all add: fire_frame_def fire_timer_def fire_callback_def notify_def set_finish_def request_frame_def
      drop_handle_def start_notice_def end_notice_def final_status_def)


subsection \<open>The styles\<close>

lemma fst_spread_cong: "map fst b = map fst c \<Longrightarrow> map fst a = map fst a' \<Longrightarrow> map fst (spread a b) = map fst (spread a' c)"
proof (induction b arbitrary: a a' c)
  case Nil
  then show ?case by (simp add: spread_def)
next
  case (Cons x b)
  then obtain y c' where c: "c = y # c'" by (cases c) auto
  obtain k v w where xy: "x = (k, v)" "y = (k, w)" using Cons.prems(1) by (cases x; cases y) (auto simp: c)
  have "map fst (map_set k v a) = map fst (map_set k w a')"
    using Cons.prems(2) by (simp add: update_keys flip: set_map)
  from Cons.IH [OF _ this] Cons.prems(1) show ?case by (simp add: spread_def c xy)
qed

lemma transitions_matched:
  "\<forall>(k, d) \<in> set transitions. map fst (when_in d) = map fst (when_out d)"
  by (simp add: transitions_def fade_transitions_def scale_transitions_def turn_transitions_def
      slide_transitions_def pop_transitions_def pop_styles_def)

text \<open>Every transition sets the same style properties in every phase, so a phase overwrites what the
  one before it set, and nothing of a closing drop-down is left when it opens again.\<close>

theorem transition_styles_match:
  "map fst (transition_css (Named k) t n r) = map fst (transition_css (Named k) t' n' r')"
proof (cases "map_of transitions k")
  case None
  then show ?thesis by (simp add: transition_css_def Let_def)
next
  case (Some d)
  then have "(k, d) \<in> set transitions" by (rule map_of_SomeD)
  then have "map fst (when_in d) = map fst (when_out d)" using transitions_matched by blast
  then have "map fst (status_styles d t) = map fst (status_styles d t')" by (simp add: status_styles_def)
  then show ?thesis by (auto simp: transition_css_def Let_def Some intro!: fst_spread_cong)
qed

end
