(* ===== verification/Mantine_Units.thy ===== *)
theory Mantine_Units
  imports Number_Input Css_Style
begin

text \<open>
  The utilities of Mantine as bundled into \<open>app.js\<close>: units of length, sizes, class names. A value is a JSON
  value, or \<open>None\<close> for \<open>undefined\<close>. \<open>Number\<close> reads digits with a minus and a point; exponents, plus signs and
  digits of other bases are not read. White space of a regular expression is that of ASCII.
\<close>

subsection \<open>Texts\<close>

fun contains :: "string \<Rightarrow> string \<Rightarrow> bool" where
  "contains p [] \<longleftrightarrow> p = []"
| "contains p (c # s) \<longleftrightarrow> is_prefix_of p (c # s) \<or> contains p s"

text \<open>\<open>s.replace(p, r)\<close> for a text \<open>p\<close> that is not empty: the first occurrence only.\<close>

fun replace_first :: "string \<Rightarrow> string \<Rightarrow> string \<Rightarrow> string" where
  "replace_first p r [] = []"
| "replace_first p r (c # s) =
     (if is_prefix_of p (c # s) then r @ drop (length p) (c # s) else c # replace_first p r s)"

definition is_space :: "char \<Rightarrow> bool" where
  "is_space c \<longleftrightarrow> byte c \<in> {9, 10, 11, 12, 13, 32}"

definition to_lower :: "char \<Rightarrow> char" where
  "to_lower c = (if 65 \<le> byte c \<and> byte c \<le> 90 then of_byte (byte c + 32) else c)"

definition is_upper :: "char \<Rightarrow> bool" where
  "is_upper c \<longleftrightarrow> 65 \<le> byte c \<and> byte c \<le> 90"

definition camel_to_kebab_case :: "string \<Rightarrow> string" where
  "camel_to_kebab_case e = concat (map (\<lambda>c. if is_upper c then [CHR ''-'', to_lower c] else [c]) e)"

text \<open>\<open>`${n}`\<close> of a number.\<close>

fun show_number :: "js_number \<Rightarrow> string" where
  "show_number NaN = ''NaN''"
| "show_number PosInf = ''Infinity''"
| "show_number NegInf = ''-Infinity''"
| "show_number (Fin d) = show_dec d"

definition to_js_number :: "dec option \<Rightarrow> js_number" where
  "to_js_number d = (case d of None \<Rightarrow> NaN | Some d \<Rightarrow> Fin d)"

text \<open>Sums of numbers, on a common exponent.\<close>

definition dec_add :: "dec \<Rightarrow> dec \<Rightarrow> dec" where
  "dec_add a b =
     (let e = min (exponent a) (exponent b)
      in norm_dec (mantissa a * 10 ^ nat (exponent a - e) + mantissa b * 10 ^ nat (exponent b - e)) e)"

definition dec_negate :: "dec \<Rightarrow> dec" where
  "dec_negate d = Dec (- mantissa d) (exponent d)"

definition dec_times :: "dec \<Rightarrow> dec \<Rightarrow> dec" where
  "dec_times a b = norm_dec (mantissa a * mantissa b) (exponent a + exponent b)"

definition sixteenth :: "dec \<Rightarrow> dec" where
  "sixteenth d = norm_dec (mantissa d * 625) (exponent d - 4)"

definition sixteen_times :: "dec \<Rightarrow> dec" where
  "sixteen_times d = norm_dec (mantissa d * 16) (exponent d)"

subsection \<open>Units\<close>

definition scale_rem :: "string \<Rightarrow> string" where
  "scale_rem e = (if e = ''0rem'' then ''0rem'' else ''calc('' @ e @ '' * var(--mantine-scale))'')"

text \<open>\<open>createConverter(e, {shouldScale: t})\<close>, on numbers and on texts.\<close>

definition convert_number :: "string \<Rightarrow> bool \<Rightarrow> dec \<Rightarrow> string" where
  "convert_number e t r = (let n = show_dec (sixteenth r) @ e in if t then scale_rem n else n)"

lemma split_on_shorter:
  assumes "x \<in> set (split_on d s)"
  shows "length x \<le> length s \<and> (d \<in> set s \<longrightarrow> length x < length s)"
  using assms
proof (induction s arbitrary: x)
  case Nil
  then show ?case by simp
next
  case (Cons c s)
  show ?case
  proof (cases "c = d")
    case True
    with Cons.prems consider "x = []" | "x \<in> set (split_on d s)" by auto
    then show ?thesis using Cons.IH by cases fastforce+
  next
    case False
    then consider "x = c # hd (split_on d s)" | "x \<in> set (split_on d s)"
      using Cons.prems by (cases "split_on d s") auto
    then show ?thesis using Cons.IH [of x] Cons.IH [of "hd (split_on d s)"] False by cases auto
  qed
qed

function convert_text :: "string \<Rightarrow> bool \<Rightarrow> string \<Rightarrow> string" where
  "convert_text e t r =
     (if r = ''0'' then ''0'' @ e
      else if r = [] \<or> is_prefix_of ''calc('' r \<or> is_prefix_of ''clamp('' r \<or> contains ''rgba('' r then r
      else if CHR '','' \<in> set r then join_with '','' (map (convert_text e t) (split_on (CHR '','') r))
      else if CHR '' '' \<in> set r then join_with '' '' (map (convert_text e t) (split_on (CHR '' '') r))
      else case text_number (replace_first ''px'' [] r) of
             None \<Rightarrow> r
           | Some d \<Rightarrow> convert_number e t d)"
  by pat_completeness auto
termination
  by (relation "measure (\<lambda>(e, t, r). length r)") (auto dest: split_on_shorter)

declare convert_text.simps [simp del]

definition convert :: "string \<Rightarrow> bool \<Rightarrow> json option \<Rightarrow> json option" where
  "convert e t r =
     (case r of
        Some (JNum d) \<Rightarrow> Some (JStr (if mantissa d = 0 then ''0'' @ e else convert_number e t d))
      | Some (JStr s) \<Rightarrow> Some (JStr (convert_text e t s))
      | _ \<Rightarrow> r)"

abbreviation rem :: "json option \<Rightarrow> json option" where
  "rem \<equiv> convert ''rem'' True"

abbreviation em :: "json option \<Rightarrow> json option" where
  "em \<equiv> convert ''em'' False"

text \<open>\<open>rem(n)\<close> of a whole number, which is a text.\<close>

definition rem_int :: "int \<Rightarrow> string" where
  "rem_int n = (if n = 0 then ''0rem'' else convert_number ''rem'' True (int_dec n))"

text \<open>\<open>getTransformedScaledValue\<close>: the text a scale was put around. \<open>None\<close>: it was not found.\<close>

definition scaled_value :: "json option \<Rightarrow> json option" where
  "scaled_value e =
     (case e of
        Some (JStr s) \<Rightarrow>
          if \<not> contains ''var(--mantine-scale)'' s then e
          else if is_prefix_of ''calc('' s \<and> last s = CHR '')'' \<and> 6 \<le> length s \<and> CHR ''\<newline>'' \<notin> set s
          then Some (JStr (trim (hd (split_on (CHR ''*'') (butlast (drop 5 s))))))
          else None
      | _ \<Rightarrow> e)"

datatype px_value = Px js_number | Px_text string

definition px :: "json option \<Rightarrow> px_value" where
  "px e =
     (case scaled_value e of
        Some (JNum d) \<Rightarrow> Px (Fin d)
      | Some (JStr t) \<Rightarrow>
          if contains ''calc'' t \<or> contains ''var'' t then Px_text t
          else if contains ''px'' t then Px (to_js_number (text_number (replace_first ''px'' [] t)))
          else if contains ''rem'' t
          then Px (to_js_number (map_option sixteen_times (text_number (replace_first ''rem'' [] t))))
          else if contains ''em'' t
          then Px (to_js_number (map_option sixteen_times (text_number (replace_first ''em'' [] t))))
          else Px (to_js_number (text_number t))
      | _ \<Rightarrow> Px NaN)"

subsection \<open>Sizes\<close>

definition css_units :: "string list" where
  "css_units =
     [''px'', ''em'', ''rem'', ''ex'', ''ch'', ''lh'', ''rlh'', ''vw'', ''vh'', ''vmin'', ''vmax'', ''vb'', ''vi'',
      ''svw'', ''svh'', ''lvw'', ''lvh'', ''dvw'', ''dvh'', ''cm'', ''mm'', ''in'', ''pt'', ''pc'', ''q'', ''cqw'',
      ''cqh'', ''cqi'', ''cqb'', ''cqmin'', ''cqmax'', ''%'']"

text \<open>The regular expression \<open>t\<close>: digits with an optional sign, an optional fraction and an optional unit.\<close>

definition css_number :: "string \<Rightarrow> bool" where
  "css_number s \<longleftrightarrow>
     (let u = (case s of c # r \<Rightarrow> if c = CHR ''+'' \<or> c = CHR ''-'' then r else s | [] \<Rightarrow> []);
          r = dropWhile is_digit u;
          r' = (case r of
                  c # f \<Rightarrow> if c = CHR ''.'' \<and> int_digits f \<noteq> [] then dropWhile is_digit f else r
                | [] \<Rightarrow> [])
      in int_digits u \<noteq> [] \<and> (r' = [] \<or> r' \<in> set css_units))"

text \<open>\<open>s.split(/\s+/)\<close> for a text without white space at its ends.\<close>

definition words_of :: "string \<Rightarrow> string list" where
  "words_of s =
     (let ws = filter (\<lambda>w. w \<noteq> []) (split_on (CHR '' '') (map (\<lambda>c. if is_space c then CHR '' '' else c) s))
      in if ws = [] then [[]] else ws)"

definition is_number_like :: "json option \<Rightarrow> bool" where
  "is_number_like e =
     (case e of
        Some (JNum _) \<Rightarrow> True
      | Some (JStr s) \<Rightarrow>
          is_prefix_of ''calc('' s \<or> is_prefix_of ''var('' s \<or> CHR '' '' \<in> set s \<and> trim s \<noteq> [] \<or>
          list_all css_number (words_of (trim s))
      | _ \<Rightarrow> False)"

definition get_size :: "string \<Rightarrow> bool \<Rightarrow> json option \<Rightarrow> json option" where
  "get_size t n e =
     (if e = None then None
      else if is_number_like e then (if n then rem e else e)
      else Some (JStr (''var(--'' @ t @ ''-'' @ js_string_opt e @ '')'')))"

definition get_spacing :: "json option \<Rightarrow> json option" where
  "get_spacing e = get_size ''mantine-spacing'' True e"

definition get_radius :: "json option \<Rightarrow> json option" where
  "get_radius e =
     (if e = None then Some (JStr ''var(--mantine-radius-default)'') else get_size ''mantine-radius'' True e)"

definition get_font_size :: "json option \<Rightarrow> json option" where
  "get_font_size e = get_size ''mantine-font-size'' True e"

definition get_line_height :: "json option \<Rightarrow> json option" where
  "get_line_height e = get_size ''mantine-line-height'' False e"

definition get_shadow :: "json option \<Rightarrow> json option" where
  "get_shadow e = (if truthy e then get_size ''mantine-shadow'' False e else None)"

subsection \<open>Objects and class names\<close>

type_synonym props = "(string, json option) js_map"

definition filter_props :: "props \<Rightarrow> props" where
  "filter_props e = filter (\<lambda>(k, v). v \<noteq> None) e"

definition join_class :: "string \<Rightarrow> string \<Rightarrow> string" where
  "join_class r n = (if n = [] then r else if r = [] then n else r @ '' '' @ n)"

text \<open>\<open>clsx\<close>: a text or number, an array of such values, or an object whose true entries count.\<close>

fun class_value :: "json \<Rightarrow> string" where
  "class_value (JStr s) = s"
| "class_value (JNum d) = show_dec d"
| "class_value (JArr vs) =
     foldl (\<lambda>r v. if truthy (Some v) then join_class r (class_value v) else r) [] vs"
| "class_value (JObj kvs) = foldl (\<lambda>r (k, v). if truthy (Some v) then r @ (if r = [] then [] else '' '') @ k else r) [] kvs"
| "class_value _ = []"

definition clsx :: "json option list \<Rightarrow> string" where
  "clsx es =
     foldl (\<lambda>r e. case e of Some v \<Rightarrow> if truthy e then join_class r (class_value v) else r | None \<Rightarrow> r) [] es"

definition default_z_index :: "(string \<times> nat) list" where
  "default_z_index = [(''app'', 100), (''modal'', 200), (''popover'', 300), (''overlay'', 400), (''max'', 9999)]"

definition get_default_z_index :: "string \<Rightarrow> nat option" where
  "get_default_z_index e = map_of default_z_index e"

end
