(* ===== verification/Mantine_Colors.thy ===== *)
theory Mantine_Colors
  imports Complex_Main Mantine_Units "HOL-Library.Monad_Syntax"
begin

text \<open>
  The color functions of Mantine's provider as bundled into \<open>app.js\<close>: colors read from text, their
  luminance, colors of the theme, and the colors of a variant of a component. Numbers are exact. A color is
  a text; \<open>None\<close> as a result is the \<open>TypeError\<close> of reading a shade that a palette does not have (a palette
  of the library has ten).
\<close>

subsection \<open>Reading a color\<close>

record rgba_color =
  red :: "js_number option"
  green :: "js_number option"
  blue :: "js_number option"
  alpha :: js_number

definition is_hex :: "char \<Rightarrow> bool" where
  "is_hex c \<longleftrightarrow> is_digit c \<or> (let b = byte (to_lower c) in 97 \<le> b \<and> b \<le> 102)"

definition hex_digit :: "char \<Rightarrow> nat" where
  "hex_digit c = (if is_digit c then digit_value c else byte (to_lower c) - 87)"

definition parse_hex :: "string \<Rightarrow> nat" where
  "parse_hex s = foldl (\<lambda>a c. 16 * a + hex_digit c) 0 s"

definition is_hex_color :: "string \<Rightarrow> bool" where
  "is_hex_color e \<longleftrightarrow>
     (let s = (case e of c # r \<Rightarrow> if c = CHR ''#'' then r else e | [] \<Rightarrow> [])
      in list_all is_hex s \<and> length s \<in> {3, 5, 6, 8})"

abbreviation whole :: "nat \<Rightarrow> js_number" where
  "whole n \<equiv> Fin (int_dec (int n))"

text \<open>
  \<open>n / 255\<close> as a double, by the digits it prints with: \<open>m / 2 ^ e\<close> is the double nearest to the quotient, and
  the fewest decimals are taken that no other double is nearer to.
\<close>

definition byte_ratio :: "nat \<Rightarrow> dec" where
  "byte_ratio n =
     (if n = 0 then Dec 0 0 else if n = 255 then Dec 1 0
      else (let x = int n; e = 52 + length (takeWhile (\<lambda>k. x * 2 ^ k < 255) [0..<9]);
                m = (2 * x * 2 ^ e + 255) div 510;
                c = (\<lambda>j. (2 * m * 10 ^ j + 2 ^ e) div (2 * 2 ^ e));
                j = hd (filter (\<lambda>j. 2 * \<bar>c j * 2 ^ e - m * 10 ^ j\<bar> \<le> 10 ^ j) [1..<25])
            in norm_dec (c j) (- int j)))"

definition hex_to_rgba :: "string \<Rightarrow> rgba_color" where
  "hex_to_rgba e =
     (let t0 = replace_first ''#'' [] e;
          t = (if length t0 = 3 then [t0 ! 0, t0 ! 0, t0 ! 1, t0 ! 1, t0 ! 2, t0 ! 2] else t0)
      in if length t = 8
         then \<lparr>red = Some (whole (parse_hex (take 2 t))), green = Some (whole (parse_hex (take 2 (drop 2 t)))),
               blue = Some (whole (parse_hex (take 2 (drop 4 t)))), alpha = Fin (byte_ratio (parse_hex (drop 6 t)))\<rparr>
         else (let n = parse_hex t
               in \<lparr>red = Some (whole (n div 65536 mod 256)), green = Some (whole (n div 256 mod 256)),
                   blue = Some (whole (n mod 256)), alpha = Fin (Dec 1 0)\<rparr>))"

definition rgb_text_to_rgba :: "string \<Rightarrow> rgba_color" where
  "rgb_text_to_rgba e =
     (let s = filter (\<lambda>c. is_digit c \<or> c \<in> {CHR '','', CHR ''.'', CHR ''/''}) e;
          ns = map (\<lambda>p. to_js_number (text_number p))
                 (split_on (CHR '','') (map (\<lambda>c. if c = CHR ''/'' then CHR '','' else c) s));
          part = (\<lambda>k. if k < length ns then Some (ns ! k) else None)
      in \<lparr>red = part 0, green = part 1, blue = part 2,
          alpha = (case part 3 of None \<Rightarrow> Fin (Dec 1 0) | Some i \<Rightarrow> i)\<rparr>)"

text \<open>The regular expression of \<open>hslStringToRgba\<close>, piece by piece.\<close>

definition expect :: "char \<Rightarrow> string \<Rightarrow> string option" where
  "expect c s = (case s of d # r \<Rightarrow> if c = d then Some r else None | [] \<Rightarrow> None)"

definition spaces :: "string \<Rightarrow> string" where
  "spaces s = dropWhile is_space s"

definition digits :: "string \<Rightarrow> (string \<times> string) option" where
  "digits s = (if int_digits s = [] then None else Some (int_digits s, dropWhile is_digit s))"

definition hsl_alpha :: "string \<Rightarrow> (string option \<times> string) option" where
  "hsl_alpha s =
     (case expect (CHR '','') s of
        None \<Rightarrow> Some (None, s)
      | Some r \<Rightarrow>
          (let r = spaces r; i = int_digits r; q = dropWhile is_digit r
           in case expect (CHR ''.'') q \<bind> digits of
                Some (f, q') \<Rightarrow> Some (Some (i @ ''.'' @ f), q')
              | None \<Rightarrow> if i = [] then None else Some (Some i, q)))"

definition hsl_parts :: "string \<Rightarrow> (nat \<times> nat \<times> nat \<times> string option) option" where
  "hsl_parts e =
     do { s \<leftarrow> (if map to_lower (take 3 e) = ''hsl'' then Some (drop 3 e) else None);
          s \<leftarrow> expect (CHR ''('') (case s of c # r \<Rightarrow> if to_lower c = CHR ''a'' then r else s | [] \<Rightarrow> []);
          (h, s) \<leftarrow> digits (spaces s);
          s \<leftarrow> expect (CHR '','') (spaces s);
          (p, s) \<leftarrow> digits (spaces s);
          s \<leftarrow> expect (CHR ''%'') s;
          s \<leftarrow> expect (CHR '','') (spaces s);
          (l, s) \<leftarrow> digits (spaces s);
          s \<leftarrow> expect (CHR ''%'') s;
          (a, s) \<leftarrow> hsl_alpha (spaces s);
          s \<leftarrow> expect (CHR '')'') (spaces s);
          if s = [] then Some (nat_value h, nat_value p, nat_value l, a) else None }"

text \<open>\<open>Math.round\<close>\<close>

definition round_half_up :: "real \<Rightarrow> int" where
  "round_half_up x = \<lfloor>x + 1 / 2\<rfloor>"

definition black_color :: rgba_color where
  "black_color = \<lparr>red = Some (whole 0), green = Some (whole 0), blue = Some (whole 0), alpha = Fin (Dec 1 0)\<rparr>"

definition hsl_to_rgba :: "string \<Rightarrow> rgba_color" where
  "hsl_to_rgba e =
     (case hsl_parts e of
        None \<Rightarrow> black_color
      | Some (n, r0, i0, t5) \<Rightarrow>
          (let r = real r0 / 100; i = real i0 / 100; a = t5 \<bind> parse_float;
               ch = (1 - \<bar>2 * i - 1\<bar>) * r; s = real n / 60;
               c = ch * (1 - \<bar>s - 2 * of_int \<lfloor>s / 2\<rfloor> - 1\<bar>); l = i - ch / 2;
               (u, d, f) =
                 (if 0 \<le> s \<and> s < 1 then (ch, c, 0) else if 1 \<le> s \<and> s < 2 then (c, ch, 0)
                  else if 2 \<le> s \<and> s < 3 then (0, ch, c) else if 3 \<le> s \<and> s < 4 then (0, c, ch)
                  else if 4 \<le> s \<and> s < 5 then (c, 0, ch) else (ch, 0, c));
               out = (\<lambda>x. Some (Fin (int_dec (round_half_up ((x + l) * 255)))))
           in \<lparr>red = out u, green = out d, blue = out f,
               alpha = Fin (case a of Some d \<Rightarrow> if mantissa d = 0 then Dec 1 0 else d | None \<Rightarrow> Dec 1 0)\<rparr>))"

definition to_rgba :: "string \<Rightarrow> rgba_color" where
  "to_rgba e =
     (if is_hex_color e then hex_to_rgba e
      else if is_prefix_of ''rgb'' e then rgb_text_to_rgba e
      else if is_prefix_of ''hsl'' e then hsl_to_rgba e else black_color)"

subsection \<open>Luminance\<close>

definition real_of_dec :: "dec \<Rightarrow> real" where
  "real_of_dec d = of_int (mantissa d) * 10 powi exponent d"

text \<open>A channel as a real; \<open>None\<close> where the arithmetic gives \<open>NaN\<close>.\<close>

definition channel :: "js_number option \<Rightarrow> real option" where
  "channel x = (case x of Some (Fin d) \<Rightarrow> Some (real_of_dec d) | _ \<Rightarrow> None)"

definition gamma_correct :: "real \<Rightarrow> real" where
  "gamma_correct e = (if e \<le> 0.03928 then e / 12.92 else ((e + 0.055) / 1.055) powr 2.4)"

text \<open>\<open>/oklch\((.*?)%\s/\<close>: the text before the first percent sign with a space, on one line.\<close>

fun before_percent :: "string \<Rightarrow> string option" where
  "before_percent [] = None"
| "before_percent (c # s) =
     (if c = CHR ''%'' \<and> (case s of d # _ \<Rightarrow> is_space d | [] \<Rightarrow> False) then Some []
      else if c = CHR ''\<newline>'' then None else map_option ((#) c) (before_percent s))"

fun oklch_lightness :: "string \<Rightarrow> dec option" where
  "oklch_lightness [] = None"
| "oklch_lightness (c # s) =
     (case if is_prefix_of ''oklch('' (c # s) then before_percent (drop 6 (c # s)) else None of
        Some p \<Rightarrow> parse_float (spaces p)
      | None \<Rightarrow> oklch_lightness s)"

definition luminance :: "string \<Rightarrow> real option" where
  "luminance e =
     (if is_prefix_of ''oklch('' e
      then Some (case oklch_lightness e of None \<Rightarrow> 0 | Some d \<Rightarrow> real_of_dec d / 100)
      else (case (channel (red (to_rgba e)), channel (green (to_rgba e)), channel (blue (to_rgba e))) of
              (Some t, Some n, Some r) \<Rightarrow>
                Some (0.2126 * gamma_correct (t / 255) + 0.7152 * gamma_correct (n / 255) + 0.0722 * gamma_correct (r / 255))
            | _ \<Rightarrow> None))"

definition is_light_color :: "string \<Rightarrow> real \<Rightarrow> bool" where
  "is_light_color e t \<longleftrightarrow>
     \<not> is_prefix_of ''var('' e \<and> (case luminance e of Some l \<Rightarrow> t < l | None \<Rightarrow> False)"

end
