(* ===== verification/Mantine_Theme.thy ===== *)
theory Mantine_Theme
  imports Mantine_Colors
begin

text \<open>
  The theme of Mantine's provider as bundled into \<open>app.js\<close>: its palettes, the colors of a theme, the colors of
  the variants of a component, and merging a theme into another. A palette may be virtual: another palette
  for each color scheme. Names that every object inherits are not names of palettes.
\<close>

subsection \<open>Themes\<close>

record virtual_color =
  virtual_name :: string
  light_name :: string
  dark_name :: string

record palette =
  shades :: "string list"
  virtual_of :: "virtual_color option"

text \<open>\<open>No_shades\<close>: an object without shades, which merging may leave behind.\<close>

datatype primary_shade = One_shade dec | Scheme_shades dec dec | No_shades

datatype color_scheme = Light | Dark

record gradient =
  grad_from :: "string option"
  grad_to :: "string option"
  grad_deg :: "dec option"

record heading =
  headingSize :: string
  headingHeight :: string
  headingWeight :: "string option"

record headings =
  headingsFamily :: string
  headingsWeight :: string
  headingsWrap :: string
  headingSizes :: "(string, heading) js_map"

record theme =
  scale :: dec
  fontSmoothing :: bool
  focusRing :: string
  white :: string
  black :: string
  theme_colors :: "(string, palette) js_map"
  primaryShade :: primary_shade
  primaryColor :: string
  autoContrast :: bool
  luminanceThreshold :: real
  fontFamily :: string
  fontFamilyMonospace :: string
  respectReducedMotion :: bool
  cursorType :: string
  defaultGradient :: gradient
  defaultRadius :: json
  activeClassName :: string
  focusClassName :: string
  theme_headings :: headings
  fontSizes :: "(string, string) js_map"
  lineHeights :: "(string, string) js_map"
  fontWeights :: "(string, string) js_map"
  radius :: "(string, string) js_map"
  spacing :: "(string, string) js_map"
  breakpoints :: "(string, string) js_map"
  shadows :: "(string, string) js_map"

text \<open>A number as an index of an array.\<close>

definition dec_nat :: "dec \<Rightarrow> nat option" where
  "dec_nat d =
     (case norm_dec (mantissa d) (exponent d) of
        Dec m e \<Rightarrow> if 0 \<le> m \<and> 0 \<le> e then Some (nat m * 10 ^ nat e) else None)"

definition shade_at :: "palette \<Rightarrow> js_number \<Rightarrow> string option" where
  "shade_at p n =
     (case n of
        Fin d \<Rightarrow> dec_nat d \<bind> (\<lambda>k. if k < length (shades p) then Some (shades p ! k) else None)
      | _ \<Rightarrow> None)"

definition theme_shade :: "theme \<Rightarrow> string \<Rightarrow> js_number \<Rightarrow> string option" where
  "theme_shade t c n = map_get (theme_colors t) c \<bind> (\<lambda>p. shade_at p n)"

definition is_virtual_color :: "palette \<Rightarrow> bool" where
  "is_virtual_color p \<longleftrightarrow> virtual_of p \<noteq> None"

definition get_primary_shade :: "theme \<Rightarrow> color_scheme \<Rightarrow> js_number option" where
  "get_primary_shade e t =
     (case primaryShade e of
        One_shade d \<Rightarrow> Some (Fin d)
      | Scheme_shades l d \<Rightarrow> Some (Fin (if t = Dark then d else l))
      | No_shades \<Rightarrow> None)"

subsection \<open>The color of a name\<close>

record theme_color =
  color_name :: string
  color_value :: string
  color_shade :: "js_number option"
  isThemeColor :: bool
  isLight :: bool
  color_variable :: "string option"

definition color_text :: "string \<Rightarrow> string" where
  "color_text s = ''--mantine-color-'' @ s"

definition color_var :: "string \<Rightarrow> string" where
  "color_var s = ''var('' @ color_text s @ '')''"

definition plain_color :: "theme \<Rightarrow> string \<Rightarrow> string \<Rightarrow> string \<Rightarrow> theme_color" where
  "plain_color t e v l =
     \<lparr>color_name = e, color_value = v, color_shade = None, isThemeColor = False,
      isLight = is_light_color l (luminanceThreshold t), color_variable = Some (color_text e)\<rparr>"

text \<open>\<open>n\<close>: the color scheme, if the caller gave one.\<close>

definition parse_theme_color :: "string \<Rightarrow> theme \<Rightarrow> color_scheme option \<Rightarrow> theme_color option" where
  "parse_theme_color e t n =
     (if e = ''bright''
      then (let v = (if n = Some Dark then white t else black t) in Some (plain_color t e v v))
      else if e = ''dimmed''
      then do { v \<leftarrow> (if n = Some Dark then theme_shade t ''dark'' (whole 2) else theme_shade t ''gray'' (whole 7));
                l \<leftarrow> (if n = Some Dark then theme_shade t ''dark'' (whole 2) else theme_shade t ''gray'' (whole 6));
                Some (plain_color t e v l) }
      else if e = ''white'' \<or> e = ''black''
      then (let v = (if e = ''white'' then white t else black t) in Some (plain_color t e v v))
      else
        (let ps = split_on (CHR ''.'') e; r = hd ps; i = (case tl ps of i # _ \<Rightarrow> i | [] \<Rightarrow> []);
             a = (if i = [] then None else Some (to_js_number (text_number i)))
         in case map_get (theme_colors t) r of
              Some p \<Rightarrow>
                do { s \<leftarrow> (case a of None \<Rightarrow> get_primary_shade t (case n of None \<Rightarrow> Light | Some m \<Rightarrow> m) | Some s \<Rightarrow> Some s);
                     v \<leftarrow> shade_at p s;
                     Some \<lparr>color_name = r, color_value = v, color_shade = a, isThemeColor = True,
                           isLight = is_light_color v (luminanceThreshold t),
                           color_variable = Some (color_text (r @ (case a of None \<Rightarrow> ''-filled'' | Some s \<Rightarrow> ''-'' @ show_number s)))\<rparr> }
            | None \<Rightarrow>
                Some \<lparr>color_name = e, color_value = e, color_shade = a, isThemeColor = False,
                      isLight = is_light_color e (luminanceThreshold t), color_variable = None\<rparr>))"

definition get_theme_color :: "string option \<Rightarrow> theme \<Rightarrow> string option option" where
  "get_theme_color e t =
     do { n \<leftarrow> parse_theme_color (case e of Some s \<Rightarrow> if s = [] then primaryColor t else s | None \<Rightarrow> primaryColor t) t None;
          Some (case color_variable n of Some v \<Rightarrow> Some (''var('' @ v @ '')'') | None \<Rightarrow> e) }"

text \<open>\<open>`${x}`\<close> of a text that may be undefined.\<close>

definition show_text :: "string option \<Rightarrow> string" where
  "show_text x = (case x of None \<Rightarrow> ''undefined'' | Some s \<Rightarrow> s)"

definition show_channel :: "js_number option \<Rightarrow> string" where
  "show_channel x = (case x of None \<Rightarrow> ''undefined'' | Some n \<Rightarrow> show_number n)"

definition percent :: "dec \<Rightarrow> string" where
  "percent t = show_dec (dec_times t (Dec 1 2)) @ ''%''"

definition darken :: "string \<Rightarrow> dec \<Rightarrow> string" where
  "darken e t =
     (if is_prefix_of ''var('' e then ''color-mix(in srgb, '' @ e @ '', black '' @ percent t @ '')''
      else (let c = to_rgba e; k = 1 - real_of_dec t;
                s = (\<lambda>x. case channel x of Some v \<Rightarrow> show_dec (int_dec (round_half_up (v * k))) | None \<Rightarrow> ''NaN'')
            in ''rgba('' @ s (red c) @ '', '' @ s (green c) @ '', '' @ s (blue c) @ '', '' @ show_number (alpha c) @ '')''))"

text \<open>\<open>/\/\s*[\d.]+\s*\)/\<close> at the start of a text, and the first place where it fits.\<close>

definition slash_alpha :: "string \<Rightarrow> string option" where
  "slash_alpha s =
     do { r \<leftarrow> expect (CHR ''/'') s;
          let u = spaces r; v = dropWhile (\<lambda>c. is_digit c \<or> c = CHR ''.'') u in
          if v = u then None else expect (CHR '')'') (spaces v) }"

fun replace_slash_alpha :: "string \<Rightarrow> string \<Rightarrow> string" where
  "replace_slash_alpha r [] = []"
| "replace_slash_alpha r (c # s) =
     (case slash_alpha (c # s) of Some rest \<Rightarrow> r @ rest | None \<Rightarrow> c # replace_slash_alpha r s)"

definition rgba :: "string \<Rightarrow> dec \<Rightarrow> string" where
  "rgba e t =
     (if dec_less (Dec 1 0) t \<or> dec_less t (Dec 0 0) then ''rgba(0, 0, 0, 1)''
      else if is_prefix_of ''var('' e
      then ''color-mix(in srgb, '' @ e @ '', transparent '' @ percent (dec_add (Dec 1 0) (dec_negate t)) @ '')''
      else if is_prefix_of ''oklch'' e
      then (if CHR ''/'' \<in> set e then replace_slash_alpha (''/ '' @ show_dec t @ '')'') e
            else replace_first '')'' ('' / '' @ show_dec t @ '')'') e)
      else (let c = to_rgba e
            in ''rgba('' @ show_channel (red c) @ '', '' @ show_channel (green c) @ '', '' @ show_channel (blue c)
               @ '', '' @ show_dec t @ '')''))"

definition or_default :: "string option \<Rightarrow> string option \<Rightarrow> string option" where
  "or_default a b = (case a of Some s \<Rightarrow> if s = [] then b else a | None \<Rightarrow> b)"

definition get_gradient :: "gradient option \<Rightarrow> theme \<Rightarrow> string option" where
  "get_gradient e t =
     (let d = defaultGradient t;
          deg = (case e \<bind> grad_deg of Some n \<Rightarrow> n | None \<Rightarrow> (case grad_deg d of Some n \<Rightarrow> n | None \<Rightarrow> Dec 0 0))
      in do { r \<leftarrow> get_theme_color (or_default (e \<bind> grad_from) (grad_from d)) t;
              i \<leftarrow> get_theme_color (or_default (e \<bind> grad_to) (grad_to d)) t;
              Some (''linear-gradient('' @ show_dec deg @ ''deg, '' @ show_text r @ '' 0%, '' @ show_text i @ '' 100%)'') })"

end
