(* ===== verification/Mantine_Variants.thy ===== *)
theory Mantine_Variants
  imports Mantine_Theme
begin

text \<open>
  The colors of a component's variant, \<open>defaultVariantColorsResolver\<close>, and of text on a color, as bundled
  into \<open>app.js\<close>. The result is the object the resolver returns; an unknown variant gives the empty one.
\<close>

type_synonym text_map = "(string, string) js_map"

definition variant_colors :: "string \<Rightarrow> string \<Rightarrow> string \<Rightarrow> string \<Rightarrow> text_map" where
  "variant_colors b h c r = [(''background'', b), (''hover'', h), (''color'', c), (''border'', r)]"

definition solid :: "string \<Rightarrow> string" where
  "solid c = rem_int 1 @ '' solid '' @ c"

definition no_border :: string where
  "no_border = solid ''transparent''"

text \<open>A shade as part of a variable's name, the next one, and the arithmetic on it.\<close>

definition shade_add :: "js_number \<Rightarrow> int \<Rightarrow> js_number" where
  "shade_add n k = (case n of Fin d \<Rightarrow> Fin (dec_add d (int_dec k)) | _ \<Rightarrow> n)"

definition hover_shade :: "js_number \<Rightarrow> js_number" where
  "hover_shade n = (if n = whole 9 then whole 8 else shade_add n 1)"

definition shade_min :: "js_number \<Rightarrow> int \<Rightarrow> js_number" where
  "shade_min n k = (case n of Fin d \<Rightarrow> Fin (dec_min d (int_dec k)) | _ \<Rightarrow> n)"

definition shade_max :: "js_number \<Rightarrow> int \<Rightarrow> js_number" where
  "shade_max n k = (case n of Fin d \<Rightarrow> Fin (dec_max d (int_dec k)) | _ \<Rightarrow> n)"

definition shade_var :: "string \<Rightarrow> js_number \<Rightarrow> string" where
  "shade_var c s = color_var (c @ ''-'' @ show_number s)"

definition filled_variant :: "theme \<Rightarrow> string \<Rightarrow> theme_color \<Rightarrow> bool \<Rightarrow> text_map option" where
  "filled_variant t e a auto =
     do { v \<leftarrow> (if isThemeColor a \<and> color_shade a = None
                then map_option is_virtual_color (map_get (theme_colors t) (color_name a)) else Some False);
          let r = (if auto
                   then if v then color_var (color_name a @ ''-contrast'')
                        else if isLight a then color_var ''black'' else color_var ''white''
                   else color_var ''white'') in
          Some (if isThemeColor a
                then (case color_shade a of
                        None \<Rightarrow> variant_colors (color_var (e @ ''-filled'')) (color_var (e @ ''-filled-hover'')) r no_border
                      | Some s \<Rightarrow> variant_colors (shade_var (color_name a) s) (shade_var (color_name a) (hover_shade s)) r
                                    no_border)
                else variant_colors e (darken e (Dec 1 (- 1))) r no_border) }"

definition light_variant :: "theme \<Rightarrow> string \<Rightarrow> theme_color \<Rightarrow> text_map option" where
  "light_variant t e a =
     (if isThemeColor a
      then (case color_shade a of
              None \<Rightarrow> Some (variant_colors (color_var (e @ ''-light'')) (color_var (e @ ''-light-hover''))
                             (color_var (e @ ''-light-color'')) no_border)
            | Some s \<Rightarrow>
                do { n \<leftarrow> theme_shade t (color_name a) s;
                     Some (variant_colors n (darken n (Dec 1 (- 1))) (color_var (color_name a @ ''-light-color'')) no_border) })
      else Some (variant_colors (rgba e (Dec 1 (- 1))) (rgba e (Dec 12 (- 2))) e no_border))"

definition outline_variant :: "theme \<Rightarrow> string \<Rightarrow> theme_color \<Rightarrow> text_map option" where
  "outline_variant t e a =
     (if isThemeColor a
      then (case color_shade a of
              None \<Rightarrow> Some (variant_colors ''transparent'' (color_var (e @ ''-outline-hover'')) (color_var (e @ ''-outline''))
                             (solid (color_var (e @ ''-outline''))))
            | Some s \<Rightarrow>
                do { n \<leftarrow> theme_shade t (color_name a) s;
                     Some (variant_colors ''transparent'' (rgba n (Dec 5 (- 2))) (shade_var (color_name a) s)
                             (solid (shade_var (color_name a) s))) })
      else Some (variant_colors ''transparent'' (rgba e (Dec 5 (- 2))) e (solid e)))"

definition subtle_variant :: "theme \<Rightarrow> string \<Rightarrow> theme_color \<Rightarrow> text_map option" where
  "subtle_variant t e a =
     (if isThemeColor a
      then (case color_shade a of
              None \<Rightarrow> Some (variant_colors ''transparent'' (color_var (e @ ''-light-hover''))
                             (color_var (e @ ''-light-color'')) no_border)
            | Some s \<Rightarrow>
                do { n \<leftarrow> theme_shade t (color_name a) s;
                     Some (variant_colors ''transparent'' (rgba n (Dec 12 (- 2)))
                             (shade_var (color_name a) (shade_min s 6)) no_border) })
      else Some (variant_colors ''transparent'' (rgba e (Dec 12 (- 2))) e no_border))"

definition transparent_variant :: "string \<Rightarrow> theme_color \<Rightarrow> text_map" where
  "transparent_variant e a =
     variant_colors ''transparent'' ''transparent''
       (if isThemeColor a
        then (case color_shade a of
                None \<Rightarrow> color_var (e @ ''-light-color'')
              | Some s \<Rightarrow> shade_var (color_name a) (shade_min s 6))
        else e) no_border"

definition white_variant :: "theme \<Rightarrow> string \<Rightarrow> theme_color \<Rightarrow> text_map" where
  "white_variant t e a =
     variant_colors (color_var ''white'') (darken (white t) (Dec 1 (- 2)))
       (if isThemeColor a
        then (case color_shade a of None \<Rightarrow> color_var (e @ ''-filled'') | Some s \<Rightarrow> shade_var (color_name a) s)
        else e) no_border"

definition resolve_variant_colors ::
  "string \<Rightarrow> theme \<Rightarrow> string \<Rightarrow> gradient option \<Rightarrow> bool option \<Rightarrow> text_map option" where
  "resolve_variant_colors e t n r i =
     do { a \<leftarrow> parse_theme_color e t None;
          let auto = (case i of Some b \<Rightarrow> b | None \<Rightarrow> autoContrast t) in
          if n = ''none'' then Some (variant_colors ''transparent'' ''transparent'' ''inherit'' ''none'')
          else if n = ''filled'' then filled_variant t e a auto
          else if n = ''light'' then light_variant t e a
          else if n = ''outline'' then outline_variant t e a
          else if n = ''subtle'' then subtle_variant t e a
          else if n = ''transparent'' then Some (transparent_variant e a)
          else if n = ''white'' then Some (white_variant t e a)
          else if n = ''gradient''
          then do { g \<leftarrow> get_gradient r t; Some (variant_colors g g (color_var ''white'') ''none'') }
          else if n = ''default''
          then Some (variant_colors (color_var ''default'') (color_var ''default-hover'') (color_var ''default-color'')
                      (solid (color_var ''default-border'')))
          else Some [] }"

subsection \<open>The color of text\<close>

definition get_contrast_color :: "string option \<Rightarrow> theme \<Rightarrow> bool option \<Rightarrow> color_scheme option \<Rightarrow> string option" where
  "get_contrast_color e t n r =
     (if case n of Some b \<Rightarrow> b | None \<Rightarrow> autoContrast t
      then do { a \<leftarrow> parse_theme_color (case or_default e (Some (primaryColor t)) of Some s \<Rightarrow> s | None \<Rightarrow> []) t r;
                Some (if isLight a then color_var ''black'' else color_var ''white'') }
      else Some (color_var ''white''))"

definition virtual_contrast :: "virtual_color \<Rightarrow> theme \<Rightarrow> color_scheme \<Rightarrow> string option" where
  "virtual_contrast e t n =
     get_contrast_color (Some (if n = Dark then dark_name e else light_name e)) t (Some True) (Some n)"

definition primary_contrast :: "theme \<Rightarrow> color_scheme \<Rightarrow> string option" where
  "primary_contrast e t =
     do { n \<leftarrow> map_get (theme_colors e) (primaryColor e);
          case virtual_of n of
            Some v \<Rightarrow> if autoContrast e then virtual_contrast v e t else Some (color_var ''white'')
          | None \<Rightarrow> get_contrast_color (get_primary_shade e t \<bind> shade_at n) e None None }"

text \<open>The colors of style properties.\<close>

definition resolve_color :: "string \<Rightarrow> theme \<Rightarrow> string option" where
  "resolve_color e t =
     do { n \<leftarrow> parse_theme_color e t None;
          Some (if color_name n = ''dimmed'' then color_var ''dimmed''
                else if color_name n = ''bright'' then color_var ''bright''
                else case color_variable n of Some v \<Rightarrow> ''var('' @ v @ '')'' | None \<Rightarrow> color_name n) }"

definition resolve_text_color :: "string \<Rightarrow> theme \<Rightarrow> string option" where
  "resolve_text_color e t =
     do { n \<leftarrow> parse_theme_color e t None;
          if isThemeColor n \<and> color_shade n = None then Some (color_var (color_name n @ ''-text'')) else resolve_color e t }"

end
