(* ===== verification/Mantine_Variables.thy ===== *)
theory Mantine_Variables
  imports Mantine_Variants
begin

text \<open>
  The default theme of Mantine, merging a theme into another, and the style sheet of variables its provider
  writes for a theme, as bundled into \<open>app.js\<close>. The names of the heading sizes are those of the default
  theme, and no name of a theme's entries is a number.
\<close>

subsection \<open>The default theme\<close>

abbreviation plain_palette :: "string list \<Rightarrow> palette" where
  "plain_palette s \<equiv> \<lparr>shades = s, virtual_of = None\<rparr>"

definition cool_colors :: "(string \<times> palette) list" where
  "cool_colors =
     [(''dark'', plain_palette
         [''#C9C9C9'', ''#b8b8b8'', ''#828282'', ''#696969'', ''#424242'',
          ''#3b3b3b'', ''#2e2e2e'', ''#242424'', ''#1f1f1f'', ''#141414'']),
      (''gray'', plain_palette
         [''#f8f9fa'', ''#f1f3f5'', ''#e9ecef'', ''#dee2e6'', ''#ced4da'',
          ''#adb5bd'', ''#868e96'', ''#495057'', ''#343a40'', ''#212529'']),
      (''red'', plain_palette
         [''#fff5f5'', ''#ffe3e3'', ''#ffc9c9'', ''#ffa8a8'', ''#ff8787'',
          ''#ff6b6b'', ''#fa5252'', ''#f03e3e'', ''#e03131'', ''#c92a2a'']),
      (''pink'', plain_palette
         [''#fff0f6'', ''#ffdeeb'', ''#fcc2d7'', ''#faa2c1'', ''#f783ac'',
          ''#f06595'', ''#e64980'', ''#d6336c'', ''#c2255c'', ''#a61e4d'']),
      (''grape'', plain_palette
         [''#f8f0fc'', ''#f3d9fa'', ''#eebefa'', ''#e599f7'', ''#da77f2'',
          ''#cc5de8'', ''#be4bdb'', ''#ae3ec9'', ''#9c36b5'', ''#862e9c'']),
      (''violet'', plain_palette
         [''#f3f0ff'', ''#e5dbff'', ''#d0bfff'', ''#b197fc'', ''#9775fa'',
          ''#845ef7'', ''#7950f2'', ''#7048e8'', ''#6741d9'', ''#5f3dc4'']),
      (''indigo'', plain_palette
         [''#edf2ff'', ''#dbe4ff'', ''#bac8ff'', ''#91a7ff'', ''#748ffc'',
          ''#5c7cfa'', ''#4c6ef5'', ''#4263eb'', ''#3b5bdb'', ''#364fc7''])]"

definition warm_colors :: "(string \<times> palette) list" where
  "warm_colors =
     [(''blue'', plain_palette
         [''#e7f5ff'', ''#d0ebff'', ''#a5d8ff'', ''#74c0fc'', ''#4dabf7'',
          ''#339af0'', ''#228be6'', ''#1c7ed6'', ''#1971c2'', ''#1864ab'']),
      (''cyan'', plain_palette
         [''#e3fafc'', ''#c5f6fa'', ''#99e9f2'', ''#66d9e8'', ''#3bc9db'',
          ''#22b8cf'', ''#15aabf'', ''#1098ad'', ''#0c8599'', ''#0b7285'']),
      (''teal'', plain_palette
         [''#e6fcf5'', ''#c3fae8'', ''#96f2d7'', ''#63e6be'', ''#38d9a9'',
          ''#20c997'', ''#12b886'', ''#0ca678'', ''#099268'', ''#087f5b'']),
      (''green'', plain_palette
         [''#ebfbee'', ''#d3f9d8'', ''#b2f2bb'', ''#8ce99a'', ''#69db7c'',
          ''#51cf66'', ''#40c057'', ''#37b24d'', ''#2f9e44'', ''#2b8a3e'']),
      (''lime'', plain_palette
         [''#f4fce3'', ''#e9fac8'', ''#d8f5a2'', ''#c0eb75'', ''#a9e34b'',
          ''#94d82d'', ''#82c91e'', ''#74b816'', ''#66a80f'', ''#5c940d'']),
      (''yellow'', plain_palette
         [''#fff9db'', ''#fff3bf'', ''#ffec99'', ''#ffe066'', ''#ffd43b'',
          ''#fcc419'', ''#fab005'', ''#f59f00'', ''#f08c00'', ''#e67700'']),
      (''orange'', plain_palette
         [''#fff4e6'', ''#ffe8cc'', ''#ffd8a8'', ''#ffc078'', ''#ffa94d'',
          ''#ff922b'', ''#fd7e14'', ''#f76707'', ''#e8590c'', ''#d9480f''])]"

definition default_colors :: "(string \<times> palette) list" where
  "default_colors = cool_colors @ warm_colors"

definition system_fonts :: string where
  "system_fonts = ''-apple-system, BlinkMacSystemFont, Segoe UI, Roboto, Helvetica, Arial, sans-serif, Apple Color Emoji, Segoe UI Emoji''"

definition heading_of :: "int \<Rightarrow> string \<Rightarrow> heading" where
  "heading_of n l = \<lparr>headingSize = rem_int n, headingHeight = l, headingWeight = None\<rparr>"

text \<open>A shadow: one in front, and two below of the sizes given.\<close>

definition shadow :: "int \<Rightarrow> int \<Rightarrow> int \<Rightarrow> int \<Rightarrow> string" where
  "shadow a b c d =
     ''0 '' @ rem_int 1 @ '' '' @ rem_int 3 @ '' rgba(0, 0, 0, 0.05), rgba(0, 0, 0, 0.05) 0 '' @ rem_int a @ '' ''
     @ rem_int b @ '' '' @ rem_int c @ '', rgba(0, 0, 0, 0.04) 0 '' @ rem_int d @ '' '' @ rem_int d @ '' '' @ rem_int c"

definition default_theme :: theme where
  "default_theme =
     \<lparr>scale = Dec 1 0, fontSmoothing = True, focusRing = ''auto'', white = ''#fff'', black = ''#000'',
      theme_colors = default_colors,
      primaryShade = Scheme_shades (Dec 6 0) (Dec 8 0), primaryColor = ''blue'',
      autoContrast = False, luminanceThreshold = 0.3, fontFamily = system_fonts,
      fontFamilyMonospace = ''ui-monospace, SFMono-Regular, Menlo, Monaco, Consolas, Liberation Mono, Courier New, monospace'',
      respectReducedMotion = False, cursorType = ''default'',
      defaultGradient = \<lparr>grad_from = Some ''blue'', grad_to = Some ''cyan'', grad_deg = Some (Dec 45 0)\<rparr>,
      defaultRadius = JStr ''md'', activeClassName = ''mantine-active'', focusClassName = [],
      theme_headings =
        \<lparr>headingsFamily = system_fonts, headingsWeight = ''700'', headingsWrap = ''wrap'',
         headingSizes = [(''h1'', heading_of 34 ''1.3''), (''h2'', heading_of 26 ''1.35''), (''h3'', heading_of 22 ''1.4''),
                  (''h4'', heading_of 18 ''1.45''), (''h5'', heading_of 16 ''1.5''), (''h6'', heading_of 14 ''1.5'')]\<rparr>,
      fontSizes = [(''xs'', rem_int 12), (''sm'', rem_int 14), (''md'', rem_int 16), (''lg'', rem_int 18), (''xl'', rem_int 20)],
      lineHeights = [(''xs'', ''1.4''), (''sm'', ''1.45''), (''md'', ''1.55''), (''lg'', ''1.6''), (''xl'', ''1.65'')],
      fontWeights = [(''regular'', ''400''), (''medium'', ''600''), (''bold'', ''700'')],
      radius = [(''xs'', rem_int 2), (''sm'', rem_int 4), (''md'', rem_int 8), (''lg'', rem_int 16), (''xl'', rem_int 32)],
      spacing = [(''xs'', rem_int 10), (''sm'', rem_int 12), (''md'', rem_int 16), (''lg'', rem_int 20), (''xl'', rem_int 32)],
      breakpoints = [(''xs'', ''36em''), (''sm'', ''48em''), (''md'', ''62em''), (''lg'', ''75em''), (''xl'', ''88em'')],
      shadows = [(''xs'', ''0 '' @ rem_int 1 @ '' '' @ rem_int 3 @ '' rgba(0, 0, 0, 0.05), 0 '' @ rem_int 1 @ '' ''
                   @ rem_int 2 @ '' rgba(0, 0, 0, 0.1)''),
        (''sm'', shadow 10 15 (-5) 7), (''md'', shadow 20 25 (-5) 10), (''lg'', shadow 28 23 (-7) 12),
        (''xl'', shadow 36 28 (-7) 17)]\<rparr>"

subsection \<open>Merging a theme into another\<close>

text \<open>A theme as an application gives it: every entry may be left out.\<close>

record heading_change =
  set_size :: "string option"
  set_height :: "string option"
  set_weight :: "string option"

record headings_change =
  set_family :: "string option"
  set_hweight :: "string option"
  set_wrap :: "string option"
  set_sizes :: "(string, heading_change) js_map"

record theme_change =
  set_scale :: "dec option"
  set_fontSmoothing :: "bool option"
  set_focusRing :: "string option"
  set_white :: "string option"
  set_black :: "string option"
  set_colors :: "(string, palette) js_map"
  set_primaryShade :: "primary_shade option"
  set_primaryColor :: "string option"
  set_autoContrast :: "bool option"
  set_luminanceThreshold :: "real option"
  set_fontFamily :: "string option"
  set_fontFamilyMonospace :: "string option"
  set_respectReducedMotion :: "bool option"
  set_cursorType :: "string option"
  set_defaultGradient :: gradient
  set_defaultRadius :: "json option"
  set_activeClassName :: "string option"
  set_focusClassName :: "string option"
  set_headings :: headings_change
  set_fontSizes :: text_map
  set_lineHeights :: text_map
  set_fontWeights :: text_map
  set_radius :: text_map
  set_spacing :: text_map
  set_breakpoints :: text_map
  set_shadows :: text_map

definition no_change :: theme_change where
  "no_change =
     \<lparr>set_scale = None, set_fontSmoothing = None, set_focusRing = None, set_white = None, set_black = None,
      set_colors = [], set_primaryShade = None, set_primaryColor = None, set_autoContrast = None,
      set_luminanceThreshold = None, set_fontFamily = None, set_fontFamilyMonospace = None,
      set_respectReducedMotion = None, set_cursorType = None,
      set_defaultGradient = \<lparr>grad_from = None, grad_to = None, grad_deg = None\<rparr>,
      set_defaultRadius = None, set_activeClassName = None, set_focusClassName = None,
      set_headings = \<lparr>set_family = None, set_hweight = None, set_wrap = None, set_sizes = []\<rparr>,
      set_fontSizes = [], set_lineHeights = [], set_fontWeights = [], set_radius = [], set_spacing = [],
      set_breakpoints = [], set_shadows = []\<rparr>"

text \<open>
  \<open>deepMerge\<close>: a value replaces the old one, an object is merged into an old object, entry by entry, and
  merging an object into anything else gives an empty object.
\<close>

definition given :: "'a option \<Rightarrow> 'a \<Rightarrow> 'a" where
  "given t e = (case t of Some x \<Rightarrow> x | None \<Rightarrow> e)"

fun merge_shade :: "primary_shade \<Rightarrow> primary_shade option \<Rightarrow> primary_shade" where
  "merge_shade e None = e"
| "merge_shade e (Some (One_shade d)) = One_shade d"
| "merge_shade (One_shade _) (Some _) = No_shades"
| "merge_shade e (Some No_shades) = e"
| "merge_shade e (Some (Scheme_shades l d)) = Scheme_shades l d"

definition merge_gradient :: "gradient \<Rightarrow> gradient \<Rightarrow> gradient" where
  "merge_gradient e t =
     \<lparr>grad_from = (if grad_from t = None then grad_from e else grad_from t),
      grad_to = (if grad_to t = None then grad_to e else grad_to t),
      grad_deg = (if grad_deg t = None then grad_deg e else grad_deg t)\<rparr>"

definition merge_heading :: "heading \<Rightarrow> heading_change \<Rightarrow> heading" where
  "merge_heading e t =
     \<lparr>headingSize = given (set_size t) (headingSize e), headingHeight = given (set_height t) (headingHeight e),
      headingWeight = (if set_weight t = None then headingWeight e else set_weight t)\<rparr>"

definition merge_headings :: "headings \<Rightarrow> headings_change \<Rightarrow> headings" where
  "merge_headings e t =
     \<lparr>headingsFamily = given (set_family t) (headingsFamily e), headingsWeight = given (set_hweight t) (headingsWeight e),
      headingsWrap = given (set_wrap t) (headingsWrap e),
      headingSizes = map (\<lambda>(k, h). (k, case map_get (set_sizes t) k of Some c \<Rightarrow> merge_heading h c | None \<Rightarrow> h)) (headingSizes e)\<rparr>"

definition merge_change :: "theme \<Rightarrow> theme_change \<Rightarrow> theme" where
  "merge_change e t =
     \<lparr>scale = given (set_scale t) (scale e), fontSmoothing = given (set_fontSmoothing t) (fontSmoothing e),
      focusRing = given (set_focusRing t) (focusRing e), white = given (set_white t) (white e),
      black = given (set_black t) (black e), theme_colors = spread (theme_colors e) (set_colors t),
      primaryShade = merge_shade (primaryShade e) (set_primaryShade t),
      primaryColor = given (set_primaryColor t) (primaryColor e),
      autoContrast = given (set_autoContrast t) (autoContrast e),
      luminanceThreshold = given (set_luminanceThreshold t) (luminanceThreshold e),
      fontFamily = given (set_fontFamily t) (fontFamily e),
      fontFamilyMonospace = given (set_fontFamilyMonospace t) (fontFamilyMonospace e),
      respectReducedMotion = given (set_respectReducedMotion t) (respectReducedMotion e),
      cursorType = given (set_cursorType t) (cursorType e),
      defaultGradient = merge_gradient (defaultGradient e) (set_defaultGradient t),
      defaultRadius = given (set_defaultRadius t) (defaultRadius e),
      activeClassName = given (set_activeClassName t) (activeClassName e),
      focusClassName = given (set_focusClassName t) (focusClassName e),
      theme_headings = merge_headings (theme_headings e) (set_headings t),
      fontSizes = spread (fontSizes e) (set_fontSizes t), lineHeights = spread (lineHeights e) (set_lineHeights t),
      fontWeights = spread (fontWeights e) (set_fontWeights t), radius = spread (radius e) (set_radius t),
      spacing = spread (spacing e) (set_spacing t), breakpoints = spread (breakpoints e) (set_breakpoints t),
      shadows = spread (shadows e) (set_shadows t)\<rparr>"

datatype theme_error = Invalid_primary_color | Invalid_primary_shade | Shade_type_error

text \<open>\<open>isValidPrimaryShade\<close>: \<open>parseInt\<close> of the number's text is the number.\<close>

definition valid_shade :: "dec \<Rightarrow> bool" where
  "valid_shade d \<longleftrightarrow>
     \<not> (dec_less d (Dec 0 0) \<or> dec_less (Dec 9 0) d) \<and> int_dec (int (nat_value (int_digits (show_dec d)))) = d"

definition validate_theme :: "theme \<Rightarrow> theme_error + theme" where
  "validate_theme e =
     (if map_get (theme_colors e) (primaryColor e) = None then Inl Invalid_primary_color
      else case primaryShade e of
             Scheme_shades l d \<Rightarrow> if valid_shade d \<and> valid_shade l then Inr e else Inl Invalid_primary_shade
           | One_shade d \<Rightarrow> if valid_shade d then Inr e else Inl Invalid_primary_shade
           | No_shades \<Rightarrow> Inl Shade_type_error)"

definition merge_theme :: "theme \<Rightarrow> theme_change option \<Rightarrow> theme_error + theme" where
  "merge_theme e t =
     (case t of
        None \<Rightarrow> validate_theme e
      | Some c \<Rightarrow>
          let n = merge_change e c; f = set_fontFamily c
          in validate_theme
               (if f \<notin> {None, Some []} \<and> set_family (set_headings c) \<in> {None, Some []}
                then n\<lparr>theme_headings := theme_headings n\<lparr>headingsFamily := the f\<rparr>\<rparr> else n))"

subsection \<open>The variables of a theme\<close>

record css_variables =
  plain_vars :: text_map
  light_vars :: text_map
  dark_vars :: text_map

text \<open>The shades of a palette under a name.\<close>

definition shade_values :: "string \<Rightarrow> string list \<Rightarrow> text_map" where
  "shade_values r s = map (\<lambda>k. (color_text (r @ ''-'' @ show_nat k), s ! k)) [0..<10]"

text \<open>\<open>getCSSColorVariables\<close>; \<open>None\<close>: the palette lacks a shade.\<close>

definition color_variables :: "theme \<Rightarrow> string \<Rightarrow> color_scheme \<Rightarrow> string \<Rightarrow> bool \<Rightarrow> text_map option" where
  "color_variables e t n r i =
     (case map_get (theme_colors e) t of
        None \<Rightarrow> Some []
      | Some p \<Rightarrow>
          do { a \<leftarrow> get_primary_shade e n;
               let v = (\<lambda>k. color_text (r @ k)); ref = (\<lambda>k. color_var (r @ k)) in
               do { s \<leftarrow> (if n = Light
                     then do { o' \<leftarrow> shade_at p a;
                               Some [(v ''-text'', ref ''-filled''), (v ''-filled'', shade_var r a),
                                     (v ''-filled-hover'', shade_var r (hover_shade a)),
                                     (v ''-light'', ref ''-1''), (v ''-light-hover'', ref ''-2''), (v ''-light-color'', ref ''-9''),
                                     (v ''-outline'', shade_var r a), (v ''-outline-hover'', rgba o' (Dec 5 (- 2)))] }
                     else do { l \<leftarrow> shade_at p (whole 9);
                               o' \<leftarrow> shade_at p (shade_max (shade_add a (- 4)) 0);
                               Some [(v ''-text'', ref ''-4''), (v ''-filled'', shade_var r a),
                                     (v ''-filled-hover'', shade_var r (hover_shade a)),
                                     (v ''-light'', darken l (Dec 5 (- 1))), (v ''-light-hover'', darken l (Dec 3 (- 1))),
                                     (v ''-light-color'', ref ''-0''),
                                     (v ''-outline'', shade_var r (shade_max (shade_add a (- 4)) 0)),
                                     (v ''-outline-hover'', rgba o' (Dec 5 (- 2)))] });
                    if i then (if 10 \<le> length (shades p) then Some (spread (shade_values r (shades p)) s) else None)
                    else Some s } })"

definition assign_variables :: "text_map \<Rightarrow> text_map \<Rightarrow> string \<Rightarrow> text_map" where
  "assign_variables e t n = spread e (map (\<lambda>(r, v). (''--mantine-'' @ n @ ''-'' @ r, v)) t)"

definition first_variables :: "theme \<Rightarrow> text_map" where
  "first_variables e =
     (let d = js_string (defaultRadius e);
          n = (case map_get (radius e) d of Some v \<Rightarrow> v | None \<Rightarrow> js_string_opt (rem (Some (defaultRadius e))));
          p = primaryColor e
      in [(''--mantine-z-index-app'', ''100''), (''--mantine-z-index-modal'', ''200''),
          (''--mantine-z-index-popover'', ''300''), (''--mantine-z-index-overlay'', ''400''),
          (''--mantine-z-index-max'', ''9999''), (''--mantine-scale'', show_dec (scale e)),
          (''--mantine-cursor-type'', cursorType e),
          (''--mantine-webkit-font-smoothing'', if fontSmoothing e then ''antialiased'' else ''unset''),
          (''--mantine-moz-font-smoothing'', if fontSmoothing e then ''grayscale'' else ''unset''),
          (''--mantine-color-white'', white e), (''--mantine-color-black'', black e),
          (''--mantine-line-height'', case map_get (lineHeights e) ''md'' of Some v \<Rightarrow> v | None \<Rightarrow> ''undefined''),
          (''--mantine-font-family'', fontFamily e), (''--mantine-font-family-monospace'', fontFamilyMonospace e),
          (''--mantine-font-family-headings'', headingsFamily (theme_headings e)),
          (''--mantine-heading-font-weight'', headingsWeight (theme_headings e)),
          (''--mantine-heading-text-wrap'', headingsWrap (theme_headings e)),
          (''--mantine-radius-default'', n),
          (''--mantine-primary-color-filled'', color_var (p @ ''-filled'')),
          (''--mantine-primary-color-filled-hover'', color_var (p @ ''-filled-hover'')),
          (''--mantine-primary-color-light'', color_var (p @ ''-light'')),
          (''--mantine-primary-color-light-hover'', color_var (p @ ''-light-hover'')),
          (''--mantine-primary-color-light-color'', color_var (p @ ''-light-color''))])"

definition first_light :: "theme \<Rightarrow> js_number \<Rightarrow> string \<Rightarrow> text_map" where
  "first_light e t c =
     [(''--mantine-color-scheme'', ''light''), (''--mantine-primary-color-contrast'', c),
      (''--mantine-color-bright'', color_var ''black''), (''--mantine-color-text'', black e),
      (''--mantine-color-body'', white e), (''--mantine-color-error'', color_var ''red-6''),
      (''--mantine-color-success'', color_var ''teal-8''), (''--mantine-color-placeholder'', color_var ''gray-5''),
      (''--mantine-color-anchor'', shade_var (primaryColor e) t), (''--mantine-color-default'', color_var ''white''),
      (''--mantine-color-default-hover'', color_var ''gray-0''), (''--mantine-color-default-color'', color_var ''black''),
      (''--mantine-color-default-border'', color_var ''gray-4''), (''--mantine-color-dimmed'', color_var ''gray-6''),
      (''--mantine-color-disabled'', color_var ''gray-2''), (''--mantine-color-disabled-color'', color_var ''gray-5''),
      (''--mantine-color-disabled-border'', color_var ''gray-3'')]"

definition first_dark :: "theme \<Rightarrow> string \<Rightarrow> text_map" where
  "first_dark e c =
     [(''--mantine-color-scheme'', ''dark''), (''--mantine-primary-color-contrast'', c),
      (''--mantine-color-bright'', color_var ''white''), (''--mantine-color-text'', color_var ''dark-0''),
      (''--mantine-color-body'', color_var ''dark-7''), (''--mantine-color-error'', color_var ''red-8''),
      (''--mantine-color-success'', color_var ''teal-8''), (''--mantine-color-placeholder'', color_var ''dark-3''),
      (''--mantine-color-anchor'', color_var (primaryColor e @ ''-4'')), (''--mantine-color-default'', color_var ''dark-6''),
      (''--mantine-color-default-hover'', color_var ''dark-5''), (''--mantine-color-default-color'', color_var ''white''),
      (''--mantine-color-default-border'', color_var ''dark-4''), (''--mantine-color-dimmed'', color_var ''dark-2''),
      (''--mantine-color-disabled'', color_var ''dark-6''), (''--mantine-color-disabled-color'', color_var ''dark-3''),
      (''--mantine-color-disabled-border'', color_var ''dark-4'')]"

text \<open>The variables of one palette.\<close>

definition add_palette :: "theme \<Rightarrow> string \<times> palette \<Rightarrow> css_variables \<Rightarrow> css_variables option" where
  "add_palette e tp r =
     (case tp of (t, n) \<Rightarrow>
        case virtual_of n of
          Some w \<Rightarrow>
            do { a \<leftarrow> color_variables e (light_name w) Light (virtual_name w) True;
                 b \<leftarrow> color_variables e (dark_name w) Dark (virtual_name w) True;
                 ca \<leftarrow> virtual_contrast w e Light; cb \<leftarrow> virtual_contrast w e Dark;
                 let k = color_text (virtual_name w @ ''-contrast'') in
                 Some (r\<lparr>light_vars := map_set k ca (spread (light_vars r) a),
                         dark_vars := map_set k cb (spread (dark_vars r) b)\<rparr>) }
        | None \<Rightarrow>
            do { a \<leftarrow> color_variables e t Light t False; b \<leftarrow> color_variables e t Dark t False;
                 Some (r\<lparr>plain_vars := fold (\<lambda>k. map_set (color_text (t @ ''-'' @ show_nat k)) (shades n ! k))
                                         [0..<length (shades n)] (plain_vars r),
                         light_vars := spread (light_vars r) a, dark_vars := spread (dark_vars r) b\<rparr>) })"

fun add_palettes :: "theme \<Rightarrow> (string \<times> palette) list \<Rightarrow> css_variables \<Rightarrow> css_variables option" where
  "add_palettes e [] r = Some r"
| "add_palettes e (p # ps) r = add_palette e p r \<bind> add_palettes e ps"

definition heading_variables :: "theme \<Rightarrow> text_map" where
  "heading_variables e =
     concat (map (\<lambda>(t, h). [(''--mantine-'' @ t @ ''-font-size'', headingSize h),
                            (''--mantine-'' @ t @ ''-line-height'', headingHeight h),
                            (''--mantine-'' @ t @ ''-font-weight'',
                             case headingWeight h of Some w \<Rightarrow> if w = [] then headingsWeight (theme_headings e) else w
                             | None \<Rightarrow> headingsWeight (theme_headings e))])
              (headingSizes (theme_headings e)))"

text \<open>The sizes of a theme, each under its own name.\<close>

definition size_variables :: "theme \<Rightarrow> text_map \<Rightarrow> text_map" where
  "size_variables e v =
     fold (\<lambda>(t, n) v. assign_variables v t n)
       [(breakpoints e, ''breakpoint''), (spacing e, ''spacing''), (fontSizes e, ''font-size''),
        (lineHeights e, ''line-height''), (shadows e, ''shadow''), (radius e, ''radius''), (fontWeights e, ''font-weight'')] v"

definition default_variables :: "theme \<Rightarrow> css_variables option" where
  "default_variables e =
     do { t \<leftarrow> get_primary_shade e Light;
          cl \<leftarrow> primary_contrast e Light; cd \<leftarrow> primary_contrast e Dark;
          p \<leftarrow> map_get (theme_colors e) (primaryColor e);
          let v = fold (\<lambda>n. map_set (''--mantine-primary-color-'' @ show_nat n) (color_var (primaryColor e @ ''-'' @ show_nat n)))
                    [0..<length (shades p)] (size_variables e (first_variables e)) in
          do { r \<leftarrow> add_palettes e (theme_colors e) \<lparr>plain_vars = v, light_vars = first_light e t cl, dark_vars = first_dark e cd\<rparr>;
               Some (r\<lparr>plain_vars := spread (plain_vars r) (heading_variables e)\<rparr>) } }"

subsection \<open>The style sheet\<close>

text \<open>\<open>getMergedVariables\<close>: \<open>g\<close> are the variables of the application's own resolver.\<close>

definition merged_variables :: "theme \<Rightarrow> css_variables option \<Rightarrow> css_variables option" where
  "merged_variables e g =
     map_option (\<lambda>n. case g of None \<Rightarrow> n
       | Some r \<Rightarrow> \<lparr>plain_vars = spread (plain_vars n) (plain_vars r), light_vars = spread (light_vars n) (light_vars r),
                    dark_vars = spread (dark_vars n) (dark_vars r)\<rparr>)
       (default_variables e)"

text \<open>\<open>removeDefaultVariables\<close>; \<open>z\<close>: the variables of the default theme, which a style sheet of the library sets.\<close>

definition changed_only :: "text_map \<Rightarrow> text_map \<Rightarrow> text_map" where
  "changed_only z e = filter (\<lambda>(n, v). map_get z n \<noteq> Some v) e"

definition remove_default_variables :: "css_variables \<Rightarrow> css_variables \<Rightarrow> css_variables" where
  "remove_default_variables z e =
     \<lparr>plain_vars = changed_only (plain_vars z) (plain_vars e), light_vars = changed_only (light_vars z) (light_vars e),
      dark_vars = changed_only (dark_vars z) (dark_vars e)\<rparr>"

definition variables_text :: "text_map \<Rightarrow> string" where
  "variables_text e = concat (map (\<lambda>(k, v). k @ '': '' @ v @ '';'') e)"

definition blank_line :: string where
  "blank_line = [CHR ''\<newline>'', CHR ''\<newline>'']"

definition scheme_selectors :: "string list \<Rightarrow> string \<Rightarrow> string" where
  "scheme_selectors n e =
     join_with '', '' (map (\<lambda>t. if t = '':host'' then t @ ''([data-mantine-color-scheme=\"'' @ e @ ''\"])''
                                else t @ ''[data-mantine-color-scheme=\"'' @ e @ ''\"]'') n)"

definition convert_css_variables :: "css_variables \<Rightarrow> string option \<Rightarrow> string" where
  "convert_css_variables e t =
     (let n = (case t of Some s \<Rightarrow> if s = [] then ['':root'', '':host''] else [s] | None \<Rightarrow> ['':root'', '':host'']);
          block = (\<lambda>s v. if v = [] then [] else s @ ''{'' @ v @ ''}'')
      in block (join_with '', '' n) (variables_text (plain_vars e)) @ blank_line @
         block (scheme_selectors n ''dark'') (variables_text (dark_vars e)) @ blank_line @
         block (scheme_selectors n ''light'') (variables_text (light_vars e)))"

definition scheme_only :: "string option \<Rightarrow> string" where
  "scheme_only e =
     convert_css_variables \<lparr>plain_vars = [], light_vars = [(''--mantine-color-scheme'', ''light'')],
       dark_vars = [(''--mantine-color-scheme'', ''dark'')]\<rparr> e"

text \<open>The text of the element \<open>MantineCssVariables\<close> renders.\<close>

definition variables_sheet :: "css_variables \<Rightarrow> css_variables \<Rightarrow> string option \<Rightarrow> bool \<Rightarrow> string" where
  "variables_sheet z i e t =
     (let a = (e \<in> {None, Some '':root'', Some '':host''} \<and> t)
      in convert_css_variables (if a then remove_default_variables z i else i) e @ (if a then [] else scheme_only e))"

text \<open>\<open>MantineClasses\<close>: the classes that hide an element from, or below, a breakpoint.\<close>

definition breakpoint_rule :: "string \<Rightarrow> string \<Rightarrow> string" where
  "breakpoint_rule n b =
     (let r = contains ''px'' b;
          (hi, lo) =
            (case px (Some (JStr b)) of
               Px (Fin i) \<Rightarrow>
                 (let j = dec_add i (Dec (- 1) (- 1))
                  in if r then (show_dec j @ ''px'', show_dec i @ ''px'')
                     else (js_string_opt (em (Some (JNum j))), js_string_opt (em (Some (JNum i)))))
             | Px _ \<Rightarrow> if r then (''NaNpx'', ''NaNpx'') else (''NaNem'', ''NaNem'')
             | Px_text s \<Rightarrow> if r then (''NaNpx'', s @ ''px'') else (''NaNem'', convert_text ''em'' False s))
      in ''@media (max-width: '' @ hi @ '') {.mantine-visible-from-'' @ n @ '' {display: none !important;}}@media (min-width: ''
         @ lo @ '') {.mantine-hidden-from-'' @ n @ '' {display: none !important;}}'')"

definition breakpoint_classes :: "theme \<Rightarrow> string" where
  "breakpoint_classes e = concat (map (\<lambda>(n, b). breakpoint_rule n b) (breakpoints e))"

subsection \<open>The console's theme\<close>

definition console_theme :: theme_change where
  "console_theme = no_change
     \<lparr>set_primaryColor := Some ''frost'', set_primaryShade := Some (Scheme_shades (Dec 6 0) (Dec 4 0)),
      set_defaultRadius := Some (JStr ''md''),
      set_colors :=
       [(''frost'', plain_palette
           [''#eef6fa'', ''#dceaf1'', ''#bdd8e4'', ''#9bc5d6'', ''#88c0d0'',
            ''#81a1c1'', ''#5e81ac'', ''#4c6c91'', ''#3b5675'', ''#2c415a'']),
        (''dark'', plain_palette
           [''#eceff4'', ''#e5e9f0'', ''#d8dee9'', ''#b8c2d1'', ''#697386'',
            ''#4c566a'', ''#3b4252'', ''#2e3440'', ''#292f3a'', ''#242933''])]\<rparr>"

end
