(* ===== verification/Mantine_Theme_Properties.thy ===== *)
theory Mantine_Theme_Properties
  imports Mantine_Variables
begin

text \<open>
  Properties of Mantine's theme: the variables that the provider's style sheet and the variants of a
  component refer to are variables the style sheet sets, and leaving out the defaults changes none.
\<close>

subsection \<open>References to variables\<close>

text \<open>The names in \<open>var(...)\<close> anywhere in a text.\<close>

fun variables_in :: "string \<Rightarrow> string list" where
  "variables_in [] = []"
| "variables_in (c # s) =
     (if is_prefix_of ''var('' (c # s) then takeWhile (\<lambda>d. d \<noteq> CHR '')'') (drop 4 (c # s)) # variables_in s
      else variables_in s)"

lemma variables_in_skip: "c \<noteq> CHR ''v'' \<Longrightarrow> variables_in (c # s) = variables_in s"
  by simp

declare variables_in.simps(2) [simp del]

lemma no_variables: "CHR ''('' \<notin> set s \<Longrightarrow> variables_in s = []"
proof (induction s)
  case (Cons c s)
  have "\<not> is_prefix_of ''var('' (c # s)"
  proof
    assume "is_prefix_of ''var('' (c # s)"
    from is_prefix_of_append [OF this] have "c # s = ''var('' @ drop 4 (c # s)" by (simp add: eval_nat_numeral)
    then have "CHR ''('' \<in> set (c # s)" by (metis UnCI list.set_intros(1) list.set_intros(2) set_append)
    with Cons.prems show False by blast
  qed
  with Cons show ?case by (simp add: variables_in.simps(2))
qed simp

lemma variables_in_rgba: "CHR ''('' \<notin> set s \<Longrightarrow> variables_in (''rgba('' @ s) = []"
  by (simp add: variables_in_skip no_variables)

lemma variables_in_var: "CHR ''('' \<notin> set x \<Longrightarrow> CHR '')'' \<notin> set x \<Longrightarrow> variables_in (''var('' @ x @ '')'') = [x]"
proof -
  assume x: "CHR ''('' \<notin> set x" "CHR '')'' \<notin> set x"
  have "variables_in (CHR ''('' # x @ '')'') = []"
    using x(1) by (subst variables_in_skip) (simp_all add: no_variables)
  then have "variables_in (''ar('' @ x @ '')'') = []" by (simp add: variables_in_skip)
  moreover have "takeWhile (\<lambda>d. d \<noteq> CHR '')'') (x @ '')'') = x"
    using x(2) by (subst takeWhile_append2) auto
  ultimately show ?thesis by (simp add: variables_in.simps(2))
qed

lemma variables_in_color_var:
  "CHR ''('' \<notin> set x \<Longrightarrow> CHR '')'' \<notin> set x \<Longrightarrow> variables_in (color_var x) = [color_text x]"
  unfolding color_var_def by (rule variables_in_var) (simp_all add: color_text_def)

text \<open>Printed numbers hold no parenthesis.\<close>

lemma show_nat_no_paren: "CHR ''('' \<notin> set (show_nat n)" "CHR '')'' \<notin> set (show_nat n)"
  using show_nat_digits [of n] by (auto simp: is_digit_def)

lemma show_pos_no_paren: "CHR ''('' \<notin> set (show_pos m e)"
proof -
  have "CHR ''('' \<notin> set (take k (show_nat m))" "CHR ''('' \<notin> set (drop k (show_nat m))"
    "CHR ''('' \<noteq> hd (show_nat m)" "CHR ''('' \<notin> set (tl (show_nat m))" for k
    using show_nat_no_paren(1) [of m] show_nat_not_Nil [of m] hd_in_set [of "show_nat m"]
    by (auto dest: in_set_takeD in_set_dropD list.set_sel(2) simp del: show_nat_not_Nil)
  then show ?thesis by (simp add: show_pos_def Let_def show_nat_no_paren)
qed

lemma show_dec_no_paren: "CHR ''('' \<notin> set (show_dec d)"
  by (cases d) (simp add: show_pos_no_paren)

lemma show_number_no_paren: "CHR ''('' \<notin> set (show_number n)"
  by (cases n) (simp_all add: show_dec_no_paren)

lemma show_channel_no_paren: "CHR ''('' \<notin> set (show_channel x)"
  by (cases x) (simp_all add: show_channel_def show_number_no_paren)

text \<open>A shade made darker or transparent refers to no variable.\<close>

lemma no_paren_no_var: "CHR ''('' \<notin> set e \<Longrightarrow> \<not> is_prefix_of ''var('' e"
  by (metis append_Cons is_prefix_of_append in_set_conv_decomp append.assoc append_Nil)

lemma variables_in_darken:
  assumes "CHR ''('' \<notin> set e"
  shows "variables_in (darken e t) = []"
proof -
  let ?s = "\<lambda>x. case channel x of Some v \<Rightarrow> show_dec (int_dec (round_half_up (v * (1 - real_of_dec t)))) | None \<Rightarrow> ''NaN''"
  have "CHR ''('' \<notin> set (?s x)" for x
    using show_dec_no_paren by (auto split: option.split)
  then show ?thesis
    using no_paren_no_var [OF assms] unfolding darken_def Let_def
    by (simp only: if_False) (rule variables_in_rgba, simp add: show_number_no_paren)
qed

lemma replace_first_set: "set (replace_first p r s) \<subseteq> set r \<union> set s"
  by (induction s) (auto dest: in_set_dropD split: if_splits)

lemma slash_alpha_set: "slash_alpha s = Some q \<Longrightarrow> set q \<subseteq> set s"
proof -
  assume "slash_alpha s = Some q"
  then obtain r where "expect (CHR ''/'') s = Some r"
    "expect (CHR '')'') (spaces (dropWhile (\<lambda>c. is_digit c \<or> c = CHR ''.'') (spaces r))) = Some q"
    by (auto simp: slash_alpha_def Let_def split: bind_splits if_splits)
  then show ?thesis
    by (auto simp: expect_def spaces_def split: list.splits if_splits)
       (metis list.set_intros(2) set_dropWhileD)
qed

lemma replace_slash_alpha_set: "set (replace_slash_alpha r s) \<subseteq> set r \<union> set s"
  by (induction s) (auto dest!: slash_alpha_set split: option.splits)

lemma variables_in_rgba_color:
  assumes "CHR ''('' \<notin> set e"
  shows "variables_in (rgba e t) = []"
proof -
  have "CHR ''('' \<notin> set (replace_first '')'' ('' / '' @ show_dec t @ '')'') e)"
    "CHR ''('' \<notin> set (replace_slash_alpha (''/ '' @ show_dec t @ '')'') e)"
    using replace_first_set [of "'')''" "'' / '' @ show_dec t @ '')''" e] show_dec_no_paren [of t] assms
      replace_slash_alpha_set [of "''/ '' @ show_dec t @ '')''" e] by auto
  moreover have "variables_in (''rgba('' @ show_channel (red c) @ '', '' @ show_channel (green c) @ '', '' @
      show_channel (blue c) @ '', '' @ show_dec t @ '')'') = []" for c :: rgba_color
    by (rule variables_in_rgba) (simp add: show_channel_no_paren show_dec_no_paren)
  ultimately show ?thesis
    using no_paren_no_var [OF assms] by (simp add: rgba_def Let_def no_variables variables_in_skip)
qed

subsection \<open>Well-formed themes\<close>

text \<open>The shades of a palette are hex colors, ten of them; a virtual palette names two that are not.\<close>

definition hex_text :: "string \<Rightarrow> bool" where
  "hex_text s \<longleftrightarrow> (case s of c # r \<Rightarrow> c = CHR ''#'' \<and> CHR ''('' \<notin> set r | [] \<Rightarrow> False)"

definition plain_ok :: "palette \<Rightarrow> bool" where
  "plain_ok p \<longleftrightarrow> virtual_of p = None \<and> length (shades p) = 10 \<and> list_all hex_text (shades p)"

definition names_plain :: "theme \<Rightarrow> string \<Rightarrow> bool" where
  "names_plain e c \<longleftrightarrow> (case map_get (theme_colors e) c of Some p \<Rightarrow> plain_ok p | None \<Rightarrow> False)"

definition palette_ok :: "theme \<Rightarrow> string \<Rightarrow> palette \<Rightarrow> bool" where
  "palette_ok e t p \<longleftrightarrow>
     (case virtual_of p of
        None \<Rightarrow> plain_ok p
      | Some w \<Rightarrow> length (shades p) = 10 \<and> virtual_name w = t \<and> names_plain e (light_name w) \<and> names_plain e (dark_name w))"

definition name_ok :: "string \<Rightarrow> bool" where
  "name_ok s \<longleftrightarrow> s \<notin> {''bright'', ''dimmed'', ''white'', ''black''} \<and>
     list_all (\<lambda>c. c \<notin> {CHR ''('', CHR '')'', CHR ''.'', CHR ''#''}) s"

definition wf_theme :: "theme \<Rightarrow> bool" where
  "wf_theme e \<longleftrightarrow>
     distinct (map_keys (theme_colors e)) \<and> list_all (\<lambda>(t, p). name_ok t \<and> palette_ok e t p) (theme_colors e) \<and>
     {''dark'', ''gray'', ''red'', ''teal''} \<subseteq> set (map_keys (theme_colors e)) \<and> hex_text (white e) \<and> hex_text (black e)"

lemma hex_text_no_paren: "hex_text s \<Longrightarrow> CHR ''('' \<notin> set s"
  by (auto simp: hex_text_def split: list.splits)

lemma wf_palette:
  assumes "wf_theme e" "map_get (theme_colors e) t = Some p"
  shows "name_ok t" "palette_ok e t p" "length (shades p) = 10"
proof -
  have "(t, p) \<in> set (theme_colors e)" using assms(2) by (rule map_of_SomeD)
  with assms(1) show "name_ok t" and ok: "palette_ok e t p" by (auto simp: wf_theme_def list_all_iff)
  from ok show "length (shades p) = 10" by (auto simp: palette_ok_def plain_ok_def split: option.splits)
qed

lemma name_ok_chars:
  "name_ok t \<Longrightarrow> CHR ''('' \<notin> set t" "name_ok t \<Longrightarrow> CHR '')'' \<notin> set t" "name_ok t \<Longrightarrow> CHR ''.'' \<notin> set t"
  by (auto simp: name_ok_def list_all_iff)

text \<open>Small whole numbers as shades.\<close>

lemma int_dec_small: "k \<le> 9 \<Longrightarrow> int_dec (int k) = Dec (int k) 0"
  by (subst norm_dec.simps) auto

lemma whole_small: "k \<le> 9 \<Longrightarrow> whole k = Fin (Dec (int k) 0)"
  by (simp add: int_dec_small)

lemma dec_nat_small: "k \<le> 9 \<Longrightarrow> dec_nat (Dec (int k) 0) = Some k"
  by (simp add: dec_nat_def int_dec_small)

lemma shade_at_small: "k \<le> 9 \<Longrightarrow> length (shades p) = 10 \<Longrightarrow> shade_at p (whole k) = Some (shades p ! k)"
  by (simp add: shade_at_def whole_small dec_nat_small)

lemma show_nat_digit: "k \<le> 9 \<Longrightarrow> show_nat k = [digit k]"
  by (subst show_nat.simps) simp

lemma digit_zero: "digit 0 = CHR ''0''"
  by code_simp

lemma show_small: "k \<le> 9 \<Longrightarrow> show_number (whole k) = show_nat k"
  by (simp add: whole_small show_pos_def Let_def show_nat_digit digit_zero)

lemma small_cases: "k \<le> (9 :: nat) \<Longrightarrow> k \<in> {0, 1, 2, 3, 4, 5, 6, 7, 8, 9}"
  by auto

lemma norm_dec_digit: "0 \<le> m \<Longrightarrow> m \<le> 9 \<Longrightarrow> norm_dec m 0 = Dec m 0"
  by (subst norm_dec.simps) auto

lemma shade_add_small: "k \<le> 9 \<Longrightarrow> 0 \<le> int k + j \<Longrightarrow> int k + j \<le> 9 \<Longrightarrow> shade_add (whole k) j = whole (nat (int k + j))"
proof -
  assume k: "k \<le> 9" "0 \<le> int k + j" "int k + j \<le> 9"
  have "exponent (int_dec j) = 0 \<and> mantissa (int_dec j) = j"
    using k by (subst norm_dec.simps, subst norm_dec.simps) auto
  with k show ?thesis by (simp add: shade_add_def whole_small dec_add_def norm_dec_digit)
qed

lemma hover_shade_small: "k \<le> 9 \<Longrightarrow> hover_shade (whole k) = whole (if k = 9 then 8 else k + 1)"
  using shade_add_small [of k 1] whole_small [of k] whole_small [of 9]
  by (cases "k = 9") (auto simp: hover_shade_def nat_add_distrib)

lemma less_shade_small:
  assumes "k \<le> 9"
  shows "shade_max (shade_add (whole k) (- 4)) 0 = whole (k - 4)"
proof -
  have e: "norm_dec (int k - 4) 0 = Dec (int k - 4) 0" "norm_dec (- 4) 0 = Dec (- 4) 0"
    using assms by (subst norm_dec.simps, auto)+
  then have "shade_add (whole k) (- 4) = Fin (Dec (int k - 4) 0)"
    using assms by (simp add: shade_add_def whole_small dec_add_def)
  then show ?thesis using assms
    by (auto simp: shade_max_def dec_max_def dec_less_def dec_le_def whole_small)
qed

lemma norm_dec_value:
  "0 < m \<Longrightarrow> e \<le> exponent (norm_dec m e) \<and> mantissa (norm_dec m e) * 10 ^ nat (exponent (norm_dec m e) - e) = m"
proof (induction m e rule: norm_dec.induct)
  case (1 m e)
  show ?case
  proof (cases "m mod 10 = 0")
    case True
    with 1(2) have m: "norm_dec m e = norm_dec (m div 10) (e + 1)" by (subst norm_dec.simps) simp
    have "0 < m div 10" using True 1(2) by presburger
    with 1(1) True m 1(2) have IH: "e + 1 \<le> exponent (norm_dec m e)"
      "mantissa (norm_dec m e) * 10 ^ nat (exponent (norm_dec m e) - (e + 1)) = m div 10" by auto
    then have "nat (exponent (norm_dec m e) - e) = Suc (nat (exponent (norm_dec m e) - (e + 1)))" by simp
    with IH True show ?thesis by (auto simp: algebra_simps)
  next
    case False
    with 1 have "norm_dec m e = Dec m e" by (subst norm_dec.simps) auto
    then show ?thesis by simp
  qed
qed

lemma valid_shade_small:
  assumes "valid_shade d"
  obtains k where "k \<le> 9" "d = int_dec (int k)"
proof -
  define n where "n = nat_value (int_digits (show_dec d))"
  have d: "d = int_dec (int n)" and le: "dec_le d (Dec 9 0)"
    using assms by (simp_all add: valid_shade_def n_def dec_less_def)
  have "n \<le> 9"
  proof (cases "n = 0")
    case False
    then have "0 \<le> exponent d" "mantissa d * 10 ^ nat (exponent d) = int n"
      using norm_dec_value [of "int n" 0] d by simp_all
    with le show ?thesis by (simp add: dec_le_def Let_def)
  qed simp
  with d that show thesis by blast
qed

text \<open>What a theme that was accepted is sure to have.\<close>

lemma validated:
  assumes "validate_theme e = Inr e'"
  shows "e' = e" "\<exists>p. map_get (theme_colors e) (primaryColor e) = Some p"
    "\<exists>k\<le>9. get_primary_shade e n = Some (whole k)"
proof -
  have p: "map_get (theme_colors e) (primaryColor e) \<noteq> None"
    using assms by (simp add: validate_theme_def split: if_split_asm)
  then show "\<exists>p. map_get (theme_colors e) (primaryColor e) = Some p" by blast
  show "e' = e" using assms by (auto simp: validate_theme_def split: if_splits primary_shade.splits)
  show "\<exists>k\<le>9. get_primary_shade e n = Some (whole k)"
  proof (cases "primaryShade e")
    case (One_shade d)
    with assms p have "valid_shade d" by (auto simp: validate_theme_def split: if_splits)
    then show ?thesis using One_shade by (auto simp: get_primary_shade_def elim!: valid_shade_small)
  next
    case (Scheme_shades l d)
    with assms p have "valid_shade l" "valid_shade d" by (auto simp: validate_theme_def split: if_splits)
    then show ?thesis using Scheme_shades by (cases n) (auto simp: get_primary_shade_def elim!: valid_shade_small)
  next
    case No_shades
    with assms p show ?thesis by (simp add: validate_theme_def)
  qed
qed

subsection \<open>Reading the colors of a well-formed theme\<close>

lemma parse_palette_name:
  assumes "wf_theme e" "validate_theme e = Inr e'" "map_get (theme_colors e) c = Some p"
  shows "\<exists>a. parse_theme_color c e n = Some a \<and> color_name a = c \<and> color_shade a = None \<and> isThemeColor a"
proof -
  have ok: "c \<notin> {''bright'', ''dimmed'', ''white'', ''black''}" "split_on (CHR ''.'') c = [c]"
    using name_ok_chars(3) [OF wf_palette(1)] wf_palette(1) [OF assms(1,3)] assms
    by (auto simp: name_ok_def intro: split_on_no_sep)
  obtain k where k: "k \<le> 9" "get_primary_shade e (case n of None \<Rightarrow> Light | Some m \<Rightarrow> m) = Some (whole k)"
    using validated(3) [OF assms(2)] by blast
  show ?thesis
    using ok k assms(3) shade_at_small [OF k(1) wf_palette(3) [OF assms(1,3)]]
    by (simp add: parse_theme_color_def Let_def)
qed

lemma split_on_hd: "split_on d (c # s) = x \<Longrightarrow> c \<noteq> d \<Longrightarrow> \<exists>r. hd x = c # r"
  by (cases "split_on d s") auto

lemma parse_hex_text:
  assumes "wf_theme e" "hex_text s"
  shows "\<exists>a. parse_theme_color s e n = Some a"
proof -
  from assms(2) obtain r where s: "s = CHR ''#'' # r" by (auto simp: hex_text_def split: list.splits)
  have "map_get (theme_colors e) (hd (split_on (CHR ''.'') s)) = None"
  proof (rule ccontr)
    assume "map_get (theme_colors e) (hd (split_on (CHR ''.'') s)) \<noteq> None"
    then obtain p where "map_get (theme_colors e) (hd (split_on (CHR ''.'') s)) = Some p" by blast
    from wf_palette(1) [OF assms(1) this] have "CHR ''#'' \<notin> set (hd (split_on (CHR ''.'') s))"
      by (auto simp: name_ok_def list_all_iff)
    moreover obtain q where "hd (split_on (CHR ''.'') s) = CHR ''#'' # q"
      using split_on_hd [OF refl, of "CHR ''#''" "CHR ''.''" r] s by auto
    ultimately show False by simp
  qed
  then show ?thesis unfolding s by (simp add: parse_theme_color_def Let_def)
qed

subsection \<open>The style sheet refers to its own variables\<close>

definition refs_in :: "text_map \<Rightarrow> string set" where
  "refs_in m = (\<Union>(k, v)\<in>set m. set (variables_in v))"

definition defined_vars :: "css_variables \<Rightarrow> text_map \<Rightarrow> string set" where
  "defined_vars r m = set (map_keys (plain_vars r)) \<union> set (map_keys m)"

lemma refs_in_simps [simp]:
  "refs_in [] = {}" "refs_in ((k, v) # m) = set (variables_in v) \<union> refs_in m"
  by (auto simp: refs_in_def)

lemma refs_in_set: "refs_in (map_set k v m) \<subseteq> set (variables_in v) \<union> refs_in m"
  unfolding refs_in_def using set_update_subset [of k v m] by fastforce

lemma refs_in_spread: "refs_in (spread a b) \<subseteq> refs_in a \<union> refs_in b"
proof (induction b arbitrary: a)
  case (Cons x b)
  obtain k v where x: "x = (k, v)" by (cases x)
  have "spread a (x # b) = spread (map_set k v a) b" by (simp add: spread_def x)
  with Cons [of "map_set k v a"] refs_in_set [of k v a] show ?case by (auto simp: x)
qed (simp add: spread_def)

lemma keys_map_set: "fst ` set (map_set k v m) = insert k (fst ` set m)"
  using arg_cong [OF update_keys [of k v m], of set] by auto

lemma fold_set_keys: "set (map_keys (fold (\<lambda>k. map_set (f k) (g k)) ks m)) = set (map_keys m) \<union> f ` set ks"
  by (induction ks arbitrary: m) (simp_all add: keys_map_set)

definition variant_suffixes :: "string list" where
  "variant_suffixes =
     [''-text'', ''-filled'', ''-filled-hover'', ''-light'', ''-light-hover'', ''-light-color'', ''-outline'', ''-outline-hover'']"

definition shade_suffixes :: "string list" where
  "shade_suffixes = map (\<lambda>k. ''-'' @ show_nat k) [0..<10]"

text \<open>The variables of a palette \<open>t\<close>.\<close>

definition own_vars :: "string \<Rightarrow> string set" where
  "own_vars t = (\<lambda>x. color_text (t @ x)) ` set (shade_suffixes @ variant_suffixes)"

lemma own_variant: "x \<in> set variant_suffixes \<Longrightarrow> color_text (t @ x) \<in> own_vars t"
  by (simp add: own_vars_def)

lemma own_shade: "k \<le> 9 \<Longrightarrow> color_text (t @ ''-'' @ show_nat k) \<in> own_vars t"
  by (auto simp: own_vars_def shade_suffixes_def)

lemma digit_texts: "map (\<lambda>k. ''-'' @ show_nat k) [0..<10] =
    [''-0'', ''-1'', ''-2'', ''-3'', ''-4'', ''-5'', ''-6'', ''-7'', ''-8'', ''-9'']"
  by code_simp

lemma own_digit: "x \<in> {''-0'', ''-1'', ''-2'', ''-3'', ''-4'', ''-5'', ''-6'', ''-7'', ''-8'', ''-9''} \<Longrightarrow>
    color_text (t @ x) \<in> own_vars t"
  unfolding own_vars_def shade_suffixes_def digit_texts by auto

text \<open>A reference to a variable of a palette.\<close>

lemma own_ref:
  assumes "name_ok t" "x \<in> set variant_suffixes \<union> {''-0'', ''-1'', ''-2'', ''-3'', ''-4'', ''-5'', ''-6'', ''-7'', ''-8'', ''-9''}"
  shows "set (variables_in (color_var (t @ x))) \<subseteq> own_vars t"
proof -
  have "CHR ''('' \<notin> set (t @ x)" "CHR '')'' \<notin> set (t @ x)"
    using assms name_ok_chars [of t] by (auto simp: variant_suffixes_def)
  with assms(2) own_variant own_digit show ?thesis by (auto simp: variables_in_color_var)
qed

lemma own_shade_ref:
  assumes "name_ok t" "k \<le> 9"
  shows "set (variables_in (shade_var t (whole k))) \<subseteq> own_vars t"
proof -
  have "CHR ''('' \<notin> set (t @ ''-'' @ show_nat k)" "CHR '')'' \<notin> set (t @ ''-'' @ show_nat k)"
    using name_ok_chars [OF assms(1)] show_nat_no_paren by auto
  then show ?thesis
    unfolding shade_var_def show_small [OF assms(2)]
    using own_shade [OF assms(2), of t] variables_in_color_var [of "t @ ''-'' @ show_nat k"] by simp
qed

lemma keys_variants:
  "set (map_keys (map (\<lambda>(x, v). (color_text (r @ x), v)) (zip variant_suffixes vs))) =
     (\<lambda>x. color_text (r @ x)) ` set variant_suffixes" if "length vs = 8"
proof -
  have "map_keys (map (\<lambda>(x, v). (color_text (r @ x), v)) (zip variant_suffixes vs)) =
      map (\<lambda>x. color_text (r @ x)) (map fst (zip variant_suffixes vs))"
    by (simp add: case_prod_beta comp_def)
  also have "map fst (zip variant_suffixes vs) = variant_suffixes"
    using that by (simp add: variant_suffixes_def)
  finally show ?thesis by (simp only: set_map)
qed

lemma color_variables_closed:
  assumes "validate_theme e = Inr e'" "map_get (theme_colors e) c = Some p" "plain_ok p" "name_ok r"
  shows "\<exists>s. color_variables e c n r i = Some s \<and> refs_in s \<subseteq> own_vars r \<and>
    set (map_keys s) = (\<lambda>x. color_text (r @ x)) ` set (variant_suffixes @ (if i then shade_suffixes else []))"
proof -
  obtain k where k: "k \<le> 9" "get_primary_shade e n = Some (whole k)" using validated(3) [OF assms(1)] by blast
  have ten: "length (shades p) = 10" and hex: "\<And>j. j \<le> 9 \<Longrightarrow> CHR ''('' \<notin> set (shades p ! j)"
    using assms(3) hex_text_no_paren by (simp_all add: plain_ok_def list_all_length)
  have at: "shade_at p (whole j) = Some (shades p ! j)" if "j \<le> 9" for j
    using that ten by (rule shade_at_small)
  have no: "variables_in (darken (shades p ! j) t) = []" "variables_in (rgba (shades p ! j) t) = []" if "j \<le> 9" for j t
    using hex [OF that] by (simp_all add: variables_in_darken variables_in_rgba_color)
  have hover: "hover_shade (whole k) = whole (if k = 9 then 8 else k + 1)" "(if k = 9 then 8 else k + 1) \<le> 9"
    using k(1) hover_shade_small by auto
  have less: "shade_max (shade_add (whole k) (- 4)) 0 = whole (k - 4)" "k - 4 \<le> 9"
    using k(1) less_shade_small by auto
  note refs = own_ref [OF assms(4)] own_shade_ref [OF assms(4)]
  define vs where "vs =
    (if n = Light
     then [color_var (r @ ''-filled''), shade_var r (whole k), shade_var r (hover_shade (whole k)), color_var (r @ ''-1''),
           color_var (r @ ''-2''), color_var (r @ ''-9''), shade_var r (whole k), rgba (shades p ! k) (Dec 5 (- 2))]
     else [color_var (r @ ''-4''), shade_var r (whole k), shade_var r (hover_shade (whole k)),
           darken (shades p ! 9) (Dec 5 (- 1)), darken (shades p ! 9) (Dec 3 (- 1)), color_var (r @ ''-0''),
           shade_var r (whole (k - 4)), rgba (shades p ! (k - 4)) (Dec 5 (- 2))])"
  define s where "s = map (\<lambda>(x, v). (color_text (r @ x), v)) (zip variant_suffixes vs)"
  have eq: "color_variables e c n r i = Some (if i then spread (shade_values r (shades p)) s else s)"
    using k less at [OF k(1)] at [OF less(2)] at [of 9] ten assms(2)
    by (cases n) (simp_all add: color_variables_def s_def vs_def variant_suffixes_def Let_def)
  have len: "length vs = 8" by (simp add: vs_def)
  have vals: "\<forall>v\<in>set vs. set (variables_in v) \<subseteq> own_vars r"
    unfolding vs_def hover(1)
    using refs(1) refs(2) [OF k(1)] refs(2) [OF hover(2)] refs(2) [OF less(2)] no [OF k(1)] no [OF less(2)] no [of 9]
    by (cases n) (simp_all add: variant_suffixes_def)
  have "set (map snd s) \<subseteq> set vs" unfolding s_def by (auto dest: set_zip_rightD)
  with vals have refs_s: "refs_in s \<subseteq> own_vars r" unfolding refs_in_def by fastforce
  have keys_s: "set (map_keys s) = (\<lambda>x. color_text (r @ x)) ` set variant_suffixes"
    unfolding s_def by (rule keys_variants [OF len])
  have refs_v: "refs_in (shade_values r (shades p)) = {}"
    using hex by (auto simp: refs_in_def shade_values_def no_variables)
  have keys_v: "set (map_keys (shade_values r (shades p))) = (\<lambda>x. color_text (r @ x)) ` set shade_suffixes"
    by (auto simp: shade_values_def shade_suffixes_def image_image)
  have "refs_in (spread (shade_values r (shades p)) s) \<subseteq> own_vars r"
    using refs_in_spread [of "shade_values r (shades p)" s] refs_v refs_s by blast
  moreover have "set (map_keys (spread (shade_values r (shades p)) s)) =
      (\<lambda>x. color_text (r @ x)) ` set (variant_suffixes @ shade_suffixes)"
    unfolding spread_keys keys_s keys_v by auto
  ultimately show ?thesis unfolding eq using refs_s keys_s by (cases i) simp_all
qed

definition grows :: "css_variables \<Rightarrow> css_variables \<Rightarrow> bool" where
  "grows r r' \<longleftrightarrow>
     set (map_keys (plain_vars r)) \<subseteq> set (map_keys (plain_vars r')) \<and>
     set (map_keys (light_vars r)) \<subseteq> set (map_keys (light_vars r')) \<and>
     set (map_keys (dark_vars r)) \<subseteq> set (map_keys (dark_vars r'))"

text \<open>The variables of a palette \<open>t\<close>, with the text color of a virtual one.\<close>

definition palette_vars :: "theme \<Rightarrow> string \<Rightarrow> string set" where
  "palette_vars e t = own_vars t \<union>
     (case map_get (theme_colors e) t of
        Some p \<Rightarrow> if is_virtual_color p then {color_text (t @ ''-contrast'')} else {} | None \<Rightarrow> {})"

definition palette_done :: "theme \<Rightarrow> css_variables \<Rightarrow> string \<Rightarrow> bool" where
  "palette_done e r t \<longleftrightarrow>
     palette_vars e t \<subseteq> defined_vars r (light_vars r) \<and> palette_vars e t \<subseteq> defined_vars r (dark_vars r)"

definition base_vars :: "string set" where
  "base_vars = {color_text ''white'', color_text ''black''}"

text \<open>What adding palettes leaves: more variables, and new references only to those of palettes \<open>T\<close>.\<close>

definition extends :: "css_variables \<Rightarrow> string set \<Rightarrow> css_variables \<Rightarrow> bool" where
  "extends r T r' \<longleftrightarrow> grows r r' \<and>
     refs_in (light_vars r') \<subseteq> refs_in (light_vars r) \<union> (\<Union>t\<in>T. own_vars t) \<union> base_vars \<and>
     refs_in (dark_vars r') \<subseteq> refs_in (dark_vars r) \<union> (\<Union>t\<in>T. own_vars t) \<union> base_vars"

lemma extends_update:
  "extends r T (r\<lparr>plain_vars := p, light_vars := l, dark_vars := d\<rparr>) \<longleftrightarrow>
     set (map_keys (plain_vars r)) \<subseteq> set (map_keys p) \<and> set (map_keys (light_vars r)) \<subseteq> set (map_keys l) \<and>
     set (map_keys (dark_vars r)) \<subseteq> set (map_keys d) \<and>
     refs_in l \<subseteq> refs_in (light_vars r) \<union> (\<Union>t\<in>T. own_vars t) \<union> base_vars \<and>
     refs_in d \<subseteq> refs_in (dark_vars r) \<union> (\<Union>t\<in>T. own_vars t) \<union> base_vars"
  by (simp add: extends_def grows_def)

lemma palette_done_update:
  "palette_done e (r\<lparr>plain_vars := p, light_vars := l, dark_vars := d\<rparr>) t \<longleftrightarrow>
     palette_vars e t \<subseteq> set (map_keys p) \<union> set (map_keys l) \<and> palette_vars e t \<subseteq> set (map_keys p) \<union> set (map_keys d)"
  by (simp add: palette_done_def defined_vars_def)

lemma extends_refl: "extends r {} r"
  by (auto simp: extends_def grows_def)

lemma extends_trans: "extends r T r' \<Longrightarrow> extends r' U r'' \<Longrightarrow> extends r (T \<union> U) r''"
  unfolding extends_def grows_def by blast

lemma palette_done_grows: "palette_done e r t \<Longrightarrow> grows r r' \<Longrightarrow> palette_done e r' t"
  unfolding palette_done_def grows_def defined_vars_def by blast

lemma contrast_of_name:
  assumes "wf_theme e" "validate_theme e = Inr e'" "map_get (theme_colors e) c = Some p"
  shows "\<exists>v\<in>{color_var ''black'', color_var ''white''}. get_contrast_color (Some c) e (Some True) n = Some v"
proof -
  obtain q where "map_get (theme_colors e) (primaryColor e) = Some q" using validated(2) [OF assms(2)] by blast
  then have "\<exists>a. parse_theme_color (if c = [] then primaryColor e else c) e n = Some a"
    using parse_palette_name [OF assms(1,2), of "if c = [] then primaryColor e else c"] assms(3)
    by (cases "c = []") fastforce+
  then obtain a where "parse_theme_color (if c = [] then primaryColor e else c) e n = Some a" by blast
  then show ?thesis
    by (cases "c = []"; cases "isLight a") (simp_all add: get_contrast_color_def or_default_def)
qed

lemma base_refs: "v \<in> {color_var ''black'', color_var ''white''} \<Longrightarrow> set (variables_in v) \<subseteq> base_vars"
  by (auto simp: base_vars_def variables_in_color_var)

lemma own_vars_eq: "own_vars t = (\<lambda>x. color_text (t @ x)) ` set (variant_suffixes @ shade_suffixes)"
  unfolding own_vars_def by (simp add: Un_commute)

lemma color_variables_all:
  assumes "validate_theme e = Inr e'" "map_get (theme_colors e) c = Some p" "plain_ok p" "name_ok r"
  shows "\<exists>s. color_variables e c n r True = Some s \<and> refs_in s \<subseteq> own_vars r \<and> own_vars r = set (map_keys s)"
  using color_variables_closed [OF assms, of n True] unfolding own_vars_eq if_True by metis

lemma add_virtual_palette:
  assumes "wf_theme e" "validate_theme e = Inr e'" "map_get (theme_colors e) t = Some p" "virtual_of p = Some w"
  shows "\<exists>r'. add_palette e (t, p) r = Some r' \<and> extends r {t} r' \<and> palette_done e r' t"
proof -
  have ok: "name_ok t" "virtual_name w = t" "names_plain e (light_name w)" "names_plain e (dark_name w)"
    using wf_palette(1,2) [OF assms(1,3)] assms(4) by (simp_all add: palette_ok_def)
  from ok(3) obtain pl where pl: "map_get (theme_colors e) (light_name w) = Some pl" "plain_ok pl"
    by (auto simp: names_plain_def split: option.splits)
  from ok(4) obtain pd where pd: "map_get (theme_colors e) (dark_name w) = Some pd" "plain_ok pd"
    by (auto simp: names_plain_def split: option.splits)
  from color_variables_all [OF assms(2) pl ok(1), of Light] obtain a where
    a: "color_variables e (light_name w) Light t True = Some a" "refs_in a \<subseteq> own_vars t" "own_vars t = set (map_keys a)" by blast
  from color_variables_all [OF assms(2) pd ok(1), of Dark] obtain b where
    b: "color_variables e (dark_name w) Dark t True = Some b" "refs_in b \<subseteq> own_vars t" "own_vars t = set (map_keys b)" by blast
  from contrast_of_name [OF assms(1,2) pl(1), of "Some Light"] obtain ca where
    ca: "virtual_contrast w e Light = Some ca" "set (variables_in ca) \<subseteq> base_vars"
    using base_refs by (auto simp: virtual_contrast_def)
  from contrast_of_name [OF assms(1,2) pd(1), of "Some Dark"] obtain cb where
    cb: "virtual_contrast w e Dark = Some cb" "set (variables_in cb) \<subseteq> base_vars"
    using base_refs by (auto simp: virtual_contrast_def)
  let ?k = "color_text (t @ ''-contrast'')"
  let ?r = "r\<lparr>light_vars := map_set ?k ca (spread (light_vars r) a), dark_vars := map_set ?k cb (spread (dark_vars r) b)\<rparr>"
  have "add_palette e (t, p) r = Some ?r"
    using assms(4) a(1) b(1) ca(1) cb(1) ok(2) by (simp add: add_palette_def Let_def)
  moreover have "extends r {t} ?r"
  proof -
    have "refs_in (map_set ?k ca (spread (light_vars r) a)) \<subseteq> refs_in (light_vars r) \<union> own_vars t \<union> base_vars"
      using refs_in_set [of ?k ca "spread (light_vars r) a"] refs_in_spread [of "light_vars r" a] a(2) ca(2) by blast
    moreover have "refs_in (map_set ?k cb (spread (dark_vars r) b)) \<subseteq> refs_in (dark_vars r) \<union> own_vars t \<union> base_vars"
      using refs_in_set [of ?k cb "spread (dark_vars r) b"] refs_in_spread [of "dark_vars r" b] b(2) cb(2) by blast
    ultimately show ?thesis
      using spread_keys [of "light_vars r" a] spread_keys [of "dark_vars r" b]
      by (simp add: extends_def grows_def keys_map_set) blast
  qed
  moreover have "palette_done e ?r t"
    using assms(3,4) spread_keys [of "light_vars r" a] spread_keys [of "dark_vars r" b] a(3) b(3)
    by (auto simp: palette_done_def palette_vars_def is_virtual_color_def defined_vars_def keys_map_set)
  ultimately show ?thesis by blast
qed

lemma add_plain_palette:
  assumes "validate_theme e = Inr e'" "map_get (theme_colors e) t = Some p" "plain_ok p" "name_ok t"
  shows "\<exists>r'. add_palette e (t, p) r = Some r' \<and> extends r {t} r' \<and> palette_done e r' t"
proof -
  have p: "virtual_of p = None" "length (shades p) = 10" using assms(3) by (simp_all add: plain_ok_def)
  from color_variables_closed [OF assms, of Light False] obtain a where
    a: "color_variables e t Light t False = Some a" "refs_in a \<subseteq> own_vars t"
      "set (map_keys a) = (\<lambda>x. color_text (t @ x)) ` set variant_suffixes" by auto
  from color_variables_closed [OF assms, of Dark False] obtain b where
    b: "color_variables e t Dark t False = Some b" "refs_in b \<subseteq> own_vars t"
      "set (map_keys b) = (\<lambda>x. color_text (t @ x)) ` set variant_suffixes" by auto
  let ?p = "fold (\<lambda>k. map_set (color_text (t @ ''-'' @ show_nat k)) (shades p ! k)) [0..<10] (plain_vars r)"
  have keys: "set (map_keys ?p) = set (map_keys (plain_vars r)) \<union> (\<lambda>x. color_text (t @ x)) ` set shade_suffixes"
    unfolding fold_set_keys by (auto simp: shade_suffixes_def)
  let ?r = "r\<lparr>plain_vars := ?p, light_vars := spread (light_vars r) a, dark_vars := spread (dark_vars r) b\<rparr>"
  have "add_palette e (t, p) r = Some ?r"
    using p a(1) b(1) by (simp add: add_palette_def)
  moreover have "extends r {t} ?r"
    unfolding extends_update
    using keys refs_in_spread [of "light_vars r" a] a(2) refs_in_spread [of "dark_vars r" b] b(2)
      spread_keys [of "light_vars r" a] spread_keys [of "dark_vars r" b] by blast
  moreover have "palette_done e ?r t"
  proof -
    have "palette_vars e t = (\<lambda>x. color_text (t @ x)) ` set shade_suffixes \<union> (\<lambda>x. color_text (t @ x)) ` set variant_suffixes"
      using assms(2) p(1) by (auto simp: palette_vars_def own_vars_def is_virtual_color_def)
    then show ?thesis
      unfolding palette_done_update spread_keys keys a(3) b(3) by blast
  qed
  ultimately show ?thesis by blast
qed

lemma add_palette_closed:
  assumes "wf_theme e" "validate_theme e = Inr e'" "map_get (theme_colors e) t = Some p"
  shows "\<exists>r'. add_palette e (t, p) r = Some r' \<and> extends r {t} r' \<and> palette_done e r' t"
proof (cases "virtual_of p")
  case None
  then have "plain_ok p" using wf_palette(2) [OF assms(1,3)] by (simp add: palette_ok_def)
  with assms wf_palette(1) [OF assms(1,3)] show ?thesis by (intro add_plain_palette)
qed (use assms add_virtual_palette in blast)

lemma add_palettes_closed:
  assumes "wf_theme e" "validate_theme e = Inr e'" "set ps \<subseteq> set (theme_colors e)"
  shows "\<exists>r'. add_palettes e ps r = Some r' \<and> extends r (fst ` set ps) r' \<and> (\<forall>t\<in>fst ` set ps. palette_done e r' t)"
  using assms(3)
proof (induction ps arbitrary: r)
  case Nil
  then show ?case by (simp add: extends_refl)
next
  case (Cons x ps)
  obtain t p where x: "x = (t, p)" by (cases x)
  with Cons.prems assms(1) have "map_get (theme_colors e) t = Some p" by (auto simp: wf_theme_def)
  from add_palette_closed [OF assms(1,2) this, of r] obtain r1 where
    r1: "add_palette e (t, p) r = Some r1" "extends r {t} r1" "palette_done e r1 t" by blast
  from Cons.IH [of r1] Cons.prems obtain r' where
    r': "add_palettes e ps r1 = Some r'" "extends r1 (fst ` set ps) r'" "\<forall>t\<in>fst ` set ps. palette_done e r' t" by auto
  have "palette_done e r' t" using r1(3) r'(2) by (auto simp: extends_def intro: palette_done_grows)
  with r1 r' extends_trans [OF r1(2) r'(2)] show ?case by (auto simp: x)
qed

text \<open>The text color on the primary color is black or white.\<close>

lemma primary_contrast_text:
  assumes "wf_theme e" "validate_theme e = Inr e'"
  shows "\<exists>c\<in>{color_var ''black'', color_var ''white''}. primary_contrast e n = Some c"
proof -
  obtain p where p: "map_get (theme_colors e) (primaryColor e) = Some p" using validated(2) [OF assms(2)] by blast
  note ok = wf_palette(2) [OF assms(1) p]
  show ?thesis
  proof (cases "virtual_of p")
    case None
    with ok have plain: "plain_ok p" by (simp add: palette_ok_def)
    obtain k where k: "k \<le> 9" "get_primary_shade e n = Some (whole k)" using validated(3) [OF assms(2)] by blast
    with plain have s: "shade_at p (whole k) = Some (shades p ! k)" "hex_text (shades p ! k)"
      by (simp_all add: shade_at_small plain_ok_def list_all_length)
    then obtain a where "parse_theme_color (shades p ! k) e None = Some a" using parse_hex_text [OF assms(1)] by blast
    moreover have "shades p ! k \<noteq> []" using s(2) by (auto simp: hex_text_def)
    ultimately show ?thesis using None p k s
      by (cases "isLight a") (simp_all add: primary_contrast_def get_contrast_color_def or_default_def)
  next
    case (Some w)
    with ok have "names_plain e (light_name w)" "names_plain e (dark_name w)" by (simp_all add: palette_ok_def)
    then obtain q where "map_get (theme_colors e) (if n = Dark then dark_name w else light_name w) = Some q"
      by (cases "n = Dark") (auto simp: names_plain_def split: option.splits)
    from contrast_of_name [OF assms this, of "Some n"] Some p show ?thesis
      by (auto simp: primary_contrast_def virtual_contrast_def)
  qed
qed

text \<open>What the first variables refer to.\<close>

definition first_refs :: "theme \<Rightarrow> string set" where
  "first_refs e = own_vars ''red'' \<union> own_vars ''teal'' \<union> own_vars ''gray'' \<union> own_vars ''dark'' \<union> own_vars (primaryColor e) \<union> base_vars"

lemma fixed_name_ok: "name_ok ''red''" "name_ok ''teal''" "name_ok ''gray''" "name_ok ''dark''"
  by (simp_all add: name_ok_def)

lemma hex_text_no_variables: "hex_text s \<Longrightarrow> variables_in s = []"
  by (simp add: hex_text_no_paren no_variables)

lemmas fixed_refs =
  own_ref [OF fixed_name_ok(1), of "''-6''", simplified] own_ref [OF fixed_name_ok(1), of "''-8''", simplified]
  own_ref [OF fixed_name_ok(2), of "''-8''", simplified] own_ref [OF fixed_name_ok(3), of "''-0''", simplified]
  own_ref [OF fixed_name_ok(3), of "''-2''", simplified] own_ref [OF fixed_name_ok(3), of "''-3''", simplified]
  own_ref [OF fixed_name_ok(3), of "''-4''", simplified] own_ref [OF fixed_name_ok(3), of "''-5''", simplified]
  own_ref [OF fixed_name_ok(3), of "''-6''", simplified] own_ref [OF fixed_name_ok(4), of "''-0''", simplified]
  own_ref [OF fixed_name_ok(4), of "''-2''", simplified] own_ref [OF fixed_name_ok(4), of "''-3''", simplified]
  own_ref [OF fixed_name_ok(4), of "''-4''", simplified] own_ref [OF fixed_name_ok(4), of "''-5''", simplified]
  own_ref [OF fixed_name_ok(4), of "''-6''", simplified] own_ref [OF fixed_name_ok(4), of "''-7''", simplified]

lemma first_refs_closed:
  assumes "hex_text (white e)" "hex_text (black e)" "name_ok (primaryColor e)" "k \<le> 9"
    "c \<in> {color_var ''black'', color_var ''white''}"
  shows "refs_in (first_light e (whole k) c) \<subseteq> first_refs e" "refs_in (first_dark e c) \<subseteq> first_refs e"
proof -
  have base: "set (variables_in (color_var ''black'')) \<subseteq> base_vars" "set (variables_in (color_var ''white'')) \<subseteq> base_vars"
    "set (variables_in c) \<subseteq> base_vars" using base_refs assms(5) by auto
  have lit: "variables_in ''light'' = []" "variables_in ''dark'' = []" by (simp_all add: no_variables)
  have l: "set (map snd (first_light e (whole k) c)) =
      {''light'', c, color_var ''black'', black e, white e, color_var ''red-6'', color_var ''teal-8'', color_var ''gray-5'',
       shade_var (primaryColor e) (whole k), color_var ''white'', color_var ''gray-0'', color_var ''gray-4'',
       color_var ''gray-6'', color_var ''gray-2'', color_var ''gray-3''}"
    unfolding first_light_def by auto
  have d: "set (map snd (first_dark e c)) =
      {''dark'', c, color_var ''white'', color_var ''dark-0'', color_var ''dark-7'', color_var ''red-8'',
       color_var ''teal-8'', color_var ''dark-3'', color_var (primaryColor e @ ''-4''), color_var ''dark-6'',
       color_var ''dark-5'', color_var ''dark-4'', color_var ''dark-2''}"
    unfolding first_dark_def by auto
  have "\<forall>v\<in>set (map snd (first_light e (whole k) c)). set (variables_in v) \<subseteq> first_refs e"
    unfolding l ball_simps first_refs_def
    using base fixed_refs own_shade_ref [OF assms(3,4)] hex_text_no_variables [OF assms(1)] hex_text_no_variables [OF assms(2)]
    by (simp add: lit le_supI1 le_supI2)
  then show "refs_in (first_light e (whole k) c) \<subseteq> first_refs e" unfolding refs_in_def by fastforce
  have "\<forall>v\<in>set (map snd (first_dark e c)). set (variables_in v) \<subseteq> first_refs e"
    unfolding d ball_simps first_refs_def
    using base fixed_refs own_ref [OF assms(3), of "''-4''"] by (simp add: lit le_supI1 le_supI2)
  then show "refs_in (first_dark e c) \<subseteq> first_refs e" unfolding refs_in_def by fastforce
qed

lemma extends_refs:
  assumes "extends r T r'" "X = (\<Union>t\<in>T. own_vars t) \<union> base_vars"
  shows "refs_in (light_vars r) \<subseteq> X \<Longrightarrow> refs_in (light_vars r') \<subseteq> X"
    "refs_in (dark_vars r) \<subseteq> X \<Longrightarrow> refs_in (dark_vars r') \<subseteq> X"
  using assms unfolding extends_def by blast+

lemma first_refs_own:
  assumes "{''dark'', ''gray'', ''red'', ''teal'', primaryColor e} \<subseteq> N"
  shows "first_refs e \<subseteq> (\<Union>t\<in>N. own_vars t) \<union> base_vars"
  using assms UN_upper [of _ N own_vars] unfolding first_refs_def by (simp add: le_supI1)

text \<open>The variables every sheet begins with.\<close>

lemma size_variables_keys: "set (map_keys v) \<subseteq> set (map_keys (size_variables e v))"
  unfolding size_variables_def assign_variables_def by (simp add: spread_keys [simplified]) blast

definition fixed_keys :: "string set" where
  "fixed_keys = {color_text ''default'', color_text ''default-hover'', color_text ''default-color'', color_text ''default-border''}"

lemma first_keys:
  "insert ''--mantine-scale'' base_vars \<subseteq> set (map_keys (first_variables e))"
  "fixed_keys \<subseteq> set (map_keys (first_light e t c))" "fixed_keys \<subseteq> set (map_keys (first_dark e c))"
  by (simp_all add: first_variables_def first_light_def first_dark_def Let_def base_vars_def fixed_keys_def color_text_def)

lemma sheet_of_theme:
  assumes "wf_theme e" "validate_theme e = Inr e'"
  shows "\<exists>r. default_variables e = Some r \<and>
    (\<forall>t\<in>fst ` set (theme_colors e). palette_done e r t) \<and>
    insert ''--mantine-scale'' base_vars \<subseteq> set (map_keys (plain_vars r)) \<and>
    fixed_keys \<subseteq> set (map_keys (light_vars r)) \<and> fixed_keys \<subseteq> set (map_keys (dark_vars r)) \<and>
    refs_in (light_vars r) \<subseteq> defined_vars r (light_vars r) \<and> refs_in (dark_vars r) \<subseteq> defined_vars r (dark_vars r)"
proof -
  obtain k where k: "k \<le> 9" "get_primary_shade e Light = Some (whole k)" using validated(3) [OF assms(2)] by blast
  obtain cl where cl: "primary_contrast e Light = Some cl" "cl \<in> {color_var ''black'', color_var ''white''}"
    using primary_contrast_text [OF assms] by blast
  obtain cd where cd: "primary_contrast e Dark = Some cd" "cd \<in> {color_var ''black'', color_var ''white''}"
    using primary_contrast_text [OF assms] by blast
  obtain p where p: "map_get (theme_colors e) (primaryColor e) = Some p" using validated(2) [OF assms(2)] by blast
  let ?v = "fold (\<lambda>n. map_set (''--mantine-primary-color-'' @ show_nat n) (color_var (primaryColor e @ ''-'' @ show_nat n)))
      [0..<length (shades p)] (size_variables e (first_variables e))"
  let ?r = "\<lparr>plain_vars = ?v, light_vars = first_light e (whole k) cl, dark_vars = first_dark e cd\<rparr>"
  from add_palettes_closed [OF assms order_refl, of ?r] obtain r where
    r: "add_palettes e (theme_colors e) ?r = Some r" "extends ?r (fst ` set (theme_colors e)) r"
      "\<forall>t\<in>fst ` set (theme_colors e). palette_done e r t" by blast
  let ?s = "r\<lparr>plain_vars := spread (plain_vars r) (heading_variables e)\<rparr>"
  have sheet: "default_variables e = Some ?s"
    using k cl cd p r(1) by (simp add: default_variables_def Let_def)
  have grow: "grows r ?s" using spread_keys [of "plain_vars r" "heading_variables e"] by (simp add: grows_def)
  have done': "\<forall>t\<in>fst ` set (theme_colors e). palette_done e ?s t" using r(3) grow palette_done_grows by blast
  have "set (map_keys (first_variables e)) \<subseteq> set (map_keys ?v)"
    unfolding fold_set_keys using size_variables_keys [of "first_variables e" e] by blast
  moreover have "set (map_keys ?v) \<subseteq> set (map_keys (plain_vars ?s))"
    using r(2) grow unfolding extends_def grows_def css_variables.simps by blast
  ultimately have plain: "insert ''--mantine-scale'' base_vars \<subseteq> set (map_keys (plain_vars ?s))"
    using first_keys(1) [of e] by blast
  have fixed: "fixed_keys \<subseteq> set (map_keys (light_vars ?s))" "fixed_keys \<subseteq> set (map_keys (dark_vars ?s))"
    using r(2) grow first_keys(2) [of e "whole k" cl] first_keys(3) [of e cd]
    unfolding extends_def grows_def css_variables.simps by blast+
  have names: "{''dark'', ''gray'', ''red'', ''teal'', primaryColor e} \<subseteq> fst ` set (theme_colors e)"
    using assms(1) map_of_SomeD [OF p] by (auto simp: wf_theme_def) force
  have own: "(\<Union>t\<in>fst ` set (theme_colors e). own_vars t) \<union> base_vars \<subseteq> defined_vars ?s m"
    if "m = light_vars ?s \<or> m = dark_vars ?s" for m
  proof -
    have "own_vars t \<subseteq> defined_vars ?s m" if "t \<in> fst ` set (theme_colors e)" for t
      using done' that \<open>m = light_vars ?s \<or> m = dark_vars ?s\<close> unfolding palette_done_def palette_vars_def by blast
    moreover have "base_vars \<subseteq> defined_vars ?s m" using plain unfolding defined_vars_def by blast
    ultimately show ?thesis by blast
  qed
  have first: "refs_in (light_vars ?r) \<subseteq> first_refs e" "refs_in (dark_vars ?r) \<subseteq> first_refs e"
    using first_refs_closed [OF _ _ wf_palette(1) [OF assms(1) p] k(1)] cl(2) cd(2) assms(1) by (simp_all add: wf_theme_def)
  have sub: "first_refs e \<subseteq> (\<Union>t\<in>fst ` set (theme_colors e). own_vars t) \<union> base_vars"
    using names by (rule first_refs_own)
  have refs: "refs_in (light_vars r) \<subseteq> (\<Union>t\<in>fst ` set (theme_colors e). own_vars t) \<union> base_vars"
    "refs_in (dark_vars r) \<subseteq> (\<Union>t\<in>fst ` set (theme_colors e). own_vars t) \<union> base_vars"
    by (rule extends_refs [OF r(2) refl]; rule order_trans [OF _ sub], rule first)+
  have "refs_in (light_vars ?s) \<subseteq> defined_vars ?s (light_vars ?s)" "refs_in (dark_vars ?s) \<subseteq> defined_vars ?s (dark_vars ?s)"
    using order_trans [OF refs(1) own [of "light_vars ?s"]] order_trans [OF refs(2) own [of "dark_vars ?s"]] by simp_all
  with sheet done' plain fixed show ?thesis by blast
qed

subsection \<open>Properties\<close>


text \<open>The variants of a component in a color of the theme, and its text.\<close>

definition named_variants :: "string set" where
  "named_variants = {''filled'', ''light'', ''outline'', ''subtle'', ''transparent'', ''default''}"

lemma no_border_refs:
  "variables_in no_border = [''--mantine-scale'']"
  "CHR ''('' \<notin> set x \<Longrightarrow> CHR '')'' \<notin> set x \<Longrightarrow> variables_in (solid (color_var x)) = [''--mantine-scale'', color_text x]"
proof -
  have r: "rem_int 1 = ''calc(0.0625rem '' @ ''* '' @ ''var(--mantine-scale))''" by code_simp
  have s: "variables_in (rem_int 1 @ '' solid '' @ y) = ''--mantine-scale'' # variables_in ('' solid '' @ y)" for y
    unfolding r by (simp add: variables_in.simps(2))
  show "variables_in no_border = [''--mantine-scale'']"
    unfolding no_border_def solid_def s by (simp add: no_variables)
  assume "CHR ''('' \<notin> set x" "CHR '')'' \<notin> set x"
  then show "variables_in (solid (color_var x)) = [''--mantine-scale'', color_text x]"
    unfolding solid_def s by (simp add: variables_in_skip variables_in_color_var)
qed

lemma variant_refs:
  assumes "wf_theme e" "validate_theme e = Inr e'" "map_get (theme_colors e) c = Some p" "v \<in> named_variants"
  shows "\<exists>res. resolve_variant_colors c e v g i = Some res \<and>
    refs_in res \<subseteq> palette_vars e c \<union> fixed_keys \<union> insert ''--mantine-scale'' base_vars"
proof -
  from parse_palette_name [OF assms(1-3)] obtain a where
    a: "parse_theme_color c e None = Some a" "color_name a = c" "color_shade a = None" "isThemeColor a" by blast
  have ok: "name_ok c" using assms(1,3) by (rule wf_palette(1))
  note par = name_ok_chars(1,2) [OF ok]
  have own: "color_text (c @ x) \<in> palette_vars e c" if "x \<in> set variant_suffixes" for x
    using that own_variant by (auto simp: palette_vars_def)
  note suffix = own [of "''-filled''"] own [of "''-filled-hover''"] own [of "''-light''"] own [of "''-light-hover''"]
    own [of "''-light-color''"] own [of "''-outline''"] own [of "''-outline-hover''"]
  have contrast: "is_virtual_color p \<Longrightarrow> color_text (c @ ''-contrast'') \<in> palette_vars e c"
    using assms(3) by (simp add: palette_vars_def)
  have refs_text: "refs_in (variant_colors b h t no_border) \<subseteq> X \<union> insert ''--mantine-scale'' base_vars"
    if "set (variables_in b) \<subseteq> X" "set (variables_in h) \<subseteq> X" "set (variables_in t) \<subseteq> X \<union> base_vars" for b h t X
    using that by (auto simp: variant_colors_def no_border_refs)
  have plain: "variables_in ''transparent'' = []" by (simp add: no_variables)
  have var: "set (variables_in (color_var (c @ x))) \<subseteq> palette_vars e c" if "x \<in> set variant_suffixes" for x
    using that own [OF that] own_ref [OF ok, of x] by (auto simp: palette_vars_def)
  have in_suffixes: "''-filled'' \<in> set variant_suffixes" "''-filled-hover'' \<in> set variant_suffixes"
    "''-light'' \<in> set variant_suffixes" "''-light-hover'' \<in> set variant_suffixes"
    "''-light-color'' \<in> set variant_suffixes" "''-outline'' \<in> set variant_suffixes"
    "''-outline-hover'' \<in> set variant_suffixes" by (simp_all add: variant_suffixes_def)
  note vars = in_suffixes [THEN var]
  from assms(4) consider "v = ''filled''" | "v = ''light''" | "v = ''outline''" | "v = ''subtle''" | "v = ''transparent''"
    | "v = ''default''" unfolding named_variants_def insert_iff empty_iff by argo
  then show ?thesis
  proof cases
    case 1
    define r where "r =
      (if (case i of Some b \<Rightarrow> b | None \<Rightarrow> autoContrast e)
       then if is_virtual_color p then color_var (c @ ''-contrast'') else if isLight a then color_var ''black'' else color_var ''white''
       else color_var ''white'')"
    have "resolve_variant_colors c e v g i =
        Some (variant_colors (color_var (c @ ''-filled'')) (color_var (c @ ''-filled-hover'')) r no_border)"
      using 1 a assms(3) by (simp add: resolve_variant_colors_def filled_variant_def r_def Let_def)
    moreover have "set (variables_in r) \<subseteq> palette_vars e c \<union> base_vars"
      using contrast par by (simp add: r_def variables_in_color_var base_vars_def)
    ultimately show ?thesis using refs_text [OF vars(1,2)] by (fastforce simp: Un_assoc)
  next
    case 2
    then have "resolve_variant_colors c e v g i = Some (variant_colors (color_var (c @ ''-light''))
        (color_var (c @ ''-light-hover'')) (color_var (c @ ''-light-color'')) no_border)"
      using a by (simp add: resolve_variant_colors_def light_variant_def)
    then show ?thesis
      using refs_text [OF vars(3,4) le_supI1 [OF vars(5)]] by (fastforce simp: Un_assoc)
  next
    case 3
    then have "resolve_variant_colors c e v g i = Some (variant_colors ''transparent'' (color_var (c @ ''-outline-hover''))
        (color_var (c @ ''-outline'')) (solid (color_var (c @ ''-outline''))))"
      using a by (simp add: resolve_variant_colors_def outline_variant_def)
    moreover have "variables_in (solid (color_var (c @ ''-outline''))) = [''--mantine-scale'', color_text (c @ ''-outline'')]"
      using par by (intro no_border_refs(2)) simp_all
    ultimately show ?thesis using own [OF in_suffixes(6)] own [OF in_suffixes(7)] par
      by (simp add: variant_colors_def plain variables_in_color_var)
  next
    case 4
    then have "resolve_variant_colors c e v g i = Some (variant_colors ''transparent''
        (color_var (c @ ''-light-hover'')) (color_var (c @ ''-light-color'')) no_border)"
      using a by (simp add: resolve_variant_colors_def subtle_variant_def)
    then show ?thesis
      using refs_text [of "''transparent''", OF _ vars(4) le_supI1 [OF vars(5)]]
      by (fastforce simp: Un_assoc plain)
  next
    case 5
    then have "resolve_variant_colors c e v g i = Some (variant_colors ''transparent'' ''transparent''
        (color_var (c @ ''-light-color'')) no_border)"
      using a by (simp add: resolve_variant_colors_def transparent_variant_def)
    then show ?thesis
      using refs_text [of "''transparent''" _ "''transparent''", OF _ _ le_supI1 [OF vars(5)]]
      by (fastforce simp: Un_assoc plain)
  next
    case 6
    then have "resolve_variant_colors c e v g i = Some (variant_colors (color_var ''default'') (color_var ''default-hover'')
        (color_var ''default-color'') (solid (color_var ''default-border'')))"
      using a by (simp add: resolve_variant_colors_def)
    moreover have "variables_in (solid (color_var ''default-border'')) = [''--mantine-scale'', color_text ''default-border'']"
      by (intro no_border_refs(2)) simp_all
    ultimately show ?thesis by (simp add: variant_colors_def variables_in_color_var fixed_keys_def)
  qed
qed


text \<open>The theme of the console is accepted and well formed.\<close>

lemma console_colors: "theme_colors (merge_change default_theme console_theme) = spread default_colors (set_colors console_theme)"
  by (simp add: merge_change_def default_theme_def)

lemma console_frost: "map_get (spread default_colors (set_colors console_theme)) ''frost'' \<noteq> None"
  by code_simp

lemma console_valid: "validate_theme (merge_change default_theme console_theme) = Inr (merge_change default_theme console_theme)"
proof -
  have "primaryColor (merge_change default_theme console_theme) = ''frost''"
    "primaryShade (merge_change default_theme console_theme) = Scheme_shades (Dec 6 0) (Dec 4 0)"
    by (simp_all add: merge_change_def default_theme_def console_theme_def given_def)
  moreover have "valid_shade (Dec 6 0)" "valid_shade (Dec 4 0)" by code_simp+
  ultimately show ?thesis using console_frost by (simp add: validate_theme_def console_colors)
qed

lemma console_wf: "wf_theme (merge_change default_theme console_theme)"
proof -
  have "distinct (map_keys (spread default_colors (set_colors console_theme)))"
    "list_all (\<lambda>(t, p). name_ok t \<and> plain_ok p) (spread default_colors (set_colors console_theme))"
    "{''dark'', ''gray'', ''red'', ''teal''} \<subseteq> set (map_keys (spread default_colors (set_colors console_theme)))"
    by code_simp+
  moreover have "white (merge_change default_theme console_theme) = ''#fff''" "black (merge_change default_theme console_theme) = ''#000''"
    by (simp_all add: merge_change_def default_theme_def console_theme_def given_def no_change_def)
  ultimately show ?thesis
    unfolding wf_theme_def console_colors
    by (auto simp: list_all_iff palette_ok_def hex_text_def plain_ok_def split: option.splits)
qed



text \<open>Leaving out the variables that are those of the default theme loses none: under the rules for one
  selector, where a later declaration replaces an earlier one, the library's own sheet followed by what is
  left gives every variable of the theme its value.\<close>

theorem deduplicated_sheet_agrees:
  assumes "m = plain_vars \<or> m = light_vars \<or> m = dark_vars" "distinct (map_keys (m e))" "n \<in> set (map_keys (m e))"
  shows "map_get (spread (m z) (m (remove_default_variables z e))) n = map_get (m e) n"
proof -
  have m: "m (remove_default_variables z e) = changed_only (m z) (m e)"
    using assms(1) by (auto simp: remove_default_variables_def)
  have d: "distinct (map_keys (changed_only (m z) (m e)))"
    using assms(2) by (simp add: changed_only_def distinct_map_filter)
  obtain v where v: "map_get (m e) n = Some v" using assms(3) by (metis map_of_eq_None_iff not_None_eq set_map)
  have "map_get (changed_only (m z) (m e)) n = (if map_get (m z) n = Some v then None else Some v)"
  proof (cases "map_get (m z) n = Some v")
    case True
    have "w = v" if "(n, w) \<in> set (m e)" for w
      using assms(2) that map_of_SomeD [OF v] by (rule eq_key_imp_eq_value)
    with True show ?thesis by (auto simp: changed_only_def map_of_eq_None_iff)
  next
    case False
    with v have "(n, v) \<in> set (changed_only (m z) (m e))"
      by (auto simp: changed_only_def dest: map_of_SomeD)
    with d False show ?thesis by simp
  qed
  then show ?thesis using v by (simp add: m map_of_spread [OF d] map_add_def)
qed

theorem deduplicated_sheet_agrees_witness:
  "map_get (spread [(''a'', ''1''), (''b'', ''2'')]
     (light_vars (remove_default_variables \<lparr>plain_vars = [], light_vars = [(''a'', ''1''), (''b'', ''2'')], dark_vars = []\<rparr>
        \<lparr>plain_vars = [], light_vars = [(''a'', ''1''), (''b'', ''3'')], dark_vars = []\<rparr>))) ''b'' = Some ''3''"
  using deduplicated_sheet_agrees [of light_vars "\<lparr>plain_vars = [], light_vars = [(''a'', ''1''), (''b'', ''3'')], dark_vars = []\<rparr>"
      "''b''" "\<lparr>plain_vars = [], light_vars = [(''a'', ''1''), (''b'', ''2'')], dark_vars = []\<rparr>"] by simp

text \<open>A theme within a theme: an object of shades given under a single shade is lost, and the provider throws.\<close>

lemma nested_shades_throw:
  assumes "primaryShade e = One_shade d" "set_primaryShade c = Some (Scheme_shades l k)"
    "map_get (theme_colors (merge_change e c)) (primaryColor (merge_change e c)) = Some p"
  shows "merge_theme e (Some c) = Inl Shade_type_error"
proof -
  have "primaryShade (merge_change e c) = No_shades" using assms(1,2) by (simp add: merge_change_def)
  with assms(3) show ?thesis by (simp add: merge_theme_def validate_theme_def Let_def)
qed

end
