(* ===== verification/Mantine_Style_Props.thy ===== *)
theory Mantine_Style_Props
  imports Mantine_Variables "HOL-Library.Word"
begin

text \<open>
  Style properties of Mantine's components as bundled into \<open>app.js\<close>: which properties of a component are
  styles, the values they resolve to in a theme, the styles by breakpoint, and what \<open>Box\<close> renders. Values
  are JSON values or undefined. Charcodes are those of ASCII. Media queries whose width is not a number
  keep their order, and so does a list that has such a query.
\<close>

subsection \<open>Which properties are styles\<close>

definition style_prop_names :: "string list" where
  "style_prop_names =
     [''m'', ''mx'', ''my'', ''mt'', ''mb'', ''ml'', ''mr'', ''me'', ''ms'', ''mis'', ''mie'', ''p'', ''px'',
      ''py'', ''pt'', ''pb'', ''pl'', ''pr'', ''pis'', ''pie'', ''pe'', ''ps'', ''bd'', ''bg'', ''c'',
      ''opacity'', ''ff'', ''fz'', ''fw'', ''lts'', ''ta'', ''lh'', ''fs'', ''tt'', ''td'', ''w'', ''miw'',
      ''maw'', ''h'', ''mih'', ''mah'', ''bgsz'', ''bgp'', ''bgr'', ''bga'', ''pos'', ''top'', ''left'',
      ''bottom'', ''right'', ''inset'', ''display'', ''flex'', ''bdrs'', ''hiddenFrom'', ''visibleFrom'',
      ''lightHidden'', ''darkHidden'', ''sx'']"

definition extract_style_props :: "props \<Rightarrow> props \<times> props" where
  "extract_style_props e =
     (filter_props (map (\<lambda>k. (k, case map_get e k of Some v \<Rightarrow> v | None \<Rightarrow> None)) style_prop_names),
      filter (\<lambda>(k, v). k \<notin> set style_prop_names) e)"

datatype style_kind =
  Color_kind | Text_color_kind | Font_size_kind | Spacing_kind | Radius_kind | Identity_kind | Size_kind
  | Line_height_kind | Font_family_kind | Border_kind

definition style_props_data :: "(string \<times> style_kind \<times> string) list" where
  "style_props_data =
     [(''m'', Spacing_kind, ''margin''), (''mt'', Spacing_kind, ''marginTop''),
      (''mb'', Spacing_kind, ''marginBottom''), (''ml'', Spacing_kind, ''marginLeft''),
      (''mr'', Spacing_kind, ''marginRight''), (''ms'', Spacing_kind, ''marginInlineStart''),
      (''me'', Spacing_kind, ''marginInlineEnd''), (''mis'', Spacing_kind, ''marginInlineStart''),
      (''mie'', Spacing_kind, ''marginInlineEnd''), (''mx'', Spacing_kind, ''marginInline''),
      (''my'', Spacing_kind, ''marginBlock''), (''p'', Spacing_kind, ''padding''),
      (''pt'', Spacing_kind, ''paddingTop''), (''pb'', Spacing_kind, ''paddingBottom''),
      (''pl'', Spacing_kind, ''paddingLeft''), (''pr'', Spacing_kind, ''paddingRight''),
      (''ps'', Spacing_kind, ''paddingInlineStart''), (''pe'', Spacing_kind, ''paddingInlineEnd''),
      (''pis'', Spacing_kind, ''paddingInlineStart''), (''pie'', Spacing_kind, ''paddingInlineEnd''),
      (''px'', Spacing_kind, ''paddingInline''), (''py'', Spacing_kind, ''paddingBlock''),
      (''bd'', Border_kind, ''border''), (''bdrs'', Radius_kind, ''borderRadius''),
      (''bg'', Color_kind, ''background''), (''c'', Text_color_kind, ''color''),
      (''opacity'', Identity_kind, ''opacity''), (''ff'', Font_family_kind, ''fontFamily''),
      (''fz'', Font_size_kind, ''fontSize''), (''fw'', Identity_kind, ''fontWeight''),
      (''lts'', Size_kind, ''letterSpacing''), (''ta'', Identity_kind, ''textAlign''),
      (''lh'', Line_height_kind, ''lineHeight''), (''fs'', Identity_kind, ''fontStyle''),
      (''tt'', Identity_kind, ''textTransform''), (''td'', Identity_kind, ''textDecoration''),
      (''w'', Spacing_kind, ''width''), (''miw'', Spacing_kind, ''minWidth''),
      (''maw'', Spacing_kind, ''maxWidth''), (''h'', Spacing_kind, ''height''),
      (''mih'', Spacing_kind, ''minHeight''), (''mah'', Spacing_kind, ''maxHeight''),
      (''bgsz'', Size_kind, ''backgroundSize''), (''bgp'', Identity_kind, ''backgroundPosition''),
      (''bgr'', Identity_kind, ''backgroundRepeat''), (''bga'', Identity_kind, ''backgroundAttachment''),
      (''pos'', Identity_kind, ''position''), (''top'', Size_kind, ''top''), (''left'', Size_kind, ''left''),
      (''bottom'', Size_kind, ''bottom''), (''right'', Size_kind, ''right''), (''inset'', Size_kind, ''inset''),
      (''display'', Identity_kind, ''display''), (''flex'', Identity_kind, ''flex'')]"

subsection \<open>Values\<close>

datatype style_error = Color_not_text string | Type_error

definition type_of :: "json option \<Rightarrow> string" where
  "type_of v =
     (case v of
        None \<Rightarrow> ''undefined'' | Some (JStr _) \<Rightarrow> ''string'' | Some (JNum _) \<Rightarrow> ''number'' | Some (JBool _) \<Rightarrow> ''boolean''
      | Some _ \<Rightarrow> ''object'')"

definition text_or_error :: "string option \<Rightarrow> style_error + json option" where
  "text_or_error r = (case r of None \<Rightarrow> Inl Type_error | Some s \<Rightarrow> Inr (Some (JStr s)))"

definition color_resolver :: "json option \<Rightarrow> theme \<Rightarrow> style_error + json option" where
  "color_resolver e t =
     (case e of Some (JStr s) \<Rightarrow> text_or_error (resolve_color s t) | _ \<Rightarrow> Inl (Color_not_text (type_of e)))"

definition text_color_resolver :: "json option \<Rightarrow> theme \<Rightarrow> style_error + json option" where
  "text_color_resolver e t =
     (case e of Some (JStr s) \<Rightarrow> text_or_error (resolve_text_color s t) | _ \<Rightarrow> Inl (Color_not_text (type_of e)))"

definition border_resolver :: "json option \<Rightarrow> theme \<Rightarrow> style_error + json option" where
  "border_resolver e t =
     (case e of
        Some (JNum _) \<Rightarrow> Inr (rem e)
      | Some (JStr s) \<Rightarrow>
          (let ws = filter (\<lambda>w. trim w \<noteq> []) (split_on (CHR '' '') s);
               a = (case ws of [] \<Rightarrow> ''undefined'' | n # _ \<Rightarrow> convert_text ''rem'' True n);
               b = (case ws of _ # r # _ \<Rightarrow> a @ '' '' @ r | _ \<Rightarrow> a)
           in case drop 2 ws of
                [] \<Rightarrow> Inr (Some (JStr (trim b)))
              | i \<Rightarrow> (case resolve_color (join_with '' '' i) t of
                        None \<Rightarrow> Inl Type_error
                      | Some c \<Rightarrow> Inr (Some (JStr (trim (b @ '' '' @ c))))))
      | _ \<Rightarrow> Inr e)"

definition font_families :: "(string \<times> string) list" where
  "font_families =
     [(''text'', ''var(--mantine-font-family)''), (''mono'', ''var(--mantine-font-family-monospace)''),
      (''monospace'', ''var(--mantine-font-family-monospace)''), (''heading'', ''var(--mantine-font-family-headings)''),
      (''headings'', ''var(--mantine-font-family-headings)'')]"

definition font_family_resolver :: "json option \<Rightarrow> json option" where
  "font_family_resolver e =
     (case e of Some (JStr s) \<Rightarrow> (case map_of font_families s of Some f \<Rightarrow> Some (JStr f) | None \<Rightarrow> e) | _ \<Rightarrow> e)"

definition heading_names :: "string list" where
  "heading_names = [''h1'', ''h2'', ''h3'', ''h4'', ''h5'', ''h6'']"

text \<open>A name of a size is its variable; other texts and numbers are lengths.\<close>

definition font_size_resolver :: "json option \<Rightarrow> theme \<Rightarrow> json option" where
  "font_size_resolver e t =
     (case e of
        Some (JStr s) \<Rightarrow>
          if map_get (fontSizes t) s \<noteq> None then Some (JStr (''var(--mantine-font-size-'' @ s @ '')''))
          else if s \<in> set heading_names then Some (JStr (''var(--mantine-'' @ s @ ''-font-size)''))
          else rem e
      | Some (JNum _) \<Rightarrow> rem e
      | _ \<Rightarrow> e)"

definition line_height_resolver :: "json option \<Rightarrow> theme \<Rightarrow> json option" where
  "line_height_resolver e t =
     (case e of
        Some (JStr s) \<Rightarrow>
          if map_get (lineHeights t) s \<noteq> None then Some (JStr (''var(--mantine-line-height-'' @ s @ '')''))
          else if s \<in> set heading_names then Some (JStr (''var(--mantine-'' @ s @ ''-line-height)''))
          else e
      | _ \<Rightarrow> e)"

definition radius_resolver :: "json option \<Rightarrow> theme \<Rightarrow> json option" where
  "radius_resolver e t =
     (case e of
        Some (JStr s) \<Rightarrow>
          if map_get (radius t) s \<noteq> None then Some (JStr (''var(--mantine-radius-'' @ s @ '')'')) else rem e
      | Some (JNum _) \<Rightarrow> rem e
      | _ \<Rightarrow> e)"

definition size_resolver :: "json option \<Rightarrow> json option" where
  "size_resolver e = (case e of Some (JNum _) \<Rightarrow> rem e | _ \<Rightarrow> e)"

definition spacing_resolver :: "json option \<Rightarrow> theme \<Rightarrow> json option" where
  "spacing_resolver e t =
     (case e of
        Some (JNum _) \<Rightarrow> rem e
      | Some (JStr s) \<Rightarrow>
          (let n = replace_first ''-'' [] s; r = ''--mantine-spacing-'' @ n
           in if map_get (spacing t) n = None then rem e
              else Some (JStr (if is_prefix_of ''-'' s then ''calc(var('' @ r @ '') * -1)'' else ''var('' @ r @ '')'')))
      | _ \<Rightarrow> e)"

definition resolve_style :: "style_kind \<Rightarrow> json option \<Rightarrow> theme \<Rightarrow> style_error + json option" where
  "resolve_style k e t =
     (case k of
        Color_kind \<Rightarrow> color_resolver e t
      | Text_color_kind \<Rightarrow> text_color_resolver e t
      | Font_size_kind \<Rightarrow> Inr (font_size_resolver e t)
      | Spacing_kind \<Rightarrow> Inr (spacing_resolver e t)
      | Radius_kind \<Rightarrow> Inr (radius_resolver e t)
      | Identity_kind \<Rightarrow> Inr e
      | Size_kind \<Rightarrow> Inr (size_resolver e)
      | Line_height_kind \<Rightarrow> Inr (line_height_resolver e t)
      | Font_family_kind \<Rightarrow> Inr (font_family_resolver e)
      | Border_kind \<Rightarrow> border_resolver e t)"

subsection \<open>Styles by breakpoint\<close>

record parsed_styles =
  hasResponsiveStyles :: bool
  styles :: props
  inlineStyles :: props
  media :: "(string, props) js_map"

definition entries :: "json \<Rightarrow> (string \<times> json) list" where
  "entries e =
     (case e of
        JObj kvs \<Rightarrow> kvs
      | JArr vs \<Rightarrow> zip (map show_nat [0..<length vs]) vs
      | _ \<Rightarrow> [])"

definition is_object :: "json option \<Rightarrow> bool" where
  "is_object e \<longleftrightarrow> (case e of Some (JObj _) \<Rightarrow> True | Some (JArr _) \<Rightarrow> True | _ \<Rightarrow> False)"

definition has_responsive_styles :: "json option \<Rightarrow> bool" where
  "has_responsive_styles e \<longleftrightarrow>
     is_object e \<and> (let t = map fst (entries (the e)) in length t \<noteq> 1 \<or> hd t \<noteq> ''base'')"

definition get_base_value :: "json option \<Rightarrow> json option" where
  "get_base_value e = (if is_object e then map_of (entries (the e)) ''base'' else e)"

definition get_breakpoint_keys :: "json option \<Rightarrow> string list" where
  "get_breakpoint_keys e = (if is_object e then filter (\<lambda>k. k \<noteq> ''base'') (map fst (entries (the e))) else [])"

definition get_breakpoint_value :: "json option \<Rightarrow> string \<Rightarrow> json option" where
  "get_breakpoint_value e t =
     (if is_object e then case map_of (entries (the e)) t of Some v \<Rightarrow> Some v | None \<Rightarrow> e else e)"

definition media_query :: "theme \<Rightarrow> string \<Rightarrow> string" where
  "media_query t k = ''(min-width: '' @ show_text (map_get (breakpoints t) k) @ '')''"

text \<open>The style of a property under one query.\<close>

definition set_media :: "string \<Rightarrow> string \<Rightarrow> json option \<Rightarrow> (string, props) js_map \<Rightarrow> (string, props) js_map" where
  "set_media q p v m = map_set q (map_set p v (case map_get m q of Some s \<Rightarrow> s | None \<Rightarrow> [])) m"

fun add_breakpoints ::
  "style_kind \<Rightarrow> string \<Rightarrow> json option \<Rightarrow> theme \<Rightarrow> string list \<Rightarrow> parsed_styles \<Rightarrow> style_error + parsed_styles" where
  "add_breakpoints k p e t [] r = Inr r"
| "add_breakpoints k p e t (b # bs) r =
     (case resolve_style k (get_breakpoint_value e b) t of
        Inl x \<Rightarrow> Inl x
      | Inr v \<Rightarrow> add_breakpoints k p e t bs (r\<lparr>media := set_media (media_query t b) p v (media r)\<rparr>))"

definition add_style_prop :: "theme \<Rightarrow> string \<Rightarrow> json option \<Rightarrow> parsed_styles \<Rightarrow> style_error + parsed_styles" where
  "add_style_prop t i e r =
     (if i \<in> {''hiddenFrom'', ''visibleFrom'', ''sx''} then Inr r
      else case map_of style_props_data i of
             None \<Rightarrow> Inl Type_error
           | Some (k, p) \<Rightarrow>
               let s = get_base_value e
               in if \<not> has_responsive_styles e
                  then (case resolve_style k s t of
                          Inl x \<Rightarrow> Inl x | Inr v \<Rightarrow> Inr (r\<lparr>inlineStyles := map_set p v (inlineStyles r)\<rparr>))
                  else (let r1 = r\<lparr>hasResponsiveStyles := True\<rparr>
                        in case (if nullish s then Inr r1
                                 else case resolve_style k s t of
                                        Inl x \<Rightarrow> Inl x | Inr v \<Rightarrow> Inr (r1\<lparr>styles := map_set p v (styles r1)\<rparr>)) of
                             Inl x \<Rightarrow> Inl x
                           | Inr r2 \<Rightarrow> add_breakpoints k p e t (get_breakpoint_keys e) r2))"

fun add_style_props :: "theme \<Rightarrow> props \<Rightarrow> parsed_styles \<Rightarrow> style_error + parsed_styles" where
  "add_style_props t [] r = Inr r"
| "add_style_props t ((i, e) # es) r =
     (case add_style_prop t i e r of Inl x \<Rightarrow> Inl x | Inr r' \<Rightarrow> add_style_props t es r')"

text \<open>\<open>sortMediaQueries\<close>: by width, queries of the same width in their order.\<close>

definition query_width :: "string \<Rightarrow> dec option" where
  "query_width q = text_number (replace_first ''em)'' [] (replace_first ''(min-width: '' [] q))"

definition narrower :: "string \<Rightarrow> string \<Rightarrow> bool" where
  "narrower a b \<longleftrightarrow>
     (case (query_width a, query_width b) of (Some x, Some y) \<Rightarrow> dec_le x y | _ \<Rightarrow> True)"

fun insert_query :: "string \<times> props \<Rightarrow> (string \<times> props) list \<Rightarrow> (string \<times> props) list" where
  "insert_query x [] = [x]"
| "insert_query x (y # ys) = (if narrower (fst x) (fst y) then x # y # ys else y # insert_query x ys)"

definition sort_media_queries :: "(string \<times> props) list \<Rightarrow> (string \<times> props) list" where
  "sort_media_queries m =
     (if list_all (\<lambda>(q, s). query_width q \<noteq> None) m then foldr insert_query m [] else m)"

definition parse_style_props :: "theme \<Rightarrow> props \<Rightarrow> style_error + parsed_styles" where
  "parse_style_props t e =
     (case add_style_props t e \<lparr>hasResponsiveStyles = False, styles = [], inlineStyles = [], media = []\<rparr> of
        Inl x \<Rightarrow> Inl x
      | Inr r \<Rightarrow> Inr (r\<lparr>media := sort_media_queries (media r)\<rparr>))"

subsection \<open>Style elements\<close>

definition css_object_to_string :: "props \<Rightarrow> string" where
  "css_object_to_string e =
     trim (concat (map (\<lambda>(n, v). if v = None then [] else camel_to_kebab_case n @ '':'' @ js_string_opt v @ '';'') e))"

text \<open>\<open>query\<close>s with their styles; \<open>None\<close>: not given.\<close>

definition styles_to_string ::
  "string \<Rightarrow> props option \<Rightarrow> (string \<times> props) list option \<Rightarrow> (string \<times> props) list option \<Rightarrow> string" where
  "styles_to_string e t n r =
     (let i = (case t of Some s \<Rightarrow> css_object_to_string s | None \<Rightarrow> []);
          block = (\<lambda>w (q, s). w @ q @ ''{'' @ e @ ''{'' @ css_object_to_string s @ ''}}'');
          rules = (\<lambda>w m. case m of Some qs \<Rightarrow> concat (map (block w) qs) | None \<Rightarrow> [])
      in trim ((if i = [] then [] else e @ ''{'' @ i @ ''}'') @ rules ''@media'' n @ rules ''@container '' r))"

fun show_base36 :: "nat \<Rightarrow> string" where
  "show_base36 n =
     (let d = n mod 36; c = of_byte (if d < 10 then 48 + d else 87 + d)
      in if n < 36 then [c] else show_base36 (n div 36) @ [c])"

declare show_base36.simps [simp del]

definition hash_text :: "string \<Rightarrow> string" where
  "hash_text e =
     show_base36 (unat (foldl (\<lambda>t c. push_bit 5 t + t + of_nat (byte c)) (5381 :: 32 word) e))"

definition hash_styles :: "props option \<Rightarrow> (string \<times> props) list option \<Rightarrow> string" where
  "hash_styles e t =
     ''__mdi__-'' @ hash_text
       ((case e of Some s \<Rightarrow> css_object_to_string s | None \<Rightarrow> []) @ ''|'' @
        (case t of
           Some m \<Rightarrow> join_with ''|'' (map (\<lambda>(q, s). q @ '':'' @ css_object_to_string s) m) | None \<Rightarrow> []))"

subsection \<open>Box\<close>

fun hyphenate :: "string \<Rightarrow> string" where
  "hyphenate (c # d # s) =
     (if 97 \<le> byte c \<and> byte c \<le> 122 \<and> is_upper d then c # CHR ''-'' # d # hyphenate s else c # hyphenate (d # s))"
| "hyphenate s = s"

definition mod_name :: "string \<Rightarrow> string" where
  "mod_name e =
     ''data-'' @ map to_lower (hyphenate (if is_prefix_of ''data-'' e then drop 5 e else e))"

definition get_mod :: "(string \<times> json) list \<Rightarrow> props" where
  "get_mod e =
     fold (\<lambda>(n, r) t. if r = JStr [] \<or> r = JBool False \<or> r = JNull then t else map_set (mod_name n) (Some r) t) e []"

fun get_box_mod :: "json \<Rightarrow> props" where
  "get_box_mod (JStr e) = (if e = [] then [] else [(mod_name e, Some (JBool True))])"
| "get_box_mod (JArr es) = foldl (\<lambda>e t. spread e (get_box_mod t)) [] es"
| "get_box_mod (JObj kvs) = get_mod kvs"
| "get_box_mod _ = []"

fun resolve_style_object :: "json \<Rightarrow> props" where
  "resolve_style_object (JArr es) = foldl (\<lambda>e n. spread e (resolve_style_object n)) [] es"
| "resolve_style_object (JObj kvs) = map (\<lambda>(k, v). (k, Some v)) kvs"
| "resolve_style_object _ = []"

definition get_box_style :: "json option \<Rightarrow> json option \<Rightarrow> props \<Rightarrow> props" where
  "get_box_style s v r =
     (let obj = (\<lambda>e. case e of Some j \<Rightarrow> resolve_style_object j | None \<Rightarrow> [])
      in spread (spread (obj s) (obj v)) r)"

text \<open>The properties of a \<open>Box\<close>: its own, and the others, among them the style properties.\<close>

record box_props =
  box_style :: "json option"
  box_vars :: "json option"
  box_class :: "json option"
  box_variant :: "json option"
  box_mod :: "json option"
  box_size :: "json option"
  box_hiddenFrom :: "json option"
  box_visibleFrom :: "json option"
  box_lightHidden :: "json option"
  box_darkHidden :: "json option"
  box_html_size :: "json option"
  box_others :: props

text \<open>The attributes of the element, and the text of the style element beside it.\<close>

record box_element =
  element_style :: props
  element_class :: string
  element_attributes :: props
  style_element :: "string option"

text \<open>\<open>x\<close>: the class name of \<open>useId\<close>, \<open>C\<close>: style elements are shared, \<open>y\<close>: the class of \<open>sx\<close>.\<close>

definition render_box ::
  "theme \<Rightarrow> string \<Rightarrow> bool \<Rightarrow> json option \<Rightarrow> box_props \<Rightarrow> style_error + box_element" where
  "render_box h x C y b =
     (let (ps, v) = extract_style_props (box_others b)
      in case parse_style_props h ps of
           Inl e \<Rightarrow> Inl e
         | Inr S \<Rightarrow>
             let w = (if C \<and> hasResponsiveStyles S then hash_styles (Some (styles S)) (Some (media S)) else x);
                 flag = (\<lambda>k e. (k, JBool (truthy e)))
             in Inr
                  \<lparr>element_style = get_box_style (box_style b) (box_vars b) (inlineStyles S),
                   element_class = clsx [box_class b, y,
                     Some (JObj [(w, JBool (hasResponsiveStyles S)), flag ''mantine-light-hidden'' (box_lightHidden b),
                       flag ''mantine-dark-hidden'' (box_darkHidden b),
                       flag (''mantine-hidden-from-'' @ js_string_opt (box_hiddenFrom b)) (box_hiddenFrom b),
                       flag (''mantine-visible-from-'' @ js_string_opt (box_visibleFrom b)) (box_visibleFrom b)])],
                   element_attributes =
                     spread (spread [(''data-variant'', box_variant b),
                         (''data-size'', if is_number_like (box_size b) then None
                            else if truthy (box_size b) then box_size b else None),
                         (''size'', box_html_size b)]
                       (case box_mod b of Some j \<Rightarrow> if truthy (Some j) then get_box_mod j else [] | None \<Rightarrow> [])) v,
                   style_element =
                     (if hasResponsiveStyles S
                      then Some (styles_to_string (''.'' @ w) (Some (styles S)) (Some (media S)) None) else None)\<rparr>)"

end
