(* ===== verification/Mantine_Style_Properties.thy ===== *)
theory Mantine_Style_Properties
  imports Mantine_Style_Props Decimal_Value
begin

text \<open>
  What the style properties of a component amount to: at every width of the page a property given by
  breakpoints has the value of the widest breakpoint reached.
\<close>

subsection \<open>Sorting the queries\<close>

definition width_value :: "string \<Rightarrow> rat" where
  "width_value q = (case query_width q of Some d \<Rightarrow> dec_val d | None \<Rightarrow> 0)"

definition sized :: "(string \<times> props) list \<Rightarrow> bool" where
  "sized m \<longleftrightarrow> (\<forall>(q, s)\<in>set m. query_width q \<noteq> None)"

lemma narrower_value: "query_width a \<noteq> None \<Longrightarrow> query_width b \<noteq> None \<Longrightarrow> narrower a b \<longleftrightarrow> width_value a \<le> width_value b"
  by (auto simp: narrower_def width_value_def dec_le_val)

lemma set_insert_query [simp]: "set (insert_query x m) = insert x (set m)"
  by (induction m) auto

lemma set_sort_queries: "set (sort_media_queries m) = set m"
proof -
  have "set (foldr insert_query m []) = set m" by (induction m) auto
  then show ?thesis by (simp add: sort_media_queries_def)
qed

lemma distinct_insert_query: "distinct (map fst (insert_query x m)) \<longleftrightarrow> fst x \<notin> fst ` set m \<and> distinct (map fst m)"
  by (induction m) auto

lemma distinct_sort_queries: "distinct (map fst m) \<Longrightarrow> distinct (map fst (sort_media_queries m))"
proof -
  assume d: "distinct (map fst m)"
  have "set (foldr insert_query m []) = set m" for m by (induction m) auto
  with d have "distinct (map fst (foldr insert_query m []))"
    by (induction m) (auto simp: distinct_insert_query)
  with d show ?thesis by (simp add: sort_media_queries_def)
qed

definition by_width :: "(string \<times> props) list \<Rightarrow> bool" where
  "by_width m \<longleftrightarrow> sorted (map (\<lambda>(q, s). width_value q) m)"

lemma insert_query_by_width:
  assumes "sized (x # m)" "by_width m"
  shows "by_width (insert_query x m)"
  using assms
proof (induction m)
  case (Cons y m)
  have s: "query_width (fst x) \<noteq> None" "query_width (fst y) \<noteq> None" "sized (x # m)" "by_width m"
    using Cons.prems by (auto simp: sized_def by_width_def split: prod.splits)
  show ?case
  proof (cases "narrower (fst x) (fst y)")
    case True
    with s Cons.prems(2) show ?thesis by (fastforce simp: by_width_def narrower_value split: prod.splits)
  next
    case False
    with s Cons.IH Cons.prems(2) show ?thesis by (fastforce simp: by_width_def narrower_value split: prod.splits)
  qed
qed (simp add: by_width_def)

lemma sort_queries_by_width: "sized m \<Longrightarrow> by_width (sort_media_queries m)"
proof -
  assume s: "sized m"
  have "set (foldr insert_query m []) = set m" for m by (induction m) auto
  with s have "by_width (foldr insert_query m [])"
  proof (induction m)
    case (Cons x m)
    then show ?case by (simp add: sized_def insert_query_by_width)
  qed (simp add: by_width_def)
  with s show ?thesis by (auto simp: sort_media_queries_def sized_def list_all_iff)
qed

subsection \<open>Looking up a style\<close>

text \<open>The value of a property under a query.\<close>

definition under :: "(string, props) js_map \<Rightarrow> string \<Rightarrow> string \<Rightarrow> json option option" where
  "under m q p = map_get m q \<bind> (\<lambda>s. map_get s p)"

lemma under_set_media: "under (set_media q p v m) q' p' = (if q' = q \<and> p' = p then Some v else under m q' p')"
  by (auto simp: under_def set_media_def update_conv' split: option.splits)

lemma keys_set_media: "distinct (map fst m) \<Longrightarrow> distinct (map fst (set_media q p v m))"
  by (simp add: set_media_def distinct_update)

lemma add_breakpoints_under:
  assumes "add_breakpoints k p e t bs r = Inr r'"
  shows "styles r' = styles r" "p' \<noteq> p \<Longrightarrow> under (media r') q p' = under (media r) q p'"
    "distinct (map fst (media r)) \<Longrightarrow> distinct (map fst (media r'))"
    "q \<notin> media_query t ` set bs \<Longrightarrow> under (media r') q p' = under (media r) q p'"
  using assms
  by (induction k p e t bs r rule: add_breakpoints.induct)
    (auto simp: under_set_media keys_set_media split: sum.splits)

lemma add_breakpoints_value:
  assumes "add_breakpoints k p e t bs r = Inr r'" "b \<in> set bs"
    "\<And>c. c \<in> set bs \<Longrightarrow> c \<noteq> b \<Longrightarrow> media_query t c \<noteq> media_query t b"
  shows "\<exists>v. resolve_style k (get_breakpoint_value e b) t = Inr v \<and> under (media r') (media_query t b) p = Some v"
  using assms
proof (induction k p e t bs r rule: add_breakpoints.induct)
  case (2 k p e t c bs r)
  from 2(2) obtain v where v: "resolve_style k (get_breakpoint_value e c) t = Inr v"
    "add_breakpoints k p e t bs (r\<lparr>media := set_media (media_query t c) p v (media r)\<rparr>) = Inr r'"
    by (auto split: sum.splits)
  show ?case
  proof (cases "b \<in> set bs")
    case True
    with 2(1) [OF v(1) v(2)] 2(4) show ?thesis by simp
  next
    case False
    with 2(3) have b: "b = c" by simp
    have "media_query t x \<noteq> media_query t b" if "x \<in> set bs" for x
      using 2(4) [of x] False that by auto
    then have "media_query t b \<notin> media_query t ` set bs" by (metis imageE)
    from add_breakpoints_under(4) [OF v(2) this, of p] v(1) b show ?thesis by (simp add: under_set_media)
  qed
qed simp

lemma add_style_prop_other:
  assumes "add_style_prop t i e r = Inr r'" "\<And>k. map_of style_props_data i \<noteq> Some (k, p)"
  shows "under (media r') q p = under (media r) q p" "map_get (styles r') p = map_get (styles r) p"
    "distinct (map fst (media r)) \<Longrightarrow> distinct (map fst (media r'))"
  using assms add_breakpoints_under
  by (fastforce simp: add_style_prop_def Let_def update_conv' split: if_splits option.splits sum.splits)+

lemma add_style_props_other:
  assumes "add_style_props t es r = Inr r'" "\<And>i e k. (i, e) \<in> set es \<Longrightarrow> map_of style_props_data i \<noteq> Some (k, p)"
  shows "under (media r') q p = under (media r) q p \<and> map_get (styles r') p = map_get (styles r) p"
  using assms
proof (induction t es r rule: add_style_props.induct)
  case (2 t i e es r)
  from 2(2) obtain r1 where r1: "add_style_prop t i e r = Inr r1" "add_style_props t es r1 = Inr r'"
    by (auto split: sum.splits)
  have i: "map_of style_props_data i \<noteq> Some (k, p)" for k by (rule 2(3) [OF list.set_intros(1)])
  have "under (media r') q p = under (media r1) q p \<and> map_get (styles r') p = map_get (styles r1) p"
    by (rule 2(1) [OF r1]) (rule 2(3) [OF list.set_intros(2)])
  with add_style_prop_other(1,2) [OF r1(1) i] show ?case by simp
qed simp

lemma add_style_prop_distinct:
  assumes "add_style_prop t i e r = Inr r'" "distinct (map fst (media r))"
  shows "distinct (map fst (media r'))"
  using assms add_breakpoints_under(3)
  by (fastforce simp: add_style_prop_def Let_def split: if_splits option.splits sum.splits)

lemma add_style_props_distinct:
  "add_style_props t es r = Inr r' \<Longrightarrow> distinct (map fst (media r)) \<Longrightarrow> distinct (map fst (media r'))"
  by (induction t es r rule: add_style_props.induct) (auto dest: add_style_prop_distinct split: sum.splits)

lemma add_style_props_append:
  "add_style_props t (es @ fs) r =
     (case add_style_props t es r of Inl x \<Rightarrow> Inl x | Inr r' \<Rightarrow> add_style_props t fs r')"
  by (induction t es r rule: add_style_props.induct) (auto split: sum.splits)

text \<open>A property given by breakpoints puts the value of each under its query, and nothing under any other.\<close>

lemma add_style_prop_values:
  assumes "add_style_prop t i e r = Inr r'" "map_of style_props_data i = Some (k, p)"
    "i \<notin> {''hiddenFrom'', ''visibleFrom'', ''sx''}" "has_responsive_styles e"
  shows "b \<in> set (get_breakpoint_keys e) \<Longrightarrow>
      (\<And>c. c \<in> set (get_breakpoint_keys e) \<Longrightarrow> c \<noteq> b \<Longrightarrow> media_query t c \<noteq> media_query t b) \<Longrightarrow>
      \<exists>v. resolve_style k (get_breakpoint_value e b) t = Inr v \<and> under (media r') (media_query t b) p = Some v"
    "q \<notin> media_query t ` set (get_breakpoint_keys e) \<Longrightarrow> under (media r') q p = under (media r) q p"
proof -
  obtain r2 where r2: "add_breakpoints k p e t (get_breakpoint_keys e) r2 = Inr r'" "media r2 = media r"
    using assms by (auto simp: add_style_prop_def Let_def split: if_splits sum.splits)
  show "b \<in> set (get_breakpoint_keys e) \<Longrightarrow>
      (\<And>c. c \<in> set (get_breakpoint_keys e) \<Longrightarrow> c \<noteq> b \<Longrightarrow> media_query t c \<noteq> media_query t b) \<Longrightarrow>
      \<exists>v. resolve_style k (get_breakpoint_value e b) t = Inr v \<and> under (media r') (media_query t b) p = Some v"
    by (rule add_breakpoints_value [OF r2(1)])
  show "q \<notin> media_query t ` set (get_breakpoint_keys e) \<Longrightarrow> under (media r') q p = under (media r) q p"
    using add_breakpoints_under(4) [OF r2(1)] r2(2) by simp
qed

subsection \<open>The value at a width\<close>

text \<open>The class with its media queries, the later ones over the earlier, on a page \<open>w\<close> ems wide.\<close>

definition applies :: "dec \<Rightarrow> string \<Rightarrow> bool" where
  "applies w q \<longleftrightarrow> (case query_width q of Some x \<Rightarrow> dec_le x w | None \<Rightarrow> False)"

definition style_at :: "parsed_styles \<Rightarrow> dec \<Rightarrow> string \<Rightarrow> json option option" where
  "style_at r w p =
     foldl (\<lambda>a (q, s). if applies w q then case map_get s p of Some v \<Rightarrow> Some v | None \<Rightarrow> a else a)
       (map_get (styles r) p) (media r)"

lemma foldl_unchanged:
  assumes "\<And>q s. (q, s) \<in> set m \<Longrightarrow> applies w q \<Longrightarrow> map_get s p = None"
  shows "foldl (\<lambda>a (q, s). if applies w q then case map_get s p of Some v \<Rightarrow> Some v | None \<Rightarrow> a else a) a m = a"
  using assms
proof (induction m)
  case (Cons x m)
  obtain q s where x: "x = (q, s)" by (cases x)
  have "applies w q \<Longrightarrow> map_get s p = None" by (rule Cons.prems [of q s]) (simp_all add: x)
  moreover have "foldl (\<lambda>a (q, s). if applies w q then case map_get s p of Some v \<Rightarrow> Some v | None \<Rightarrow> a else a) a m = a"
    by (rule Cons.IH) (rule Cons.prems [OF list.set_intros(2)])
  ultimately show ?case by (simp add: x)
qed simp

lemma last_query_wins:
  assumes "distinct (map fst m)" "by_width m" "sized m" "under m q p = Some v" "applies w q"
    "\<And>q'. q' \<noteq> q \<Longrightarrow> under m q' p \<noteq> None \<Longrightarrow> applies w q' \<Longrightarrow> width_value q' < width_value q"
  shows "foldl (\<lambda>a (q, s). if applies w q then case map_get s p of Some v \<Rightarrow> Some v | None \<Rightarrow> a else a) a m = Some v"
proof -
  from assms(4) obtain s where s: "map_get m q = Some s" "map_get s p = Some v"
    by (auto simp: under_def split: bind_splits)
  from map_of_SomeD [OF s(1)] obtain m1 m2 where m: "m = m1 @ (q, s) # m2" by (auto simp: in_set_conv_decomp)
  have after: "map_get s' p = None" if "(q', s') \<in> set m2" "applies w q'" for q' s'
  proof (rule ccontr)
    assume "map_get s' p \<noteq> None"
    moreover have "map_get m q' = Some s'" using assms(1) that(1) m by (intro map_of_is_SomeI) auto
    ultimately have "under m q' p \<noteq> None" by (simp add: under_def)
    moreover have "q' \<noteq> q"
    proof
      assume "q' = q"
      then have "q \<in> set (map fst m2)" using that(1) by (metis fst_conv image_eqI set_map)
      with assms(1) show False by (simp add: m)
    qed
    ultimately have "width_value q' < width_value q" using assms(6) that(2) by blast
    moreover have "width_value q \<le> width_value q'"
      using assms(2) that(1) unfolding by_width_def m by (auto simp: sorted_append)
    ultimately show False by simp
  qed
  show ?thesis using assms(5) s(2) by (simp add: m foldl_unchanged [OF after])
qed

text \<open>C29: A style property of a component given by breakpoints has, on a page of any width, the value of the
  widest breakpoint that is no wider than the page, as long as no other property of the component sets the
  same style and the breakpoints in use have widths in em.\<close>

theorem widest_breakpoint_wins:
  assumes "parse_style_props t es = Inr r" "es = es1 @ (i, Some (JObj kvs)) # es2"
    "map_of style_props_data i = Some (k, p)" "has_responsive_styles (Some (JObj kvs))"
    "\<And>j e k'. (j, e) \<in> set es1 \<union> set es2 \<Longrightarrow> map_of style_props_data j \<noteq> Some (k', p)"
    "sized (media r)" "b \<in> fst ` set kvs" "b \<noteq> ''base''" "applies w (media_query t b)"
    "\<And>c. c \<in> fst ` set kvs - {''base'', b} \<Longrightarrow> applies w (media_query t c) \<Longrightarrow>
       width_value (media_query t c) < width_value (media_query t b)"
  shows "\<exists>v. resolve_style k (map_of kvs b) t = Inr v \<and> style_at r w p = Some v"
proof -
  let ?e = "Some (JObj kvs)" and ?r0 = "\<lparr>hasResponsiveStyles = False, styles = [], inlineStyles = [], media = []\<rparr>"
  have keys: "set (get_breakpoint_keys ?e) = fst ` set kvs - {''base''}"
    by (auto simp: get_breakpoint_keys_def is_object_def entries_def)
  have val: "get_breakpoint_value ?e b = map_of kvs b"
    using assms(7) map_of_eq_None_iff [of kvs b]
    by (cases "map_of kvs b") (simp_all add: get_breakpoint_value_def is_object_def entries_def)
  from assms(1,2) obtain r1 r2 r3 where r: "add_style_props t es1 ?r0 = Inr r1" "add_style_prop t i ?e r1 = Inr r2"
    "add_style_props t es2 r2 = Inr r3" "r = r3\<lparr>media := sort_media_queries (media r3)\<rparr>"
    by (auto simp: parse_style_props_def add_style_props_append split: sum.splits)
  have none: "(j, e) \<in> set es1 \<Longrightarrow> map_of style_props_data j \<noteq> Some (k', p)"
    "(j, e) \<in> set es2 \<Longrightarrow> map_of style_props_data j \<noteq> Some (k', p)" for j e k'
    using assms(5) [of j e k'] by simp_all
  have before: "under (media r1) q p = None" for q
    using add_style_props_other [OF r(1) none(1)] by (simp add: under_def)
  have later: "under (media r3) q p = under (media r2) q p" for q
    using add_style_props_other [OF r(3) none(2)] by simp
  have i: "i \<notin> {''hiddenFrom'', ''visibleFrom'', ''sx''}" using assms(3) by (auto simp: style_props_data_def)
  note prop_values = add_style_prop_values [OF r(2) assms(3) i assms(4)]
  have other: "media_query t c \<noteq> media_query t b" if "c \<in> set (get_breakpoint_keys ?e)" "c \<noteq> b" for c
  proof
    assume eq: "media_query t c = media_query t b"
    from that have "c \<in> fst ` set kvs - {''base'', b}" unfolding keys by blast
    from assms(10) [OF this] assms(9) show False unfolding eq by simp
  qed
  obtain v where v: "resolve_style k (map_of kvs b) t = Inr v" "under (media r2) (media_query t b) p = Some v"
    using prop_values(1) [of b, OF _ other] assms(7,8) by (auto simp: keys val)
  have m: "media r = sort_media_queries (media r3)" by (simp add: r(4))
  have d3: "distinct (map fst (media r3))"
    using add_style_props_distinct [OF r(3)] add_style_prop_distinct [OF r(2)] add_style_props_distinct [OF r(1)] by simp
  then have d: "distinct (map fst (media r))" unfolding m by (rule distinct_sort_queries)
  have "sized (media r3)" using assms(6) by (simp add: m sized_def set_sort_queries)
  then have widths: "by_width (media r)" unfolding m by (rule sort_queries_by_width)
  have "map_of (media r) = map_of (media r3)"
    using map_of_inject_set [OF d d3] by (simp add: m set_sort_queries)
  then have u: "under (media r) q p = under (media r2) q p" for q
    using later by (simp add: under_def)
  have max: "width_value q' < width_value (media_query t b)"
    if q': "q' \<noteq> media_query t b" "under (media r) q' p \<noteq> None" "applies w q'" for q'
  proof -
    have "q' \<in> media_query t ` set (get_breakpoint_keys ?e)"
      using prop_values(2) [of q'] before u q'(2) by force
    then obtain c where "c \<in> set (get_breakpoint_keys ?e)" "q' = media_query t c" by auto
    with assms(10) [of c] q' show ?thesis unfolding keys by auto
  qed
  have "style_at r w p = Some v"
    unfolding style_at_def
  proof (rule last_query_wins [OF d widths assms(6) _ assms(9)])
    show "under (media r) (media_query t b) p = Some v" using u v(2) by simp
  qed (rule max)
  with v(1) show ?thesis by blast
qed

text \<open>Padding that grows with the page: at 50 em the value is that of \<open>sm\<close>.\<close>

theorem widest_breakpoint_wins_witness:
  "\<exists>r v. parse_style_props default_theme
      [(''p'', Some (JObj [(''md'', JStr ''xl''), (''base'', JStr ''xs''), (''sm'', JStr ''md'')]))] = Inr r \<and>
    spacing_resolver (Some (JStr ''md'')) default_theme = v \<and> style_at r (Dec 50 0) ''padding'' = Some v"
proof -
  let ?kvs = "[(''md'', JStr ''xl''), (''base'', JStr ''xs''), (''sm'', JStr ''md'')]"
  have q: "media_query default_theme ''md'' = ''(min-width: 62em)''" "media_query default_theme ''sm'' = ''(min-width: 48em)''"
    by (simp_all add: media_query_def default_theme_def show_text_def)
  have w: "query_width ''(min-width: 62em)'' = Some (Dec 62 0)" "query_width ''(min-width: 48em)'' = Some (Dec 48 0)"
  proof -
    have "trim ''62'' = ''62''" "trim ''48'' = ''48''"
      using trim_printable [of "CHR ''6''" "CHR ''2''" "[]"] trim_printable [of "CHR ''4''" "CHR ''8''" "[]"] by simp_all
    then have "text_number ''62'' = Some (Dec 62 0)" "text_number ''48'' = Some (Dec 48 0)"
      by (simp_all add: digit_text_defs)
    then show "query_width ''(min-width: 62em)'' = Some (Dec 62 0)" "query_width ''(min-width: 48em)'' = Some (Dec 48 0)"
      by (simp_all add: query_width_def)
  qed
  have data: "map_of style_props_data ''p'' = Some (Spacing_kind, ''padding'')"
    by (simp add: style_props_data_def)
  let ?v = "\<lambda>x. spacing_resolver (Some (JStr x)) default_theme"
  let ?m = "[(''(min-width: 62em)'', [(''padding'', ?v ''xl'')]), (''(min-width: 48em)'', [(''padding'', ?v ''md'')])]"
  let ?r = "\<lparr>hasResponsiveStyles = True, styles = [(''padding'', ?v ''xs'')], inlineStyles = [], media = ?m\<rparr>"
  have e: "has_responsive_styles (Some (JObj ?kvs))" "get_base_value (Some (JObj ?kvs)) = Some (JStr ''xs'')"
    "get_breakpoint_keys (Some (JObj ?kvs)) = [''md'', ''sm'']"
    "get_breakpoint_value (Some (JObj ?kvs)) ''md'' = Some (JStr ''xl'')"
    "get_breakpoint_value (Some (JObj ?kvs)) ''sm'' = Some (JStr ''md'')"
    by (simp_all add: has_responsive_styles_def get_base_value_def get_breakpoint_keys_def get_breakpoint_value_def
        is_object_def entries_def)
  have added: "add_style_props default_theme [(''p'', Some (JObj ?kvs))]
      \<lparr>hasResponsiveStyles = False, styles = [], inlineStyles = [], media = []\<rparr> = Inr ?r"
    by (simp add: add_style_prop_def data e nullish_def resolve_style_def q set_media_def)
  then obtain r where r: "parse_style_props default_theme [(''p'', Some (JObj ?kvs))] = Inr r" "set (media r) = set ?m"
    using set_sort_queries [of ?m] by (simp add: parse_style_props_def)
  from r(2) have sized: "sized (media r)" by (simp add: sized_def w)
  have "\<exists>v. resolve_style Spacing_kind (map_of ?kvs ''sm'') default_theme = Inr v \<and> style_at r (Dec 50 0) ''padding'' = Some v"
    by (rule widest_breakpoint_wins [OF r(1) _ data, of "[]" ?kvs "[]"])
      (auto simp: has_responsive_styles_def is_object_def entries_def sized q applies_def w dec_le_def width_value_def)
  with r(1) show ?thesis by (auto simp: resolve_style_def)
qed

end
