(* ===== verification/Debounced_Callback.thy ===== *)
theory Debounced_Callback
  imports Prelude
begin

text \<open>
  Calls that wait for a pause: \<open>useDebouncedCallback\<close> of Mantine's hooks as bundled into \<open>app.js\<close>
  (lines 477 to 543), which the scroll bars of the console's drop-downs are shown, hidden and measured
  by. The browser's timeouts are part of the state, with the time each is due; a timeout runs at its due
  time or later. Handles are numbers from 1, never given twice, and 0 is no timeout. The callback does not
  call the debounced function itself, and the options stay what they are while the component lives, as
  in every use of the library.
\<close>

subsection \<open>State\<close>

record debounce_options =
  wait_time :: nat
  flushOnUnmount :: bool
  leading :: bool
  maxWait :: "nat option"

text \<open>What a timeout runs: \<open>u()\<close> alone, the flush of the call that set it, or the end of the longest wait.\<close>

datatype 'a deferred = Rest | Flush 'a | Longest_wait

record 'a timeout =
  handle :: nat
  due :: nat
  deferred :: "'a deferred"

text \<open>What happened, in order, each with its time: a call with its arguments, the callback run, a cancel.\<close>

datatype 'a happening = Called 'a nat | is_Ran: Ran 'a nat | Cancelled

text \<open>
  The refs \<open>s\<close>, \<open>c\<close> and \<open>l\<close>, the fields of the function object (its \<open>flush\<close> and \<open>cancel\<close> are closures
  over the arguments of the last call, and do nothing before the first), and the browser's side.
\<close>

record 'a debounced =
  delay_ref :: nat
  max_ref :: nat
  latest :: "'a option"
  isFirstCall :: bool
  hasPendingCallback :: bool
  installed :: "'a option"
  timeouts :: "'a timeout list"
  fresh :: nat
  clock :: nat
  happened :: "'a happening list"

definition new_debounced :: "nat \<Rightarrow> 'a debounced" where
  "new_debounced now =
     \<lparr>delay_ref = 0, max_ref = 0, latest = None, isFirstCall = True, hasPendingCallback = False,
      installed = None, timeouts = [], fresh = 1, clock = now, happened = []\<rparr>"

subsection \<open>Timeouts\<close>

definition clear_handle :: "nat \<Rightarrow> 'a debounced \<Rightarrow> 'a debounced" where
  "clear_handle h s = s\<lparr>timeouts := filter (\<lambda>t. handle t \<noteq> h) (timeouts s)\<rparr>"

definition start_timeout :: "'a deferred \<Rightarrow> nat \<Rightarrow> 'a debounced \<Rightarrow> 'a debounced" where
  "start_timeout d n s =
     s\<lparr>timeouts := timeouts s @ [\<lparr>handle = fresh s, due = clock s + n, deferred = d\<rparr>], fresh := fresh s + 1\<rparr>"

definition start_delay :: "'a deferred \<Rightarrow> nat \<Rightarrow> 'a debounced \<Rightarrow> 'a debounced" where
  "start_delay d n s = (start_timeout d n s)\<lparr>delay_ref := fresh s\<rparr>"

subsection \<open>Operations\<close>

definition run_callback :: "'a \<Rightarrow> 'a debounced \<Rightarrow> 'a debounced" where
  "run_callback a s = s\<lparr>happened := happened s @ [Ran a (clock s)]\<rparr>"

text \<open>\<open>u()\<close>: the burst of calls is over.\<close>

definition end_burst :: "'a debounced \<Rightarrow> 'a debounced" where
  "end_burst s =
     (clear_handle (max_ref s) (clear_handle (delay_ref s) s))
       \<lparr>delay_ref := 0, max_ref := 0, isFirstCall := True, hasPendingCallback := False\<rparr>"

text \<open>\<open>d()\<close>: the longest wait is armed once in a burst.\<close>

definition arm_longest_wait :: "debounce_options \<Rightarrow> 'a debounced \<Rightarrow> 'a debounced" where
  "arm_longest_wait p s =
     (case maxWait p of
        Some n \<Rightarrow> if max_ref s = 0 then (start_timeout Longest_wait n s)\<lparr>max_ref := fresh s\<rparr> else s
      | None \<Rightarrow> s)"

definition flush_with :: "'a \<Rightarrow> 'a debounced \<Rightarrow> 'a debounced" where
  "flush_with a s = (if delay_ref s \<noteq> 0 then run_callback a (end_burst s) else s)"

definition call_debounced :: "debounce_options \<Rightarrow> 'a \<Rightarrow> 'a debounced \<Rightarrow> 'a debounced" where
  "call_debounced p a s =
     (let s1 = (clear_handle (delay_ref s) s)\<lparr>latest := Some a, happened := happened s @ [Called a (clock s)]\<rparr>;
          r = isFirstCall s;
          s2 = s1\<lparr>isFirstCall := False\<rparr>
      in if leading p \<and> r
         then arm_longest_wait p (start_delay Rest (wait_time p) ((run_callback a s2)\<lparr>installed := Some a\<rparr>))
         else if leading p \<and> \<not> r
         then arm_longest_wait p
                (start_delay Rest (wait_time p) (s2\<lparr>hasPendingCallback := True, installed := Some a\<rparr>))
         else arm_longest_wait p
                (start_delay (Flush a) (wait_time p) (s2\<lparr>hasPendingCallback := True, installed := Some a\<rparr>)))"

definition flush_debounced :: "'a debounced \<Rightarrow> 'a debounced" where
  "flush_debounced s = (case installed s of Some a \<Rightarrow> flush_with a s | None \<Rightarrow> s)"

definition cancel_debounced :: "'a debounced \<Rightarrow> 'a debounced" where
  "cancel_debounced s =
     (case installed s of
        Some _ \<Rightarrow> (end_burst s)\<lparr>happened := happened s @ [Cancelled]\<rparr>
      | None \<Rightarrow> s)"

definition is_pending :: "'a debounced \<Rightarrow> bool" where
  "is_pending s = hasPendingCallback s"

definition unmount_debounced :: "debounce_options \<Rightarrow> 'a debounced \<Rightarrow> 'a debounced" where
  "unmount_debounced p s = (if flushOnUnmount p then flush_debounced s else cancel_debounced s)"

definition run_deferred :: "'a deferred \<Rightarrow> 'a debounced \<Rightarrow> 'a debounced" where
  "run_deferred d s =
     (case d of
        Rest \<Rightarrow> end_burst s
      | Flush a \<Rightarrow> flush_with a s
      | Longest_wait \<Rightarrow>
          if delay_ref s \<noteq> 0
          then (case latest s of Some a \<Rightarrow> run_callback a (end_burst s) | None \<Rightarrow> end_burst s)
          else s)"

definition fire_timeout :: "'a timeout \<Rightarrow> 'a debounced \<Rightarrow> 'a debounced" where
  "fire_timeout t s = run_deferred (deferred t) (clear_handle (handle t) s)"

inductive debounce_step :: "debounce_options \<Rightarrow> 'a debounced \<Rightarrow> 'a debounced \<Rightarrow> bool" for p where
  called: "debounce_step p s (call_debounced p a s)"
| flushed: "debounce_step p s (flush_debounced s)"
| cancelled: "debounce_step p s (cancel_debounced s)"
| unmounted: "debounce_step p s (unmount_debounced p s)"
| fired: "t \<in> set (timeouts s) \<Longrightarrow> due t \<le> clock s \<Longrightarrow> debounce_step p s (fire_timeout t s)"
| passed: "debounce_step p s (s\<lparr>clock := clock s + n\<rparr>)"

end
