(* ===== verification/Scroll_Area.thy ===== *)
theory Scroll_Area
  imports Debounced_Callback Css_Style Js_Values
begin

text \<open>
  The scroll area around the options of the console's drop-downs: Mantine's \<open>ScrollArea\<close> as bundled into
  \<open>app.js\<close> (lines 2956 to 3451 and 4752 to 4912). A scroll bar measures the page, places a thumb, scrolls
  by dragging it, and is shown by its type: always, while something overflows, while the pointer is in the
  area, or while it scrolls. Lengths are real numbers; a content of no length has a viewport of no length.
  What the browser measures is passed in, and what the components do to it is in the states below.
\<close>

subsection \<open>Measures\<close>

record bar_measure =
  bar_size :: real
  paddingStart :: real
  paddingEnd :: real

record sizes =
  content :: real
  viewport :: real
  scrollbar :: bar_measure

definition no_sizes :: sizes where
  "no_sizes = \<lparr>content = 0, viewport = 0, scrollbar = \<lparr>bar_size = 0, paddingStart = 0, paddingEnd = 0\<rparr>\<rparr>"

datatype text_direction = Ltr | Rtl

definition paddings :: "sizes \<Rightarrow> real" where
  "paddings e = paddingStart (scrollbar e) + paddingEnd (scrollbar e)"

definition get_thumb_ratio :: "real \<Rightarrow> real \<Rightarrow> real" where
  "get_thumb_ratio e t = (if t = 0 then 0 else e / t)"

definition get_thumb_size :: "sizes \<Rightarrow> real" where
  "get_thumb_size e = max ((bar_size (scrollbar e) - paddings e) * get_thumb_ratio (viewport e) (content e)) 18"

definition linear_scale :: "real \<times> real \<Rightarrow> real \<times> real \<Rightarrow> real \<Rightarrow> real" where
  "linear_scale e t n =
     (if fst e = snd e \<or> fst t = snd t then fst t
      else fst t + (snd t - fst t) / (snd e - fst e) * (n - fst e))"

definition clamp_between :: "real \<Rightarrow> real \<times> real \<Rightarrow> real" where
  "clamp_between e tn = min (snd tn) (max (fst tn) e)"

definition scroll_range :: "sizes \<Rightarrow> text_direction \<Rightarrow> real \<times> real" where
  "scroll_range t n = (let o' = content t - viewport t in if n = Ltr then (0, o') else (o' * - 1, 0))"

definition get_thumb_offset :: "real \<Rightarrow> sizes \<Rightarrow> text_direction \<Rightarrow> real" where
  "get_thumb_offset e t n =
     linear_scale (0, content t - viewport t) (0, bar_size (scrollbar t) - paddings t - get_thumb_size t)
       (clamp_between e (scroll_range t n))"

text \<open>A pointer offset of 0 counts as none, and the middle of the thumb is taken.\<close>

definition get_scroll_position :: "real \<Rightarrow> real \<Rightarrow> sizes \<Rightarrow> text_direction \<Rightarrow> real" where
  "get_scroll_position e t n r =
     (let i = get_thumb_size n;
          o' = (if t \<noteq> 0 then t else i / 2);
          s = i - o'
      in linear_scale (paddingStart (scrollbar n) + o', bar_size (scrollbar n) - paddingEnd (scrollbar n) - s)
           (scroll_range n r) e)"

definition is_scrolling_within :: "real \<Rightarrow> real \<Rightarrow> bool" where
  "is_scrolling_within e t = (0 < e \<and> e < t)"

text \<open>\<open>parseInt(e, 10)\<close> of a length of a computed style, whose digits come first; \<open>None\<close> is \<open>NaN\<close>.\<close>

definition to_int :: "string \<Rightarrow> nat option" where
  "to_int e = (if e = [] then Some 0
     else let d = takeWhile is_digit e in if d = [] then None else Some (nat_value d))"

text \<open>What a bar reads of the page when it or the content is resized, for either orientation.\<close>

definition measured :: "nat \<Rightarrow> nat \<Rightarrow> nat \<Rightarrow> string \<Rightarrow> string \<Rightarrow> sizes option" where
  "measured scroll_length offset_length client_length padding_start padding_end =
     (case (to_int padding_start, to_int padding_end) of
        (Some a, Some b) \<Rightarrow>
          Some \<lparr>content = real scroll_length, viewport = real offset_length,
                scrollbar = \<lparr>bar_size = real client_length, paddingStart = real a, paddingEnd = real b\<rparr>\<rparr>
      | _ \<Rightarrow> None)"

definition has_thumb :: "sizes \<Rightarrow> bool" where
  "has_thumb s = (let l = get_thumb_ratio (viewport s) (content s) in 0 < l \<and> l < 1)"

subsection \<open>A bar and its thumb\<close>

datatype orientation = Horizontal | Vertical

text \<open>
  The state and refs of \<open>ScrollAreaScrollbarVisible\<close> and \<open>Scrollbar\<close>, with what they set on the page:
  the viewport's scroll position, the thumb's translation and opacity and the body's text selection.
\<close>

record bar_state =
  sizes_of :: sizes
  pointer_at :: real
  grabbed :: "(real \<times> real) option"
  saved_select :: string
  captured :: bool
  position :: real
  thumb_at :: real
  thumb_opacity :: bool
  body_select :: string

record pointer_event =
  clientX :: real
  clientY :: real
  main_button :: bool

definition along :: "orientation \<Rightarrow> real \<times> real \<Rightarrow> real" where
  "along r xy = (if r = Horizontal then fst xy else snd xy)"

text \<open>Only a horizontal bar follows the direction of the text.\<close>

definition bar_dir :: "orientation \<Rightarrow> text_direction \<Rightarrow> text_direction" where
  "bar_dir r d = (if r = Horizontal then d else Ltr)"

text \<open>The browser keeps an assigned scroll position within what can be scrolled.\<close>

definition assign_scroll :: "orientation \<Rightarrow> text_direction \<Rightarrow> real \<Rightarrow> bar_state \<Rightarrow> bar_state" where
  "assign_scroll r d x s = s\<lparr>position := clamp_between x (scroll_range (sizes_of s) (bar_dir r d))\<rparr>"

definition on_thumb_position_change :: "orientation \<Rightarrow> text_direction \<Rightarrow> bar_state \<Rightarrow> bar_state" where
  "on_thumb_position_change r d s =
     (let t = get_thumb_offset (position s) (sizes_of s) (bar_dir r d) in
      if r = Horizontal then s\<lparr>thumb_at := t\<rparr>
      else s\<lparr>thumb_opacity := (bar_size (scrollbar (sizes_of s)) \<noteq> 0), thumb_at := t\<rparr>)"

definition on_drag_scroll :: "orientation \<Rightarrow> text_direction \<Rightarrow> real \<times> real \<Rightarrow> bar_state \<Rightarrow> bar_state" where
  "on_drag_scroll r d xy s =
     assign_scroll r d (get_scroll_position (along r xy) (pointer_at s) (sizes_of s) (bar_dir r d)) s"

definition drag_scroll :: "orientation \<Rightarrow> text_direction \<Rightarrow> pointer_event \<Rightarrow> bar_state \<Rightarrow> bar_state" where
  "drag_scroll r d e s =
     (case grabbed s of
        Some (x, y) \<Rightarrow> on_drag_scroll r d (clientX e - x, clientY e - y) s
      | None \<Rightarrow> s)"

text \<open>The thumb's handler runs while the event goes down, the bar's when it comes up.\<close>

definition on_thumb_pointer_down ::
  "orientation \<Rightarrow> real \<times> real \<Rightarrow> pointer_event \<Rightarrow> bar_state \<Rightarrow> bar_state" where
  "on_thumb_pointer_down r corner e s =
     s\<lparr>pointer_at := along r (clientX e - fst corner, clientY e - snd corner)\<rparr>"

definition on_thumb_pointer_up :: "bar_state \<Rightarrow> bar_state" where
  "on_thumb_pointer_up s = s\<lparr>pointer_at := 0\<rparr>"

definition on_pointer_down ::
  "orientation \<Rightarrow> text_direction \<Rightarrow> real \<times> real \<Rightarrow> pointer_event \<Rightarrow> bar_state \<Rightarrow> bar_state" where
  "on_pointer_down r d corner e s =
     (if main_button e
      then drag_scroll r d e
             (s\<lparr>captured := True, grabbed := Some corner, saved_select := body_select s, body_select := ''none''\<rparr>)
      else s)"

definition on_pointer_up :: "bar_state \<Rightarrow> bar_state" where
  "on_pointer_up s = (if captured s then s\<lparr>captured := False\<rparr> else s)"

definition on_lost_pointer_capture :: "bar_state \<Rightarrow> bar_state" where
  "on_lost_pointer_capture s = s\<lparr>body_select := saved_select s, grabbed := None\<rparr>"

text \<open>A turn of the wheel over the bar; the page itself scrolls only if the position is at an end.\<close>

definition on_wheel_scroll :: "orientation \<Rightarrow> text_direction \<Rightarrow> real \<Rightarrow> bar_state \<Rightarrow> bar_state \<times> bool" where
  "on_wheel_scroll r d delta s =
     (let x = position s + delta in
      (assign_scroll r d x s, is_scrolling_within x (content (sizes_of s) - viewport (sizes_of s))))"

end
