(* ===== verification/Scroll_Visibility.thy ===== *)
theory Scroll_Visibility
  imports Scroll_Area Mantine_Units
begin

text \<open>
  When the scroll bars of Mantine's \<open>ScrollArea\<close> are shown and redrawn, and what the scroll area around
  them sets (lines 2958 to 3031, 3278 to 3451 and 4752 to 4912 of \<open>app.js\<close>). A bar is a state machine of
  the pointer, the scroll events and its timeouts; a change of its state is rendered, and its effects have
  run, before the next event. In a rendering update the browser delivers the scroll event first and runs
  the animation frames after it, as it documents.
\<close>

subsection \<open>What overflows\<close>

text \<open>\<open>ScrollAreaScrollbarAuto\<close>, ten milliseconds after the last change of size.\<close>

definition overflow_options :: debounce_options where
  "overflow_options = \<lparr>wait_time = 10, flushOnUnmount = False, leading = False, maxWait = None\<rparr>"

definition overflows :: "orientation \<Rightarrow> nat \<times> nat \<Rightarrow> nat \<times> nat \<Rightarrow> bool" where
  "overflows r width height =
     (if r = Horizontal then fst width < snd width else fst height < snd height)"

subsection \<open>Shown while it scrolls\<close>

datatype scroll_status = Hidden | Scrolling | Interacting | Idle

record scroll_bar =
  status :: scroll_status
  seen_position :: real
  idle_call :: "unit debounced"
  hide_due :: "nat option"
  pointer_on :: bool

definition idle_options :: debounce_options where
  "idle_options = \<lparr>wait_time = 100, flushOnUnmount = False, leading = False, maxWait = None\<rparr>"

definition new_scroll_bar :: "real \<Rightarrow> nat \<Rightarrow> scroll_bar" where
  "new_scroll_bar x now =
     \<lparr>status = Hidden, seen_position = x, idle_call = new_debounced now, hide_due = None, pointer_on = False\<rparr>"

text \<open>A new state clears the timeout of the old one, and \<open>idle\<close> sets one.\<close>

definition set_status :: "nat \<Rightarrow> scroll_status \<Rightarrow> scroll_bar \<Rightarrow> scroll_bar" where
  "set_status hide_delay a s =
     (if a = status s then s
      else s\<lparr>status := a,
             hide_due := (if a = Idle then Some (clock (idle_call s) + hide_delay) else None)\<rparr>)"

definition on_scroll_event :: "nat \<Rightarrow> real \<Rightarrow> scroll_bar \<Rightarrow> scroll_bar" where
  "on_scroll_event hide_delay x s =
     (if seen_position s \<noteq> x
      then (let s1 = set_status hide_delay Scrolling s
            in s1\<lparr>idle_call := call_debounced idle_options () (idle_call s1), seen_position := x\<rparr>)
      else s)"

definition on_pointer_enter :: "nat \<Rightarrow> scroll_bar \<Rightarrow> scroll_bar" where
  "on_pointer_enter hide_delay s = (set_status hide_delay Interacting s)\<lparr>pointer_on := True\<rparr>"

definition on_pointer_leave :: "nat \<Rightarrow> scroll_bar \<Rightarrow> scroll_bar" where
  "on_pointer_leave hide_delay s = (set_status hide_delay Idle s)\<lparr>pointer_on := False\<rparr>"

definition fire_idle :: "nat \<Rightarrow> unit timeout \<Rightarrow> scroll_bar \<Rightarrow> scroll_bar" where
  "fire_idle hide_delay t s =
     (let d = fire_timeout t (idle_call s); s1 = s\<lparr>idle_call := d\<rparr>
      in if length (filter is_Ran (happened (idle_call s))) < length (filter is_Ran (happened d))
         then set_status hide_delay Idle s1 else s1)"

definition fire_hide :: "nat \<Rightarrow> scroll_bar \<Rightarrow> scroll_bar" where
  "fire_hide hide_delay s = set_status hide_delay Hidden (s\<lparr>hide_due := None\<rparr>)"

inductive scroll_bar_step :: "nat \<Rightarrow> scroll_bar \<Rightarrow> scroll_bar \<Rightarrow> bool" for n where
  scrolled: "scroll_bar_step n s (on_scroll_event n x s)"
| entered: "\<not> pointer_on s \<Longrightarrow> scroll_bar_step n s (on_pointer_enter n s)"
| left: "pointer_on s \<Longrightarrow> scroll_bar_step n s (on_pointer_leave n s)"
| fell_idle: "t \<in> set (timeouts (idle_call s)) \<Longrightarrow> due t \<le> clock (idle_call s) \<Longrightarrow>
    scroll_bar_step n s (fire_idle n t s)"
| hid: "hide_due s = Some d \<Longrightarrow> d \<le> clock (idle_call s) \<Longrightarrow> scroll_bar_step n s (fire_hide n s)"
| waited: "scroll_bar_step n s (s\<lparr>idle_call := (idle_call s)\<lparr>clock := clock (idle_call s) + k\<rparr>\<rparr>)"

subsection \<open>Shown while the pointer is in the area\<close>

record hover_bar =
  hovered :: bool
  leave_ref :: nat
  leave_timeouts :: "(nat \<times> nat) list"
  next_handle :: nat
  hover_clock :: nat
  pointer_in :: bool

definition new_hover_bar :: "nat \<Rightarrow> hover_bar" where
  "new_hover_bar now =
     \<lparr>hovered = False, leave_ref = 0, leave_timeouts = [], next_handle = 1, hover_clock = now, pointer_in = False\<rparr>"

definition enter_area :: "hover_bar \<Rightarrow> hover_bar" where
  "enter_area s =
     s\<lparr>leave_timeouts := filter (\<lambda>t. fst t \<noteq> leave_ref s) (leave_timeouts s), hovered := True, pointer_in := True\<rparr>"

definition leave_area :: "nat \<Rightarrow> hover_bar \<Rightarrow> hover_bar" where
  "leave_area hide_delay s =
     s\<lparr>leave_timeouts := leave_timeouts s @ [(next_handle s, hover_clock s + hide_delay)],
       leave_ref := next_handle s, next_handle := next_handle s + 1, pointer_in := False\<rparr>"

definition fire_leave :: "nat \<times> nat \<Rightarrow> hover_bar \<Rightarrow> hover_bar" where
  "fire_leave t s =
     s\<lparr>leave_timeouts := filter (\<lambda>u. fst u \<noteq> fst t) (leave_timeouts s), hovered := False\<rparr>"

inductive hover_step :: "nat \<Rightarrow> hover_bar \<Rightarrow> hover_bar \<Rightarrow> bool" for n where
  came_in: "\<not> pointer_in s \<Longrightarrow> hover_step n s (enter_area s)"
| went_out: "pointer_in s \<Longrightarrow> hover_step n s (leave_area n s)"
| timed_out: "t \<in> set (leave_timeouts s) \<Longrightarrow> snd t \<le> hover_clock s \<Longrightarrow> hover_step n s (fire_leave t s)"
| hover_waited: "hover_step n s (s\<lparr>hover_clock := hover_clock s + k\<rparr>)"

subsection \<open>The bar that is rendered\<close>

text \<open>No bar, one whose \<open>data-state\<close> is \<open>visible\<close> or \<open>hidden\<close>, or one that has no such mark.\<close>

datatype bar_view = No_bar | Bar bool | Unmarked_bar

datatype bar_type = Hover | Scroll | Auto | Always

text \<open>A \<open>data-state\<close> that was given goes before the own one.\<close>

definition auto_bar :: "bool \<Rightarrow> bool option \<Rightarrow> bool \<Rightarrow> bar_view" where
  "auto_bar force given over =
     (if force \<or> over then Bar (case given of Some v \<Rightarrow> v | None \<Rightarrow> over) else No_bar)"

definition hover_bar_view :: "bool \<Rightarrow> bool \<Rightarrow> bool \<Rightarrow> bar_view" where
  "hover_bar_view force h over = (if force \<or> h then auto_bar False (Some h) over else No_bar)"

definition scroll_bar_view :: "bool \<Rightarrow> scroll_status \<Rightarrow> bar_view" where
  "scroll_bar_view force a = (if force \<or> a \<noteq> Hidden then Bar (a \<noteq> Hidden) else No_bar)"

definition rendered_bar :: "bar_type \<Rightarrow> bool \<Rightarrow> bool \<Rightarrow> scroll_status \<Rightarrow> bool \<Rightarrow> bar_view" where
  "rendered_bar ty force h a over =
     (case ty of
        Hover \<Rightarrow> hover_bar_view force h over
      | Scroll \<Rightarrow> scroll_bar_view force a
      | Auto \<Rightarrow> auto_bar force None over
      | Always \<Rightarrow> Unmarked_bar)"

definition thumb_view :: "bool \<Rightarrow> bool \<Rightarrow> bar_view" where
  "thumb_view force has = (if force \<or> has then Bar has else No_bar)"

subsection \<open>The thumb follows the page\<close>

text \<open>
  \<open>addUnlinkedScrollListener\<close> looks at the page in every animation frame from a scroll event until none
  has come for 100 milliseconds. \<open>listening\<close> is the position it saw last; a frame is then always asked for.
\<close>

record thumb_state =
  bar_of :: bar_state
  listening :: "real option"
  stop_call :: "unit debounced"
  event_due :: bool

definition stop_options :: debounce_options where
  "stop_options = \<lparr>wait_time = 100, flushOnUnmount = False, leading = False, maxWait = None\<rparr>"

definition draw_thumb :: "orientation \<Rightarrow> text_direction \<Rightarrow> thumb_state \<Rightarrow> thumb_state" where
  "draw_thumb r d s = s\<lparr>bar_of := on_thumb_position_change r d (bar_of s)\<rparr>"

text \<open>The effect that starts with the viewport draws at once.\<close>

definition new_thumb :: "orientation \<Rightarrow> text_direction \<Rightarrow> bar_state \<Rightarrow> nat \<Rightarrow> thumb_state" where
  "new_thumb r d b now =
     draw_thumb r d \<lparr>bar_of = b, listening = None, stop_call = new_debounced now, event_due = False\<rparr>"

definition on_thumb_scroll :: "orientation \<Rightarrow> text_direction \<Rightarrow> thumb_state \<Rightarrow> thumb_state" where
  "on_thumb_scroll r d s =
     (let s1 = s\<lparr>stop_call := call_debounced stop_options () (stop_call s)\<rparr>
      in if listening s1 = None
         then draw_thumb r d (s1\<lparr>listening := Some (position (bar_of s1))\<rparr>)
         else s1)"

definition on_thumb_frame :: "orientation \<Rightarrow> text_direction \<Rightarrow> thumb_state \<Rightarrow> thumb_state" where
  "on_thumb_frame r d s =
     (case listening s of
        Some n \<Rightarrow>
          (let a = position (bar_of s); s1 = (if n \<noteq> a then draw_thumb r d s else s) in s1\<lparr>listening := Some a\<rparr>)
      | None \<Rightarrow> s)"

definition rendering_update :: "orientation \<Rightarrow> text_direction \<Rightarrow> thumb_state \<Rightarrow> thumb_state" where
  "rendering_update r d s =
     on_thumb_frame r d (if event_due s then (on_thumb_scroll r d s)\<lparr>event_due := False\<rparr> else s)"

definition fire_stop :: "unit timeout \<Rightarrow> thumb_state \<Rightarrow> thumb_state" where
  "fire_stop t s =
     (let d = fire_timeout t (stop_call s); s1 = s\<lparr>stop_call := d\<rparr>
      in if length (filter is_Ran (happened (stop_call s))) < length (filter is_Ran (happened d))
         then s1\<lparr>listening := None\<rparr> else s1)"

definition scroll_page :: "real \<Rightarrow> thumb_state \<Rightarrow> thumb_state" where
  "scroll_page x s = s\<lparr>bar_of := (bar_of s)\<lparr>position := x\<rparr>, event_due := True\<rparr>"

text \<open>New measures draw the thumb at once.\<close>

definition on_sizes_change :: "orientation \<Rightarrow> text_direction \<Rightarrow> sizes \<Rightarrow> thumb_state \<Rightarrow> thumb_state" where
  "on_sizes_change r d z s = draw_thumb r d (s\<lparr>bar_of := (bar_of s)\<lparr>sizes_of := z\<rparr>\<rparr>)"

inductive thumb_step :: "orientation \<Rightarrow> text_direction \<Rightarrow> thumb_state \<Rightarrow> thumb_state \<Rightarrow> bool" for r d where
  page_scrolled: "thumb_step r d s (scroll_page x s)"
| page_rendered: "thumb_step r d s (rendering_update r d s)"
| stopped: "t \<in> set (timeouts (stop_call s)) \<Longrightarrow> due t \<le> clock (stop_call s) \<Longrightarrow> thumb_step r d s (fire_stop t s)"
| resized: "\<not> event_due s \<Longrightarrow> thumb_step r d s (on_sizes_change r d z s)"
| thumb_waited: "thumb_step r d s (s\<lparr>stop_call := (stop_call s)\<lparr>clock := clock (stop_call s) + k\<rparr>\<rparr>)"

subsection \<open>The scroll area\<close>

datatype bars = No_bars | Only_x | Only_y | Both

text \<open>The corner between two bars.\<close>

definition corner_size :: "bar_type \<Rightarrow> bool \<Rightarrow> bool \<Rightarrow> nat \<Rightarrow> nat \<Rightarrow> (nat \<times> nat) option" where
  "corner_size ty has_x has_y width height =
     (if ty \<noteq> Scroll \<and> has_x \<and> has_y \<and> width \<noteq> 0 \<and> height \<noteq> 0 then Some (width, height) else None)"

definition root_vars :: "bars \<Rightarrow> nat \<Rightarrow> nat \<Rightarrow> (string, string) js_map" where
  "root_vars b width height =
     [(''--sa-corner-width'', if b = Both then show_nat width @ ''px'' else ''0px''),
      (''--sa-corner-height'', if b = Both then show_nat height @ ''px'' else ''0px'')]"

definition area_vars :: "json option \<Rightarrow> string option \<Rightarrow> bars \<Rightarrow> (string, json option) js_map" where
  "area_vars sz over b =
     [(''--scrollarea-scrollbar-size'', rem sz),
      (''--scrollarea-over-scroll-behavior'',
       map_option (\<lambda>n. JStr (if n \<noteq> [] \<and> b = Only_x then n @ '' auto''
                            else if n \<noteq> [] \<and> b = Only_y then ''auto '' @ n else n)) over)]"

definition viewport_overflow :: "bool \<Rightarrow> bool \<Rightarrow> css" where
  "viewport_overflow x y =
     [(''overflowX'', Css_text (if x then ''scroll'' else ''hidden'')),
      (''overflowY'', Css_text (if y then ''scroll'' else ''hidden''))]"

text \<open>A sideways turn of the wheel at the top or the bottom is kept from the page.\<close>

record page_measure =
  scrollTop :: real
  scrollLeft :: real
  scrollHeight :: real
  clientHeight :: real
  scrollWidth :: real
  clientWidth :: real

definition stops_wheel :: "bool \<Rightarrow> bool \<Rightarrow> page_measure \<Rightarrow> bool" where
  "stops_wheel x_enabled shift e =
     (x_enabled \<and> shift \<and> clientWidth e < scrollWidth e \<and>
      (scrollTop e < 1 \<or> scrollHeight e - clientHeight e - 1 \<le> scrollTop e))"

text \<open>The ends that were reached by the last scroll event, and the callbacks a new event calls.\<close>

record reached =
  at_top :: bool
  at_bottom :: bool
  at_left :: bool
  at_right :: bool

datatype reached_end = Bottom_reached | Top_reached | Right_reached | Left_reached

definition initially_reached :: reached where
  "initially_reached = \<lparr>at_top = True, at_bottom = False, at_left = True, at_right = False\<rparr>"

definition on_area_scroll :: "page_measure \<Rightarrow> reached \<Rightarrow> reached \<times> reached_end list" where
  "on_area_scroll e s =
     (let b = - (8 / 10) \<le> scrollTop e - (scrollHeight e - clientHeight e);
          t = (scrollTop e = 0);
          r = - (8 / 10) \<le> scrollLeft e - (scrollWidth e - clientWidth e);
          l = (scrollLeft e = 0)
      in (\<lparr>at_top = t, at_bottom = b, at_left = l, at_right = r\<rparr>,
          (if b \<and> \<not> at_bottom s then [Bottom_reached] else []) @ (if t \<and> \<not> at_top s then [Top_reached] else []) @
          (if r \<and> \<not> at_right s then [Right_reached] else []) @ (if l \<and> \<not> at_left s then [Left_reached] else [])))"

text \<open>Which bars and parts are rendered, and which are marked as hidden.\<close>

datatype offset_bars = Offset_no | Offset_all | Offset_axis string | Offset_present

record area_view =
  has_x_bar :: bool
  has_y_bar :: bool
  x_bar_hidden :: bool
  y_bar_hidden :: bool
  offset_attribute :: "string option"
  x_offset_hidden :: bool
  y_offset_hidden :: bool

definition render_area :: "bool \<Rightarrow> bars \<Rightarrow> offset_bars \<Rightarrow> bool \<Rightarrow> bool \<Rightarrow> area_view" where
  "render_area never b off overflow_x overflow_y =
     \<lparr>has_x_bar = (b \<in> {Both, Only_x}), has_y_bar = (b \<in> {Both, Only_y}),
      x_bar_hidden = (never \<or> off = Offset_present \<and> \<not> overflow_x),
      y_bar_hidden = (never \<or> off = Offset_present \<and> \<not> overflow_y),
      offset_attribute = (case off of Offset_all \<Rightarrow> Some ''xy'' | Offset_axis a \<Rightarrow> (if a = [] then None else Some a)
                                  | Offset_present \<Rightarrow> Some ''present'' | Offset_no \<Rightarrow> None),
      x_offset_hidden = (off = Offset_present \<and> \<not> overflow_x),
      y_offset_hidden = (off = Offset_present \<and> \<not> overflow_y)\<rparr>"

definition autosize_style :: "bars \<Rightarrow> css" where
  "autosize_style b =
     [(''display'', Css_text ''flex''), (''flexDirection'', Css_text ''column''), (''flex'', Css_number 1),
      (''overflow'', Css_text ''hidden'')] @
     (case b of
        Only_y \<Rightarrow> [(''minWidth'', Css_number 0)]
      | Only_x \<Rightarrow> [(''minHeight'', Css_number 0)]
      | _ \<Rightarrow> [(''minWidth'', Css_number 0), (''minHeight'', Css_number 0)])"

text \<open>\<open>onOverflowChange\<close>: the refs \<open>O\<close> and \<open>k\<close>, and what is reported.\<close>

record overflow_refs =
  was_over :: bool
  reported :: bool

definition on_autosize :: "bool \<Rightarrow> overflow_refs \<Rightarrow> overflow_refs \<times> bool list" where
  "on_autosize t s =
     (if t \<noteq> was_over s
      then (if reported s then (s\<lparr>was_over := t\<rparr>, [t])
            else (s\<lparr>reported := True, was_over := t\<rparr>, if t then [True] else []))
      else (s, []))"

end
