(* ===== verification/Debounced_Properties.thy ===== *)
theory Debounced_Properties
  imports Debounced_Callback
begin

text \<open>
  What a debounced function promises while it does not call at the leading edge: of a burst of calls it
  owes one run with the last arguments, and a timeout that is due in time pays it.
\<close>

subsection \<open>Bursts\<close>

text \<open>The burst that is going on: when it began, its last arguments and when they came.\<close>

type_synonym 'a burst = "(nat \<times> 'a \<times> nat) option"

definition note_happening :: "'a happening \<Rightarrow> 'a burst \<Rightarrow> 'a burst" where
  "note_happening e b =
     (case e of
        Called a t \<Rightarrow> Some (case b of Some (f, _) \<Rightarrow> f | None \<Rightarrow> t, a, t)
      | _ \<Rightarrow> None)"

definition burst_of :: "'a happening list \<Rightarrow> 'a burst" where
  "burst_of h = fold note_happening h None"

text \<open>The callback only ever runs to end a burst, with the last arguments of that burst.\<close>

definition owed_run :: "'a happening list \<Rightarrow> 'a happening \<Rightarrow> bool" where
  "owed_run h e =
     (case e of
        Ran a _ \<Rightarrow> (case burst_of h of Some (_, x, _) \<Rightarrow> x = a | None \<Rightarrow> False)
      | _ \<Rightarrow> True)"

definition runs_owed :: "'a happening list \<Rightarrow> bool" where
  "runs_owed h \<longleftrightarrow> (\<forall>k<length h. owed_run (take k h) (h ! k))"

lemma burst_of_Nil [simp]: "burst_of [] = None"
  by (simp add: burst_of_def)

lemma burst_of_snoc [simp]: "burst_of (h @ [e]) = note_happening e (burst_of h)"
  by (simp add: burst_of_def)

lemma note_happening_simps [simp]:
  "note_happening (Called a t) None = Some (t, a, t)"
  "note_happening (Called a t) (Some (f, y)) = Some (f, a, t)"
  "note_happening (Ran a t) b = None"
  "note_happening Cancelled b = None"
  by (simp_all add: note_happening_def)

lemma runs_owed_Nil [simp]: "runs_owed []"
  by (simp add: runs_owed_def)

lemma owed_run_simps [simp]:
  "owed_run h (Called a t)" "owed_run h Cancelled"
  "owed_run h (Ran a t) \<longleftrightarrow> (\<exists>f l. burst_of h = Some (f, a, l))"
  by (auto simp: owed_run_def split: option.split)

lemma runs_owed_snoc [simp]: "runs_owed (h @ [e]) \<longleftrightarrow> runs_owed h \<and> owed_run h e"
  unfolding runs_owed_def length_append_singleton All_less_Suc
  by (auto simp: nth_append)

subsection \<open>The invariant\<close>

text \<open>The timeouts of a burst: one for the pause, and one for the longest wait where there is one.\<close>

definition burst_timeouts :: "debounce_options \<Rightarrow> 'a debounced \<Rightarrow> nat \<times> 'a \<times> nat \<Rightarrow> 'a timeout set" where
  "burst_timeouts p s fal =
     (case fal of (f, a, l) \<Rightarrow>
        insert \<lparr>handle = delay_ref s, due = l + wait_time p, deferred = Flush a\<rparr>
          (case maxWait p of
             Some m \<Rightarrow> {\<lparr>handle = max_ref s, due = f + m, deferred = Longest_wait\<rparr>} | None \<Rightarrow> {}))"

definition quiet :: "'a debounced \<Rightarrow> bool" where
  "quiet s \<longleftrightarrow> timeouts s = [] \<and> delay_ref s = 0 \<and> max_ref s = 0 \<and> \<not> hasPendingCallback s"

definition in_burst :: "debounce_options \<Rightarrow> 'a debounced \<Rightarrow> nat \<times> 'a \<times> nat \<Rightarrow> bool" where
  "in_burst p s fal \<longleftrightarrow>
     set (timeouts s) = burst_timeouts p s fal \<and> hasPendingCallback s \<and>
     latest s = Some (fst (snd fal)) \<and> installed s = Some (fst (snd fal)) \<and>
     0 < delay_ref s \<and> delay_ref s < fresh s \<and> max_ref s < fresh s \<and> delay_ref s \<noteq> max_ref s \<and>
     (maxWait p = None \<longleftrightarrow> max_ref s = 0)"

definition debounce_inv :: "debounce_options \<Rightarrow> 'a debounced \<Rightarrow> bool" where
  "debounce_inv p s \<longleftrightarrow>
     runs_owed (happened s) \<and> 0 < fresh s \<and>
     (case burst_of (happened s) of None \<Rightarrow> quiet s | Some fal \<Rightarrow> in_burst p s fal)"

named_theorems debounce_defs \<open>operations of a debounced function\<close>

lemmas [debounce_defs] = clear_handle_def start_timeout_def start_delay_def run_callback_def end_burst_def
  arm_longest_wait_def flush_with_def fire_timeout_def run_deferred_def

lemma debounce_inv_new: "debounce_inv p (new_debounced now)"
  by (simp add: debounce_inv_def new_debounced_def quiet_def)

lemma in_burst_timeouts:
  "in_burst p s (f, a, l) \<Longrightarrow> t \<in> set (timeouts s) \<longleftrightarrow>
     t = \<lparr>handle = delay_ref s, due = l + wait_time p, deferred = Flush a\<rparr> \<or>
     (\<exists>m. maxWait p = Some m \<and> t = \<lparr>handle = max_ref s, due = f + m, deferred = Longest_wait\<rparr>)"
  by (auto simp: in_burst_def burst_timeouts_def split: option.splits)

text \<open>The end of a burst leaves no timeout behind.\<close>

lemma end_burst_quiet: "in_burst p s fal \<Longrightarrow> quiet (end_burst s)"
  by (cases fal) (auto simp: quiet_def end_burst_def clear_handle_def in_burst_def burst_timeouts_def
      filter_empty_conv split: option.splits)

lemma end_burst_fields [simp]:
  "happened (end_burst s) = happened s" "fresh (end_burst s) = fresh s" "clock (end_burst s) = clock s"
  "installed (end_burst s) = installed s"
  by (simp_all add: end_burst_def clear_handle_def)

lemma quiet_run [simp]: "quiet (run_callback a s) = quiet s" "quiet (s\<lparr>happened := h\<rparr>) = quiet s"
  by (simp_all add: quiet_def run_callback_def)

lemma run_callback_fields [simp]:
  "happened (run_callback a s) = happened s @ [Ran a (clock s)]" "fresh (run_callback a s) = fresh s"
  by (simp_all add: run_callback_def)

lemma debounce_inv_run:
  assumes "debounce_inv p s" "burst_of (happened s) = Some (f, a, l)"
  shows "debounce_inv p (run_callback a (end_burst s))"
  using assms end_burst_quiet [of p s "(f, a, l)"] by (simp add: debounce_inv_def)

text \<open>A call begins a burst or goes on with it, and sets the timeout for the pause anew.\<close>

lemma call_begins:
  assumes "quiet s" "0 < fresh s" "\<not> leading p"
  shows "in_burst p (call_debounced p a s) (clock s, a, clock s)"
  using assms
  by (cases "maxWait p") (simp_all add: call_debounced_def debounce_defs quiet_def in_burst_def burst_timeouts_def Let_def)

lemma call_goes_on:
  assumes "in_burst p s (f, b, l)" "\<not> leading p"
  shows "in_burst p (call_debounced p a s) (f, a, clock s)"
proof (cases "maxWait p")
  case None
  with assms show ?thesis
    by (simp add: call_debounced_def debounce_defs in_burst_def burst_timeouts_def Let_def)
next
  case (Some m)
  let ?d = "\<lparr>handle = delay_ref s, due = l + wait_time p, deferred = Flush b\<rparr>"
  let ?m = "\<lparr>handle = max_ref s, due = f + m, deferred = Longest_wait\<rparr>"
  have "set (timeouts s) = {?d, ?m}" "delay_ref s \<noteq> max_ref s"
    using assms(1) Some by (simp_all add: in_burst_def burst_timeouts_def)
  then have "set (filter (\<lambda>t. handle t \<noteq> delay_ref s) (timeouts s)) = {?m}"
    unfolding set_filter by force
  with Some assms show ?thesis
    by (simp add: call_debounced_def debounce_defs in_burst_def burst_timeouts_def Let_def)
qed

lemma call_fields [simp]:
  "\<not> leading p \<Longrightarrow> happened (call_debounced p a s) = happened s @ [Called a (clock s)]"
  "fresh s \<le> fresh (call_debounced p a s)"
  by (simp_all add: call_debounced_def debounce_defs Let_def split: option.split)

lemma debounce_inv_call:
  assumes "debounce_inv p s" "\<not> leading p"
  shows "debounce_inv p (call_debounced p a s)"
proof -
  have "0 < fresh (call_debounced p a s)"
    using assms(1) call_fields(2) [of s p a] by (simp only: debounce_inv_def) linarith
  with assms show ?thesis
    by (cases "burst_of (happened s)") (auto simp: debounce_inv_def intro: call_begins call_goes_on)
qed

lemma debounce_inv_flush:
  assumes "debounce_inv p s"
  shows "debounce_inv p (flush_debounced s)"
proof (cases "burst_of (happened s)")
  case None
  with assms have "delay_ref s = 0" by (simp add: debounce_inv_def quiet_def)
  then have "flush_debounced s = s" by (simp add: flush_debounced_def flush_with_def split: option.split)
  with assms show ?thesis by simp
next
  case (Some b)
  obtain f a l where b: "b = (f, a, l)" by (cases b)
  with assms Some have "flush_debounced s = run_callback a (end_burst s)"
    by (simp add: debounce_inv_def in_burst_def flush_debounced_def flush_with_def)
  with debounce_inv_run [OF assms Some [unfolded b]] show ?thesis by simp
qed

lemma debounce_inv_cancel:
  assumes "debounce_inv p s"
  shows "debounce_inv p (cancel_debounced s)"
proof (cases "burst_of (happened s)")
  case None
  with assms have "quiet (end_burst s)" by (simp add: debounce_inv_def quiet_def end_burst_def clear_handle_def)
  with assms show ?thesis by (auto simp: debounce_inv_def cancel_debounced_def None split: option.split)
next
  case (Some b)
  with assms have "in_burst p s b" "installed s = Some (fst (snd b))" by (simp_all add: debounce_inv_def in_burst_def)
  with assms end_burst_quiet [of p s b] show ?thesis by (simp add: debounce_inv_def cancel_debounced_def)
qed

text \<open>Whichever timeout fires first, it runs the callback with the last arguments.\<close>

lemma fire_in_burst:
  assumes "in_burst p s (f, a, l)" "t \<in> set (timeouts s)"
  shows "fire_timeout t s = run_callback a (end_burst s)"
proof -
  have "end_burst (clear_handle (handle t) s) = end_burst s"
    using assms by (auto simp: in_burst_timeouts end_burst_def clear_handle_def)
      (simp add: conj_ac)
  then show ?thesis
    using assms by (auto simp: in_burst_timeouts fire_timeout_def run_deferred_def flush_with_def)
      (auto simp: in_burst_def clear_handle_def)
qed

lemma debounce_inv_fire:
  assumes "debounce_inv p s" "t \<in> set (timeouts s)"
  shows "debounce_inv p (fire_timeout t s)"
proof (cases "burst_of (happened s)")
  case None
  with assms show ?thesis by (simp add: debounce_inv_def quiet_def)
next
  case (Some b)
  obtain f a l where b: "b = (f, a, l)" by (cases b)
  from assms Some b have "in_burst p s (f, a, l)" by (simp add: debounce_inv_def)
  from fire_in_burst [OF this assms(2)] debounce_inv_run [OF assms(1) Some [unfolded b]] show ?thesis by simp
qed

lemma debounce_inv_clock: "debounce_inv p (s\<lparr>clock := n\<rparr>) = debounce_inv p s"
  by (simp add: debounce_inv_def quiet_def in_burst_def burst_timeouts_def split: option.split)

lemma debounce_inv_step: "debounce_inv p s \<Longrightarrow> \<not> leading p \<Longrightarrow> debounce_step p s t \<Longrightarrow> debounce_inv p t"
  by (erule debounce_step.cases)
    (auto simp: debounce_inv_call debounce_inv_flush debounce_inv_cancel debounce_inv_fire debounce_inv_clock
      unmount_debounced_def)

interpretation debounced: state_machine
  "\<lambda>s t. \<not> leading p \<and> debounce_step p s t" "\<lambda>s. \<exists>now. s = new_debounced now" "debounce_inv p"
  by unfold_locales (auto simp: debounce_inv_new intro: debounce_inv_step)

lemma debounced_reachable:
  assumes "(debounce_step p)\<^sup>*\<^sup>* (new_debounced now) s" "\<not> leading p"
  shows "debounce_inv p s"
  using assms debounced.reachable_inv [of "new_debounced now" p s] by (simp add: exI [of _ now])

subsection \<open>Properties\<close>

text \<open>What the state of a burst says of its timeouts.\<close>

lemma burst_is_paid:
  assumes "debounce_inv p s" "burst_of (happened s) = Some (f, a, l)"
  shows "is_pending s" "\<exists>t\<in>set (timeouts s). due t = l + wait_time p"
    "maxWait p = Some m \<Longrightarrow> \<exists>t\<in>set (timeouts s). due t = f + m"
    "t \<in> set (timeouts s) \<Longrightarrow>
       happened (fire_timeout t s) = happened s @ [Ran a (clock s)] \<and> timeouts (fire_timeout t s) = []"
proof -
  from assms have b: "in_burst p s (f, a, l)" by (simp add: debounce_inv_def)
  then show "is_pending s" "\<exists>t\<in>set (timeouts s). due t = l + wait_time p"
    by (auto simp: is_pending_def in_burst_timeouts in_burst_def [of _ _ "(f, a, l)"] burst_timeouts_def)
  show "\<exists>t\<in>set (timeouts s). due t = f + m" if "maxWait p = Some m"
    using that in_burst_timeouts [OF b] by (intro bexI [of _ "\<lparr>handle = max_ref s, due = f + m, deferred = Longest_wait\<rparr>"]) simp_all
  show "happened (fire_timeout t s) = happened s @ [Ran a (clock s)] \<and> timeouts (fire_timeout t s) = []"
    if "t \<in> set (timeouts s)"
    using fire_in_burst [OF b that] end_burst_quiet [OF b] by (simp add: quiet_def run_callback_def)
qed

lemma no_burst_is_quiet:
  assumes "debounce_inv p s" "burst_of (happened s) = None"
  shows "timeouts s = [] \<and> \<not> is_pending s"
  using assms by (simp add: debounce_inv_def quiet_def is_pending_def)

text \<open>C30: A debounced function that does not call at the leading edge loses no call and repeats none:
  its callback runs only to end a burst of calls, once and with the arguments of the last of them. While a
  burst is open its end is armed, for the pause after its last call and, with a longest wait, for that
  time after its first; whichever timeout fires first runs the callback and leaves no other behind.
  Without a burst nothing is armed. This holds whatever flushes, cancels and delays come between.\<close>

theorem calls_are_debounced:
  assumes "(debounce_step p)\<^sup>*\<^sup>* (new_debounced now) s" "\<not> leading p"
  shows "runs_owed (happened s) \<and>
    (case burst_of (happened s) of
       None \<Rightarrow> timeouts s = [] \<and> \<not> is_pending s
     | Some (f, a, l) \<Rightarrow>
         is_pending s \<and> (\<exists>t\<in>set (timeouts s). due t = l + wait_time p) \<and>
         (\<forall>m. maxWait p = Some m \<longrightarrow> (\<exists>t\<in>set (timeouts s). due t = f + m)) \<and>
         (\<forall>t\<in>set (timeouts s).
            happened (fire_timeout t s) = happened s @ [Ran a (clock s)] \<and> timeouts (fire_timeout t s) = []))"
proof -
  note inv = debounced_reachable [OF assms]
  then have "runs_owed (happened s)" by (simp add: debounce_inv_def)
  then show ?thesis
    using no_burst_is_quiet [OF inv] burst_is_paid [OF inv] by (auto split: option.split)
qed

definition demo_options :: debounce_options where
  "demo_options = \<lparr>wait_time = 100, flushOnUnmount = False, leading = False, maxWait = Some 250\<rparr>"

definition demo_burst :: "string debounced" where
  "demo_burst =
     call_debounced demo_options ''b'' ((call_debounced demo_options ''a'' (new_debounced 0))\<lparr>clock := 30\<rparr>)"

lemma demo_burst_reached: "(debounce_step demo_options)\<^sup>*\<^sup>* (new_debounced 0) demo_burst"
proof -
  let ?a = "call_debounced demo_options ''a'' (new_debounced 0)"
  have "debounce_step demo_options (new_debounced 0) ?a" by (rule called)
  moreover have "debounce_step demo_options ?a (?a\<lparr>clock := clock ?a + 30\<rparr>)" by (rule passed)
  moreover have "clock ?a = 0" by (simp add: call_debounced_def demo_options_def debounce_defs new_debounced_def Let_def)
  moreover have "debounce_step demo_options (?a\<lparr>clock := 30\<rparr>) demo_burst"
    unfolding demo_burst_def by (rule called)
  ultimately show ?thesis by (simp add: converse_rtranclp_into_rtranclp)
qed

lemma demo_burst_happened: "happened demo_burst = [Called ''a'' 0, Called ''b'' 30]" "clock demo_burst = 30"
  by (simp_all add: demo_burst_def call_debounced_def demo_options_def debounce_defs new_debounced_def Let_def)

theorem calls_are_debounced_witness:
  "\<exists>t\<in>set (timeouts demo_burst). due t = 130 \<and>
     happened (fire_timeout t demo_burst) = [Called ''a'' 0, Called ''b'' 30, Ran ''b'' 30]"
proof -
  have "\<not> leading demo_options" by (simp add: demo_options_def)
  from calls_are_debounced [OF demo_burst_reached this]
  show ?thesis
    by (auto simp: demo_burst_happened burst_of_def note_happening_def demo_options_def)
qed

text \<open>
  With a call at the leading edge and a longest wait below the pause, a single call runs its callback
  twice: the timeout of the longest wait does not ask whether a call is waiting.
\<close>

lemma leading_call_repeated:
  assumes "leading p" "maxWait p = Some m" "m \<le> wait_time p"
    and "s = call_debounced p a (new_debounced 0)"
  shows "\<not> is_pending s" "happened s = [Called a 0, Ran a 0]"
    "\<exists>t\<in>set (timeouts s). due t = m \<and>
       happened (fire_timeout t (s\<lparr>clock := m\<rparr>)) = [Called a 0, Ran a 0, Ran a m]"
  using assms by (simp_all add: call_debounced_def debounce_defs new_debounced_def is_pending_def Let_def)

end
