(* ===== verification/Scroll_Properties.thy ===== *)
theory Scroll_Properties
  imports Scroll_Visibility Debounced_Properties
begin

text \<open>
  What the scroll area promises: a thumb that is dragged stays under the pointer, a bar of type
  \<open>scroll\<close> always has what hides it again on the way, a bar of type \<open>hover\<close> stays while the pointer is in
  the area, and a thumb is where the page is after every rendering update.
\<close>

subsection \<open>Dragging\<close>

text \<open>Measures of a page that overflows, on a bar that is longer than its thumb.\<close>

definition scrollable :: "sizes \<Rightarrow> bool" where
  "scrollable z \<longleftrightarrow> viewport z < content z \<and> get_thumb_size z < bar_size (scrollbar z) - paddings z"

definition free_track :: "sizes \<Rightarrow> real" where
  "free_track z = bar_size (scrollbar z) - paddings z - get_thumb_size z"

text \<open>Where the offsets of the thumb lie, and where it lies in the bar at offset 0: at the end from which it is read.\<close>

definition offset_range :: "sizes \<Rightarrow> text_direction \<Rightarrow> real \<times> real" where
  "offset_range z d = (if d = Ltr then (0, free_track z) else (- free_track z, 0))"

definition thumb_origin :: "sizes \<Rightarrow> text_direction \<Rightarrow> real" where
  "thumb_origin z d = paddingStart (scrollbar z) + (if d = Ltr then 0 else free_track z)"

lemma scrollable_pos: "scrollable z \<Longrightarrow> 0 < content z - viewport z \<and> 0 < free_track z"
  by (simp add: scrollable_def free_track_def)

lemma thumb_offset_eq:
  "scrollable z \<Longrightarrow> get_thumb_offset x z d =
     free_track z / (content z - viewport z) * clamp_between x (scroll_range z d)"
  using scrollable_pos [of z] by (simp add: get_thumb_offset_def linear_scale_def free_track_def [symmetric])

lemma scroll_position_eq:
  assumes "scrollable z" "q \<noteq> 0"
  shows "get_scroll_position (thumb_origin z d + y + q) q z d = (content z - viewport z) / free_track z * y"
proof -
  have "bar_size (scrollbar z) - paddingEnd (scrollbar z) - (get_thumb_size z - q) =
      paddingStart (scrollbar z) + q + free_track z"
    by (simp add: free_track_def paddings_def)
  then show ?thesis
    using scrollable_pos [OF assms(1)] assms(2)
    by (simp add: get_scroll_position_def linear_scale_def scroll_range_def thumb_origin_def Let_def field_simps)
qed

lemma clamp_scale:
  assumes "0 < c"
  shows "c * clamp_between x (a, b) = clamp_between (c * x) (c * a, c * b)"
  using assms by (simp add: clamp_between_def min_mult_distrib_left max_mult_distrib_left)

lemma offset_of_clamped:
  assumes "scrollable z"
  shows "free_track z / (content z - viewport z) *
      clamp_between ((content z - viewport z) / free_track z * y) (scroll_range z d) =
    clamp_between y (offset_range z d)"
proof -
  let ?o = "content z - viewport z" and ?s = "free_track z"
  have pos: "0 < ?o" "0 < ?s" using scrollable_pos [OF assms] by simp_all
  then have undo: "?s / ?o * (?o / ?s * y) = y" "?s / ?o * ?o = ?s" "?s / ?o * (?o * - 1) = - ?s"
    by (simp, simp, simp add: field_simps)
  have scaled: "?s / ?o * clamp_between (?o / ?s * y) (a, b) = clamp_between y (?s / ?o * a, ?s / ?o * b)" for a b
    using pos by (subst clamp_scale) (simp_all only: undo(1) divide_pos_pos)
  have "?s / ?o * clamp_between (?o / ?s * y) (0, ?o) = clamp_between y (0, ?s)"
    "?s / ?o * clamp_between (?o / ?s * y) (?o * - 1, 0) = clamp_between y (- ?s, 0)"
    unfolding scaled undo by simp_all
  then show ?thesis by (cases d) (simp_all only: scroll_range_def offset_range_def Let_def if_True if_False
      simp_thms text_direction.distinct)
qed

lemma clamp_idem [simp]: "fst r \<le> snd r \<Longrightarrow> clamp_between (clamp_between x r) r = clamp_between x r"
  by (auto simp: clamp_between_def)

lemma clamp_inside: "fst r \<le> x \<Longrightarrow> x \<le> snd r \<Longrightarrow> clamp_between x r = x"
  by (simp add: clamp_between_def)

lemma scroll_range_le: "scrollable z \<Longrightarrow> fst (scroll_range z d) \<le> snd (scroll_range z d)"
  using scrollable_pos [of z] by (simp add: scroll_range_def Let_def)

text \<open>Dragging from anywhere to anywhere, in terms of the bar's own coordinates.\<close>

lemma dragged_position:
  assumes "scrollable (sizes_of s)" "pointer_at s = q" "q \<noteq> 0"
    and "along r xy = thumb_origin (sizes_of s) (bar_dir r d) + y + q"
  shows "position (on_drag_scroll r d xy s) =
      clamp_between ((content (sizes_of s) - viewport (sizes_of s)) / free_track (sizes_of s) * y)
        (scroll_range (sizes_of s) (bar_dir r d))"
  using assms by (simp add: on_drag_scroll_def assign_scroll_def scroll_position_eq)

lemma drag_fields [simp]:
  "sizes_of (on_drag_scroll r d xy s) = sizes_of s" "pointer_at (on_drag_scroll r d xy s) = pointer_at s"
  "grabbed (on_drag_scroll r d xy s) = grabbed s"
  by (simp_all add: on_drag_scroll_def assign_scroll_def)

lemma thumb_at_change [simp]:
  "thumb_at (on_thumb_position_change r d s) = get_thumb_offset (position s) (sizes_of s) (bar_dir r d)"
  by (simp add: on_thumb_position_change_def Let_def)

lemma along_diff: "along r (a - c, b - d) = along r (a, b) - along r (c, d)"
  by (simp add: along_def)

definition pointer :: "orientation \<Rightarrow> pointer_event \<Rightarrow> real" where
  "pointer r e = along r (clientX e, clientY e)"

definition grab_thumb ::
  "orientation \<Rightarrow> text_direction \<Rightarrow> real \<times> real \<Rightarrow> real \<times> real \<Rightarrow> pointer_event \<Rightarrow> bar_state \<Rightarrow> bar_state" where
  "grab_thumb r d bar_corner thumb_corner e s =
     on_pointer_down r d bar_corner e (on_thumb_pointer_down r thumb_corner e s)"

text \<open>A thumb that is dragged stays under the pointer. Press the main button on the thumb of a page that
  overflows, at its drawn place and not on its very edge: the page does not move. Then move the pointer:
  the thumb is drawn as far from where it was as the pointer went, but never beyond the ends of its track.
  This holds for both orientations and both directions of text.\<close>

theorem thumb_follows_pointer:
  assumes "scrollable (sizes_of s)" "main_button e"
    and "clamp_between (position s) (scroll_range (sizes_of s) (bar_dir r d)) = position s"
    and "along r thumb_corner = along r bar_corner + thumb_origin (sizes_of s) (bar_dir r d) +
           get_thumb_offset (position s) (sizes_of s) (bar_dir r d)"
    and "pointer r e \<noteq> along r thumb_corner"
  shows "position (grab_thumb r d bar_corner thumb_corner e s) = position s \<and>
    thumb_at (on_thumb_position_change r d (drag_scroll r d e' (grab_thumb r d bar_corner thumb_corner e s))) =
      clamp_between (get_thumb_offset (position s) (sizes_of s) (bar_dir r d) + (pointer r e' - pointer r e))
        (offset_range (sizes_of s) (bar_dir r d))"
proof -
  let ?z = "sizes_of s" and ?d = "bar_dir r d"
  let ?off = "get_thumb_offset (position s) ?z ?d" and ?q = "pointer r e - along r thumb_corner"
  obtain bx by' where corner: "bar_corner = (bx, by')" by (cases bar_corner)
  define s1 where "s1 = (on_thumb_pointer_down r thumb_corner e s)
    \<lparr>captured := True, grabbed := Some bar_corner, saved_select := body_select s, body_select := ''none''\<rparr>"
  have s1: "sizes_of s1 = ?z" "pointer_at s1 = ?q" "grabbed s1 = Some (bx, by')"
    by (simp_all add: s1_def on_thumb_pointer_down_def pointer_def along_def corner)
  have grab: "grab_thumb r d bar_corner thumb_corner e s = on_drag_scroll r d (clientX e - bx, clientY e - by') s1"
    using assms(2) s1(3)
    by (simp add: grab_thumb_def on_pointer_down_def s1_def drag_scroll_def on_thumb_pointer_down_def)
  have bar: "along r (clientX f - bx, clientY f - by') = thumb_origin ?z ?d + (?off + (pointer r f - pointer r e)) + ?q"
    for f using assms(4) by (simp add: along_diff pointer_def corner)
  have q: "?q \<noteq> 0" using assms(5) by simp
  have "position (grab_thumb r d bar_corner thumb_corner e s) =
      clamp_between ((content ?z - viewport ?z) / free_track ?z * ?off) (scroll_range ?z ?d)"
    unfolding grab using dragged_position [of s1, unfolded s1, OF assms(1) refl q bar [of e]] by simp
  also have "(content ?z - viewport ?z) / free_track ?z * ?off = position s"
    using scrollable_pos [OF assms(1)] assms(3) by (simp add: thumb_offset_eq [OF assms(1)])
  finally have still: "position (grab_thumb r d bar_corner thumb_corner e s) = position s" using assms(3) by simp
  have "position (drag_scroll r d e' (grab_thumb r d bar_corner thumb_corner e s)) =
      clamp_between ((content ?z - viewport ?z) / free_track ?z * (?off + (pointer r e' - pointer r e)))
        (scroll_range ?z ?d)"
    unfolding grab drag_scroll_def
    using dragged_position [of "on_drag_scroll r d (clientX e - bx, clientY e - by') s1", unfolded drag_fields s1,
        OF assms(1) refl q bar [of e']] by (simp add: s1)
  moreover have "sizes_of (drag_scroll r d e' (grab_thumb r d bar_corner thumb_corner e s)) = ?z"
    unfolding grab drag_scroll_def by (simp add: s1)
  ultimately have "thumb_at (on_thumb_position_change r d
      (drag_scroll r d e' (grab_thumb r d bar_corner thumb_corner e s))) =
      clamp_between (?off + (pointer r e' - pointer r e)) (offset_range ?z ?d)"
    by (simp only: thumb_at_change thumb_offset_eq [OF assms(1)] clamp_idem [OF scroll_range_le [OF assms(1)]]
        offset_of_clamped [OF assms(1)])
  with still show ?thesis by blast
qed

definition demo_bar :: bar_state where
  "demo_bar =
     \<lparr>sizes_of = \<lparr>content = 1000, viewport = 400,
                    scrollbar = \<lparr>bar_size = 200, paddingStart = 10, paddingEnd = 10\<rparr>\<rparr>,
      pointer_at = 0, grabbed = None, saved_select = [], captured = False, position = 300, thumb_at = 54,
      thumb_opacity = True, body_select = []\<rparr>"

theorem thumb_follows_pointer_witness:
  "let s = grab_thumb Vertical Rtl (900, 50) (900, 114) \<lparr>clientX = 904, clientY = 120, main_button = True\<rparr> demo_bar
   in position s = 300 \<and>
      thumb_at (on_thumb_position_change Vertical Rtl
        (drag_scroll Vertical Rtl \<lparr>clientX = 870, clientY = 140, main_button = True\<rparr> s)) = 74"
proof -
  let ?z = "sizes_of demo_bar" and ?e = "\<lparr>clientX = 904, clientY = 120, main_button = True\<rparr>"
  let ?e' = "\<lparr>clientX = 870, clientY = 140, main_button = True\<rparr> :: pointer_event"
  have dir: "bar_dir Vertical Rtl = Ltr" by (simp add: bar_dir_def)
  have thumb: "get_thumb_size ?z = 72" "free_track ?z = 108"
    by (simp_all add: demo_bar_def get_thumb_size_def free_track_def paddings_def get_thumb_ratio_def)
  then have fits: "scrollable ?z" by (simp add: scrollable_def demo_bar_def paddings_def)
  have range: "scroll_range ?z Ltr = (0, 600)" "offset_range ?z Ltr = (0, 108)"
    using thumb by (simp_all add: scroll_range_def offset_range_def demo_bar_def)
  have origin: "thumb_origin ?z Ltr = 10" by (simp add: thumb_origin_def demo_bar_def)
  have here: "position demo_bar = 300" "content ?z - viewport ?z = 600" by (simp_all add: demo_bar_def)
  then have off: "get_thumb_offset 300 ?z Ltr = 54"
    by (simp add: thumb_offset_eq [OF fits] range thumb clamp_between_def)
  show ?thesis
    using thumb_follows_pointer [of demo_bar ?e Vertical Rtl "(900, 114)" "(900, 50)" ?e'] fits
    by (simp add: dir range origin off here pointer_def along_def clamp_between_def)
qed

text \<open>
  An offset of 0 is taken for none: pressed on its very edge, the thumb jumps by half its length, and the
  page with it.
\<close>

lemma grab_at_edge_jumps:
  assumes "scrollable (sizes_of s)" "main_button e"
    and "0 \<le> position s" "position s \<le> content (sizes_of s) - viewport (sizes_of s)"
    and "along Vertical thumb_corner = along Vertical bar_corner + thumb_origin (sizes_of s) Ltr +
           get_thumb_offset (position s) (sizes_of s) Ltr"
    and "pointer Vertical e = along Vertical thumb_corner"
  shows "position (grab_thumb Vertical d bar_corner thumb_corner e s) =
      max 0 (position s - (content (sizes_of s) - viewport (sizes_of s)) / free_track (sizes_of s) *
        (get_thumb_size (sizes_of s) / 2))"
proof -
  let ?z = "sizes_of s" and ?h = "get_thumb_size (sizes_of s) / 2"
  let ?c = "(content ?z - viewport ?z) / free_track ?z" and ?off = "get_thumb_offset (position s) (sizes_of s) Ltr"
  have pos: "0 < content ?z - viewport ?z" "0 < free_track ?z" using scrollable_pos [OF assms(1)] by simp_all
  have half: "0 < ?h" by (simp add: get_thumb_size_def max_def)
  have edge: "along Vertical (clientX e - fst bar_corner, clientY e - snd bar_corner) = thumb_origin ?z Ltr + ?off"
    using assms(5,6) by (simp add: along_def pointer_def)
  have none: "get_scroll_position x 0 ?z Ltr = get_scroll_position x ?h ?z Ltr" for x
    by (simp add: get_scroll_position_def Let_def)
  have "position (grab_thumb Vertical d bar_corner thumb_corner e s) =
      clamp_between (get_scroll_position (thumb_origin ?z Ltr + (?off - ?h) + ?h) 0 ?z Ltr) (scroll_range ?z Ltr)"
    using assms(2,6) edge
    by (cases bar_corner) (simp add: grab_thumb_def on_pointer_down_def on_thumb_pointer_down_def drag_scroll_def
        on_drag_scroll_def assign_scroll_def pointer_def along_def bar_dir_def)
  also have "\<dots> = clamp_between (?c * (?off - ?h)) (scroll_range ?z Ltr)"
    unfolding none using scroll_position_eq [OF assms(1), of ?h Ltr "?off - ?h"] half by simp
  also have "?c * (?off - ?h) = position s - ?c * ?h"
    using pos assms(3,4) by (simp add: thumb_offset_eq [OF assms(1)] scroll_range_def clamp_between_def field_simps)
  also have "clamp_between (position s - ?c * ?h) (scroll_range ?z Ltr) = max 0 (position s - ?c * ?h)"
  proof -
    have "0 \<le> ?c * ?h" using pos half by simp
    then show ?thesis using assms(3,4) pos by (simp add: clamp_between_def scroll_range_def)
  qed
  finally show ?thesis .
qed

subsection \<open>Bars that hide again\<close>

text \<open>Timeouts of a burst run no later than the pause after its last call, and calls are in the past.\<close>

definition calls_past :: "'a debounced \<Rightarrow> bool" where
  "calls_past d \<longleftrightarrow> (\<forall>f a l. burst_of (happened d) = Some (f, a, l) \<longrightarrow> l \<le> clock d)"

lemma calls_past_call [simp]: "\<not> leading p \<Longrightarrow> calls_past (call_debounced p a d)"
  by (cases "burst_of (happened d)")
    (auto simp: calls_past_def call_debounced_def debounce_defs Let_def split: option.split)

lemma fire_clock: "clock (fire_timeout t d) = clock d"
  by (simp add: debounce_defs split: deferred.split option.split)

lemma calls_past_later: "calls_past d \<Longrightarrow> calls_past (d\<lparr>clock := clock d + k\<rparr>)"
  by (auto simp: calls_past_def intro: trans_le_add1)

text \<open>A function that waits runs its callback when one of its timeouts fires, and then waits no more.\<close>

lemma fired_runs:
  assumes "debounce_inv p d" "t \<in> set (timeouts d)"
  shows "\<exists>a. happened (fire_timeout t d) = happened d @ [Ran a (clock d)]"
    "burst_of (happened (fire_timeout t d)) = None"
proof -
  obtain f a l where "burst_of (happened d) = Some (f, a, l)"
    using assms no_burst_is_quiet [OF assms(1)] by (cases "burst_of (happened d)") auto
  from burst_is_paid(4) [OF assms(1) this assms(2)]
  show "\<exists>a. happened (fire_timeout t d) = happened d @ [Ran a (clock d)]"
    "burst_of (happened (fire_timeout t d)) = None" by auto
qed

lemma pending_timeout:
  assumes "debounce_inv p d" "calls_past d" "burst_of (happened d) \<noteq> None"
  shows "\<exists>t\<in>set (timeouts d). due t \<le> clock d + wait_time p"
proof -
  obtain f a l where b: "burst_of (happened d) = Some (f, a, l)" using assms(3) by auto
  from assms(2) b have "l \<le> clock d" by (simp add: calls_past_def)
  with burst_is_paid(2) [OF assms(1) b] show ?thesis by (metis add_le_mono1)
qed

definition scroll_bar_inv :: "nat \<Rightarrow> scroll_bar \<Rightarrow> bool" where
  "scroll_bar_inv n s \<longleftrightarrow>
     debounce_inv idle_options (idle_call s) \<and> calls_past (idle_call s) \<and>
     (status s = Scrolling \<longrightarrow> burst_of (happened (idle_call s)) \<noteq> None) \<and>
     (status s = Idle \<longleftrightarrow> hide_due s \<noteq> None) \<and>
     (\<forall>d. hide_due s = Some d \<longrightarrow> d \<le> clock (idle_call s) + n)"

lemma set_status_fields [simp]:
  "status (set_status n a s) = a" "idle_call (set_status n a s) = idle_call s"
  "seen_position (set_status n a s) = seen_position s" "pointer_on (set_status n a s) = pointer_on s"
  by (simp_all add: set_status_def)

lemma set_status_inv:
  assumes "scroll_bar_inv n s" "a \<noteq> Scrolling"
  shows "scroll_bar_inv n (set_status n a s)"
  using assms by (auto simp: scroll_bar_inv_def set_status_def)

lemma not_leading [simp]: "\<not> leading idle_options" "\<not> leading stop_options"
  by (simp_all add: idle_options_def stop_options_def)

lemma call_clock [simp]: "clock (call_debounced p a d) = clock d"
  by (simp add: call_debounced_def debounce_defs Let_def split: option.split)

lemma scroll_event_inv:
  assumes "scroll_bar_inv n s"
  shows "scroll_bar_inv n (on_scroll_event n x s)"
proof -
  have "debounce_inv idle_options (call_debounced idle_options () (idle_call s))"
    using assms debounce_inv_call by (metis not_leading(1) scroll_bar_inv_def)
  moreover have "burst_of (happened (call_debounced idle_options () (idle_call s))) \<noteq> None"
    by (cases "burst_of (happened (idle_call s))") auto
  ultimately show ?thesis
    using assms by (auto simp: scroll_bar_inv_def on_scroll_event_def set_status_def Let_def)
qed

lemma fire_idle_eq:
  assumes "scroll_bar_inv n s" "t \<in> set (timeouts (idle_call s))"
  shows "fire_idle n t s = set_status n Idle (s\<lparr>idle_call := fire_timeout t (idle_call s)\<rparr>)"
  using fired_runs(1) [of idle_options "idle_call s" t] assms
  by (auto simp: scroll_bar_inv_def fire_idle_def Let_def)

lemma fire_idle_inv:
  assumes "scroll_bar_inv n s" "t \<in> set (timeouts (idle_call s))"
  shows "scroll_bar_inv n (fire_idle n t s)"
proof -
  have "debounce_inv idle_options (fire_timeout t (idle_call s))"
    "burst_of (happened (fire_timeout t (idle_call s))) = None"
    using assms fired_runs(2) debounce_inv_fire by (auto simp: scroll_bar_inv_def)
  then show ?thesis
    using assms(1) unfolding fire_idle_eq [OF assms]
    by (auto simp: scroll_bar_inv_def set_status_def calls_past_def fire_clock)
qed

lemma scroll_bar_step_inv:
  assumes "scroll_bar_inv n s" "scroll_bar_step n s t"
  shows "scroll_bar_inv n t"
  using assms(2)
proof cases
  case (scrolled x)
  with assms(1) show ?thesis by (simp add: scroll_event_inv)
next
  case entered
  then show ?thesis
    using set_status_inv [OF assms(1), of Interacting] by (simp add: on_pointer_enter_def scroll_bar_inv_def)
next
  case left
  then show ?thesis
    using set_status_inv [OF assms(1), of Idle] by (simp add: on_pointer_leave_def scroll_bar_inv_def)
next
  case (fell_idle u)
  with assms(1) show ?thesis by (simp add: fire_idle_inv)
next
  case (hid d)
  with assms(1) show ?thesis by (auto simp: fire_hide_def scroll_bar_inv_def set_status_def)
next
  case (waited k)
  with assms(1) show ?thesis
    by (auto simp: scroll_bar_inv_def debounce_inv_clock calls_past_later intro: trans_le_add1)
qed

interpretation scroll_bars: state_machine "scroll_bar_step n" "\<lambda>s. \<exists>x now. s = new_scroll_bar x now" "scroll_bar_inv n"
proof unfold_locales
  fix s :: scroll_bar assume "\<exists>x now. s = new_scroll_bar x now"
  then obtain x now where "s = new_scroll_bar x now" by blast
  then show "scroll_bar_inv n s"
    by (simp add: scroll_bar_inv_def new_scroll_bar_def debounce_inv_new calls_past_def)
      (simp add: new_debounced_def)
qed (rule scroll_bar_step_inv)



text \<open>
  A scroll event makes a bar that the pointer holds one that scrolls, and nothing makes it held again: it
  hides under a pointer that has not moved away.
\<close>

lemma held_bar_hides:
  assumes "scroll_bar_inv n s" "x \<noteq> seen_position s"
    and "t \<in> set (timeouts (idle_call (on_scroll_event n x (on_pointer_enter n s))))"
  shows "status (on_pointer_enter n s) = Interacting"
    and "status (fire_hide n (fire_idle n t (on_scroll_event n x (on_pointer_enter n s)))) = Hidden"
    and "pointer_on (fire_hide n (fire_idle n t (on_scroll_event n x (on_pointer_enter n s))))"
proof -
  have "scroll_bar_inv n (on_pointer_enter n s)"
    using set_status_inv [OF assms(1), of Interacting] by (simp add: on_pointer_enter_def scroll_bar_inv_def)
  from fire_idle_eq [OF scroll_event_inv [OF this] assms(3)]
  show "status (on_pointer_enter n s) = Interacting"
    and "status (fire_hide n (fire_idle n t (on_scroll_event n x (on_pointer_enter n s)))) = Hidden"
    and "pointer_on (fire_hide n (fire_idle n t (on_scroll_event n x (on_pointer_enter n s))))"
    by (simp_all add: on_pointer_enter_def fire_hide_def on_scroll_event_def Let_def)
qed

subsection \<open>Bars that stay with the pointer\<close>

definition hover_inv :: "nat \<Rightarrow> hover_bar \<Rightarrow> bool" where
  "hover_inv n s \<longleftrightarrow>
     (if pointer_in s then hovered s \<and> leave_timeouts s = []
      else if hovered s then \<exists>d. leave_timeouts s = [(leave_ref s, d)] \<and> d \<le> hover_clock s + n
      else leave_timeouts s = [])"

lemma hover_step_inv: "hover_inv n s \<Longrightarrow> hover_step n s t \<Longrightarrow> hover_inv n t"
  by (erule hover_step.cases)
    (auto simp: hover_inv_def enter_area_def leave_area_def fire_leave_def intro: trans_le_add1 split: if_splits)

lemma new_hover_inv: "hover_inv n (new_hover_bar now)"
  by (simp add: hover_inv_def new_hover_bar_def)

interpretation hover_bars: state_machine "hover_step n" "\<lambda>s. \<exists>now. s = new_hover_bar now" "hover_inv n"
  by unfold_locales (auto simp: new_hover_inv intro: hover_step_inv)

text \<open>A bar of type \<open>hover\<close> is shown while the pointer is in the area, and one timeout hides it afterwards.\<close>

theorem hover_bar_stays:
  assumes "(hover_step n)\<^sup>*\<^sup>* (new_hover_bar now) s"
  shows "(pointer_in s \<longrightarrow> hovered s) \<and>
    (hovered s \<and> \<not> pointer_in s \<longrightarrow>
       (\<exists>t. leave_timeouts s = [t] \<and> snd t \<le> hover_clock s + n \<and> \<not> hovered (fire_leave t s)))"
proof -
  have "hover_inv n s" using hover_bars.reachable_inv [OF _ assms] by blast
  then show ?thesis by (auto simp: hover_inv_def fire_leave_def split: if_splits)
qed

subsection \<open>Thumbs that follow the page\<close>

definition drawn_at :: "orientation \<Rightarrow> text_direction \<Rightarrow> real \<Rightarrow> bar_state \<Rightarrow> bool" where
  "drawn_at r d x b \<longleftrightarrow> thumb_at b = get_thumb_offset x (sizes_of b) (bar_dir r d)"

definition thumb_inv :: "orientation \<Rightarrow> text_direction \<Rightarrow> thumb_state \<Rightarrow> bool" where
  "thumb_inv r d s \<longleftrightarrow>
     debounce_inv stop_options (stop_call s) \<and> calls_past (stop_call s) \<and>
     (listening s \<noteq> None \<longrightarrow> burst_of (happened (stop_call s)) \<noteq> None) \<and>
     (\<forall>n. listening s = Some n \<longrightarrow> drawn_at r d n (bar_of s)) \<and>
     (\<not> event_due s \<longrightarrow>
        drawn_at r d (position (bar_of s)) (bar_of s) \<and> (\<forall>n. listening s = Some n \<longrightarrow> n = position (bar_of s)))"

lemma change_fields [simp]:
  "position (on_thumb_position_change r d b) = position b" "sizes_of (on_thumb_position_change r d b) = sizes_of b"
  by (simp_all add: on_thumb_position_change_def Let_def)

lemma draw_fields [simp]:
  "listening (draw_thumb r d s) = listening s" "stop_call (draw_thumb r d s) = stop_call s"
  "event_due (draw_thumb r d s) = event_due s" "position (bar_of (draw_thumb r d s)) = position (bar_of s)"
  "drawn_at r d x (bar_of (draw_thumb r d s)) \<longleftrightarrow>
     get_thumb_offset (position (bar_of s)) (sizes_of (bar_of s)) (bar_dir r d) =
     get_thumb_offset x (sizes_of (bar_of s)) (bar_dir r d)"
  by (simp_all add: draw_thumb_def drawn_at_def)

lemma stop_wait: "wait_time stop_options = 100"
  by (simp add: stop_options_def)

lemma thumb_inv_new: "thumb_inv r d (new_thumb r d b now)"
  by (simp add: thumb_inv_def new_thumb_def debounce_inv_new calls_past_def) (simp add: new_debounced_def)

lemma stop_called:
  assumes "debounce_inv stop_options c"
  shows "debounce_inv stop_options (call_debounced stop_options () c)"
    "burst_of (happened (call_debounced stop_options () c)) \<noteq> None"
proof -
  show "debounce_inv stop_options (call_debounced stop_options () c)"
    using assms debounce_inv_call by (metis not_leading(2))
  show "burst_of (happened (call_debounced stop_options () c)) \<noteq> None"
    by (cases "burst_of (happened c)") auto
qed

lemma rendering_inv:
  assumes "thumb_inv r d s"
  shows "thumb_inv r d (rendering_update r d s) \<and> \<not> event_due (rendering_update r d s) \<and>
    position (bar_of (rendering_update r d s)) = position (bar_of s)"
proof (cases "event_due s")
  case True
  then show ?thesis
    using assms stop_called [of "stop_call s"]
    by (cases "listening s")
      (auto simp: thumb_inv_def rendering_update_def on_thumb_scroll_def on_thumb_frame_def drawn_at_def [of _ _ _ "bar_of s"] Let_def)
next
  case False
  then show ?thesis
    using assms by (cases "listening s") (auto simp: thumb_inv_def rendering_update_def on_thumb_frame_def Let_def)
qed

lemma fire_stop_inv:
  assumes "thumb_inv r d s" "t \<in> set (timeouts (stop_call s))"
  shows "thumb_inv r d (fire_stop t s)"
proof -
  have "debounce_inv stop_options (fire_timeout t (stop_call s))"
    "burst_of (happened (fire_timeout t (stop_call s))) = None"
    "fire_stop t s = s\<lparr>stop_call := fire_timeout t (stop_call s), listening := None\<rparr>"
    using assms fired_runs [of stop_options "stop_call s" t] debounce_inv_fire
    by (auto simp: thumb_inv_def fire_stop_def Let_def)
  with assms(1) show ?thesis by (simp add: thumb_inv_def calls_past_def)
qed

lemma thumb_step_inv:
  assumes "thumb_inv r d s" "thumb_step r d s t"
  shows "thumb_inv r d t"
  using assms(2)
proof cases
  case (page_scrolled x)
  with assms(1) show ?thesis by (simp add: thumb_inv_def scroll_page_def drawn_at_def)
next
  case page_rendered
  with rendering_inv [OF assms(1)] show ?thesis by simp
next
  case (stopped u)
  with assms(1) show ?thesis by (simp add: fire_stop_inv)
next
  case (resized z)
  with assms(1) show ?thesis by (simp add: thumb_inv_def on_sizes_change_def)
next
  case (thumb_waited k)
  with assms(1) show ?thesis by (simp add: thumb_inv_def debounce_inv_clock calls_past_later)
qed

interpretation thumbs: state_machine "thumb_step r d" "\<lambda>s. \<exists>b now. s = new_thumb r d b now" "thumb_inv r d"
  by unfold_locales (auto simp: thumb_inv_new intro: thumb_step_inv)

text \<open>The thumb keeps up with the page. In every reachable state, unless a scroll event is still on its
  way, and after every rendering update in any case, the thumb is drawn where the page's position puts it;
  and a thumb that still looks at the page in every frame has a timeout armed, due within a tenth of a
  second, that ends this.\<close>

theorem thumb_keeps_up:
  assumes "(thumb_step r d)\<^sup>*\<^sup>* (new_thumb r d b now) s"
  shows "(\<not> event_due s \<longrightarrow> drawn_at r d (position (bar_of s)) (bar_of s)) \<and>
    drawn_at r d (position (bar_of s)) (bar_of (rendering_update r d s)) \<and>
    (listening s \<noteq> None \<longrightarrow> (\<exists>t\<in>set (timeouts (stop_call s)).
       due t \<le> clock (stop_call s) + 100 \<and> listening (fire_stop t s) = None))"
proof -
  have inv: "thumb_inv r d s" using thumbs.reachable_inv [OF _ assms] by blast
  have "\<exists>t\<in>set (timeouts (stop_call s)). due t \<le> clock (stop_call s) + 100 \<and> listening (fire_stop t s) = None"
    if "listening s \<noteq> None"
  proof -
    have c: "debounce_inv stop_options (stop_call s)" using inv by (simp add: thumb_inv_def)
    have "calls_past (stop_call s)" "burst_of (happened (stop_call s)) \<noteq> None"
      using inv that by (auto simp: thumb_inv_def)
    from pending_timeout [OF c this] obtain t where
      t: "t \<in> set (timeouts (stop_call s))" "due t \<le> clock (stop_call s) + 100"
      by (auto simp: stop_wait)
    with fired_runs(1) [OF c t(1)] show ?thesis by (auto simp: fire_stop_def Let_def)
  qed
  with inv rendering_inv [OF inv] show ?thesis by (auto simp: thumb_inv_def)
qed

theorem thumb_keeps_up_witness:
  "drawn_at Vertical Ltr 450 (bar_of (rendering_update Vertical Ltr (scroll_page 450 (new_thumb Vertical Ltr demo_bar 0))))"
proof -
  let ?s = "scroll_page 450 (new_thumb Vertical Ltr demo_bar 0)"
  have "(thumb_step Vertical Ltr)\<^sup>*\<^sup>* (new_thumb Vertical Ltr demo_bar 0) ?s"
    by (rule r_into_rtranclp) (rule page_scrolled)
  from thumb_keeps_up [OF this] show ?thesis by (simp add: scroll_page_def)
qed

end
