(* ===== verification/Select_Keyboard.thy ===== *)
theory Select_Keyboard
  imports Select_Properties "HOL-Library.Monad_Syntax"
begin

text \<open>
  The keyboard of the console's drop-down and the list it shows: \<open>use-combobox-target-props\<close>,
  \<open>ComboboxOption\<close> and \<open>OptionsDropdown\<close> as bundled into \<open>app.js\<close> (lines 6978 to 7005, 7107 to 7138 and
  7491 to 7560). An event is handled, its render and the timeouts of 0 milliseconds that it set run, and
  then the next event comes. The list stays in the page while the drop-down is closed, as
  \<open>keepMounted\<close> asks. What highlights an option is what \<open>Enter\<close> chooses; and without a highlight \<open>Enter\<close>
  chooses the option that is already chosen, which takes the choice back.
\<close>

subsection \<open>The list\<close>

text \<open>The search filters the options unless it is the label of the chosen one.\<close>

definition shown_items ::
  "(string \<Rightarrow> string) \<Rightarrow> (string \<Rightarrow> string) \<Rightarrow> select_config \<Rightarrow> int option \<Rightarrow> combobox_item list \<Rightarrow>
    select_state \<Rightarrow> combobox_item list" where
  "shown_items low trimmed c n e s =
     (let filtering = searchable c \<and>
            map_option option_label (chosen_option (options_lockup e) s) \<noteq> Some (search_text s)
      in default_filter low trimmed (if filtering then search_text s else []) n e)"

definition dropdown_hidden :: "select_config \<Rightarrow> bool \<Rightarrow> combobox_item list \<Rightarrow> bool" where
  "dropdown_hidden c nothing_found shown =
     (select_readOnly c \<or> select_disabled c \<or> \<not> nothing_found \<and> is_empty_data shown)"

definition is_checked :: "select_state \<Rightarrow> select_option \<Rightarrow> bool" where
  "is_checked s q \<longleftrightarrow> select_value s = Some (option_value q)"

text \<open>The check icon, the place that is kept for one, or neither.\<close>

datatype option_icon = Check_icon | Icon_place | No_icon

definition icon_of :: "bool \<Rightarrow> bool \<Rightarrow> bool \<Rightarrow> option_icon" where
  "icon_of with_icon aligned checked =
     (if \<not> with_icon then No_icon else if checked then Check_icon else if aligned then Icon_place else No_icon)"

text \<open>The first option marked as active: the one whose value is chosen.\<close>

definition active_index :: "select_option list \<Rightarrow> select_state \<Rightarrow> nat option" where
  "active_index qs s = find (\<lambda>k. is_checked s (qs ! k)) [0..<length qs]"

text \<open>A click on an option; \<open>None\<close>: it throws, for the option is no longer in the data.\<close>

definition click_option ::
  "select_config \<Rightarrow> lockup \<Rightarrow> select_option list \<Rightarrow> int \<Rightarrow> select_state \<Rightarrow> select_state option" where
  "click_option c Te qs i s =
     (if 0 \<le> i \<and> i < int (length qs)
      then (if option_disabled (qs ! nat i) then Some s
            else submit_option c Te (value_text (option_value (qs ! nat i))) s)
      else Some s)"

subsection \<open>Keys\<close>

record key_press =
  key_code :: string
  key_name :: string
  composing :: bool
  keyCode :: int

definition open_with_arrow :: "select_config \<Rightarrow> nat option \<Rightarrow> bool list \<Rightarrow> combobox \<Rightarrow> combobox" where
  "open_with_arrow c active t s =
     (let s1 = select_active active t (open_dropdown (on_open c t) s)
      in s1\<lparr>scheduled := scheduled s1 @ [Update_marked]\<rparr>)"

definition is_enter :: "key_press \<Rightarrow> bool" where
  "is_enter e \<longleftrightarrow> key_code e = ''Enter'' \<or> key_code e = ''NumpadEnter''"

text \<open>
  What a key makes of the list, whether its default action is prevented, and the index of the option
  it clicks. \<open>button\<close>: the target is a button. \<open>None\<close>: reading an option that is not there throws.
\<close>

definition combobox_key ::
  "select_config \<Rightarrow> bool \<Rightarrow> nat option \<Rightarrow> bool list \<Rightarrow> key_press \<Rightarrow> combobox \<Rightarrow>
    (combobox \<times> bool \<times> int option) option" where
  "combobox_key c button active t e s =
     (if select_readOnly c \<or> composing e then Some (s, False, None)
      else do {
        s1 \<leftarrow> (if key_code e = ''ArrowDown''
               then Some (if opened s then select_next t True s else open_with_arrow c active t s)
               else if key_code e = ''ArrowUp''
               then (if opened s then select_previous t True s else Some (open_with_arrow c active t s))
               else Some s);
        let p = (key_code e \<in> {''ArrowDown'', ''ArrowUp''}) in
        if is_enter e \<and> keyCode e = 229 then Some (s1, p, None)
        else let i = selected_index s1;
                 (s2, p2, k) =
                   (if is_enter e \<and> opened s1 \<and> i \<noteq> -1 then (s1, True, Some i)
                    else if is_enter e \<and> button then (open_dropdown (on_open c t) s1, True, None)
                    else (s1, p, None));
                 s3 = (if key_name e = ''Escape'' then close_dropdown s2 else s2)
             in Some (if key_code e = ''Space'' \<and> button then (toggle_dropdown (on_open c t) s3, True, k)
                      else (s3, p2, k)) })"

definition press_key ::
  "select_config \<Rightarrow> lockup \<Rightarrow> select_option list \<Rightarrow> key_press \<Rightarrow> select_state \<Rightarrow> select_state option" where
  "press_key c Te qs e s =
     do { (b, _, k) \<leftarrow> combobox_key c (\<not> searchable c) (active_index qs s) (map option_disabled qs) e (box s);
          case k of
            Some i \<Rightarrow> click_option c Te qs i (s\<lparr>box := b\<rparr>)
          | None \<Rightarrow> Some (s\<lparr>box := b\<rparr>) }"

text \<open>The timeouts an event has set, in order, after the render.\<close>

definition run_scheduled :: "nat option \<Rightarrow> combobox \<Rightarrow> combobox" where
  "run_scheduled active s = (fold (\<lambda>e. run_later e active) (scheduled s) s)\<lparr>scheduled := []\<rparr>"

definition settled_select :: "select_option list \<Rightarrow> select_state \<Rightarrow> select_state" where
  "settled_select qs s = s\<lparr>box := run_scheduled (active_index qs s) (box s)\<rparr>"

text \<open>A key named \<open>Escape\<close> is not in the place of another key the list listens to.\<close>

definition plain_key :: "key_press \<Rightarrow> bool" where
  "plain_key e \<longleftrightarrow> key_name e = ''Escape'' \<longrightarrow>
     key_code e \<notin> {''ArrowDown'', ''ArrowUp'', ''Enter'', ''NumpadEnter'', ''Space''}"

inductive select_step ::
  "select_config \<Rightarrow> lockup \<Rightarrow> select_option list \<Rightarrow> select_state \<Rightarrow> select_state \<Rightarrow> bool" for c Te qs where
  key_pressed: "plain_key e \<Longrightarrow> press_key c Te qs e s = Some s' \<Longrightarrow> select_step c Te qs s (settled_select qs s')"
| select_clicked: "select_step c Te qs s (settled_select qs (click_select c (map option_disabled qs) s))"
| option_clicked: "opened (box s) \<Longrightarrow> click_option c Te qs i s = Some s' \<Longrightarrow> select_step c Te qs s (settled_select qs s')"
| blurred: "select_step c Te qs s (settled_select qs (blur_select c Te s))"
| value_given: "select_step c Te qs s (s\<lparr>given_value := v\<rparr>)"
| synchronized: "select_step c Te qs s (settled_select qs (sync_given before Te s))"

subsection \<open>What is highlighted\<close>

text \<open>A highlighted option is in an open list, is enabled, and is the one the index points to.\<close>

definition mark_ok :: "bool list \<Rightarrow> combobox \<Rightarrow> bool" where
  "mark_ok t b \<longleftrightarrow>
     scheduled b = [] \<and> -1 \<le> selected_index b \<and>
     (\<forall>i. marked b = Some i \<longrightarrow> opened b \<and> selected_index b = int i \<and> i < length t \<and> \<not> t ! i)"

lemma select_index_fields [simp]:
  "opened (select_index e t s) = opened s" "scheduled (select_index e t s) = scheduled s"
  by (simp_all add: select_index_def clear_selected_def Let_def split: option.split)

lemma select_index_marks:
  "0 \<le> e \<Longrightarrow> e < int (length t) \<Longrightarrow> \<not> t ! nat e \<Longrightarrow>
     select_index e (Some t) s = s\<lparr>selected_index := e, marked := Some (nat e)\<rparr>"
  by (simp add: select_index_def clear_selected_def Let_def)

lemma last_index_less [simp]: "t \<noteq> [] \<Longrightarrow> nat (int (length t) - 1) < length t"
  by (cases t) simp_all

lemma select_index_ok:
  assumes "marked s = None" "opened s" "scheduled s = []"
  shows "mark_ok t (select_index e (Some t) s)"
  using assms by (auto simp: mark_ok_def select_index_def clear_selected_def Let_def)

lemma previous_option_enabled:
  assumes "i < length t" "\<not> t ! i"
  shows "\<exists>j. previous_index (int i) t True = Some (int j) \<and> j < length t \<and> \<not> t ! j"
proof (cases "find (\<lambda>k. \<not> t ! k) (rev [0..<i])")
  case (Some j)
  then have "j < i" "\<not> t ! j" by (auto simp: find_Some_iff rev_nth)
  with Some assms(1) show ?thesis by (simp add: previous_index_def)
next
  case None
  have "find (\<lambda>k. \<not> t ! k) (rev [0..<length t]) \<noteq> None" using assms by (auto simp: find_None_iff)
  then obtain j where j: "find (\<lambda>k. \<not> t ! k) (rev [0..<length t]) = Some j" by blast
  from find_index_Some [OF this] have "j < length t \<and> \<not> t ! j" by simp
  with None assms(1) j show ?thesis by (simp add: previous_index_def last_enabled_def)
qed

text \<open>Opening and closing, with the timeouts they set.\<close>

lemma run_scheduled_none: "scheduled s = [] \<Longrightarrow> run_scheduled active s = s"
  by (simp add: run_scheduled_def)

lemma opened_ok:
  assumes "mark_ok t b" "\<not> opened b"
  shows "mark_ok t (run_scheduled active (open_dropdown (on_open c t) b))"
proof -
  have none: "marked b = None" "scheduled b = []" using assms by (auto simp: mark_ok_def)
  show ?thesis
  proof (cases "selectFirstOptionOnDropdownOpen c")
    case True
    then have "open_dropdown (on_open c t) b = select_index (first_index t) (Some t) (b\<lparr>opened := True\<rparr>)"
      using assms(2) by (simp add: open_dropdown_def on_open_def select_first_def)
    then show ?thesis using select_index_ok [of "b\<lparr>opened := True\<rparr>"] none by (simp add: run_scheduled_none)
  next
    case False
    with assms(2) none show ?thesis
      by (simp add: open_dropdown_def on_open_def run_scheduled_def run_later_def mark_ok_def split: option.split)
  qed
qed

lemma closed_ok:
  assumes "mark_ok t b"
  shows "mark_ok t (run_scheduled active (close_dropdown b))"
  using assms
  by (auto simp: close_dropdown_def mark_ok_def run_scheduled_def run_later_def reset_selected_def clear_selected_def)

lemma toggled_ok:
  "mark_ok t b \<Longrightarrow> mark_ok t (run_scheduled active (toggle_dropdown (on_open c t) b))"
  by (simp add: toggle_dropdown_def closed_ok opened_ok)

lemma arrow_opened_ok:
  assumes "mark_ok t b" "\<not> opened b"
  shows "mark_ok t (run_scheduled active' (open_with_arrow c active t b))"
proof -
  have none: "marked b = None" "scheduled b = []" using assms by (auto simp: mark_ok_def)
  define b1 where "b1 = open_dropdown (on_open c t) b"
  define b2 where "b2 = select_active active t b1"
  have b1: "opened b1" "scheduled b1 \<in> {[], [Update_active]}" "\<forall>i. marked b1 = Some i \<longrightarrow> i < length t \<and> \<not> t ! i"
    using assms(2) none
    by (auto simp: b1_def open_dropdown_def on_open_def select_first_def select_index_def clear_selected_def Let_def)
  then have b2: "opened b2" "scheduled b2 \<in> {[], [Update_active]}" "\<forall>i. marked b2 = Some i \<longrightarrow> i < length t \<and> \<not> t ! i"
    by (auto simp: b2_def select_active_def select_index_def clear_selected_def Let_def split: option.splits)
  have "open_with_arrow c active t b = b2\<lparr>scheduled := scheduled b2 @ [Update_marked]\<rparr>"
    by (simp add: open_with_arrow_def b1_def b2_def Let_def)
  then show ?thesis using b2
    by (auto simp: run_scheduled_def run_later_def mark_ok_def split: option.splits)
qed

lemma moved_ok:
  assumes "mark_ok t b" "opened b"
  shows "mark_ok t (select_next t True b)" "select_previous t True b = Some b' \<Longrightarrow> mark_ok t b'"
proof -
  have b: "scheduled b = []" "-1 \<le> selected_index b" using assms(1) by (simp_all add: mark_ok_def)
  have next_ok: "mark_ok t (select_next t True b)" if "marked b = Some i" for i
  proof -
    have "\<exists>k<length t. \<not> t ! k" using assms(1) that by (auto simp: mark_ok_def)
    from next_option_enabled [OF this b(2)] show ?thesis
      using assms(2) b(1) by (auto simp: mark_ok_def select_next_def)
  qed
  then show "mark_ok t (select_next t True b)"
    using select_index_ok [of b t] assms(2) b(1) by (cases "marked b") (simp_all add: select_next_def)
  assume prev: "select_previous t True b = Some b'"
  then obtain e where e: "previous_index (selected_index b) t True = Some e" "b' = select_index e (Some t) b"
    by (auto simp: select_previous_def)
  show "mark_ok t b'"
  proof (cases "marked b")
    case None
    then show ?thesis using select_index_ok [of b t] assms(2) b(1) e(2) by simp
  next
    case (Some i)
    then have "selected_index b = int i" "i < length t" "\<not> t ! i" using assms(1) by (auto simp: mark_ok_def)
    then obtain j where "e = int j" "j < length t" "\<not> t ! j" using previous_option_enabled [of i t] e(1) by auto
    then show ?thesis using assms(2) b(1) e(2) by (simp add: select_index_marks mark_ok_def)
  qed
qed

text \<open>A key either clicks the option the index points to, or leaves a list that is in order.\<close>

lemma key_ok:
  assumes "mark_ok t b" "plain_key e" "combobox_key c button active t e b = Some (b', p, k)"
  shows "k = None \<and> mark_ok t (run_scheduled active' b') \<or> b' = b \<and> opened b \<and> k = Some (selected_index b)"
proof -
  have here: "mark_ok t (run_scheduled active' b)" using assms(1) by (simp add: run_scheduled_none mark_ok_def)
  consider "select_readOnly c \<or> composing e" | "\<not> (select_readOnly c \<or> composing e)" "key_code e = ''ArrowDown''"
    | "\<not> (select_readOnly c \<or> composing e)" "key_code e = ''ArrowUp''" | "\<not> (select_readOnly c \<or> composing e)" "is_enter e"
    | "\<not> (select_readOnly c \<or> composing e)" "key_code e = ''Space''"
    | "\<not> (select_readOnly c \<or> composing e)" "key_code e \<notin> {''ArrowDown'', ''ArrowUp'', ''Enter'', ''NumpadEnter'', ''Space''}"
    by (auto simp: is_enter_def)
  then show ?thesis
  proof cases
    case 1
    with assms(3) here show ?thesis by (auto simp: combobox_key_def)
  next
    case 2
    then have b': "b' = (if opened b then select_next t True b else open_with_arrow c active t b)" "k = None"
      using assms(2,3) by (auto simp: combobox_key_def plain_key_def is_enter_def Let_def)
    show ?thesis
    proof (cases "opened b")
      case True
      with moved_ok(1) [OF assms(1) True] b' show ?thesis by (simp add: run_scheduled_none mark_ok_def)
    next
      case False
      with arrow_opened_ok [OF assms(1) False] b' show ?thesis by simp
    qed
  next
    case 3
    then have b': "(if opened b then select_previous t True b else Some (open_with_arrow c active t b)) = Some b'" "k = None"
      using assms(2,3)
      by (auto simp: combobox_key_def plain_key_def is_enter_def Let_def bind_eq_Some_conv split: if_splits)
    show ?thesis
    proof (cases "opened b")
      case True
      with moved_ok(2) [OF assms(1) True, of b'] b' show ?thesis by (simp add: run_scheduled_none mark_ok_def)
    next
      case False
      with arrow_opened_ok [OF assms(1) False] b' show ?thesis by auto
    qed
  next
    case 4
    then have no: "key_code e \<notin> {''ArrowDown'', ''ArrowUp'', ''Space''}" "key_name e \<noteq> ''Escape''"
      using assms(2) by (auto simp: is_enter_def plain_key_def)
    have opens: "mark_ok t (run_scheduled active' (open_dropdown (on_open c t) b))"
      using opened_ok [OF assms(1)] here by (cases "opened b") (simp_all add: open_dropdown_def)
    show ?thesis
      using assms(3) 4 no here opens
      by (auto simp: combobox_key_def Let_def split: if_splits)
  next
    case 5
    then have "k = None" "b' = (if button then toggle_dropdown (on_open c t) b else b)"
      using assms(2,3) by (auto simp: combobox_key_def plain_key_def is_enter_def Let_def split: if_splits)
    with toggled_ok [OF assms(1)] here show ?thesis by simp
  next
    case 6
    then have "k = None" "b' = (if key_name e = ''Escape'' then close_dropdown b else b)"
      using assms(3) by (auto simp: combobox_key_def is_enter_def Let_def split: if_splits)
    with closed_ok [OF assms(1)] here show ?thesis by simp
  qed
qed

subsection \<open>The drop-down\<close>

definition fresh_select :: "select_state \<Rightarrow> bool" where
  "fresh_select s \<longleftrightarrow> box s = \<lparr>opened = False, selected_index = -1, marked = None, scheduled = []\<rparr>"

definition select_inv :: "select_option list \<Rightarrow> select_state \<Rightarrow> bool" where
  "select_inv qs s \<longleftrightarrow> mark_ok (map option_disabled qs) (box s)"

lemma reset_ok:
  assumes "mark_ok t b"
  shows "mark_ok t (reset_selected b)" "mark_ok t (run_scheduled active (reset_selected (close_dropdown b)))"
  using assms
  by (auto simp: mark_ok_def reset_selected_def clear_selected_def close_dropdown_def run_scheduled_def run_later_def)

lemma set_value_box [simp]: "box (set_value n s) = box s"
  by (simp add: set_value_def split: option.split)

lemma set_search_box [simp]: "box (set_search e s) = reset_selected (box s)"
  by (simp add: set_search_def)

lemma submit_box:
  assumes "submit_option c Te e s = Some s'"
  shows "box s' = close_dropdown (box s) \<or> box s' = close_dropdown (reset_selected (box s))"
proof -
  obtain q where q: "Te e = Some q" using assms by (cases "Te e") (simp_all add: submit_option_def)
  define t where "t = (if allowDeselect c \<and> value_text (option_value q) = value_or_null (select_value s) then None else Some q)"
  define s1 where "s1 = (if map_option option_value t \<noteq> select_value s then set_value (map_option option_value t) s else s)"
  define s2 where "s2 = (if given_value s = None
    then set_search (case t of None \<Rightarrow> [] | Some q' \<Rightarrow> option_label q') s1 else s1)"
  have "Some (s2\<lparr>box := close_dropdown (box s2)\<rparr>) = Some s'"
    using assms by (simp only: submit_option_def q Let_def option.case t_def [symmetric] s1_def [symmetric] s2_def [symmetric])
  moreover have "box s1 = box s" by (simp add: s1_def)
  then have "box s2 = box s \<or> box s2 = reset_selected (box s)" by (simp add: s2_def)
  ultimately show ?thesis by fastforce
qed

lemma settled_marks: "mark_ok t b \<Longrightarrow> scheduled b = []"
  by (simp add: mark_ok_def)

lemma settled_same: "mark_ok t b \<Longrightarrow> mark_ok t (run_scheduled active b)"
  by (simp add: run_scheduled_none settled_marks)

lemma fresh_ok: "fresh_select s \<Longrightarrow> select_inv qs s"
  by (simp add: fresh_select_def select_inv_def mark_ok_def)

lemma clicked_option_ok:
  assumes "select_inv qs s" "click_option c Te qs i s = Some s'"
  shows "select_inv qs (settled_select qs s')"
proof -
  have "s' = s \<or> (\<exists>e. submit_option c Te e s = Some s')"
    using assms(2) unfolding click_option_def by (metis option.inject)
  then consider "s' = s" | e where "submit_option c Te e s = Some s'" by blast
  then show ?thesis
  proof cases
    case 1
    with assms(1) settled_same show ?thesis unfolding select_inv_def settled_select_def by simp
  next
    case 2
    from submit_box [OF this] closed_ok reset_ok(1) assms(1) show ?thesis
      unfolding select_inv_def settled_select_def by auto
  qed
qed

lemma pressed_key_ok:
  assumes "select_inv qs s" "plain_key e" "press_key c Te qs e s = Some s'"
  shows "select_inv qs (settled_select qs s')"
proof -
  obtain b p k where key: "combobox_key c (\<not> searchable c) (active_index qs s) (map option_disabled qs) e (box s) =
      Some (b, p, k)"
    and s': "(case k of Some i \<Rightarrow> click_option c Te qs i (s\<lparr>box := b\<rparr>) | None \<Rightarrow> Some (s\<lparr>box := b\<rparr>)) = Some s'"
    using assms(3) by (auto simp: press_key_def bind_eq_Some_conv)
  from key_ok [OF assms(1) [unfolded select_inv_def] assms(2) key]
  consider "k = None" "mark_ok (map option_disabled qs) (run_scheduled (active_index qs s') b)"
    | "b = box s" "k = Some (selected_index (box s))" by blast
  then show ?thesis
  proof cases
    case 1
    with s' show ?thesis by (auto simp: select_inv_def settled_select_def)
  next
    case 2
    with s' have "click_option c Te qs (selected_index (box s)) s = Some s'" by simp
    with clicked_option_ok [OF assms(1)] show ?thesis by blast
  qed
qed

lemma select_step_inv:
  assumes "select_inv qs s" "select_step c Te qs s s'"
  shows "select_inv qs s'"
proof -
  let ?t = "map option_disabled qs"
  have ok: "mark_ok ?t (box s)" using assms(1) by (simp add: select_inv_def)
  have here: "mark_ok ?t (run_scheduled a (box s))" for a using ok by (rule settled_same)
  from assms(2) show ?thesis
  proof cases
    case (key_pressed e s1)
    with assms(1) show ?thesis by (simp add: pressed_key_ok)
  next
    case select_clicked
    have "mark_ok ?t (run_scheduled a (open_dropdown (on_open c ?t) (box s)))" for a
      using opened_ok [OF ok] here by (cases "opened (box s)") (simp_all add: open_dropdown_def)
    with toggled_ok [OF ok] show ?thesis
      by (simp add: select_clicked select_inv_def settled_select_def click_select_def)
  next
    case (option_clicked i s1)
    with assms(1) show ?thesis by (simp add: clicked_option_ok)
  next
    case blurred
    have "mark_ok ?t (run_scheduled a (reset_selected (box s)))" for a
      using reset_ok(1) [OF ok] by (rule settled_same)
    with reset_ok(2) [OF ok] show ?thesis
      by (simp add: blurred select_inv_def settled_select_def blur_select_def Let_def)
  next
    case (value_given v)
    with ok show ?thesis by (simp add: select_inv_def)
  next
    case (synchronized before)
    have "mark_ok ?t (run_scheduled a (reset_selected (box s)))" for a
      using reset_ok(1) [OF ok] by (rule settled_same)
    with here show ?thesis
      by (simp add: synchronized select_inv_def settled_select_def sync_given_def split: option.split)
  qed
qed

interpretation drop_downs: state_machine "select_step c Te qs" fresh_select "select_inv qs"
  by unfold_locales (rule fresh_ok select_step_inv; assumption)+


definition demo_key :: "string \<Rightarrow> key_press" where
  "demo_key k = \<lparr>key_code = k, key_name = k, composing = False, keyCode = 0\<rparr>"

definition demo_select :: select_state where
  "demo_select =
     \<lparr>own_value = None, given_value = Some None, search_text = [], retained = (\<lambda>_. None),
      box = \<lparr>opened = False, selected_index = -1, marked = None, scheduled = []\<rparr>, changes = []\<rparr>"


text \<open>
  Opened by a click, the console's drop-down highlights nothing, and its index points to the network that is
  chosen: \<open>Enter\<close> submits that network, which takes the choice back.
\<close>

lemma enter_takes_choice_back:
  assumes "fresh_select s" "selectedNetwork p = names ! k" "k < length names" "names ! k \<noteq> []"
    and "is_enter e" "keyCode e \<noteq> 229" "\<not> composing e" "plain_key e"
  shows "\<exists>s'. press_key select_defaults (network_options names) (map network_option names) e
      (settled_select (map network_option names)
        (click_select select_defaults (map option_disabled (map network_option names)) (network_select p s))) = Some s' \<and>
      changes s' = changes s @ [None]"
proof -
  let ?qs = "map network_option names" and ?s = "network_select p s"
  have checked: "is_checked t (network_option n) \<longleftrightarrow> n = names ! k" if "given_value t = given_value ?s" for t n
    using assms(2,4) that by (auto simp: is_checked_def select_value_def network_select_def network_option_def)
  have active: "\<exists>j<length names. active_index ?qs t = Some j \<and> names ! j = names ! k"
    if "given_value t = given_value ?s" for t
  proof -
    have "active_index ?qs t = find (\<lambda>j. names ! j = names ! k) [0..<length names]"
      unfolding active_index_def length_map by (rule find_cong) (auto simp: checked [OF that])
    moreover have "find (\<lambda>j. names ! j = names ! k) [0..<length names] \<noteq> None"
      using assms(3) by (auto simp: find_None_iff)
    then obtain j where j: "find (\<lambda>j. names ! j = names ! k) [0..<length names] = Some j" by blast
    ultimately have "active_index ?qs t = Some j" by simp
    with find_upt_Some(2,3) [OF j] show ?thesis by blast
  qed
  define t where "t = click_select select_defaults (map option_disabled ?qs) ?s"
  have t: "box t = \<lparr>opened = True, selected_index = -1, marked = None, scheduled = [Update_active]\<rparr>"
    "given_value t = given_value ?s" "changes t = changes s"
    using assms(1) by (simp_all add: t_def click_select_def select_defaults_def toggle_dropdown_def open_dropdown_def
        on_open_def fresh_select_def network_select_def)
  from active [OF t(2)] obtain j where j: "j < length names" "active_index ?qs t = Some j" "names ! j = names ! k" by blast
  define s1 where "s1 = settled_select ?qs t"
  have s1: "box s1 = \<lparr>opened = True, selected_index = int j, marked = None, scheduled = []\<rparr>"
    "given_value s1 = given_value ?s" "changes s1 = changes s"
    using t j(2) by (simp_all add: s1_def settled_select_def run_scheduled_def run_later_def)
  have no: "key_code e \<notin> {''ArrowDown'', ''ArrowUp'', ''Space''}" "key_name e \<noteq> ''Escape''"
    using assms(5,8) by (auto simp: is_enter_def plain_key_def)
  have "combobox_key select_defaults (\<not> searchable select_defaults) a u e (box s1) = Some (box s1, True, Some (int j))" for a u
    using assms(5-7) no by (simp add: combobox_key_def s1(1) select_defaults_def Let_def)
  then have "press_key select_defaults (network_options names) ?qs e s1 =
      submit_option select_defaults (network_options names) (names ! k) s1"
    using j(1,3) by (simp add: press_key_def click_option_def network_option_def)
  moreover have "network_options names (names ! k) = Some (network_option (names ! k))"
    using assms(3) by (simp add: network_options_eq)
  moreover have "given_value s1 = Some (Some (Value_string (names ! k)))"
    unfolding s1(2) using assms(2,4) by (simp add: network_select_def)
  ultimately have "\<exists>s'. press_key select_defaults (network_options names) ?qs e s1 = Some s' \<and> changes s' = changes s @ [None]"
    by (simp add: submit_option_def select_value_def select_defaults_def network_option_def value_or_null_def
        set_value_def s1(3) Let_def)
  then show ?thesis unfolding s1_def t_def .
qed

end
