(* ===== verification/React_Lanes.thy ===== *)
theory React_Lanes
  imports Complex_Main "HOL-Library.Word"
begin

unbundle bit_operations_syntax

text \<open>
  The priorities of the console's renders: the lanes of React DOM as bundled into \<open>app.js\<close>. A set of
  lanes is a 32-bit integer whose low bits are the urgent ones; comparisons are those of signed
  integers. The lanes of a root, what updates, renders, suspensions and pings do to them, and the
  choice of the lanes to render next. Times are real numbers of milliseconds, \<open>-1\<close> is no time. Bit 31
  is never used, and the maps by lane have 31 entries.
\<close>

type_synonym lanes = "32 word"

subsection \<open>Single lanes\<close>

definition lowest_lane :: "lanes \<Rightarrow> lanes" where
  "lowest_lane e = e AND - e"

text \<open>\<open>Math.clz32\<close>, and the index of the highest lane of a set that has one.\<close>

definition clz32 :: "lanes \<Rightarrow> nat" where
  "clz32 e = length (takeWhile Not (map (bit e) (rev [0..<32])))"

definition top_index :: "lanes \<Rightarrow> nat" where
  "top_index e = 31 - clz32 e"

lemma clz32_nonzero:
  assumes "e \<noteq> 0"
  shows "clz32 e < 32" "bit e (top_index e)" "\<And>i. bit e i \<Longrightarrow> i \<le> top_index e"
proof -
  obtain k where k: "bit e k" using assms by (metis bit_eqI bit_0_eq bot_apply bot_boolE)
  then have k32: "k < 32" using bit_imp_le_length [OF k] by simp
  let ?l = "map (bit e) (rev [0..<32])"
  have nth: "?l ! j = bit e (31 - j)" if "j < 32" for j using that by (simp add: rev_nth)
  have "\<not> (\<forall>b\<in>set ?l. \<not> b)" using k k32 by auto
  then have "takeWhile Not ?l \<noteq> ?l" by (metis takeWhile_eq_all_conv)
  then have lt: "length (takeWhile Not ?l) < length ?l"
    by (metis length_takeWhile_le le_neq_implies_less takeWhile_eq_take take_all_iff order_refl)
  then show c: "clz32 e < 32" by (simp add: clz32_def)
  from nth_length_takeWhile [OF lt] show "bit e (top_index e)"
    using c nth [of "clz32 e"] by (simp add: clz32_def [symmetric] top_index_def)
  fix i assume i: "bit e i"
  then have i32: "i < 32" using bit_imp_le_length [OF i] by simp
  show "i \<le> top_index e"
  proof (rule ccontr)
    assume "\<not> i \<le> top_index e"
    then have "31 - i < clz32 e" using c i32 by (simp add: top_index_def)
    then have "\<not> ?l ! (31 - i)" using nth_mem takeWhile_nth [of "31 - i" Not ?l]
      by (metis (full_types) clz32_def set_takeWhileD nth_mem)
    with i i32 show False by (simp add: rev_nth)
  qed
qed

definition lane_bit :: "nat \<Rightarrow> lanes" where
  "lane_bit i = push_bit i 1"

text \<open>\<open>for (; n; ) { u = 31 - clz32(n); ...; n &= ~(1 << u) }\<close>: the highest lane first.\<close>

lemma clear_top_less:
  assumes "n \<noteq> (0 :: lanes)"
  shows "unat (n AND NOT (lane_bit (top_index n))) < unat n"
proof -
  let ?t = "lane_bit (top_index n)"
  have top: "bit n (top_index n)" using clz32_nonzero(2) [OF assms] .
  then have "top_index n < 32" using bit_imp_le_length [of n "top_index n"] by simp
  then have "\<not> bit (n AND NOT ?t) (top_index n)" by (simp add: lane_bit_def bit_simps)
  with top have "n AND NOT ?t \<noteq> n" by metis
  moreover have "n AND NOT ?t \<le> n" by (rule word_and_le2)
  ultimately have "n AND NOT ?t < n" by simp
  then show ?thesis by (simp add: word_less_nat_alt)
qed

function lane_loop :: "(nat \<Rightarrow> 's \<Rightarrow> 's) \<Rightarrow> lanes \<Rightarrow> 's \<Rightarrow> 's" where
  "lane_loop f n s =
     (if n = 0 then s else lane_loop f (n AND NOT (lane_bit (top_index n))) (f (top_index n) s))"
  by pat_completeness auto
termination
  by (relation "measure (\<lambda>(f, n, s). unat n)") (auto intro: clear_top_less)

declare lane_loop.simps [simp del]

text \<open>The loops that run while \<open>0 < n\<close> stop at once on a negative number.\<close>

definition positive_lane_loop :: "(nat \<Rightarrow> 's \<Rightarrow> 's) \<Rightarrow> lanes \<Rightarrow> 's \<Rightarrow> 's" where
  "positive_lane_loop f n s = (if word_sless 0 n then lane_loop f n s else s)"

subsection \<open>Choosing among lanes\<close>

definition sync_lanes :: lanes where "sync_lanes = 42"
definition transition_lanes :: lanes where "transition_lanes = 261888"
definition deferred_transition_lanes :: lanes where "deferred_transition_lanes = 3932160"
definition retry_lanes :: lanes where "retry_lanes = 62914560"
definition non_idle_lanes :: lanes where "non_idle_lanes = 134217727"
definition offscreen_lane :: lanes where "offscreen_lane = 536870912"

definition highest_priority_lanes :: "lanes \<Rightarrow> lanes" where
  "highest_priority_lanes e =
     (let t = e AND 42; l = lowest_lane e in
      if t \<noteq> 0 then t
      else if l \<in> set [1, 2, 4, 8, 16, 32, 64, 128] then l
      else if l \<in> set [256, 512, 1024, 2048, 4096, 8192, 16384, 32768, 65536, 131072] then e AND 261888
      else if l \<in> set [262144, 524288, 1048576, 2097152] then e AND 3932160
      else if l \<in> set [4194304, 8388608, 16777216, 33554432] then e AND 62914560
      else if l \<in> set [67108864, 134217728, 268435456, 536870912] then l
      else if l = 1073741824 then 0
      else e)"

text \<open>
  A root. \<open>hiddenUpdates\<close> holds updates by their number, and \<open>update_lane\<close> the lane of each: the
  update objects are shared with the queues they are in.
\<close>

record root =
  root_tag :: nat
  pendingLanes :: lanes
  suspendedLanes :: lanes
  pingedLanes :: lanes
  warmLanes :: lanes
  expiredLanes :: lanes
  entangledLanes :: lanes
  errorRecoveryDisabledLanes :: lanes
  shellSuspendCounter :: nat
  entanglements :: "lanes list"
  expirationTimes :: "real list"
  hiddenUpdates :: "nat list option list"
  update_lane :: "nat \<Rightarrow> lanes"

definition lane_map :: "'a \<Rightarrow> 'a list" where
  "lane_map e = replicate 31 e"

definition new_root :: root where
  "new_root =
     \<lparr>root_tag = 1, pendingLanes = 0, suspendedLanes = 0, pingedLanes = 0, warmLanes = 0, expiredLanes = 0,
      entangledLanes = 0, errorRecoveryDisabledLanes = 0, shellSuspendCounter = 0, entanglements = lane_map 0,
      expirationTimes = lane_map (-1), hiddenUpdates = lane_map None, update_lane = (\<lambda>_. 0)\<rparr>"

text \<open>\<open>n\<close>: the root has a commit that waits, so nothing is warmed up.\<close>

definition candidate_lanes :: "'z root_scheme \<Rightarrow> bool \<Rightarrow> lanes" where
  "candidate_lanes e n =
     (let r = pendingLanes e; a = suspendedLanes e; p = pingedLanes e; w = warmLanes e; s = r AND 134217727
      in if s \<noteq> 0
         then (let u = s AND NOT a in
               if u \<noteq> 0 then highest_priority_lanes u
               else if s AND p \<noteq> 0 then highest_priority_lanes (s AND p)
               else if n then 0
               else if s AND NOT w \<noteq> 0 then highest_priority_lanes (s AND NOT w) else 0)
         else (let u = r AND NOT a in
               if u \<noteq> 0 then highest_priority_lanes u
               else if p \<noteq> 0 then highest_priority_lanes p
               else if n then 0
               else if r AND NOT w \<noteq> 0 then highest_priority_lanes (r AND NOT w) else 0))"

text \<open>The render of \<open>t\<close> under way goes on unless the candidate is more urgent.\<close>

definition next_lanes :: "'z root_scheme \<Rightarrow> lanes \<Rightarrow> bool \<Rightarrow> lanes" where
  "next_lanes e t n =
     (let i = candidate_lanes e n in
      if pendingLanes e = 0 then 0
      else if i = 0 then 0
      else if t \<noteq> 0 \<and> t \<noteq> i \<and> t AND suspendedLanes e = 0 \<and>
              (let x = lowest_lane i; y = lowest_lane t
               in word_sle y x \<or> x = 32 \<and> y AND 4194048 \<noteq> 0)
      then t else i)"

text \<open>Whether nothing but warming up is left of the lanes \<open>t\<close>.\<close>

definition only_prerendering :: "'z root_scheme \<Rightarrow> lanes \<Rightarrow> bool" where
  "only_prerendering e t \<longleftrightarrow> pendingLanes e AND NOT (suspendedLanes e AND NOT (pingedLanes e)) AND t = 0"

definition expiration_time :: "lanes \<Rightarrow> real \<Rightarrow> real" where
  "expiration_time e t =
     (if e \<in> set [1, 2, 4, 8, 64] then t + 250
      else if e \<in> set [16, 32, 128, 256, 512, 1024, 2048, 4096, 8192, 16384, 32768, 65536, 131072, 262144,
                       524288, 1048576, 2097152]
      then t + 5000
      else -1)"

subsection \<open>What happens to a root's lanes\<close>

text \<open>\<open>ze\<close>, \<open>Be\<close> and \<open>Ve\<close>, the next lane of each kind: the lane taken, and the next.\<close>

definition claim_lane :: "lanes \<Rightarrow> lanes \<Rightarrow> lanes \<Rightarrow> lanes \<times> lanes" where
  "claim_lane kind first e =
     (e, let n = push_bit 1 e in if n AND kind = 0 then first else n)"

definition claim_transition_lane :: "lanes \<Rightarrow> lanes \<times> lanes" where
  "claim_transition_lane = claim_lane 261888 256"

definition claim_deferred_lane :: "lanes \<Rightarrow> lanes \<times> lanes" where
  "claim_deferred_lane = claim_lane 3932160 262144"

definition claim_retry_lane :: "lanes \<Rightarrow> lanes \<times> lanes" where
  "claim_retry_lane = claim_lane 62914560 4194304"

definition mark_root_updated :: "lanes \<Rightarrow> 'z root_scheme \<Rightarrow> 'z root_scheme" where
  "mark_root_updated t e =
     (let e1 = e\<lparr>pendingLanes := pendingLanes e OR t\<rparr>
      in if t \<noteq> 268435456 then e1\<lparr>suspendedLanes := 0, pingedLanes := 0, warmLanes := 0\<rparr> else e1)"

definition mark_spawned_deferred :: "lanes \<Rightarrow> lanes \<Rightarrow> 'z root_scheme \<Rightarrow> 'z root_scheme" where
  "mark_spawned_deferred t n e =
     (let r = top_index t in
      e\<lparr>pendingLanes := pendingLanes e OR t, suspendedLanes := suspendedLanes e AND NOT t,
        entangledLanes := entangledLanes e OR t,
        entanglements := (entanglements e)[r := entanglements e ! r OR 1073741824 OR (n AND 261930)]\<rparr>)"

text \<open>The loop of a finished render over the lanes that have no work left.\<close>

definition finish_lane :: "nat \<Rightarrow> 'z root_scheme \<Rightarrow> 'z root_scheme" where
  "finish_lane u e =
     e\<lparr>entanglements := (entanglements e)[u := 0], expirationTimes := (expirationTimes e)[u := -1],
       hiddenUpdates := (hiddenUpdates e)[u := None],
       update_lane := (case hiddenUpdates e ! u of
                         None \<Rightarrow> update_lane e
                       | Some ps \<Rightarrow> fold (\<lambda>p f. f(p := f p AND NOT 536870912)) ps (update_lane e))\<rparr>"

text \<open>
  \<open>t\<close>: the lanes of the finished render, \<open>n\<close>: the lanes left with work, \<open>r\<close>: the deferred lane it
  spawned, \<open>i\<close>: the lanes updated during the render, \<open>a\<close>: the lanes of suspended retries.
\<close>

definition mark_root_finished :: "lanes \<Rightarrow> lanes \<Rightarrow> lanes \<Rightarrow> lanes \<Rightarrow> lanes \<Rightarrow> 'z root_scheme \<Rightarrow> 'z root_scheme" where
  "mark_root_finished t n r i a e =
     (let old = pendingLanes e;
          e1 = e\<lparr>pendingLanes := n, suspendedLanes := 0, pingedLanes := 0, warmLanes := 0,
                 expiredLanes := expiredLanes e AND n, entangledLanes := entangledLanes e AND n,
                 errorRecoveryDisabledLanes := errorRecoveryDisabledLanes e AND n, shellSuspendCounter := 0\<rparr>;
          e2 = positive_lane_loop finish_lane (old AND NOT n) e1;
          e3 = (if r \<noteq> 0 then mark_spawned_deferred r 0 e2 else e2)
      in if a \<noteq> 0 \<and> i = 0 \<and> root_tag e3 \<noteq> 0
         then e3\<lparr>suspendedLanes := suspendedLanes e3 OR (a AND NOT (old AND NOT t))\<rparr> else e3)"

definition mark_root_entangled :: "lanes \<Rightarrow> 'z root_scheme \<Rightarrow> 'z root_scheme" where
  "mark_root_entangled t e =
     (let n = entangledLanes e OR t
      in e\<lparr>entangledLanes := n,
           entanglements := lane_loop
             (\<lambda>r m. if lane_bit r AND t OR m ! r AND t \<noteq> 0 then m[r := m ! r OR t] else m) n (entanglements e)\<rparr>)"

definition hydration_lane :: "lanes \<Rightarrow> lanes" where
  "hydration_lane e =
     (if e = 2 then 1 else if e = 8 then 4 else if e = 32 then 16
      else if e \<in> set [256, 512, 1024, 2048, 4096, 8192, 16384, 32768, 65536, 131072, 262144, 524288, 1048576,
                       2097152, 4194304, 8388608, 16777216, 33554432] then 128
      else if e = 268435456 then 134217728 else 0)"

definition bumped_hydration_lane :: "lanes \<Rightarrow> 'z root_scheme \<Rightarrow> lanes" where
  "bumped_hydration_lane t e =
     (let l = lowest_lane t; n = (if l AND 42 \<noteq> 0 then 1 else hydration_lane l)
      in if n AND (suspendedLanes e OR t) = 0 then n else 0)"

text \<open>The priority of an event whose updates are in \<open>e\<close>.\<close>

definition event_priority :: "lanes \<Rightarrow> lanes" where
  "event_priority e =
     (let l = lowest_lane e in
      if word_sless 2 l
      then (if word_sless 8 l then (if l AND 134217727 \<noteq> 0 then 32 else 268435456) else 8)
      else 2)"

text \<open>\<open>g\<close>: lanes pinged during the render, \<open>w\<close>: lanes updated during it, \<open>n\<close>: a spawned lane.\<close>

definition mark_root_suspended :: "lanes \<Rightarrow> lanes \<Rightarrow> lanes \<Rightarrow> lanes \<Rightarrow> bool \<Rightarrow> 'z root_scheme \<Rightarrow> 'z root_scheme" where
  "mark_root_suspended g w t n r e =
     (let u = t AND NOT g AND NOT w;
          e1 = e\<lparr>suspendedLanes := suspendedLanes e OR u, pingedLanes := pingedLanes e AND NOT u,
                 warmLanes := (if r then warmLanes e OR u else warmLanes e)\<rparr>;
          e2 = positive_lane_loop (\<lambda>a s. s\<lparr>expirationTimes := (expirationTimes s)[a := -1]\<rparr>) u e1
      in if n \<noteq> 0 then mark_spawned_deferred n u e2 else e2)"

definition mark_root_pinged :: "lanes \<Rightarrow> 'z root_scheme \<Rightarrow> 'z root_scheme" where
  "mark_root_pinged n e =
     e\<lparr>pingedLanes := pingedLanes e OR (suspendedLanes e AND n), warmLanes := warmLanes e AND NOT n\<rparr>"

text \<open>Lanes that have waited too long are expired, and lanes that start to wait get a time.\<close>

definition starve_lane :: "real \<Rightarrow> nat \<Rightarrow> 'z root_scheme \<Rightarrow> 'z root_scheme" where
  "starve_lane t i e =
     (let s = lane_bit i; c = expirationTimes e ! i in
      if c = -1
      then (if s AND suspendedLanes e = 0 \<or> s AND pingedLanes e \<noteq> 0
            then e\<lparr>expirationTimes := (expirationTimes e)[i := expiration_time s t]\<rparr> else e)
      else if c \<le> t then e\<lparr>expiredLanes := expiredLanes e OR s\<rparr> else e)"

definition mark_starved_lanes :: "real \<Rightarrow> 'z root_scheme \<Rightarrow> 'z root_scheme" where
  "mark_starved_lanes t e = positive_lane_loop (starve_lane t) (pendingLanes e AND - 62914561) e"

text \<open>The lanes a render of \<open>t\<close> really renders: those entangled with them too.\<close>

definition render_lanes_of :: "'z root_scheme \<Rightarrow> lanes \<Rightarrow> lanes" where
  "render_lanes_of e t =
     (let t1 = (if t AND 8 \<noteq> 0 then t OR (t AND 32) else t); r = entangledLanes e AND t1
      in if entangledLanes e \<noteq> 0 then positive_lane_loop (\<lambda>i u. u OR entanglements e ! i) r t1 else t1)"

end
