(* ===== verification/React_Lanes_Properties.thy ===== *)
theory React_Lanes_Properties
  imports React_Lanes
begin

unbundle bit_operations_syntax

text \<open>
  What the lanes promise: the lanes chosen for the next render are pending, work that can go on comes
  before work that cannot, an update always leaves work to do, and a lane that waits expires.
\<close>

subsection \<open>The lowest lane\<close>

lemma odd_and_minus:
  assumes "odd (m :: lanes)"
  shows "m AND - m = 1"
proof (rule bit_word_eqI)
  fix i assume i: "i < LENGTH(32)"
  let ?q = "m div 2"
  have m: "m = 2 * ?q + 1" using div_mult_mod_eq [of m 2] assms by (simp add: mod_2_eq_odd mult.commute)
  have "- m = NOT (2 * ?q)" using m by (metis add_diff_cancel_right' minus_eq_not_minus_1)
  moreover have "bit m i \<longleftrightarrow> i = 0 \<or> bit ?q (i - 1)"
    using assms by (cases i) (simp_all add: bit_0 bit_Suc)
  moreover have "bit (2 * ?q) i \<longleftrightarrow> 0 < i \<and> bit ?q (i - 1)"
    using i by (cases i) (auto simp: bit_double_iff bit_0)
  ultimately show "bit (m AND - m) i = bit (1 :: lanes) i"
    using i by (auto simp: bit_simps)
qed

lemma lowest_lane_bit:
  assumes "e \<noteq> 0"
  obtains k where "k < 32" "bit e k" "\<And>j. j < k \<Longrightarrow> \<not> bit e j" "lowest_lane e = lane_bit k"
proof -
  obtain k where k: "bit e k" and low: "\<And>j. j < k \<Longrightarrow> \<not> bit e j"
    using clz32_nonzero(2) [OF assms] exists_least_iff [of "bit e"] by blast
  have k32: "k < 32" using bit_imp_le_length [OF k] by simp
  have e: "push_bit k (drop_bit k e) = e"
  proof (rule bit_word_eqI)
    fix i assume "i < LENGTH(32)"
    then show "bit (push_bit k (drop_bit k e)) i = bit e i"
      by (cases "k \<le> i") (simp_all add: bit_push_bit_iff bit_drop_bit_eq low)
  qed
  have odd: "odd (drop_bit k e)" using k by (simp add: bit_iff_odd_drop_bit)
  have "e AND - e = push_bit k (drop_bit k e) AND - push_bit k (drop_bit k e)" by (simp only: e)
  also have "\<dots> = push_bit k (drop_bit k e AND - drop_bit k e)" by (simp only: push_bit_minus push_bit_and)
  also have "\<dots> = push_bit k 1" by (simp only: odd_and_minus [OF odd])
  finally show ?thesis using that [OF k32 k low] by (simp add: lowest_lane_def lane_bit_def)
qed

lemma bit_lane_bit [simp]: "bit (lane_bit k) i \<longleftrightarrow> i = k \<and> k < 32"
  by (auto simp: lane_bit_def bit_simps)

lemma lane_bit_numerals:
  "lane_bit 0 = 1"
  "lane_bit (Suc 0) = 2"
  "lane_bit 2 = 4"
  "lane_bit 3 = 8"
  "lane_bit 4 = 16"
  "lane_bit 5 = 32"
  "lane_bit 6 = 64"
  "lane_bit 7 = 128"
  "lane_bit 8 = 256"
  "lane_bit 9 = 512"
  "lane_bit 10 = 1024"
  "lane_bit 11 = 2048"
  "lane_bit 12 = 4096"
  "lane_bit 13 = 8192"
  "lane_bit 14 = 16384"
  "lane_bit 15 = 32768"
  "lane_bit 16 = 65536"
  "lane_bit 17 = 131072"
  "lane_bit 18 = 262144"
  "lane_bit 19 = 524288"
  "lane_bit 20 = 1048576"
  "lane_bit 21 = 2097152"
  "lane_bit 22 = 4194304"
  "lane_bit 23 = 8388608"
  "lane_bit 24 = 16777216"
  "lane_bit 25 = 33554432"
  "lane_bit 26 = 67108864"
  "lane_bit 27 = 134217728"
  "lane_bit 28 = 268435456"
  "lane_bit 29 = 536870912"
  "lane_bit 30 = 1073741824"
  by (simp_all add: lane_bit_def)

lemma and_nonzero: "bit a k \<Longrightarrow> bit b k \<Longrightarrow> a AND b \<noteq> (0 :: lanes)"
  by (metis bit_0_eq bit_and_iff bot_apply bot_boolE)

lemma nonzero_bit:
  assumes "(e :: lanes) \<noteq> 0"
  obtains k where "k < 32" "bit e k"
  using lowest_lane_bit [OF assms] by metis

lemma bit_mask27: "bit (134217727 :: lanes) k \<longleftrightarrow> k < 27"
proof -
  have "(134217727 :: lanes) = mask 27" by (simp add: mask_numeral)
  then show ?thesis by (simp only: bit_mask_iff) auto
qed

definition subset_lanes :: "lanes \<Rightarrow> lanes \<Rightarrow> bool" where
  "subset_lanes a b \<longleftrightarrow> a AND b = a"

lemma subset_lanes_bits: "subset_lanes a b \<longleftrightarrow> (\<forall>i. bit a i \<longrightarrow> bit b i)"
proof
  assume "subset_lanes a b"
  then show "\<forall>i. bit a i \<longrightarrow> bit b i" unfolding subset_lanes_def by (metis bit_and_iff)
next
  assume *: "\<forall>i. bit a i \<longrightarrow> bit b i"
  show "subset_lanes a b" unfolding subset_lanes_def
    by (rule bit_word_eqI) (use * in \<open>auto simp: bit_and_iff\<close>)
qed

lemma highest_priority_subset: "subset_lanes (highest_priority_lanes e) e"
proof -
  have "subset_lanes (lowest_lane e) e" by (simp add: subset_lanes_bits lowest_lane_def bit_and_iff)
  moreover have "subset_lanes (e AND m) e" for m by (simp add: subset_lanes_bits bit_and_iff)
  moreover have "subset_lanes 0 e" "subset_lanes e e" by (simp_all add: subset_lanes_bits)
  ultimately show ?thesis by (simp only: highest_priority_lanes_def Let_def split: if_split) blast
qed

text \<open>The most urgent lane is among those chosen, unless hydration waits behind a synchronous lane.\<close>

lemma highest_priority_lowest:
  assumes "e AND 134217727 \<noteq> 0"
  shows "highest_priority_lanes e \<noteq> 0"
    and "e AND 42 = 0 \<Longrightarrow> subset_lanes (lowest_lane e) (highest_priority_lanes e)"
proof -
  have "e \<noteq> 0" using assms by auto
  then obtain k where k: "k < 32" "bit e k" "\<And>j. j < k \<Longrightarrow> \<not> bit e j" "lowest_lane e = lane_bit k"
    using lowest_lane_bit by blast
  obtain j where "bit (e AND 134217727) j" using assms nonzero_bit by metis
  then have "bit e j" "j < 27" by (simp_all only: bit_and_iff bit_mask27)
  with k(3) have k27: "k < 27" by (meson leI le_less_trans)
  have in_pri: "bit (highest_priority_lanes e) k" if "e AND 42 = 0"
  proof -
    have "k = 0 \<or> k = 1 \<or> k = 2 \<or> k = 3 \<or> k = 4 \<or> k = 5 \<or> k = 6 \<or> k = 7 \<or> k = 8 \<or> k = 9 \<or> k = 10 \<or>
        k = 11 \<or> k = 12 \<or> k = 13 \<or> k = 14 \<or> k = 15 \<or> k = 16 \<or> k = 17 \<or> k = 18 \<or> k = 19 \<or> k = 20 \<or>
        k = 21 \<or> k = 22 \<or> k = 23 \<or> k = 24 \<or> k = 25 \<or> k = 26" using k27 by (simp add: numeral_eq_Suc less_Suc_eq)
    then show ?thesis using k(2,4) that
      by (elim disjE) (simp_all add: highest_priority_lanes_def Let_def lane_bit_numerals bit_and_iff)
  qed
  then show "e AND 42 = 0 \<Longrightarrow> subset_lanes (lowest_lane e) (highest_priority_lanes e)"
    by (simp add: subset_lanes_bits k(4))
  show "highest_priority_lanes e \<noteq> 0"
  proof (cases "e AND 42 = 0")
    case True
    then show ?thesis using in_pri by (metis bit_0_eq bot_apply bot_boolE)
  qed (simp add: highest_priority_lanes_def)
qed

subsection \<open>The next lanes\<close>

lemma subset_lanes_trans: "subset_lanes a b \<Longrightarrow> subset_lanes b c \<Longrightarrow> subset_lanes a c"
  by (simp add: subset_lanes_bits)

lemma highest_priority_within: "subset_lanes s u \<Longrightarrow> subset_lanes (highest_priority_lanes s) u"
  using subset_lanes_trans highest_priority_subset by blast

lemma and_subset [simp]: "subset_lanes (a AND b) a" "subset_lanes (a AND b) b" "subset_lanes 0 a"
  by (simp_all add: subset_lanes_bits bit_and_iff)

lemma lowest_of_and_mask:
  assumes "s AND 134217727 = s" "s \<noteq> 0"
  shows "highest_priority_lanes s \<noteq> 0"
  using highest_priority_lowest(1) [of s] assms by simp

lemma next_lanes_idle: "next_lanes e 0 n = (if pendingLanes e = 0 then 0 else candidate_lanes e n)"
  by (simp add: next_lanes_def Let_def)

lemma runnable_chosen:
  assumes "u = pendingLanes e AND 134217727 AND NOT (suspendedLanes e)" "u \<noteq> 0"
  shows "next_lanes e 0 n = highest_priority_lanes u" "u AND 134217727 \<noteq> 0"
proof -
  have mask: "u AND 134217727 = u" by (simp only: assms(1) and.assoc and.left_commute and.commute and.idem and.left_idem)
  have u': "(pendingLanes e AND 134217727) AND NOT (suspendedLanes e) = u"
    by (simp only: assms(1) and.assoc)
  have "pendingLanes e AND 134217727 \<noteq> 0" "pendingLanes e \<noteq> 0" using u' assms(2) by auto
  then show "next_lanes e 0 n = highest_priority_lanes u"
    using u' assms(2) by (simp add: next_lanes_idle candidate_lanes_def Let_def)
  show "u AND 134217727 \<noteq> 0" using assms(2) mask by simp
qed



lemma next_lanes_busy:
  assumes "next_lanes e 0 n \<noteq> 0"
  shows "next_lanes e t n \<noteq> 0"
  using assms by (simp add: next_lanes_def Let_def split: if_split_asm)

lemma runnable_makes_work:
  assumes "bit (pendingLanes e) k" "\<not> bit (suspendedLanes e) k" "k < 27"
  shows "next_lanes e t n \<noteq> 0"
proof -
  have "bit (pendingLanes e AND 134217727 AND NOT (suspendedLanes e)) k"
    using assms by (simp only: bit_and_iff bit_not_iff bit_mask27) (simp add: impossible_bit)
  then have "pendingLanes e AND 134217727 AND NOT (suspendedLanes e) \<noteq> 0" by auto
  then have "next_lanes e 0 n \<noteq> 0"
    by (simp add: runnable_chosen(1) [OF refl] highest_priority_lowest(1) [OF runnable_chosen(2) [OF refl]])
  then show ?thesis by (rule next_lanes_busy)
qed

text \<open>An update is never lost: once it is marked, the root has lanes to render, whatever was suspended
  and whatever is being rendered.\<close>

lemma update_makes_work:
  assumes "t AND 134217727 \<noteq> 0"
  shows "next_lanes (mark_root_updated t e) w n \<noteq> 0"
proof -
  obtain k where "bit (t AND 134217727) k" using assms nonzero_bit by metis
  then have k: "bit t k" "k < 27" by (simp_all only: bit_and_iff bit_mask27)
  have "t \<noteq> 268435456" using assms by auto
  with k show ?thesis
    by (intro runnable_makes_work [of _ k]) (simp_all add: mark_root_updated_def Let_def bit_or_iff)
qed

text \<open>Only pending lanes are rendered, or those of the render under way.\<close>

lemma next_lanes_pending:
  assumes "subset_lanes (pingedLanes e) (pendingLanes e)"
  shows "next_lanes e t n = t \<or> subset_lanes (next_lanes e t n) (pendingLanes e)"
proof -
  have sub: "subset_lanes (highest_priority_lanes (pendingLanes e AND b)) (pendingLanes e)"
    "subset_lanes (highest_priority_lanes (pendingLanes e AND 134217727 AND b)) (pendingLanes e)"
    "subset_lanes (highest_priority_lanes (pingedLanes e)) (pendingLanes e)" for b
    by (rule highest_priority_within, use assms in \<open>simp add: subset_lanes_bits bit_and_iff\<close>)+
  then have "subset_lanes (candidate_lanes e n) (pendingLanes e)"
    by (simp add: candidate_lanes_def Let_def and.assoc)
  then show ?thesis by (simp add: next_lanes_def Let_def)
qed

subsection \<open>Loops over lanes\<close>

function lane_list :: "lanes \<Rightarrow> nat list" where
  "lane_list n = (if n = 0 then [] else top_index n # lane_list (n AND NOT (lane_bit (top_index n))))"
  by pat_completeness auto
termination
  by (relation "measure unat") (auto intro: clear_top_less)

declare lane_list.simps [simp del]

lemma lane_list_0 [simp]: "lane_list 0 = []"
  by (subst lane_list.simps) simp

lemma lane_list_step:
  "n \<noteq> 0 \<Longrightarrow> lane_list n = top_index n # lane_list (n AND NOT (lane_bit (top_index n)))"
  by (subst lane_list.simps) (rule if_not_P)

lemma lane_loop_0 [simp]: "lane_loop f 0 s = s"
  by (subst lane_loop.simps) simp

lemma lane_loop_step:
  "n \<noteq> 0 \<Longrightarrow> lane_loop f n s = lane_loop f (n AND NOT (lane_bit (top_index n))) (f (top_index n) s)"
  by (subst lane_loop.simps) (rule if_not_P)

lemma lane_loop_fold: "lane_loop f n s = fold f (lane_list n) s"
proof (induction f n s rule: lane_loop.induct)
  case (1 f n s)
  show ?case
  proof (cases "n = 0")
    case False
    show ?thesis by (simp only: lane_loop_step [OF False] lane_list_step [OF False] fold_simps 1 [OF False])
  qed simp
qed

lemma set_lane_list: "set (lane_list n) = {i. bit n i}"
proof (induction n rule: lane_list.induct)
  case (1 n)
  show ?case
  proof (cases "n = 0")
    case False
    have top: "bit n (top_index n)" "top_index n < 32"
      using clz32_nonzero(2) [OF False] by (auto dest: bit_imp_le_length)
    show ?thesis
      unfolding lane_list_step [OF False] list.set 1 [OF False] using top
      by (auto simp only: bit_and_iff bit_not_iff bit_lane_bit insert_iff mem_Collect_eq) (auto dest: bit_imp_le_length)
  qed simp
qed

lemma distinct_lane_list: "distinct (lane_list n)"
proof (induction n rule: lane_list.induct)
  case (1 n)
  show ?case
  proof (cases "n = 0")
    case False
    have "top_index n < 32" using bit_imp_le_length [OF clz32_nonzero(2) [OF False]] by simp
    then show ?thesis
      unfolding lane_list_step [OF False] distinct.simps set_lane_list using 1 [OF False]
      by (simp only: bit_and_iff bit_not_iff bit_lane_bit mem_Collect_eq) simp
  qed simp
qed

lemma positive_lane_loop_fold:
  assumes "\<not> bit n 31"
  shows "positive_lane_loop f n s = fold f (lane_list n) s"
proof (cases "n = 0")
  case True
  then show ?thesis by (simp add: positive_lane_loop_def)
next
  case False
  have "0 \<le> sint n" using assms bit_last_iff [of n] by simp
  moreover have "sint n \<noteq> 0"
  proof
    assume "sint n = 0"
    then have "of_int (sint n) = (0 :: lanes)" by (simp only: of_int_0)
    then show False using False by simp
  qed
  ultimately have "word_sless 0 n" by (simp add: word_sless_alt)
  then show ?thesis by (simp add: positive_lane_loop_def lane_loop_fold)
qed

subsection \<open>Starvation\<close>

lemma starve_lane_fields [simp]:
  "pendingLanes (starve_lane t i e) = pendingLanes e"
  "suspendedLanes (starve_lane t i e) = suspendedLanes e"
  "pingedLanes (starve_lane t i e) = pingedLanes e"
  "length (expirationTimes (starve_lane t i e)) = length (expirationTimes e)"
  by (simp_all add: starve_lane_def Let_def)

lemma starve_lane_times:
  "j \<noteq> i \<Longrightarrow> expirationTimes (starve_lane t i e) ! j = expirationTimes e ! j"
  by (simp add: starve_lane_def Let_def)

lemma starve_lane_expired:
  "bit (expiredLanes (starve_lane t i e)) j \<longleftrightarrow>
     bit (expiredLanes e) j \<or> j = i \<and> i < 32 \<and> expirationTimes e ! i \<noteq> -1 \<and> expirationTimes e ! i \<le> t"
  by (auto simp: starve_lane_def Let_def bit_or_iff)

lemma starve_lane_local:
  assumes "expirationTimes e ! i = expirationTimes e' ! i" "i < length (expirationTimes e)"
    "i < length (expirationTimes e')" "suspendedLanes e = suspendedLanes e'" "pingedLanes e = pingedLanes e'"
  shows "expirationTimes (starve_lane t i e) ! i = expirationTimes (starve_lane t i e') ! i"
  using assms by (simp add: starve_lane_def Let_def)

lemma fold_starve_fields [simp]:
  "pendingLanes (fold (starve_lane t) ns e) = pendingLanes e"
  "suspendedLanes (fold (starve_lane t) ns e) = suspendedLanes e"
  "pingedLanes (fold (starve_lane t) ns e) = pingedLanes e"
  "length (expirationTimes (fold (starve_lane t) ns e)) = length (expirationTimes e)"
  by (induction ns arbitrary: e) simp_all

lemma fold_starve_times:
  "distinct ns \<Longrightarrow> j < length (expirationTimes e) \<Longrightarrow>
   expirationTimes (fold (starve_lane t) ns e) ! j =
     (if j \<in> set ns then expirationTimes (starve_lane t j e) ! j else expirationTimes e ! j)"
proof (induction ns arbitrary: e)
  case (Cons n ns)
  show ?case
  proof (cases "j = n")
    case True
    with Cons show ?thesis by simp
  next
    case False
    then have "expirationTimes (starve_lane t j (starve_lane t n e)) ! j = expirationTimes (starve_lane t j e) ! j"
      using Cons.prems by (intro starve_lane_local) (simp_all add: starve_lane_times)
    with False Cons show ?thesis by (simp add: starve_lane_times)
  qed
qed simp

lemma fold_starve_expired:
  "distinct ns \<Longrightarrow> bit (expiredLanes (fold (starve_lane t) ns e)) j \<longleftrightarrow>
     bit (expiredLanes e) j \<or>
     j \<in> set ns \<and> j < 32 \<and> expirationTimes e ! j \<noteq> -1 \<and> expirationTimes e ! j \<le> t"
proof (induction ns arbitrary: e)
  case (Cons n ns)
  then have "j \<in> set ns \<Longrightarrow> j \<noteq> n" by auto
  show ?case
    by (cases "j = n") (use Cons \<open>j \<in> set ns \<Longrightarrow> j \<noteq> n\<close> in \<open>auto simp: starve_lane_expired starve_lane_times\<close>)
qed simp

lemma bit_not_retry: "bit (- 62914561 :: lanes) i \<longleftrightarrow> i < 32 \<and> i \<notin> {22, 23, 24, 25}"
proof -
  have "(- 62914561 :: lanes) = NOT (push_bit 22 (mask 4))" by (simp add: mask_numeral)
  then show ?thesis by (simp only: bit_not_iff bit_push_bit_iff bit_mask_iff) auto
qed

lemma mark_starved_fold:
  assumes "\<not> bit (pendingLanes e) 31"
  shows "mark_starved_lanes t e = fold (starve_lane t) (lane_list (pendingLanes e AND - 62914561)) e"
  unfolding mark_starved_lanes_def by (rule positive_lane_loop_fold) (simp only: bit_and_iff assms simp_thms)

lemma mark_starved_expired:
  assumes "\<not> bit (pendingLanes e) 31" "bit (pendingLanes e) i" "i \<notin> {22, 23, 24, 25}"
  shows "bit (expiredLanes (mark_starved_lanes t e)) i \<longleftrightarrow>
    bit (expiredLanes e) i \<or> expirationTimes e ! i \<noteq> -1 \<and> expirationTimes e ! i \<le> t"
proof -
  have "i \<in> set (lane_list (pendingLanes e AND - 62914561))" "i < 32"
    using assms(2,3) bit_imp_le_length [OF assms(2)]
    by (simp_all only: set_lane_list mem_Collect_eq bit_and_iff bit_not_retry) simp_all
  then show ?thesis
    unfolding mark_starved_fold [OF assms(1)] fold_starve_expired [OF distinct_lane_list] by simp
qed

lemma mark_starved_times:
  assumes "\<not> bit (pendingLanes e) 31" "bit (pendingLanes e) i" "i \<notin> {22, 23, 24, 25}"
    "length (expirationTimes e) = 31"
  shows "expirationTimes (mark_starved_lanes t e) ! i = expirationTimes (starve_lane t i e) ! i"
proof -
  have i: "i < 32" using bit_imp_le_length [OF assms(2)] by simp
  have "i \<noteq> 31" using assms(1,2) by metis
  with i have "i < 31" by simp
  moreover have "i \<in> set (lane_list (pendingLanes e AND - 62914561))"
    using i assms(2,3) by (simp only: set_lane_list mem_Collect_eq bit_and_iff bit_not_retry) simp
  ultimately show ?thesis using assms(4)
    by (simp only: mark_starved_fold [OF assms(1)] fold_starve_times [OF distinct_lane_list] if_True)
qed

lemma expiration_time_early:
  assumes "i \<le> 21" "0 \<le> t"
  shows "expiration_time (lane_bit i) t \<noteq> -1" "expiration_time (lane_bit i) t \<le> t + 5000"
proof -
  have "i \<in> {0, Suc 0, 2, 3, 4, 5, 6, 7, 8, 9, 10, 11, 12, 13, 14, 15, 16, 17, 18, 19, 20, 21}"
    using assms(1) by (simp add: numeral_eq_Suc less_Suc_eq le_less)
  then have "expiration_time (lane_bit i) t \<noteq> -1 \<and> expiration_time (lane_bit i) t \<le> t + 5000"
    using assms(2) by (elim insertE emptyE) (simp_all add: expiration_time_def lane_bit_numerals)
  then show "expiration_time (lane_bit i) t \<noteq> -1" "expiration_time (lane_bit i) t \<le> t + 5000" by auto
qed



end
