(* ===== verification/React_Roots.thy ===== *)
theory React_Roots
  imports React_Lanes Scheduler
begin

unbundle bit_operations_syntax

text \<open>
  How the roots of the console's React renderer get their turns, \<open>ReactFiberRootScheduler\<close> as bundled into
  \<open>app.js\<close>: an update marks its root and queues it; a microtask looks at every queued root, and gives each
  root that has work a task of the scheduler with the priority of its lanes, or flushes it at once when the
  work is synchronous. What a render does to the page is outside the module: it is a function of the state.
\<close>

subsection \<open>State\<close>

text \<open>
  What the scheduler calls back: the render of a root (\<open>sd\<close> bound to it), the look at the roots (\<open>id\<close>), or
  something else of the renderer. \<open>commitPending\<close> is \<open>cancelPendingCommit\<close> being set and \<open>timeoutArmed\<close> is
  \<open>timeoutHandle\<close> being set.
\<close>

datatype work_item = Render_root nat | Look_at_roots | Other_work nat

record sroot = root +
  callbackNode :: "nat option"
  callbackPriority :: lanes
  commitPending :: bool
  timeoutArmed :: bool

text \<open>
  The roots by number, and the variables of the module: the linked list of roots \<open>Xu .. Zu\<close>, \<open>$u Qu ed td\<close>,
  the lanes of transitions \<open>ze\<close> and of actions \<open>ia\<close>, and of the render under way \<open>Fl Z Vl Il Hl Wl Gl Kl\<close>;
  \<open>nu\<close>, the stage of the last commit, \<open>Y\<close>, what is running, the queued microtasks, and the scheduler.
\<close>

record rstate =
  rootOf :: "nat \<Rightarrow> sroot"
  rootQueue :: "nat list"
  syncWork :: bool
  microtaskQueued :: bool
  flushing :: bool
  eventTransition :: lanes
  nextTransition :: lanes
  actionLane :: lanes
  wipRoot :: "nat option"
  wipLanes :: lanes
  renderLanes :: lanes
  suspendReason :: nat
  exitStatus :: nat
  interleavedLanes :: lanes
  pingedInRender :: lanes
  deferredLane :: lanes
  commitStage :: nat
  execContext :: lanes
  microtasks :: nat
  rsched :: "work_item sched"

definition put_root :: "nat \<Rightarrow> sroot \<Rightarrow> rstate \<Rightarrow> rstate" where
  "put_root r e w = w\<lparr>rootOf := (rootOf w)(r := e)\<rparr>"

subsection \<open>Queueing a root\<close>

definition ensure_scheduled :: "nat \<Rightarrow> rstate \<Rightarrow> rstate" where
  "ensure_scheduled r w =
     (let w1 = w\<lparr>rootQueue := (if r \<in> set (rootQueue w) then rootQueue w else rootQueue w @ [r]), syncWork := True\<rparr>
      in if microtaskQueued w1 then w1 else w1\<lparr>microtaskQueued := True, microtasks := microtasks w1 + 1\<rparr>)"

definition awaits_commit :: "sroot \<Rightarrow> bool" where
  "awaits_commit e \<longleftrightarrow> commitPending e \<or> timeoutArmed e"

text \<open>The lanes root \<open>r\<close> should render next, given those of its render under way.\<close>

definition work_lanes :: "rstate \<Rightarrow> nat \<Rightarrow> lanes" where
  "work_lanes w r =
     next_lanes (rootOf w r) (if wipRoot w = Some r then wipLanes w else 0) (awaits_commit (rootOf w r))"

subsection \<open>Looking at the roots\<close>

definition lanes_priority :: "lanes \<Rightarrow> int" where
  "lanes_priority n =
     (let p = event_priority n in
      if p = 2 \<or> p = 8 then 2 else if p = 32 then 3 else if p = 268435456 then 5 else 3)"

definition cancel_node :: "nat option \<Rightarrow> rstate \<Rightarrow> rstate" where
  "cancel_node k w = (case k of None \<Rightarrow> w | Some i \<Rightarrow> w\<lparr>rsched := cancel_callback i (rsched w)\<rparr>)"

definition set_task :: "nat \<Rightarrow> nat option \<Rightarrow> lanes \<Rightarrow> rstate \<Rightarrow> rstate" where
  "set_task r k p w = put_root r ((rootOf w r)\<lparr>callbackNode := k, callbackPriority := p\<rparr>) w"

text \<open>\<open>t\<close> is the time; the lane returned says how urgent the root's work is, 0 that it has none.\<close>

definition schedule_root :: "real \<Rightarrow> nat \<Rightarrow> rstate \<Rightarrow> lanes \<times> rstate" where
  "schedule_root t r w0 =
     (let w = put_root r (mark_starved_lanes t (rootOf w0 r)) w0; e = rootOf w r; n = work_lanes w r;
          k = callbackNode e
      in if n = 0 \<or> wipRoot w = Some r \<and> (suspendReason w = 2 \<or> suspendReason w = 9) \<or> commitPending e
         then (0, set_task r None 0 (cancel_node k w))
         else if n AND 3 = 0 \<or> only_prerendering e n
         then (let p = lowest_lane n in
               if p = callbackPriority e then (p, w)
               else (let w1 = cancel_node k w; s = rsched w1;
                         w2 = w1\<lparr>rsched := schedule_callback (lanes_priority n) (Callable (Render_root r)) None s\<rparr>
                     in (p, set_task r (Some (taskId s)) p w2)))
         else (2, set_task r None 2 (cancel_node k w)))"

text \<open>The walk over the queue; \<open>sync\<close>: the lanes of a transition of the running event are flushed too.\<close>

fun walk_roots :: "bool \<Rightarrow> real \<Rightarrow> nat list \<Rightarrow> rstate \<Rightarrow> nat list \<times> rstate" where
  "walk_roots sync t [] w = ([], w)"
| "walk_roots sync t (r # rs) w =
     (let (a, w1) = schedule_root t r w in
      if a = 0 then walk_roots sync t rs w1
      else (let (kept, w2) = walk_roots sync t rs
                  (if sync \<or> a AND 3 \<noteq> 0 then w1\<lparr>syncWork := True\<rparr> else w1)
            in (r # kept, w2)))"

text \<open>\<open>popstate\<close>: the running event is a new one of the browser's history.\<close>

definition sync_transition :: "bool \<Rightarrow> rstate \<Rightarrow> lanes" where
  "sync_transition popstate w = (if eventTransition w \<noteq> 0 \<and> popstate then eventTransition w else 0)"

definition schedule_roots :: "bool \<Rightarrow> rstate \<Rightarrow> rstate" where
  "schedule_roots popstate w =
     (let w1 = w\<lparr>syncWork := False, microtaskQueued := False\<rparr>;
          (kept, w2) = walk_roots (sync_transition popstate w1 \<noteq> 0) (clock (rsched w1)) (rootQueue w1) w1
      in w2\<lparr>rootQueue := kept\<rparr>)"

subsection \<open>Flushing synchronous work\<close>

text \<open>The lanes of root \<open>r\<close> to flush now, with \<open>e\<close> the lane of a transition to flush along, or 0.\<close>

definition transition_flush_lanes :: "lanes \<Rightarrow> 'z root_scheme \<Rightarrow> lanes" where
  "transition_flush_lanes e x =
     (let i = pendingLanes x in
      if i = 0 then 0
      else (let m = push_bit (31 - clz32 (42 OR e) + 1) 1 - 1;
                a = m AND (i AND NOT (suspendedLanes x AND NOT (pingedLanes x)))
            in if a AND 201326741 \<noteq> 0 then a AND 201326741 OR 1 else if a \<noteq> 0 then a OR 2 else 0))"

definition flush_lanes :: "lanes \<Rightarrow> rstate \<Rightarrow> nat \<Rightarrow> lanes" where
  "flush_lanes e w r =
     (if e \<noteq> 0 then transition_flush_lanes e (rootOf w r)
      else (let a = work_lanes w r
            in if a AND 3 = 0 \<or> only_prerendering (rootOf w r) a then 0 else a))"

text \<open>
  \<open>rd\<close>: passes over the queue until one finds nothing to flush. \<open>perform r a\<close> renders the lanes \<open>a\<close> of \<open>r\<close>;
  it may change anything, roots may be queued during a pass, and nothing bounds the number of passes: fuel.
\<close>

type_synonym renderer = "nat \<Rightarrow> lanes \<Rightarrow> rstate \<Rightarrow> rstate"

fun flush_pass :: "renderer \<Rightarrow> lanes \<Rightarrow> nat \<Rightarrow> nat \<Rightarrow> bool \<Rightarrow> rstate \<Rightarrow> (bool \<times> rstate) option" where
  "flush_pass perform e 0 j found w = None"
| "flush_pass perform e (Suc k) j found w =
     (if j < length (rootQueue w)
      then (let r = rootQueue w ! j; a = flush_lanes e w r in
            if a \<noteq> 0 then flush_pass perform e k (j + 1) True (perform r a w)
            else flush_pass perform e k (j + 1) found w)
      else Some (found, w))"

fun flush_passes :: "renderer \<Rightarrow> lanes \<Rightarrow> nat \<Rightarrow> rstate \<Rightarrow> rstate option" where
  "flush_passes perform e 0 w = None"
| "flush_passes perform e (Suc k) w =
     (case flush_pass perform e (Suc k) 0 False w of
        None \<Rightarrow> None
      | Some (found, w1) \<Rightarrow> if found then flush_passes perform e k w1 else Some w1)"

definition flush_sync :: "renderer \<Rightarrow> lanes \<Rightarrow> nat \<Rightarrow> rstate \<Rightarrow> rstate option" where
  "flush_sync perform e k w =
     (if flushing w \<or> \<not> syncWork w then Some w
      else (case flush_passes perform e k (w\<lparr>flushing := True\<rparr>) of
              None \<Rightarrow> None | Some w1 \<Rightarrow> Some (w1\<lparr>flushing := False\<rparr>)))"

definition process_roots :: "renderer \<Rightarrow> bool \<Rightarrow> nat \<Rightarrow> rstate \<Rightarrow> rstate option" where
  "process_roots perform popstate k w =
     (let w1 = schedule_roots popstate w in
      case (if commitStage w1 \<noteq> 0 \<and> commitStage w1 \<noteq> 5 then Some w1
            else flush_sync perform (sync_transition popstate w) k w1) of
        None \<Rightarrow> None
      | Some w2 \<Rightarrow> Some (w2\<lparr>eventTransition := 0\<rparr>))"

text \<open>The microtask: during a render or a commit the look is left to a task of the highest priority.\<close>

definition roots_microtask :: "renderer \<Rightarrow> bool \<Rightarrow> nat \<Rightarrow> rstate \<Rightarrow> rstate option" where
  "roots_microtask perform popstate k w =
     (let w1 = w\<lparr>microtasks := microtasks w - 1\<rparr> in
      if execContext w1 AND 6 \<noteq> 0
      then Some (w1\<lparr>rsched := schedule_callback 1 (Callable Look_at_roots) None (rsched w1)\<rparr>)
      else process_roots perform popstate k w1)"

definition flush_sync_work :: "renderer \<Rightarrow> nat \<Rightarrow> rstate \<Rightarrow> (bool \<times> rstate) option" where
  "flush_sync_work perform k w =
     (if execContext w AND 6 \<noteq> 0 then Some (True, w)
      else (case flush_sync perform 0 k w of None \<Rightarrow> None | Some w1 \<Rightarrow> Some (False, w1)))"

subsection \<open>The lanes of an update\<close>

definition request_transition_lane :: "rstate \<Rightarrow> lanes \<times> rstate" where
  "request_transition_lane w =
     (if eventTransition w = 0
      then (let (e, w1) = (if actionLane w = 0
                           then (let (l, n) = claim_transition_lane (nextTransition w)
                                 in (l, w\<lparr>nextTransition := n\<rparr>))
                           else (actionLane w, w))
            in (e, w1\<lparr>eventTransition := e\<rparr>))
      else (eventTransition w, w))"

text \<open>\<open>e\<close>: the priority of the running event, \<open>transition\<close>: whether a transition is being started.\<close>

definition request_update_lane :: "lanes \<Rightarrow> bool \<Rightarrow> rstate \<Rightarrow> lanes \<times> rstate" where
  "request_update_lane e transition w =
     (if execContext w AND 2 \<noteq> 0 \<and> wipLanes w \<noteq> 0 then (lowest_lane (wipLanes w), w)
      else if transition then request_transition_lane w else (e, w))"

subsection \<open>Updates\<close>

text \<open>What starting a render of the lanes \<open>t\<close> anew does to the variables; the fibers are not modelled.\<close>

definition prepare_fresh_stack :: "nat \<Rightarrow> lanes \<Rightarrow> rstate \<Rightarrow> rstate" where
  "prepare_fresh_stack r t w =
     (let w1 = put_root r ((rootOf w r)\<lparr>timeoutArmed := False, commitPending := False\<rparr>) w
      in w1\<lparr>wipRoot := Some r, wipLanes := t, suspendReason := 0, deferredLane := 0, pingedInRender := 0,
            interleavedLanes := 0, exitStatus := 0, renderLanes := render_lanes_of (rootOf w1 r) t\<rparr>)"

text \<open>The render under way cannot finish: what it has rendered is suspended.\<close>

definition suspend_render :: "nat \<Rightarrow> rstate \<Rightarrow> rstate" where
  "suspend_render r w =
     put_root r (mark_root_suspended (pingedInRender w) (interleavedLanes w) (wipLanes w) (deferredLane w) False
                   (rootOf w r)) w"

text \<open>\<open>scheduleUpdateOnFiber\<close>: an update of lane \<open>n\<close> in the tree of root \<open>r\<close>.\<close>

definition schedule_update :: "nat \<Rightarrow> lanes \<Rightarrow> rstate \<Rightarrow> rstate" where
  "schedule_update r n w =
     (let w1 = (if wipRoot w = Some r \<and> (suspendReason w = 2 \<or> suspendReason w = 9) \<or> commitPending (rootOf w r)
                then suspend_render r (prepare_fresh_stack r 0 w) else w);
          w2 = put_root r (mark_root_updated n (rootOf w1 r)) w1;
          rendering = (execContext w2 AND 2 \<noteq> 0)
      in if \<not> rendering \<or> wipRoot w2 \<noteq> Some r
         then ensure_scheduled r
                (if wipRoot w2 = Some r
                 then (let w3 = (if rendering then w2 else w2\<lparr>interleavedLanes := interleavedLanes w2 OR n\<rparr>)
                       in if exitStatus w3 = 4 then suspend_render r w3 else w3)
                 else w2)
         else w2)"

end
