(* ===== verification/React_Roots_Properties.thy ===== *)
theory React_Roots_Properties
  imports React_Roots React_Lanes_Properties Scheduler_Invariants
begin

unbundle bit_operations_syntax

text \<open>
  What the root scheduler promises: a root has at most one live task, the one it remembers; after a look at
  the roots every queued root with work has a task of the priority of its work, or is about to be flushed; an
  update always gets that far; a flush leaves no synchronous work.
\<close>

subsection \<open>The scheduler under the roots\<close>

lemma schedule_now:
  assumes "sched_inv s"
  shows "sched_inv (schedule_callback p (Callable f) None s)"
    and "set (taskQ (schedule_callback p (Callable f) None s)) = insert (taskId s) (set (taskQ s))"
    and "task_callback (store (schedule_callback p (Callable f) None s) i) =
      (if i = taskId s then Callable f else task_callback (store s i))"
    and "priorityLevel (store (schedule_callback p (Callable f) None s) i) =
      (if i = taskId s then p else priorityLevel (store s i))"
  by (rule sched_inv_schedule [OF assms],
      simp_all add: schedule_callback_eq scheduled_start_def new_task_def push_task_def Let_def)

lemma cancel_keeps:
  "sched_inv s \<Longrightarrow> sched_inv (cancel_callback i s)"
  "taskQ (cancel_callback i s) = taskQ s"
  "taskId (cancel_callback i s) = taskId s"
  "task_callback (store (cancel_callback i s) j) = (if j = i then Null else task_callback (store s j))"
  "priorityLevel (store (cancel_callback i s) j) = priorityLevel (store s j)"
  by (simp_all add: cancel_is_put_callback sched_inv_put_callback) (simp_all add: put_callback_def)

lemma fresh_task: "sched_inv s \<Longrightarrow> taskId s \<notin> set (taskQ s)"
  using queue_wf_new_task(2) by (auto simp: sched_inv_def)

subsection \<open>Live tasks\<close>

definition root_task :: "rstate \<Rightarrow> nat \<Rightarrow> nat \<Rightarrow> bool" where
  "root_task w r i \<longleftrightarrow>
     i \<in> set (taskQ (rsched w)) \<and> task_callback (store (rsched w) i) = Callable (Render_root r)"

lemma root_task_unique: "root_task w r i \<Longrightarrow> root_task w q i \<Longrightarrow> q = r"
  by (simp add: root_task_def)

definition task_priority :: "rstate \<Rightarrow> nat \<Rightarrow> int" where
  "task_priority w i = priorityLevel (store (rsched w) i)"

definition tasks_ok :: "rstate \<Rightarrow> bool" where
  "tasks_ok w \<longleftrightarrow>
     sched_inv (rsched w) \<and>
     (\<forall>r i. callbackNode (rootOf w r) = Some i \<longleftrightarrow> root_task w r i) \<and>
     (\<forall>r i. root_task w r i \<longrightarrow> task_priority w i = lanes_priority (callbackPriority (rootOf w r))) \<and>
     (\<forall>r. callbackNode (rootOf w r) = None \<longrightarrow> callbackPriority (rootOf w r) \<in> {0, 2})"

lemma put_root_fields [simp]:
  "rsched (put_root r e w) = rsched w" "wipRoot (put_root r e w) = wipRoot w"
  "wipLanes (put_root r e w) = wipLanes w" "suspendReason (put_root r e w) = suspendReason w"
  "syncWork (put_root r e w) = syncWork w" "rootQueue (put_root r e w) = rootQueue w"
  "rootOf (put_root r e w) = (rootOf w)(r := e)" "root_task (put_root r e w) = root_task w"
  "execContext (put_root r e w) = execContext w" "exitStatus (put_root r e w) = exitStatus w"
  "task_priority (put_root r e w) = task_priority w"
  by (simp_all add: put_root_def root_task_def task_priority_def fun_eq_iff)

lemma cancel_node_fields [simp]:
  "wipRoot (cancel_node k w) = wipRoot w" "wipLanes (cancel_node k w) = wipLanes w"
  "suspendReason (cancel_node k w) = suspendReason w" "syncWork (cancel_node k w) = syncWork w"
  "rootQueue (cancel_node k w) = rootQueue w" "rootOf (cancel_node k w) = rootOf w"
  "task_priority (cancel_node k w) = task_priority w"
  "sched_inv (rsched w) \<Longrightarrow> sched_inv (rsched (cancel_node k w))"
  "root_task (cancel_node k w) q i \<longleftrightarrow> k \<noteq> Some i \<and> root_task w q i"
  by (auto simp: cancel_node_def root_task_def task_priority_def cancel_keeps fun_eq_iff split: option.split)

lemma tasks_ok_untask:
  assumes "tasks_ok w" "w' = set_task r None p (cancel_node (callbackNode (rootOf w r)) w)" "p \<in> {0, 2}"
  shows "tasks_ok w'"
  using assms by (auto simp: tasks_ok_def set_task_def dest: root_task_unique)

lemma root_task_schedule:
  assumes "sched_inv (rsched w)" "w' = w\<lparr>rsched := schedule_callback p (Callable (Render_root r)) None (rsched w)\<rparr>"
  shows "sched_inv (rsched w')"
    and "root_task w' q i \<longleftrightarrow> root_task w q i \<or> q = r \<and> i = taskId (rsched w)"
    and "task_priority w' i = (if i = taskId (rsched w) then p else task_priority w i)"
  using fresh_task [OF assms(1)] schedule_now [OF assms(1)] assms(2)
  by (auto simp: root_task_def task_priority_def)

lemma event_priority_lowest: "event_priority (lowest_lane n) = event_priority n"
proof (cases "n = 0")
  case False
  obtain k where k: "k < 32" "lowest_lane n = lane_bit k" using lowest_lane_bit [OF False] by metis
  then have "lane_bit k \<noteq> 0" by (metis bit_lane_bit bit_0_eq bot_apply bot_boolE)
  from lowest_lane_bit [OF this] k have "lowest_lane (lane_bit k) = lane_bit k" by (metis bit_lane_bit)
  with k show ?thesis by (simp add: event_priority_def)
qed (simp add: lowest_lane_def)

lemma lanes_priority_lowest: "lanes_priority (lowest_lane n) = lanes_priority n"
  by (simp add: lanes_priority_def event_priority_lowest)

lemma tasks_ok_retask:
  assumes "tasks_ok w" "w1 = cancel_node (callbackNode (rootOf w r)) w" "i = taskId (rsched w1)"
    "w2 = w1\<lparr>rsched := schedule_callback (lanes_priority n) (Callable (Render_root r)) None (rsched w1)\<rparr>"
    "w' = set_task r (Some i) (lowest_lane n) w2"
  shows "tasks_ok w'" "root_task w' r i" "task_priority w' i = lanes_priority n"
    "\<And>q j. q \<noteq> r \<Longrightarrow> root_task w' q j = root_task w q j \<and>
       (root_task w q j \<longrightarrow> task_priority w' j = task_priority w j)"
proof -
  have inv: "sched_inv (rsched w1)" using assms(1,2) by (simp add: tasks_ok_def)
  have fresh: "\<not> root_task w1 q i" for q using fresh_task [OF inv] assms(3) by (simp add: root_task_def)
  have w1: "root_task w1 q j \<longleftrightarrow> callbackNode (rootOf w r) \<noteq> Some j \<and> root_task w q j"
    "task_priority w1 = task_priority w" "rootOf w1 = rootOf w" for q j
    by (simp_all add: assms(2))
  note w2 = root_task_schedule [OF inv assms(4), folded assms(3)]
  have w': "root_task w' q j \<longleftrightarrow> root_task w1 q j \<or> q = r \<and> j = i"
    "task_priority w' j = (if j = i then lanes_priority n else task_priority w j)" "sched_inv (rsched w')"
    "rootOf w' = (rootOf w)(r := (rootOf w r)\<lparr>callbackNode := Some i, callbackPriority := lowest_lane n\<rparr>)" for q j
    using w2 w1 by (simp_all add: assms(5) set_task_def, simp_all add: assms(4))
  show "root_task w' r i" "task_priority w' i = lanes_priority n" by (simp_all add: w')
  show others: "root_task w' q j = root_task w q j \<and> (root_task w q j \<longrightarrow> task_priority w' j = task_priority w j)"
    if "q \<noteq> r" for q j
    using that assms(1) fresh [of q] by (auto simp: w' w1 tasks_ok_def dest: root_task_unique)
  show "tasks_ok w'"
    using assms(1) others fresh
    by (auto simp: tasks_ok_def w' w1 lanes_priority_lowest split: if_splits)
qed

subsection \<open>One root\<close>

text \<open>A root that is left alone: nothing to render, or a render or a commit of it waits for something.\<close>

definition resting :: "rstate \<Rightarrow> nat \<Rightarrow> bool" where
  "resting w r \<longleftrightarrow> work_lanes w r = 0 \<or>
     wipRoot w = Some r \<and> (suspendReason w = 2 \<or> suspendReason w = 9) \<or> commitPending (rootOf w r)"

text \<open>A root whose work is seen to: by a task of its priority, or by the flush that is due.\<close>

definition seen_to :: "rstate \<Rightarrow> nat \<Rightarrow> bool" where
  "seen_to w r \<longleftrightarrow>
     (work_lanes w r AND 3 = 0 \<longrightarrow>
        (\<exists>i. callbackNode (rootOf w r) = Some i \<and> root_task w r i \<and>
             task_priority w i = lanes_priority (work_lanes w r))) \<and>
     (work_lanes w r AND 3 \<noteq> 0 \<and> \<not> only_prerendering (rootOf w r) (work_lanes w r) \<longrightarrow> syncWork w)"

definition same_root :: "nat \<Rightarrow> rstate \<Rightarrow> rstate \<Rightarrow> bool" where
  "same_root q w w' \<longleftrightarrow>
     rootOf w' q = rootOf w q \<and> wipRoot w' = wipRoot w \<and> wipLanes w' = wipLanes w \<and>
     suspendReason w' = suspendReason w \<and> (syncWork w \<longrightarrow> syncWork w') \<and>
     (\<forall>i. root_task w q i \<longrightarrow> root_task w' q i \<and> task_priority w' i = task_priority w i)"

lemma same_root_keeps:
  assumes "same_root q w w'"
  shows "work_lanes w' q = work_lanes w q" "resting w' q = resting w q" "seen_to w q \<Longrightarrow> seen_to w' q"
proof -
  show work: "work_lanes w' q = work_lanes w q" using assms by (simp add: same_root_def work_lanes_def)
  show "resting w' q = resting w q" using assms work by (simp add: same_root_def resting_def)
  show "seen_to w' q" if "seen_to w q" using that assms work unfolding seen_to_def same_root_def by metis
qed

lemma same_root_refl: "same_root q w w" and
  same_root_trans: "same_root q w w1 \<Longrightarrow> same_root q w1 w2 \<Longrightarrow> same_root q w w2" and
  same_root_sync: "same_root q w (w\<lparr>syncWork := True\<rparr>)"
  by (auto simp: same_root_def root_task_def task_priority_def)

lemma lane_loop_field:
  assumes "\<And>i g. f (h i g) = f g"
  shows "f (positive_lane_loop h n e) = f e"
proof -
  have "f (fold h ns e) = f e" for ns by (induction ns arbitrary: e) (simp_all add: assms)
  then show ?thesis by (simp add: positive_lane_loop_def lane_loop_fold)
qed

lemma mark_starved_field: "(\<And>i g. f (starve_lane t i g) = f g) \<Longrightarrow> f (mark_starved_lanes t e) = f e"
  unfolding mark_starved_lanes_def by (rule lane_loop_field)

lemma mark_starved_same [simp]:
  "pendingLanes (mark_starved_lanes t e) = pendingLanes e"
  "suspendedLanes (mark_starved_lanes t e) = suspendedLanes e"
  "pingedLanes (mark_starved_lanes t e) = pingedLanes e"
  "warmLanes (mark_starved_lanes t e) = warmLanes e"
  "callbackNode (mark_starved_lanes t f) = callbackNode f"
  "callbackPriority (mark_starved_lanes t f) = callbackPriority f"
  "commitPending (mark_starved_lanes t f) = commitPending f"
  "timeoutArmed (mark_starved_lanes t f) = timeoutArmed f"
  by (rule mark_starved_field, simp add: starve_lane_def Let_def)+

lemma next_lanes_cong:
  assumes "pendingLanes e' = pendingLanes e" "suspendedLanes e' = suspendedLanes e"
    "pingedLanes e' = pingedLanes e" "warmLanes e' = warmLanes e"
  shows "next_lanes e' t n = next_lanes e t n" "only_prerendering e' t = only_prerendering e t"
  by (simp_all only: next_lanes_def candidate_lanes_def only_prerendering_def assms)


lemma starved_root:
  assumes "w = put_root r (mark_starved_lanes t (rootOf w0 r)) w0"
  shows "tasks_ok w0 \<Longrightarrow> tasks_ok w" "q \<noteq> r \<Longrightarrow> same_root q w0 w"
    "callbackNode (rootOf w q) = callbackNode (rootOf w0 q)" "work_lanes w r = work_lanes w0 r"
    "resting w r = resting w0 r"
proof -
  have "next_lanes (rootOf w r) m b = next_lanes (rootOf w0 r) m b" for m b
    by (intro next_lanes_cong) (simp_all add: assms)
  then show work: "work_lanes w r = work_lanes w0 r"
    by (simp add: work_lanes_def awaits_commit_def) (simp add: assms)
  then show "resting w r = resting w0 r" by (simp add: resting_def) (simp add: assms)
  have node: "callbackNode (rootOf w q) = callbackNode (rootOf w0 q)"
    "callbackPriority (rootOf w q) = callbackPriority (rootOf w0 q)" for q
    by (simp_all add: assms)
  moreover have "rsched w = rsched w0" "root_task w = root_task w0" "task_priority w = task_priority w0"
    by (simp_all add: assms)
  ultimately show "tasks_ok w0 \<Longrightarrow> tasks_ok w" by (simp add: tasks_ok_def)
  show "callbackNode (rootOf w q) = callbackNode (rootOf w0 q)" by (rule node)
  show "q \<noteq> r \<Longrightarrow> same_root q w0 w" by (simp add: same_root_def assms)
qed

lemma untask_same:
  assumes "tasks_ok w" "w' = set_task r None p (cancel_node (callbackNode (rootOf w r)) w)" "q \<noteq> r"
  shows "same_root q w w'"
  using assms by (auto simp: same_root_def set_task_def tasks_ok_def dest: root_task_unique)

lemma set_task_work:
  assumes "w' = set_task r k p v" "rootOf v = rootOf w" "wipRoot v = wipRoot w" "wipLanes v = wipLanes w"
    "suspendReason v = suspendReason w"
  shows "work_lanes w' r = work_lanes w r" "resting w' r = resting w r"
    "only_prerendering (rootOf w' r) m = only_prerendering (rootOf w r) m"
    "callbackNode (rootOf w' r) = k"
proof -
  have root: "rootOf w' r = (rootOf w r)\<lparr>callbackNode := k, callbackPriority := p\<rparr>"
    using assms by (simp add: set_task_def)
  then have "next_lanes (rootOf w' r) m b = next_lanes (rootOf w r) m b" for m b
    by (intro next_lanes_cong) simp_all
  then show work: "work_lanes w' r = work_lanes w r"
    using root assms by (simp add: work_lanes_def set_task_def awaits_commit_def)
  show "resting w' r = resting w r" using work root assms by (simp add: resting_def set_task_def)
  show "only_prerendering (rootOf w' r) m = only_prerendering (rootOf w r) m"
    using root by (simp add: only_prerendering_def)
  show "callbackNode (rootOf w' r) = k" using root by simp
qed

lemma lowest_lane_zero: "lowest_lane n = 0 \<longleftrightarrow> n = 0"
proof
  assume "lowest_lane n = 0"
  then show "n = 0" using lowest_lane_bit [of n] by (metis bit_lane_bit bit_0_eq bot_apply bot_boolE)
qed (simp add: lowest_lane_def)

lemma lowest_lane_two: "lowest_lane n = 2 \<Longrightarrow> n AND 3 \<noteq> 0"
proof
  assume two: "lowest_lane n = 2" "n AND 3 = 0"
  have "lowest_lane n AND 3 = - n AND (n AND 3)" by (simp only: lowest_lane_def and.assoc and.left_commute)
  with two show False by simp
qed

lemma schedule_root_step:
  assumes ok: "tasks_ok w0" and step: "schedule_root t r w0 = (a, w')"
  shows "tasks_ok w'" and "q \<noteq> r \<Longrightarrow> same_root q w0 w'" and "a = 0 \<longleftrightarrow> resting w' r"
    and "a = 0 \<Longrightarrow> callbackNode (rootOf w' r) = None"
    and "a \<noteq> 0 \<Longrightarrow> seen_to (if sync \<or> a AND 3 \<noteq> 0 then w'\<lparr>syncWork := True\<rparr> else w') r"
    and "wipRoot w' = wipRoot w0" "wipLanes w' = wipLanes w0" "suspendReason w' = suspendReason w0"
    and "resting w' r = resting w0 r" "work_lanes w' r = work_lanes w0 r"
proof -
  define w where "w = put_root r (mark_starved_lanes t (rootOf w0 r)) w0"
  note starved = starved_root [OF w_def]
  define n where "n = work_lanes w r"
  let ?v = "cancel_node (callbackNode (rootOf w r)) w"
  note ok1 = starved(1) [OF ok] and others = starved(2)
  have keeps: "wipRoot w = wipRoot w0" "wipLanes w = wipLanes w0" "suspendReason w = suspendReason w0"
    by (simp_all add: w_def)
  define n where "n = work_lanes w r"
  let ?i = "taskId (rsched ?v)"
  define w2 where "w2 = ?v\<lparr>rsched := schedule_callback (lanes_priority n) (Callable (Render_root r)) None (rsched ?v)\<rparr>"
  have eq: "(a, w') =
      (if resting w r then (0, set_task r None 0 ?v)
       else if n AND 3 = 0 \<or> only_prerendering (rootOf w r) n
       then (if lowest_lane n = callbackPriority (rootOf w r) then (lowest_lane n, w)
             else (lowest_lane n, set_task r (Some ?i) (lowest_lane n) w2))
       else (2, set_task r None 2 ?v))"
    unfolding step [symmetric] by (simp only: schedule_root_def Let_def resting_def w_def n_def w2_def)
  have all: "tasks_ok w' \<and> (\<forall>q. q \<noteq> r \<longrightarrow> same_root q w0 w') \<and> (a = 0 \<longleftrightarrow> resting w' r) \<and>
      (a = 0 \<longrightarrow> callbackNode (rootOf w' r) = None) \<and>
      (a \<noteq> 0 \<longrightarrow> seen_to (if sync \<or> a AND 3 \<noteq> 0 then w'\<lparr>syncWork := True\<rparr> else w') r) \<and>
      wipRoot w' = wipRoot w0 \<and> wipLanes w' = wipLanes w0 \<and> suspendReason w' = suspendReason w0 \<and>
      resting w' r = resting w r \<and> work_lanes w' r = work_lanes w r"
  proof (cases "resting w r")
    case True
    then have w': "a = 0" "w' = set_task r None 0 ?v"
      using eq by simp_all
    note work = set_task_work [OF w'(2), of w]
    show ?thesis
      using tasks_ok_untask [OF ok1 w'(2)] untask_same [OF ok1 w'(2)] others work True
      by (auto simp: w'(1) keeps w'(2) [unfolded set_task_def] intro: same_root_trans)
  next
    case rest: False
    have n0: "n \<noteq> 0" using rest by (simp add: resting_def n_def)
    have found: "seen_to (if sync \<or> a AND 3 \<noteq> 0 then v\<lparr>syncWork := True\<rparr> else v) r" if "seen_to v r" for v
      using that same_root_keeps(3) [OF same_root_sync] by simp
    consider (keep) "n AND 3 = 0 \<or> only_prerendering (rootOf w r) n" "lowest_lane n = callbackPriority (rootOf w r)"
      | (new) "n AND 3 = 0 \<or> only_prerendering (rootOf w r) n" "lowest_lane n \<noteq> callbackPriority (rootOf w r)"
      | (sync) "n AND 3 \<noteq> 0" "\<not> only_prerendering (rootOf w r) n" by blast
    then show ?thesis
    proof cases
      case keep
      have w': "a = lowest_lane n" "w' = w" using eq rest keep by simp_all
      have "\<exists>i. callbackNode (rootOf w r) = Some i \<and> root_task w r i \<and> task_priority w i = lanes_priority n"
        if "n AND 3 = 0"
      proof -
        have "callbackPriority (rootOf w r) \<notin> {0, 2}"
          using keep(2) n0 that lowest_lane_two [of n] lowest_lane_zero [of n] by auto
        then show ?thesis using ok1 keep(2) lanes_priority_lowest [of n] unfolding tasks_ok_def by (metis not_None_eq)
      qed
      then have "seen_to w r" using keep(1) by (auto simp: seen_to_def n_def)
      then show ?thesis using ok1 others rest n0 found by (simp add: w' keeps lowest_lane_zero)
    next
      case new
      have w': "a = lowest_lane n" "w' = set_task r (Some ?i) (lowest_lane n) w2" using eq rest new by simp_all
      note task = tasks_ok_retask [OF ok1 refl refl w2_def w'(2)]
      have w2: "rootOf w2 = rootOf w" "wipRoot w2 = wipRoot w" "wipLanes w2 = wipLanes w"
        "suspendReason w2 = suspendReason w" "syncWork w2 = syncWork w" by (simp_all add: w2_def)
      note work = set_task_work [OF w'(2) w2(1-4)]
      have "seen_to w' r" using new(1) task(2,3) work by (simp add: seen_to_def n_def [symmetric]) blast
      moreover have "same_root q w w'" if "q \<noteq> r" for q
        using task(4) [OF that] that w2 by (simp add: same_root_def w'(2) set_task_def)
      ultimately show ?thesis using task(1) others rest n0 found work w2
        by (auto simp: w'(1) keeps lowest_lane_zero w'(2) [unfolded set_task_def] intro: same_root_trans)
    next
      case sync
      have w': "a = 2" "w' = set_task r None 2 ?v" using eq rest sync by simp_all
      note work = set_task_work [OF w'(2), of w]
      have "seen_to (w'\<lparr>syncWork := True\<rparr>) r"
        using sync work same_root_keeps(1) [OF same_root_sync [of r w']] by (simp add: seen_to_def n_def)
      then show ?thesis
        using tasks_ok_untask [OF ok1 w'(2)] untask_same [OF ok1 w'(2)] others work rest
        by (auto simp: w'(1) keeps w'(2) [unfolded set_task_def] intro: same_root_trans)
    qed
  qed
  then show "tasks_ok w'" "a = 0 \<longleftrightarrow> resting w' r" "a = 0 \<Longrightarrow> callbackNode (rootOf w' r) = None"
    "a \<noteq> 0 \<Longrightarrow> seen_to (if sync \<or> a AND 3 \<noteq> 0 then w'\<lparr>syncWork := True\<rparr> else w') r"
    "wipRoot w' = wipRoot w0" "wipLanes w' = wipLanes w0" "suspendReason w' = suspendReason w0"
    by blast+
  show "resting w' r = resting w0 r" "work_lanes w' r = work_lanes w0 r" using all starved(4,5) by simp_all
  show "q \<noteq> r \<Longrightarrow> same_root q w0 w'" using all by blast
qed

subsection \<open>The look at all roots\<close>

lemma queue_fields [simp]:
  "root_task (w\<lparr>rootQueue := q\<rparr>) = root_task w" "root_task (w\<lparr>syncWork := b\<rparr>) = root_task w"
  "root_task (w\<lparr>microtaskQueued := b\<rparr>) = root_task w" "root_task (w\<lparr>microtasks := m\<rparr>) = root_task w"
  "root_task (w\<lparr>interleavedLanes := l\<rparr>) = root_task w"
  "task_priority (w\<lparr>rootQueue := q\<rparr>) = task_priority w" "task_priority (w\<lparr>syncWork := b\<rparr>) = task_priority w"
  "task_priority (w\<lparr>microtaskQueued := b\<rparr>) = task_priority w" "task_priority (w\<lparr>microtasks := m\<rparr>) = task_priority w"
  "task_priority (w\<lparr>interleavedLanes := l\<rparr>) = task_priority w"
  by (simp_all add: root_task_def task_priority_def fun_eq_iff)

lemma queue_fields_ok [simp]:
  "tasks_ok (w\<lparr>rootQueue := q\<rparr>) = tasks_ok w" "tasks_ok (w\<lparr>syncWork := b\<rparr>) = tasks_ok w"
  "tasks_ok (w\<lparr>microtaskQueued := b\<rparr>) = tasks_ok w" "tasks_ok (w\<lparr>microtasks := m\<rparr>) = tasks_ok w"
  "tasks_ok (w\<lparr>interleavedLanes := l\<rparr>) = tasks_ok w"
  by (simp_all add: tasks_ok_def)

lemma walk_roots_seen:
  "tasks_ok w \<Longrightarrow> distinct rs \<Longrightarrow> walk_roots sync t rs w = (kept, w') \<Longrightarrow>
   tasks_ok w' \<and> set kept \<subseteq> set rs \<and> distinct kept \<and> (\<forall>q. q \<notin> set rs \<longrightarrow> same_root q w w') \<and>
   (\<forall>q. resting w' q = resting w q \<and> work_lanes w' q = work_lanes w q) \<and>
   (\<forall>r\<in>set rs. if resting w' r then r \<notin> set kept \<and> callbackNode (rootOf w' r) = None
               else r \<in> set kept \<and> seen_to w' r)"
proof (induction rs arbitrary: w kept)
  case Nil
  then show ?case by (auto intro: same_root_refl)
next
  case (Cons r rs)
  obtain a w1 where step: "schedule_root t r w = (a, w1)" by fastforce
  note look = schedule_root_step [OF Cons.prems(1) step]
  define w2 where "w2 = (if sync \<or> a AND 3 \<noteq> 0 then w1\<lparr>syncWork := True\<rparr> else w1)"
  define w3 where "w3 = (if a = 0 then w1 else w2)"
  obtain rest where walk: "walk_roots sync t rs w3 = (rest, w')" and
    kept: "kept = (if a = 0 then rest else r # rest)"
    using Cons.prems(3) step by (auto simp: w3_def w2_def split: prod.splits if_splits)
  have ok3: "tasks_ok w3" using look(1) by (simp add: w3_def w2_def)
  have same3: "same_root q w1 w3" for q
    using same_root_refl same_root_sync by (simp add: w3_def w2_def)
  note IH = Cons.IH [OF ok3 _ walk]
  have fresh: "r \<notin> set rs" and dist: "distinct rs" using Cons.prems(2) by auto
  have same: "same_root r w3 w'" using IH [OF dist] fresh by blast
  have node: "callbackNode (rootOf w' r) = callbackNode (rootOf w1 r)"
    using same same3 [of r] by (simp add: same_root_def)
  have rest: "resting w' r \<longleftrightarrow> a = 0"
    using same_root_keeps(2) [OF same] same_root_keeps(2) [OF same3] look(3) by simp
  have seen: "a \<noteq> 0 \<Longrightarrow> seen_to w' r"
    using look(5) [of sync] same_root_keeps(3) [OF same] by (simp add: w3_def w2_def)
  have others: "same_root q w w'" if "q \<notin> set (r # rs)" for q
  proof -
    have "same_root q w3 w'" using IH [OF dist] that by simp
    then show ?thesis using look(2) [of q] same3 [of q] that same_root_trans by (metis list.set_intros(1))
  qed
  have this_root: "if resting w' r then r \<notin> set kept \<and> callbackNode (rootOf w' r) = None
      else r \<in> set kept \<and> seen_to w' r"
  proof (cases "a = 0")
    case True
    then show ?thesis using IH [OF dist] fresh node rest look(4) by (simp add: kept) blast
  next
    case False
    then show ?thesis using rest seen by (simp add: kept)
  qed
  have later: "if resting w' q then q \<notin> set kept \<and> callbackNode (rootOf w' q) = None
      else q \<in> set kept \<and> seen_to w' q" if "q \<in> set rs" for q
  proof -
    have "q \<noteq> r" using that fresh by blast
    then have "q \<in> set kept \<longleftrightarrow> q \<in> set rest" by (simp add: kept)
    moreover have "\<forall>r\<in>set rs. if resting w' r then r \<notin> set rest \<and> callbackNode (rootOf w' r) = None
        else r \<in> set rest \<and> seen_to w' r" using IH [OF dist] by blast
    ultimately show ?thesis using that by simp
  qed
  have "resting w' q = resting w q \<and> work_lanes w' q = work_lanes w q" for q
  proof (cases "q = r")
    case True
    then show ?thesis using same_root_keeps(1,2) [OF same] same_root_keeps(1,2) [OF same3] look(9,10) by simp
  next
    case False
    then show ?thesis
      using IH [OF dist] same_root_keeps(1,2) [OF same3] same_root_keeps(1,2) [OF look(2)] by simp
  qed
  moreover have "set kept \<subseteq> set (r # rs)" "distinct kept" using IH [OF dist] fresh by (auto simp: kept)
  moreover have "tasks_ok w'" using IH [OF dist] by blast
  ultimately show ?case using others this_root later by (simp only: list.set ball_simps) blast
qed

lemma schedule_roots_seen:
  assumes "tasks_ok w" "distinct (rootQueue w)" "w' = schedule_roots popstate w"
  shows "tasks_ok w'" "distinct (rootQueue w')"
    "resting w' q = resting w q" "work_lanes w' q = work_lanes w q"
    "r \<in> set (rootQueue w) \<Longrightarrow> resting w' r \<Longrightarrow> r \<notin> set (rootQueue w') \<and> callbackNode (rootOf w' r) = None"
    "r \<in> set (rootQueue w) \<Longrightarrow> \<not> resting w' r \<Longrightarrow> r \<in> set (rootQueue w') \<and> seen_to w' r"
proof -
  let ?w = "w\<lparr>syncWork := False, microtaskQueued := False\<rparr>"
  obtain kept v where walk: "walk_roots (sync_transition popstate ?w \<noteq> 0) (clock (rsched ?w)) (rootQueue ?w) ?w = (kept, v)"
    by fastforce
  have w': "w' = v\<lparr>rootQueue := kept\<rparr>" using assms(3) walk by (simp add: schedule_roots_def Let_def)
  have same: "same_root r v w'" for r by (simp add: w' same_root_def)
  have ok: "tasks_ok ?w" "distinct (rootQueue ?w)" using assms(1,2) by simp_all
  note seen = walk_roots_seen [OF ok walk]
  show "tasks_ok w'" "distinct (rootQueue w')" using seen by (simp_all add: w')
  have "resting ?w q = resting w q" "work_lanes ?w q = work_lanes w q"
    by (simp_all add: resting_def work_lanes_def)
  then show "resting w' q = resting w q" "work_lanes w' q = work_lanes w q"
    using seen same_root_keeps(1,2) [OF same] by simp_all
  show "r \<in> set (rootQueue w) \<Longrightarrow> resting w' r \<Longrightarrow> r \<notin> set (rootQueue w') \<and> callbackNode (rootOf w' r) = None"
    "r \<in> set (rootQueue w) \<Longrightarrow> \<not> resting w' r \<Longrightarrow> r \<in> set (rootQueue w') \<and> seen_to w' r"
    using seen same_root_keeps(2,3) [OF same] by (simp_all add: w')
qed


definition new_sroot :: sroot where
  "new_sroot = root.extend new_root
     \<lparr>callbackNode = None, callbackPriority = 0, commitPending = False, timeoutArmed = False\<rparr>"

definition init_roots :: rstate where
  "init_roots =
     \<lparr>rootOf = (\<lambda>_. new_sroot), rootQueue = [], syncWork = False, microtaskQueued = False, flushing = False,
      eventTransition = 0, nextTransition = 256, actionLane = 0, wipRoot = None, wipLanes = 0, renderLanes = 0,
      suspendReason = 0, exitStatus = 0, interleavedLanes = 0, pingedInRender = 0, deferredLane = 0,
      commitStage = 0, execContext = 0, microtasks = 0, rsched = init_sched 0\<rparr>"

lemma init_sched_inv: "sched_inv (init_sched t)"
  by (simp add: sched_inv_def queue_wf_def host_wf_def host_base_def timers_armed_def init_sched_def tasks.heap_def)

lemma init_roots_ok: "tasks_ok init_roots" "distinct (rootQueue init_roots)"
  by (simp_all add: tasks_ok_def init_sched_inv init_roots_def root_task_def new_sroot_def root.defs)
    (simp_all add: init_sched_def)

subsection \<open>Updates\<close>

lemma mark_suspended_fields:
  "callbackNode (mark_root_suspended g u t d b e) = callbackNode e"
  "callbackPriority (mark_root_suspended g u t d b e) = callbackPriority e"
  "commitPending (mark_root_suspended g u t d b e) = commitPending e"
  "bit (pendingLanes f) k \<Longrightarrow> bit (pendingLanes (mark_root_suspended g u t d b f)) k"
  "\<not> bit (suspendedLanes f) k \<Longrightarrow> bit u k \<Longrightarrow> \<not> bit (suspendedLanes (mark_root_suspended g u t d b f)) k"
  by (simp_all add: mark_root_suspended_def mark_spawned_deferred_def Let_def lane_loop_field bit_simps)

lemma mark_updated_fields:
  "callbackNode (mark_root_updated n e) = callbackNode e"
  "callbackPriority (mark_root_updated n e) = callbackPriority e"
  "commitPending (mark_root_updated n e) = commitPending e"
  "n \<noteq> 268435456 \<Longrightarrow> bit n k \<Longrightarrow> bit (pendingLanes (mark_root_updated n f)) k"
  "n \<noteq> 268435456 \<Longrightarrow> suspendedLanes (mark_root_updated n f) = 0"
  by (simp_all add: mark_root_updated_def Let_def bit_or_iff)

text \<open>Changes of a root that leave its task alone.\<close>

definition same_tasks :: "rstate \<Rightarrow> rstate \<Rightarrow> bool" where
  "same_tasks w w' \<longleftrightarrow> rsched w' = rsched w \<and>
     (\<forall>q. callbackNode (rootOf w' q) = callbackNode (rootOf w q) \<and>
          callbackPriority (rootOf w' q) = callbackPriority (rootOf w q))"

lemma same_tasks_ok: "same_tasks w w' \<Longrightarrow> tasks_ok w' = tasks_ok w"
  by (simp add: same_tasks_def tasks_ok_def root_task_def task_priority_def)

lemma same_tasks_trans: "same_tasks w w1 \<Longrightarrow> same_tasks w1 w2 \<Longrightarrow> same_tasks w w2"
  by (simp add: same_tasks_def)

lemma same_tasks_steps:
  "same_tasks w (prepare_fresh_stack r t w)" "same_tasks w (suspend_render r w)"
  "same_tasks w (put_root r (mark_root_updated n (rootOf w r)) w)" "same_tasks w (ensure_scheduled r w)"
  "same_tasks w (w\<lparr>interleavedLanes := l\<rparr>)" "same_tasks w w"
  by (simp_all add: same_tasks_def prepare_fresh_stack_def suspend_render_def ensure_scheduled_def Let_def
      mark_suspended_fields mark_updated_fields put_root_def)

lemma schedule_update_queued:
  assumes "execContext w AND 2 = 0" "bit n k" "k < 27" "n \<noteq> 268435456" "v = schedule_update r n w"
  shows "same_tasks w v" "r \<in> set (rootQueue v)" "distinct (rootQueue w) \<Longrightarrow> distinct (rootQueue v)"
    "microtaskQueued v" "\<not> resting v r"
proof -
  define w1 where "w1 = (if wipRoot w = Some r \<and> (suspendReason w = 2 \<or> suspendReason w = 9) \<or>
      commitPending (rootOf w r) then suspend_render r (prepare_fresh_stack r 0 w) else w)"
  define w2 where "w2 = put_root r (mark_root_updated n (rootOf w1 r)) w1"
  define w3 where "w3 = (if wipRoot w2 = Some r
      then (if exitStatus w2 = 4 then suspend_render r (w2\<lparr>interleavedLanes := interleavedLanes w2 OR n\<rparr>)
            else w2\<lparr>interleavedLanes := interleavedLanes w2 OR n\<rparr>) else w2)"
  have w1: "execContext w1 = execContext w" "rootQueue w1 = rootQueue w"
    "\<not> (wipRoot w1 = Some r \<and> (suspendReason w1 = 2 \<or> suspendReason w1 = 9))" "\<not> commitPending (rootOf w1 r)"
    by (auto simp: w1_def suspend_render_def prepare_fresh_stack_def Let_def mark_suspended_fields put_root_def)
  have t1: "same_tasks w w1"
    unfolding w1_def using same_tasks_trans [OF same_tasks_steps(1) same_tasks_steps(2)] same_tasks_steps(6)
    by (simp only: if_split) blast
  have w2: "bit (pendingLanes (rootOf w2 r)) k" "\<not> bit (suspendedLanes (rootOf w2 r)) k" "same_tasks w w2"
    using same_tasks_trans [OF t1 same_tasks_steps(3)] assms(2,4)
    by (simp_all add: w2_def mark_updated_fields)
  have v: "v = ensure_scheduled r w3"
    using assms(1) w1(1)
    by (simp add: assms(5) schedule_update_def Let_def w1_def [symmetric] w2_def [symmetric] w3_def)
      (simp add: w2_def)
  have w3: "bit (pendingLanes (rootOf w3 r)) k" "\<not> bit (suspendedLanes (rootOf w3 r)) k"
    "rootQueue w3 = rootQueue w" "wipRoot w3 = wipRoot w1" "suspendReason w3 = suspendReason w1"
    "\<not> commitPending (rootOf w3 r)"
    using w2 assms(2) w1(2,4)
    by (simp_all add: w3_def suspend_render_def mark_suspended_fields bit_or_iff)
      (simp_all add: w2_def mark_updated_fields)
  have "same_tasks w w3"
    using w2(3) same_tasks_steps(2,5) same_tasks_trans by (simp add: w3_def) metis
  then show "same_tasks w v" unfolding v using same_tasks_steps(4) same_tasks_trans by metis
  show "r \<in> set (rootQueue v)" "microtaskQueued v" "distinct (rootQueue w) \<Longrightarrow> distinct (rootQueue v)"
    using w3(3) by (simp_all add: v ensure_scheduled_def Let_def)
  have "work_lanes w3 r \<noteq> 0" unfolding work_lanes_def by (rule runnable_makes_work [OF w3(1,2) assms(3)])
  moreover have "resting v r = resting w3 r"
    by (simp add: resting_def v ensure_scheduled_def Let_def work_lanes_def)
  ultimately show "\<not> resting v r" using w1(3) w3(4-6) by (simp add: resting_def)
qed




subsection \<open>Flushes\<close>

lemma flush_pass_end:
  "\<not> j < length (rootQueue w) \<Longrightarrow> flush_pass perform e (Suc k) j found w = Some (found, w)"
  by simp

lemma flush_pass_work:
  "j < length (rootQueue w) \<Longrightarrow> a = flush_lanes e w (rootQueue w ! j) \<Longrightarrow> a \<noteq> 0 \<Longrightarrow>
   flush_pass perform e (Suc k) j found w = flush_pass perform e k (Suc j) True (perform (rootQueue w ! j) a w)"
  by (simp add: Let_def)

lemma flush_pass_idle:
  "j < length (rootQueue w) \<Longrightarrow> flush_lanes e w (rootQueue w ! j) = 0 \<Longrightarrow>
   flush_pass perform e (Suc k) j found w = flush_pass perform e k (Suc j) found w"
  by (simp add: Let_def)

lemma flush_pass_zero: "flush_pass perform e 0 j found w = None"
  by simp

declare flush_pass.simps [simp del]

lemma flush_pass_cases:
  assumes "flush_pass perform e k j found w = Some x"
  obtains (stop) "\<not> j < length (rootQueue w)" "x = (found, w)"
  | (flush) a n where "k = Suc n" "j < length (rootQueue w)" "a = flush_lanes e w (rootQueue w ! j)" "a \<noteq> 0"
      "flush_pass perform e n (Suc j) True (perform (rootQueue w ! j) a w) = Some x"
  | (skip) n where "k = Suc n" "j < length (rootQueue w)" "flush_lanes e w (rootQueue w ! j) = 0"
      "flush_pass perform e n (Suc j) found w = Some x"
proof -
  obtain n where k: "k = Suc n" using assms by (cases k) (simp_all add: flush_pass_zero)
  show ?thesis
  proof (cases "j < length (rootQueue w)")
    case in_queue: True
    show ?thesis
      by (cases "flush_lanes e w (rootQueue w ! j) = 0")
        (use assms k in_queue flush in \<open>simp_all add: flush_pass_idle flush_pass_work skip\<close>)
  next
    case False
    then show ?thesis using assms stop by (simp add: k flush_pass_end)
  qed
qed

lemma flush_pass_none:
  "flush_pass perform e k j found w = Some (False, w') \<Longrightarrow>
   w' = w \<and> \<not> found \<and> (\<forall>i. j \<le> i \<longrightarrow> i < length (rootQueue w) \<longrightarrow> flush_lanes e w (rootQueue w ! i) = 0)"
proof (induction k arbitrary: j found w)
  case (Suc k)
  from Suc.prems show ?case
  proof (cases rule: flush_pass_cases)
    case (flush a n)
    then show ?thesis using Suc.IH by blast
  next
    case (skip n)
    then have "w' = w \<and> \<not> found" and
      *: "\<And>i. Suc j \<le> i \<Longrightarrow> i < length (rootQueue w) \<Longrightarrow> flush_lanes e w (rootQueue w ! i) = 0"
      using Suc.IH [of "Suc j" found w] by auto
    moreover have "flush_lanes e w (rootQueue w ! i) = 0" if "j \<le> i" "i < length (rootQueue w)" for i
      using that * skip(3) by (cases "i = j") auto
    ultimately show ?thesis by blast
  qed simp
qed (simp add: flush_pass_zero)

lemma flush_pass_more_fuel:
  "flush_pass perform e k j found w = Some x \<Longrightarrow> k \<le> k' \<Longrightarrow> flush_pass perform e k' j found w = Some x"
proof (induction k arbitrary: j found w k')
  case (Suc k)
  then obtain m where m: "k' = Suc m" "k \<le> m" by (cases k') auto
  from Suc.prems(1) show ?case
  proof (cases rule: flush_pass_cases)
    case stop
    then show ?thesis by (simp add: m flush_pass_end)
  next
    case (flush a n)
    then show ?thesis using Suc.IH m by (simp add: flush_pass_work)
  next
    case (skip n)
    then show ?thesis using Suc.IH m by (simp add: flush_pass_idle)
  qed
qed (simp add: flush_pass_zero)

lemma flush_passes_done:
  "flush_passes perform e k w = Some w' \<Longrightarrow> r \<in> set (rootQueue w') \<Longrightarrow> flush_lanes e w' r = 0"
proof (induction k arbitrary: w)
  case (Suc k)
  then obtain found v where pass: "flush_pass perform e (Suc k) 0 False w = Some (found, v)"
    by (auto split: option.splits)
  show ?case
  proof (cases found)
    case True
    then have "flush_passes perform e k v = Some w'" using Suc.prems(1) pass by simp
    then show ?thesis using Suc.IH Suc.prems(2) by blast
  next
    case False
    then have "w' = v" using Suc.prems(1) pass by simp
    moreover from flush_pass_none [of perform e "Suc k" 0 False w v] pass False
    have "v = w" "\<And>i. i < length (rootQueue w) \<Longrightarrow> flush_lanes e w (rootQueue w ! i) = 0" by simp_all
    ultimately show ?thesis using Suc.prems(2) by (metis in_set_conv_nth)
  qed
qed simp

text \<open>Every render of a flush brings the renders that are still due nearer to their end.\<close>

definition renders_progress :: "(rstate \<Rightarrow> nat) \<Rightarrow> renderer \<Rightarrow> lanes \<Rightarrow> bool" where
  "renders_progress m perform e \<longleftrightarrow>
     (\<forall>v. \<forall>r\<in>set (rootQueue v). flush_lanes e v r \<noteq> 0 \<longrightarrow> m (perform r (flush_lanes e v r) v) < m v)"

lemma flush_pass_returns:
  assumes progress: "renders_progress m perform e"
  shows "\<exists>k found' w'. flush_pass perform e k j found w = Some (found', w') \<and> m w' \<le> m w \<and>
    (found' \<longrightarrow> found \<or> m w' < m w)"
proof (induction "m w" arbitrary: w j found rule: less_induct)
  case outer: less
  show ?case
  proof (induction "length (rootQueue w) - j" arbitrary: j found)
    case 0
    then show ?case using flush_pass_end [of j w perform e 0 found] by fastforce
  next
    case (Suc l)
    then have j: "j < length (rootQueue w)" by simp
    define a where "a = flush_lanes e w (rootQueue w ! j)"
    show ?case
    proof (cases "a = 0")
      case True
      have "l = length (rootQueue w) - Suc j" using Suc(2) by simp
      from Suc(1) [OF this, of found] flush_pass_idle [OF j] True show ?thesis by (metis a_def)
    next
      case False
      then have less: "m (perform (rootQueue w ! j) a w) < m w" using j progress by (simp add: a_def renders_progress_def)
      from outer [OF this, of "Suc j" True] obtain k found' w' where
        "flush_pass perform e k (Suc j) True (perform (rootQueue w ! j) a w) = Some (found', w')"
        "m w' \<le> m (perform (rootQueue w ! j) a w)" by blast
      then have "flush_pass perform e (Suc k) j found w = Some (found', w')" "m w' < m w"
        using less flush_pass_work [OF j a_def False] by simp_all
      then show ?thesis by (meson less_imp_le)
    qed
  qed
qed

lemma flush_passes_return:
  assumes progress: "renders_progress m perform e"
  shows "\<exists>k w'. \<forall>k'\<ge>k. flush_passes perform e k' w = Some w'"
proof (induction "m w" arbitrary: w rule: less_induct)
  case less
  obtain k found v where pass: "flush_pass perform e k 0 False w = Some (found, v)"
    and smaller: "found \<longrightarrow> m v < m w" using flush_pass_returns [OF progress] by metis
  have more: "flush_pass perform e k' 0 False w = Some (found, v)" if "k \<le> k'" for k'
    using flush_pass_more_fuel [OF pass that] .
  show ?case
  proof (cases found)
    case True
    then obtain l w' where rest: "\<And>k'. l \<le> k' \<Longrightarrow> flush_passes perform e k' v = Some w'"
      using less smaller by blast
    have "flush_passes perform e k' w = Some w'" if "Suc (max k l) \<le> k'" for k'
      using that more [of k'] rest True by (cases k') simp_all
    then show ?thesis by blast
  next
    case False
    have "flush_passes perform e k' w = Some v" if "Suc k \<le> k'" for k'
      using that more [of k'] False by (cases k') simp_all
    then show ?thesis by blast
  qed
qed

text \<open>C22: A flush ends and leaves nothing behind. When every render of a root brings the renders that are
  still due nearer to their end, in whatever measure, the flush of synchronous work returns, and then no
  queued root has synchronous lanes to render, other than lanes that only wait to be warmed up. Renders may
  queue more roots and give them more work while the flush walks over the queue.\<close>

theorem flush_leaves_no_sync:
  assumes "renders_progress m perform 0" "execContext w AND 6 = 0" "\<not> flushing w" "syncWork w"
  shows "\<exists>k w'. (\<forall>k'\<ge>k. flush_sync_work perform k' w = Some (False, w')) \<and>
    (\<forall>r\<in>set (rootQueue w'). work_lanes w' r AND 3 = 0 \<or> only_prerendering (rootOf w' r) (work_lanes w' r))"
proof -
  obtain k v where passes: "\<And>k'. k \<le> k' \<Longrightarrow> flush_passes perform 0 k' (w\<lparr>flushing := True\<rparr>) = Some v"
    using flush_passes_return [OF assms(1)] by blast
  then have "flush_sync_work perform k' w = Some (False, v\<lparr>flushing := False\<rparr>)" if "k \<le> k'" for k'
    using that assms(2-4) by (simp add: flush_sync_work_def flush_sync_def)
  moreover have "work_lanes v r AND 3 = 0 \<or> only_prerendering (rootOf v r) (work_lanes v r)"
    if "r \<in> set (rootQueue v)" for r
    using flush_passes_done [OF passes [OF order_refl] that] by (auto simp: flush_lanes_def Let_def split: if_splits)
  moreover have "work_lanes (v\<lparr>flushing := False\<rparr>) r = work_lanes v r" for r by (simp add: work_lanes_def)
  ultimately show ?thesis by (intro exI [of _ k] exI [of _ "v\<lparr>flushing := False\<rparr>"]) simp
qed

text \<open>The render that finishes all the work of its root, on a root with a synchronous update.\<close>

definition finish_render :: renderer where
  "finish_render r a w = put_root r (mark_root_finished a 0 0 0 0 (rootOf w r)) w"

lemma finish_render_idle: "pendingLanes (rootOf (finish_render r a w) r) = 0"
  by (simp add: finish_render_def mark_root_finished_def Let_def lane_loop_field finish_lane_def)

theorem flush_leaves_no_sync_witness:
  "\<exists>k w'. flush_sync_work finish_render k (init_roots\<lparr>rootOf := \<lambda>_. new_sroot\<lparr>pendingLanes := 2\<rparr>,
     rootQueue := [0, 1], syncWork := True\<rparr>) = Some (False, w')"
proof -
  let ?m = "\<lambda>w. card {r \<in> set (rootQueue w). pendingLanes (rootOf w r) \<noteq> 0}"
  have less: "?m (finish_render r (flush_lanes 0 v r) v) < ?m v"
    if "r \<in> set (rootQueue v)" "flush_lanes 0 v r \<noteq> 0" for r v
  proof (rule psubset_card_mono)
    have "pendingLanes (rootOf v r) \<noteq> 0"
      using that(2) by (auto simp: flush_lanes_def work_lanes_def next_lanes_def Let_def split: if_splits)
    then show "{q \<in> set (rootQueue (finish_render r (flush_lanes 0 v r) v)).
        pendingLanes (rootOf (finish_render r (flush_lanes 0 v r) v) q) \<noteq> 0}
      \<subset> {q \<in> set (rootQueue v). pendingLanes (rootOf v q) \<noteq> 0}"
      using that(1) finish_render_idle [of r "flush_lanes 0 v r" v] by (auto simp: finish_render_def split: if_splits)
  qed simp
  then have "renders_progress ?m finish_render 0" by (simp add: renders_progress_def)
  moreover define w where "w = init_roots\<lparr>rootOf := \<lambda>_. new_sroot\<lparr>pendingLanes := 2\<rparr>, rootQueue := [0, 1], syncWork := True\<rparr>"
  moreover have "execContext w AND 6 = 0" "\<not> flushing w" "syncWork w" by (simp_all add: w_def init_roots_def)
  ultimately obtain k w' where "\<forall>k'\<ge>k. flush_sync_work finish_render k' w = Some (False, w')"
    using flush_leaves_no_sync [of ?m finish_render w] by blast
  then show ?thesis unfolding w_def [symmetric] by blast
qed

end
