(* ===== verification/React_Updates.thy ===== *)
theory React_Updates
  imports React_Lanes
begin

unbundle bit_operations_syntax

text \<open>
  The update queues of the console's React renderer, as bundled into \<open>app.js\<close>: the queue of a state hook
  (\<open>dispatchSetState\<close>, \<open>updateReducerImpl\<close>, \<open>rerenderReducer\<close>) and that of a class or a root
  (\<open>ReactFiberClassUpdateQueue\<close>). A render takes the updates of its lanes and leaves the others, with all that
  came after them, to a later render. The circular lists of the code, which point to their last element, are
  lists in their order.
\<close>

text \<open>Whether an update of lane \<open>l\<close> is rendered: \<open>io\<close> the lanes of the subtree, \<open>z\<close> those of the root's render.
  The lane is returned without the bit of hidden trees.\<close>

definition update_taken :: "lanes \<Rightarrow> lanes \<Rightarrow> lanes \<Rightarrow> bool" where
  "update_taken io z l =
     (let p = l AND NOT 536870912 in if p = l then io AND p = p else z AND p = p)"

definition shown_lane :: "lanes \<Rightarrow> lanes" where
  "shown_lane l = l AND NOT 536870912"

subsection \<open>Hooks\<close>

text \<open>\<open>hu_eager\<close> is \<open>eagerState\<close> when \<open>hasEagerState\<close>, the state computed when the update was made.\<close>

record ('s, 'a) hook_update =
  hu_lane :: lanes
  hu_revert :: lanes
  hu_action :: 'a
  hu_eager :: "'s option"

text \<open>A hook and its queue; \<open>hq_staged\<close> are its updates in the list of concurrent updates \<open>Ur\<close>, with the
  lanes to mark the fibers with.\<close>

record ('s, 'a) hook =
  memoizedState :: 's
  baseState :: 's
  baseQueue :: "('s, 'a) hook_update list"
  hq_pending :: "('s, 'a) hook_update list"
  hq_staged :: "(('s, 'a) hook_update \<times> lanes) list"
  hq_lanes :: lanes
  lastRenderedState :: 's

definition mount_state :: "'s \<Rightarrow> ('s, 'a) hook" where
  "mount_state e =
     \<lparr>memoizedState = e, baseState = e, baseQueue = [], hq_pending = [], hq_staged = [], hq_lanes = 0,
      lastRenderedState = e\<rparr>"

definition stage_hook_update :: "('s, 'a) hook_update \<Rightarrow> lanes \<Rightarrow> ('s, 'a) hook \<Rightarrow> ('s, 'a) hook" where
  "stage_hook_update u r h = h\<lparr>hq_staged := hq_staged h @ [(u, r)]\<rparr>"

definition finish_hook_queueing :: "('s, 'a) hook \<Rightarrow> ('s, 'a) hook" where
  "finish_hook_queueing h = h\<lparr>hq_pending := hq_pending h @ map fst (hq_staged h), hq_staged := []\<rparr>"

definition hook_state_after :: "('s \<Rightarrow> 'a \<Rightarrow> 's) \<Rightarrow> ('s, 'a) hook_update \<Rightarrow> 's \<Rightarrow> 's" where
  "hook_state_after n u e = (case hu_eager u of Some x \<Rightarrow> x | None \<Rightarrow> n e (hu_action u))"

text \<open>
  The loop's variables: \<open>o\<close> the state so far, \<open>s\<close> the new base state, \<open>l\<close> the updates kept, the lanes left to
  render, and whether an update of the action \<open>ia\<close> under way was met. \<open>s\<close> counts once an update is kept.
\<close>

type_synonym ('s, 'a) rebase = "'s \<times> 's \<times> ('s, 'a) hook_update list \<times> lanes \<times> bool"

fun rebase_step :: "('s \<Rightarrow> 'a \<Rightarrow> 's) \<Rightarrow> lanes \<Rightarrow> lanes \<Rightarrow> lanes \<Rightarrow> ('s, 'a) hook_update \<Rightarrow> ('s, 'a) rebase \<Rightarrow>
    ('s, 'a) rebase" where
  "rebase_step n io z ia u (e, s, l, left, d) =
     (let f = shown_lane (hu_lane u); p = hu_revert u; s' = (if l = [] then e else s) in
      if update_taken io z (hu_lane u)
      then if p = 0
           then (hook_state_after n u e, s, if l = [] then l else l @ [u\<lparr>hu_lane := 0\<rparr>], left, d \<or> f = ia)
           else if io AND p = p then (e, s, l, left, d \<or> p = ia)
           else (hook_state_after n u e, s', l @ [u\<lparr>hu_lane := 0\<rparr>], left OR p, d)
      else (e, s', l @ [u\<lparr>hu_lane := f\<rparr>], left OR f, d))"

definition rebase_updates :: "('s \<Rightarrow> 'a \<Rightarrow> 's) \<Rightarrow> lanes \<Rightarrow> lanes \<Rightarrow> lanes \<Rightarrow> 's \<Rightarrow> ('s, 'a) hook_update list \<Rightarrow>
    ('s, 'a) rebase" where
  "rebase_updates n io z ia b us = fold (rebase_step n io z ia) us (b, b, [], 0, False)"

text \<open>
  \<open>updateReducerImpl\<close> on the current hook: that hook, which keeps the pending updates in its base queue
  whatever becomes of the render, and shares the last state rendered; and the hook of the render with the lanes it leaves, or the thenable \<open>aa\<close>
  of the action it waits for. \<open>changed\<close>: the state is not the old one, so the component did receive an update.
\<close>

definition update_reducer :: "('s \<Rightarrow> 'a \<Rightarrow> 's) \<Rightarrow> lanes \<Rightarrow> lanes \<Rightarrow> lanes \<Rightarrow> 't option \<Rightarrow> ('s, 'a) hook \<Rightarrow>
    ('s, 'a) hook \<times> ('t + ('s, 'a) hook \<times> lanes \<times> bool)" where
  "update_reducer n io z ia aa h =
     (let t = h\<lparr>baseQueue := baseQueue h @ hq_pending h, hq_pending := []\<rparr> in
      if baseQueue t = []
      then (t\<lparr>hq_lanes := 0\<rparr>, Inr (t\<lparr>memoizedState := baseState t, hq_lanes := 0\<rparr>, 0, False))
      else (let (e, s, l, left, d) = rebase_updates n io z ia (baseState t) (baseQueue t);
                changed = (e \<noteq> memoizedState t)
            in case (if changed \<and> d then aa else None) of
                 Some n \<Rightarrow> (t, Inl n)
               | None \<Rightarrow> (t\<lparr>lastRenderedState := e\<rparr>, Inr (t\<lparr>memoizedState := e, baseState := if l = [] then e else s, baseQueue := l,
                                    lastRenderedState := e\<rparr>, left, changed))))"

text \<open>\<open>rerenderReducer\<close>: updates a component makes to itself while it renders are applied at once.\<close>

definition render_phase_update :: "('s, 'a) hook_update \<Rightarrow> ('s, 'a) hook \<Rightarrow> ('s, 'a) hook" where
  "render_phase_update u h = h\<lparr>hq_pending := hq_pending h @ [u]\<rparr>"

definition rerender_reducer :: "('s \<Rightarrow> 'a \<Rightarrow> 's) \<Rightarrow> ('s, 'a) hook \<Rightarrow> ('s, 'a) hook" where
  "rerender_reducer n t =
     (if hq_pending t = [] then t
      else (let e = foldl (\<lambda>e u. n e (hu_action u)) (memoizedState t) (hq_pending t)
            in t\<lparr>hq_pending := [], memoizedState := e,
                 baseState := (if baseQueue t = [] then e else baseState t), lastRenderedState := e\<rparr>))"

text \<open>
  \<open>dispatchSetState\<close> outside a render. \<open>lanes\<close> and \<open>alt\<close>: the lanes of the fiber and of its alternate, if it
  has one; \<open>idle\<close>: no render is under way. When nothing waits the new state is computed at once (the
  reducer of a state hook, given an update function that throws, fails here and again in the render: \<open>None\<close>).
  When it is the old one, no render is asked for; the update is queued all the same. Returned: the hook,
  and whether the root is to be scheduled with the lane.
\<close>

definition dispatch_set_state :: "('s \<Rightarrow> 'a \<Rightarrow> 's option) \<Rightarrow> lanes \<Rightarrow> lanes \<Rightarrow> lanes option \<Rightarrow> bool \<Rightarrow> 'a \<Rightarrow>
    ('s, 'a) hook \<Rightarrow> ('s, 'a) hook \<times> bool" where
  "dispatch_set_state n r lanes alt idle a h =
     (let u = \<lparr>hu_lane = r, hu_revert = 0, hu_action = a, hu_eager = None\<rparr> in
      if lanes = 0 \<and> (case alt of None \<Rightarrow> True | Some l \<Rightarrow> l = 0)
      then (case n (lastRenderedState h) a of
              None \<Rightarrow> (stage_hook_update u r h, True)
            | Some s \<Rightarrow>
                if s = lastRenderedState h
                then (let h1 = stage_hook_update (u\<lparr>hu_eager := Some s\<rparr>) 0 h
                      in (if idle then finish_hook_queueing h1 else h1, False))
                else (stage_hook_update (u\<lparr>hu_eager := Some s\<rparr>) r h, True))
      else (stage_hook_update u r h, True))"

text \<open>\<open>dispatchReducerAction\<close> and \<open>dispatchOptimisticSetState\<close>; \<open>revert\<close> is the lane of the transition.\<close>

definition dispatch_action :: "lanes \<Rightarrow> 'a \<Rightarrow> ('s, 'a) hook \<Rightarrow> ('s, 'a) hook" where
  "dispatch_action r a =
     stage_hook_update \<lparr>hu_lane = r, hu_revert = 0, hu_action = a, hu_eager = None\<rparr> r"

definition dispatch_optimistic :: "lanes \<Rightarrow> 'a \<Rightarrow> ('s, 'a) hook \<Rightarrow> ('s, 'a) hook" where
  "dispatch_optimistic revert a =
     stage_hook_update \<lparr>hu_lane = 2, hu_revert = revert, hu_action = a, hu_eager = None\<rparr> 2"

text \<open>
  A component with its fiber: the lanes of the fiber that is shown and of its alternate. Queueing an update
  marks both; so does \<open>finishQueueingConcurrentUpdates\<close>, again, when the updates reach the queue.
\<close>

record ('s, 'a) hook_fiber =
  hf_hook :: "('s, 'a) hook"
  hf_lanes :: lanes
  hf_alternate :: "lanes option"

definition mount_fiber :: "'s \<Rightarrow> ('s, 'a) hook_fiber" where
  "mount_fiber e = \<lparr>hf_hook = mount_state e, hf_lanes = 0, hf_alternate = None\<rparr>"

definition mark_fiber :: "lanes \<Rightarrow> ('s, 'a) hook_fiber \<Rightarrow> ('s, 'a) hook_fiber" where
  "mark_fiber r x = x\<lparr>hf_lanes := hf_lanes x OR r, hf_alternate := map_option (\<lambda>l. l OR r) (hf_alternate x)\<rparr>"

definition fiber_dispatch :: "('s \<Rightarrow> 'a \<Rightarrow> 's option) \<Rightarrow> lanes \<Rightarrow> bool \<Rightarrow> 'a \<Rightarrow> ('s, 'a) hook_fiber \<Rightarrow>
    ('s, 'a) hook_fiber" where
  "fiber_dispatch n r idle a x =
     (let (h, scheduled) = dispatch_set_state n r (hf_lanes x) (hf_alternate x) idle a (hf_hook x)
      in mark_fiber (if scheduled then r else 0) (x\<lparr>hf_hook := h\<rparr>))"

definition fiber_settle :: "('s, 'a) hook_fiber \<Rightarrow> ('s, 'a) hook_fiber" where
  "fiber_settle x =
     fold (\<lambda>(u, r). mark_fiber r) (hq_staged (hf_hook x)) (x\<lparr>hf_hook := finish_hook_queueing (hf_hook x)\<rparr>)"

text \<open>
  A render of the component that is given up, and one that is committed: the fiber of the render, with the
  lanes it leaves and those its other hooks leave (\<open>others\<close>), takes the place of the current one, and the
  updates queued meanwhile reach the queue. One that waits for an action is given up too.
\<close>

definition fiber_abandon :: "('s \<Rightarrow> 'a \<Rightarrow> 's) \<Rightarrow> lanes \<Rightarrow> lanes \<Rightarrow> lanes \<Rightarrow> 't option \<Rightarrow> ('s, 'a) hook_fiber \<Rightarrow>
    ('s, 'a) hook_fiber" where
  "fiber_abandon n io z ia aa x = x\<lparr>hf_hook := fst (update_reducer n io z ia aa (hf_hook x))\<rparr>"

definition fiber_commit :: "('s \<Rightarrow> 'a \<Rightarrow> 's) \<Rightarrow> lanes \<Rightarrow> lanes \<Rightarrow> lanes \<Rightarrow> 't option \<Rightarrow> lanes \<Rightarrow> ('s, 'a) hook_fiber \<Rightarrow>
    ('s, 'a) hook_fiber" where
  "fiber_commit n io z ia aa others x =
     (case snd (update_reducer n io z ia aa (hf_hook x)) of
        Inl _ \<Rightarrow> fiber_abandon n io z ia aa x
      | Inr (h, left, _) \<Rightarrow>
          fiber_settle \<lparr>hf_hook = h, hf_lanes = left OR others, hf_alternate = Some (hf_lanes x)\<rparr>)"

text \<open>\<open>entangleTransitionUpdate\<close>: transitions of one queue are rendered together from now on.\<close>

definition entangle_hook :: "lanes \<Rightarrow> 'z root_scheme \<Rightarrow> ('s, 'a) hook \<Rightarrow> ('s, 'a) hook \<times> 'z root_scheme" where
  "entangle_hook n e h =
     (if n AND 4194048 \<noteq> 0
      then (let l = n OR (hq_lanes h AND pendingLanes e) in (h\<lparr>hq_lanes := l\<rparr>, mark_root_entangled l e))
      else (h, e))"

subsection \<open>Classes and roots\<close>

text \<open>
  States are objects, or null. A payload is a value or a function of the state; \<open>None\<close> is null or undefined.
  Functions of the application are total and pure here, so none of them queues another update meanwhile.
\<close>

type_synonym 'v object = "(string \<rightharpoonup> 'v) option"

datatype 'v state_payload = Given "'v object" | Computed "'v object \<Rightarrow> 'v object"
datatype update_tag = Update_state | Replace_state | Force_update | Capture_update

record ('v, 'k) class_update =
  cu_lane :: lanes
  cu_tag :: update_tag
  cu_payload :: "'v state_payload"
  cu_callback :: "'k option"

record ('v, 'k) class_queue =
  cq_state :: "'v object"
  cq_base :: "'v object"
  cq_updates :: "('v, 'k) class_update list"
  cq_pending :: "('v, 'k) class_update list"
  cq_staged :: "('v, 'k) class_update list"
  cq_lanes :: lanes
  cq_callbacks :: "'k list"
  cq_flags :: "32 word"

definition initialize_queue :: "'v object \<Rightarrow> ('v, 'k) class_queue" where
  "initialize_queue e =
     \<lparr>cq_state = e, cq_base = e, cq_updates = [], cq_pending = [], cq_staged = [], cq_lanes = 0,
      cq_callbacks = [], cq_flags = 0\<rparr>"

definition create_update :: "lanes \<Rightarrow> ('v, 'k) class_update" where
  "create_update e = \<lparr>cu_lane = e, cu_tag = Update_state, cu_payload = Given None, cu_callback = None\<rparr>"

text \<open>\<open>enqueueUpdate\<close>: at once when a render is under way, else with the concurrent updates.\<close>

definition enqueue_update :: "bool \<Rightarrow> ('v, 'k) class_update \<Rightarrow> ('v, 'k) class_queue \<Rightarrow> ('v, 'k) class_queue" where
  "enqueue_update rendering u c =
     (if rendering then c\<lparr>cq_pending := cq_pending c @ [u]\<rparr> else c\<lparr>cq_staged := cq_staged c @ [u]\<rparr>)"

definition finish_class_queueing :: "('v, 'k) class_queue \<Rightarrow> ('v, 'k) class_queue" where
  "finish_class_queueing c = c\<lparr>cq_pending := cq_pending c @ cq_staged c, cq_staged := []\<rparr>"

text \<open>\<open>enqueueCapturedUpdate\<close>: the update that shows an error goes to the render's queue only, which is made
  a copy of the current one when the two are the same object (\<open>shared\<close>).\<close>

definition enqueue_captured :: "bool \<Rightarrow> ('v, 'k) class_update \<Rightarrow> ('v, 'k) class_queue \<Rightarrow> ('v, 'k) class_queue" where
  "enqueue_captured shared t c =
     c\<lparr>cq_updates := (if shared then map (\<lambda>u. u\<lparr>cu_callback := None\<rparr>) (cq_updates c) else cq_updates c) @ [t]\<rparr>"

definition payload_value :: "'v state_payload \<Rightarrow> 'v object \<Rightarrow> 'v object" where
  "payload_value p d = (case p of Given x \<Rightarrow> x | Computed f \<Rightarrow> f d)"

text \<open>\<open>Object.assign({}, d, p)\<close>.\<close>

definition assign_object :: "'v object \<Rightarrow> (string \<rightharpoonup> 'v) \<Rightarrow> 'v object" where
  "assign_object d p = Some (case d of None \<Rightarrow> p | Some m \<Rightarrow> m ++ p)"

definition state_from_update :: "('v, 'k) class_update \<Rightarrow> 'v object \<Rightarrow> 'v object" where
  "state_from_update u d =
     (case cu_tag u of
        Replace_state \<Rightarrow> payload_value (cu_payload u) d
      | Force_update \<Rightarrow> d
      | _ \<Rightarrow> (case payload_value (cu_payload u) d of None \<Rightarrow> d | Some p \<Rightarrow> assign_object d p))"

text \<open>The loop of \<open>processUpdateQueue\<close>: the state, the new base state, the updates kept, the lanes left,
  the callbacks to call, the fiber's flags, and whether the update is forced.\<close>

type_synonym ('v, 'k) class_rebase =
  "'v object \<times> 'v object \<times> ('v, 'k) class_update list \<times> lanes \<times> 'k list \<times> 32 word \<times> bool"

fun class_step :: "lanes \<Rightarrow> lanes \<Rightarrow> ('v, 'k) class_update \<Rightarrow> ('v, 'k) class_rebase \<Rightarrow> ('v, 'k) class_rebase" where
  "class_step r z u (d, c, kept, left, cbs, flags, force) =
     (let p = shown_lane (cu_lane u); hidden = (p \<noteq> cu_lane u) in
      if update_taken r z (cu_lane u)
      then (let flags1 = (if cu_tag u = Capture_update then flags AND - 65537 OR 128 else flags)
            in (state_from_update u d, c,
                if kept = [] then kept else kept @ [u\<lparr>cu_lane := 0, cu_callback := None\<rparr>], left,
                cbs @ (case cu_callback u of None \<Rightarrow> [] | Some k \<Rightarrow> [k]),
                if cu_callback u = None then flags1
                else if hidden then flags1 OR 64 OR 8192 else flags1 OR 64,
                force \<or> cu_tag u = Force_update))
      else (d, if kept = [] then d else c, kept @ [u\<lparr>cu_lane := p\<rparr>], left OR p, cbs, flags, force))"

text \<open>
  The current queue, with the pending updates moved to its list; the queue of the render, the lanes it
  leaves, and whether the update is forced. With an empty list the fiber's lanes stay as they are: \<open>None\<close>.
\<close>

definition process_update_queue :: "lanes \<Rightarrow> lanes \<Rightarrow> ('v, 'k) class_queue \<Rightarrow>
    ('v, 'k) class_queue \<times> ('v, 'k) class_queue \<times> lanes option \<times> bool" where
  "process_update_queue r z q =
     (let t = q\<lparr>cq_updates := cq_updates q @ cq_pending q, cq_pending := []\<rparr> in
      if cq_updates t = [] then (t, t, None, False)
      else (let (d, c, kept, left, cbs, flags, force) =
                  fold (class_step r z) (cq_updates t) (cq_base t, cq_base t, [], 0, cq_callbacks t, cq_flags t, False)
            in (t, t\<lparr>cq_state := d, cq_base := if kept = [] then d else c, cq_updates := kept,
                     cq_callbacks := cbs, cq_flags := flags\<rparr>, Some left, force)))"

text \<open>\<open>commitCallbacks\<close>: the callbacks called, in order.\<close>

definition commit_callbacks :: "('v, 'k) class_queue \<Rightarrow> ('v, 'k) class_queue \<times> 'k list" where
  "commit_callbacks c = (c\<lparr>cq_callbacks := []\<rparr>, cq_callbacks c)"

definition entangle_class :: "lanes \<Rightarrow> 'z root_scheme \<Rightarrow> ('v, 'k) class_queue \<Rightarrow>
    ('v, 'k) class_queue \<times> 'z root_scheme" where
  "entangle_class n e c =
     (if n AND 4194048 \<noteq> 0
      then (let l = n OR (cq_lanes c AND pendingLanes e) in (c\<lparr>cq_lanes := l\<rparr>, mark_root_entangled l e))
      else (c, e))"

end
