(* ===== verification/React_Updates_Properties.thy ===== *)
theory React_Updates_Properties
  imports React_Updates "HOL-Library.Multiset"
begin

unbundle bit_operations_syntax

text \<open>
  What the update queues promise: however renders cut the queue up, give up and start over, the updates act on
  the state in the order they were made, each once; a render of all that waits shows the state they lead to.
  The interface both kinds of queue provide is a locale, with the history of a queue studied once.
\<close>

subsection \<open>Queues of updates\<close>

text \<open>
  \<open>meaning\<close> is the state the queue leads to, \<open>shown\<close> the state last rendered; \<open>effect\<close> is what an event is to
  do to the meaning, and \<open>complete\<close> holds of a render that leaves nothing.
\<close>

locale update_queue =
  fixes valid :: "'h \<Rightarrow> bool" and meaning :: "'h \<Rightarrow> 's" and shown :: "'h \<Rightarrow> 's"
    and sound :: "'e \<Rightarrow> bool" and step :: "'e \<Rightarrow> 'h \<Rightarrow> 'h" and effect :: "'e \<Rightarrow> 's \<Rightarrow> 's"
    and complete :: "'e \<Rightarrow> 'h \<Rightarrow> bool"
  assumes step_valid: "valid h \<Longrightarrow> sound e \<Longrightarrow> valid (step e h)"
    and step_meaning: "valid h \<Longrightarrow> sound e \<Longrightarrow> meaning (step e h) = effect e (meaning h)"
    and complete_shows: "valid h \<Longrightarrow> sound e \<Longrightarrow> complete e h \<Longrightarrow> shown (step e h) = meaning h"
begin

lemma history:
  "valid h \<Longrightarrow> list_all sound es \<Longrightarrow>
   valid (fold step es h) \<and> meaning (fold step es h) = fold effect es (meaning h)"
  by (induction es arbitrary: h) (simp_all add: step_valid step_meaning)

lemma complete_history:
  assumes "valid h" "list_all sound es" "sound e" "complete e (fold step es h)"
  shows "shown (fold step (es @ [e]) h) = fold effect es (meaning h)"
  using history [OF assms(1,2)] complete_shows assms(3,4) by simp

end

subsection \<open>Eager states\<close>

lemma lanes_or_zero: "(a :: lanes) OR b = 0 \<longleftrightarrow> a = 0 \<and> b = 0"
  by (metis or_eq_0_iff)

text \<open>
  The states computed in advance: after updates that change nothing, the first may have one that does, and
  nothing after it has one.
\<close>

definition no_eager :: "('s, 'a) hook_update list \<Rightarrow> bool" where
  "no_eager us \<longleftrightarrow> (\<forall>u\<in>set us. hu_eager u = None)"

fun eager_ok :: "('s \<Rightarrow> 'a \<Rightarrow> 's) \<Rightarrow> 's \<Rightarrow> ('s, 'a) hook_update list \<Rightarrow> bool" where
  "eager_ok n b [] = True"
| "eager_ok n b (u # us) =
     (case hu_eager u of
        None \<Rightarrow> no_eager us
      | Some x \<Rightarrow> x = n b (hu_action u) \<and> hu_revert u = 0 \<and> (if x = b then eager_ok n b us else no_eager us))"

lemma no_eager_simps [simp]:
  "no_eager []" "no_eager (u # us) \<longleftrightarrow> hu_eager u = None \<and> no_eager us"
  "no_eager (us @ vs) \<longleftrightarrow> no_eager us \<and> no_eager vs"
  by (auto simp: no_eager_def)

lemma no_eager_ok: "no_eager us \<Longrightarrow> eager_ok n b us"
  by (cases us) simp_all

lemma eager_ok_prefix: "eager_ok n b (us @ vs) \<Longrightarrow> eager_ok n b us"
  by (induction us) (auto split: option.splits if_splits)

lemma eager_ok_append_none: "eager_ok n b us \<Longrightarrow> no_eager vs \<Longrightarrow> eager_ok n b (us @ vs)"
  by (induction us) (auto simp: no_eager_ok split: option.splits if_splits)

lemma eager_ok_lane_first [simp]: "eager_ok n b (u\<lparr>hu_lane := k\<rparr> # vs) = eager_ok n b (u # vs)"
  by (cases "hu_eager u") simp_all

lemma eager_ok_lane [simp]: "eager_ok n b (us @ u\<lparr>hu_lane := k\<rparr> # vs) = eager_ok n b (us @ u # vs)"
proof (induction us arbitrary: b)
  case (Cons v us)
  show ?case by (cases "hu_eager v") (simp_all add: Cons.IH)
qed (simp only: append_Nil eager_ok_lane_first)

lemma eager_ok_at:
  "eager_ok n b (us @ u # vs) \<Longrightarrow> hu_eager u = Some x \<Longrightarrow> x = n b (hu_action u) \<and> hu_revert u = 0"
  by (induction us) (auto split: option.splits if_splits)

lemma eager_ok_before:
  "eager_ok n b (us @ u # vs) \<Longrightarrow> \<not> no_eager vs \<Longrightarrow> hu_eager u = Some b"
  by (induction us) (auto split: option.splits if_splits)

lemma eager_ok_quiet:
  "(\<forall>u\<in>set us. hu_eager u = Some b) \<Longrightarrow> eager_ok n b us \<Longrightarrow> eager_ok n b vs \<Longrightarrow> eager_ok n b (us @ vs)"
  by (induction us) simp_all

subsection \<open>The loop of a hook\<close>

text \<open>The state the lasting updates lead to.\<close>

definition reduce_hook :: "('s \<Rightarrow> 'a \<Rightarrow> 's) \<Rightarrow> 's \<Rightarrow> ('s, 'a) hook_update list \<Rightarrow> 's" where
  "reduce_hook n b us = foldl (\<lambda>e u. if hu_revert u = 0 then n e (hu_action u) else e) b us"

lemma reduce_hook_simps [simp]:
  "reduce_hook n b [] = b"
  "reduce_hook n b (u # us) = reduce_hook n (if hu_revert u = 0 then n b (hu_action u) else b) us"
  "reduce_hook n b (us @ vs) = reduce_hook n (reduce_hook n b us) vs"
  by (simp_all add: reduce_hook_def)

definition rebase_base :: "('s, 'a) rebase \<Rightarrow> 's" where
  "rebase_base x = (case x of (e, s, l, _) \<Rightarrow> if l = [] then e else s)"

fun rebase_inv :: "('s \<Rightarrow> 'a \<Rightarrow> 's) \<Rightarrow> 's \<Rightarrow> 's \<Rightarrow> ('s, 'a) hook_update list \<Rightarrow> ('s, 'a) hook_update list \<Rightarrow>
    ('s, 'a) rebase \<Rightarrow> bool" where
  "rebase_inv n b m us r (e, s, l, left, d) \<longleftrightarrow>
     (let c = rebase_base (e, s, l, left, d) in
      eager_ok n c (l @ us @ r) \<and> (\<not> no_eager (us @ r) \<longrightarrow> e = b \<and> c = b) \<and> (l \<noteq> [] \<longrightarrow> left \<noteq> 0) \<and>
      reduce_hook n c (l @ us) = m)"

lemma untaken_lane: "\<not> update_taken io z l \<Longrightarrow> shown_lane l \<noteq> 0"
  by (auto simp: update_taken_def shown_lane_def Let_def split: if_splits)

lemma rebase_step_inv:
  assumes "rebase_inv n b m (u # us) r x"
  shows "rebase_inv n b m us r (rebase_step n io z ia u x)"
proof -
  obtain e s l left d where x: "x = (e, s, l, left, d)" by (metis prod_cases5)
  define c where "c = rebase_base x"
  have ok: "eager_ok n c (l @ u # us @ r)" and same: "\<not> no_eager (u # us @ r) \<Longrightarrow> e = b \<and> c = b"
    and left: "l \<noteq> [] \<Longrightarrow> left \<noteq> 0" and mean: "reduce_hook n c (l @ u # us) = m"
    using assms by (auto simp: x c_def Let_def)
  have c: "l = [] \<Longrightarrow> c = e" "l \<noteq> [] \<Longrightarrow> c = s" by (simp_all add: c_def x rebase_base_def)
  note at = eager_ok_at [OF ok] and before = eager_ok_before [OF ok]
  have state: "hook_state_after n u e = n e (hu_action u)"
    using at same by (auto simp: hook_state_after_def split: option.split)
  have quiet: "hook_state_after n u e = b" if "\<not> no_eager (us @ r)"
    using before [OF that] same that by (auto simp: hook_state_after_def)
  have plain: "no_eager (us @ r)" if "hu_revert u \<noteq> 0" using at that by (metis before option.distinct(1) not_None_eq)
  show ?thesis
  proof (cases "update_taken io z (hu_lane u)")
    case False
    then show ?thesis using ok same mean c untaken_lane [OF False] by (auto simp: x Let_def rebase_base_def lanes_or_zero simp del: eager_ok.simps)
  next
    case taken: True
    show ?thesis
    proof (cases "hu_revert u = 0")
      case True
      show ?thesis
      proof (cases "l = []")
        case empty: True
        have "eager_ok n (n e (hu_action u)) (us @ r)"
          using ok c(1) [OF empty] empty by (auto simp: no_eager_ok split: option.splits if_splits)
        then show ?thesis using taken True empty mean c quiet state by (auto simp: x Let_def rebase_base_def)
      next
        case False
        then show ?thesis using taken True ok mean c quiet same left
          by (auto simp: x Let_def rebase_base_def simp del: eager_ok.simps)
      qed
    next
      case optimistic: False
      have none: "no_eager us" "no_eager r" using plain [OF optimistic] by simp_all
      have "eager_ok n c (l @ us @ r)"
        using eager_ok_append_none [OF eager_ok_prefix [OF ok], of "us @ r"] none by simp
      then show ?thesis using taken optimistic ok mean c left none
        by (auto simp: x Let_def rebase_base_def lanes_or_zero simp del: eager_ok.simps)
    qed
  qed
qed

lemma rebase_updates_inv:
  assumes "eager_ok n b (us @ r)"
  shows "rebase_inv n b (reduce_hook n b us) [] r (rebase_updates n io z ia b us)"
proof -
  have "rebase_inv n b m (us @ []) r x \<Longrightarrow> rebase_inv n b m [] r (fold (rebase_step n io z ia) us x)" for m x
    by (induction us arbitrary: x) (simp_all add: rebase_step_inv del: rebase_inv.simps)
  moreover have "rebase_inv n b (reduce_hook n b us) (us @ []) r (b, b, [], 0, False)"
    using assms by (simp add: rebase_base_def)
  ultimately show ?thesis by (simp add: rebase_updates_def)
qed

subsection \<open>Renders of a hook\<close>

definition queued :: "('s, 'a) hook \<Rightarrow> ('s, 'a) hook_update list" where
  "queued h = baseQueue h @ hq_pending h"

definition staged :: "('s, 'a) hook \<Rightarrow> ('s, 'a) hook_update list" where
  "staged h = map fst (hq_staged h)"

definition all_quiet :: "'s \<Rightarrow> ('s, 'a) hook_update list \<Rightarrow> bool" where
  "all_quiet b us \<longleftrightarrow> (\<forall>u\<in>set us. hu_eager u = Some b)"

lemma all_quiet_simps [simp]:
  "all_quiet b []" "all_quiet b (u # us) \<longleftrightarrow> hu_eager u = Some b \<and> all_quiet b us"
  "all_quiet b (us @ vs) \<longleftrightarrow> all_quiet b us \<and> all_quiet b vs"
  by (auto simp: all_quiet_def)

lemma rebase_quiet:
  assumes "all_quiet b us"
  shows "fst (rebase_updates n io z ia b us) = b"
proof -
  have step: "fst (rebase_step n io z ia u x) = b" if "hu_eager u = Some b" "fst x = b" for u x
    using that by (cases x) (auto simp: hook_state_after_def Let_def)
  have "fst x = b \<Longrightarrow> fst (fold (rebase_step n io z ia) us x) = b" for x
    using assms by (induction us arbitrary: x) (simp_all add: step)
  then show ?thesis by (simp add: rebase_updates_def)
qed

lemma abandoned_render:
  assumes "cur = fst (update_reducer n io z ia aa h)"
  shows "baseState cur = baseState h" "queued cur = queued h" "hq_staged cur = hq_staged h"
    "queued h = [] \<Longrightarrow> lastRenderedState cur = lastRenderedState h"
    "all_quiet (baseState h) (queued h) \<Longrightarrow> lastRenderedState h = baseState h \<Longrightarrow>
       lastRenderedState cur = baseState h"
  using assms rebase_quiet [of "baseState h" "queued h" n io z ia]
  by (auto simp: update_reducer_def queued_def Let_def split: prod.splits option.splits if_splits)

lemma finished_render:
  assumes "snd (update_reducer n io z ia aa h) = Inr (h', left, changed)"
    "eager_ok n (baseState h) (queued h @ staged h)" "queued h = [] \<longrightarrow> lastRenderedState h = baseState h"
  shows "hq_pending h' = []" "hq_staged h' = hq_staged h"
    "eager_ok n (baseState h') (baseQueue h' @ staged h)"
    "\<not> no_eager (staged h) \<Longrightarrow> baseState h' = baseState h"
    "baseQueue h' \<noteq> [] \<Longrightarrow> left \<noteq> 0"
    "baseQueue h' = [] \<Longrightarrow> lastRenderedState h' = baseState h' \<and> memoizedState h' = baseState h'"
    "reduce_hook n (baseState h') (baseQueue h') = reduce_hook n (baseState h) (queued h)"
proof -
  obtain e s l ql d where loop: "rebase_updates n io z ia (baseState h) (queued h) = (e, s, l, ql, d)"
    by (metis prod_cases5)
  have facts: "hq_pending h' = [] \<and> hq_staged h' = hq_staged h \<and>
      (queued h = [] \<longrightarrow> baseQueue h' = [] \<and> baseState h' = baseState h \<and> memoizedState h' = baseState h \<and>
         lastRenderedState h' = lastRenderedState h) \<and>
      (queued h \<noteq> [] \<longrightarrow> baseQueue h' = l \<and> baseState h' = rebase_base (e, s, l, ql, d) \<and> memoizedState h' = e \<and>
         lastRenderedState h' = e \<and> left = ql)"
    using assms(1) loop
    by (auto simp: update_reducer_def Let_def rebase_base_def queued_def [symmetric] split: option.splits if_splits)
  note inv = rebase_updates_inv [OF assms(2), of io z ia, unfolded loop]
  show "hq_pending h' = []" "hq_staged h' = hq_staged h" using facts by simp_all
  show "eager_ok n (baseState h') (baseQueue h' @ staged h)"
    "\<not> no_eager (staged h) \<Longrightarrow> baseState h' = baseState h"
    "reduce_hook n (baseState h') (baseQueue h') = reduce_hook n (baseState h) (queued h)"
    using facts inv assms(2) by (cases "queued h = []"; simp add: Let_def)+
  show "baseQueue h' \<noteq> [] \<Longrightarrow> left \<noteq> 0" using facts inv by (auto simp: Let_def)
  show "baseQueue h' = [] \<Longrightarrow> lastRenderedState h' = baseState h' \<and> memoizedState h' = baseState h'"
    using facts assms(3) by (cases "queued h = []") (auto simp: rebase_base_def)
qed

subsection \<open>The life of a hook\<close>

definition idle_fiber :: "('s, 'a) hook_fiber \<Rightarrow> bool" where
  "idle_fiber x \<longleftrightarrow> hf_lanes x = 0 \<and> (case hf_alternate x of None \<Rightarrow> True | Some l \<Rightarrow> l = 0)"

definition fiber_ok :: "('s \<Rightarrow> 'a \<Rightarrow> 's) \<Rightarrow> ('s, 'a) hook_fiber \<Rightarrow> bool" where
  "fiber_ok n x \<longleftrightarrow>
     (let h = hf_hook x; b = baseState h in
      eager_ok n b (queued h @ staged h) \<and> (queued h = [] \<longrightarrow> lastRenderedState h = b) \<and>
      (\<forall>(u, r)\<in>set (hq_staged h). r = 0 \<longrightarrow> hu_eager u = Some b) \<and>
      (idle_fiber x \<longrightarrow> lastRenderedState h = b \<and> all_quiet b (queued h @ staged h)))"

definition fiber_meaning :: "('s \<Rightarrow> 'a \<Rightarrow> 's) \<Rightarrow> ('s, 'a) hook_fiber \<Rightarrow> 's" where
  "fiber_meaning n x = reduce_hook n (baseState (hf_hook x)) (queued (hf_hook x) @ staged (hf_hook x))"

text \<open>What happens to the hook: updates by the application, the concurrent updates reaching the queue, and
  renders of lanes, with the lanes and the thenable of the action under way.\<close>

datatype ('a, 't) hook_event =
    Set_state lanes bool 'a
  | Set_optimistic lanes 'a
  | Settle_queue
  | Abandon_render lanes lanes lanes "'t option"
  | Commit_render lanes lanes lanes "'t option" lanes

fun hook_step :: "('s \<Rightarrow> 'a \<Rightarrow> 's) \<Rightarrow> ('a, 't) hook_event \<Rightarrow> ('s, 'a) hook_fiber \<Rightarrow> ('s, 'a) hook_fiber" where
  "hook_step n (Set_state r idle a) x = fiber_dispatch (\<lambda>e a. Some (n e a)) r idle a x"
| "hook_step n (Set_optimistic p a) x = mark_fiber 2 (x\<lparr>hf_hook := dispatch_optimistic p a (hf_hook x)\<rparr>)"
| "hook_step n Settle_queue x = fiber_settle x"
| "hook_step n (Abandon_render io z ia aa) x = fiber_abandon n io z ia aa x"
| "hook_step n (Commit_render io z ia aa others) x = fiber_commit n io z ia aa others x"

fun hook_effect :: "('s \<Rightarrow> 'a \<Rightarrow> 's) \<Rightarrow> ('a, 't) hook_event \<Rightarrow> 's \<Rightarrow> 's" where
  "hook_effect n (Set_state r idle a) e = n e a"
| "hook_effect n _ e = e"

fun hook_sound :: "('a, 't) hook_event \<Rightarrow> bool" where
  "hook_sound (Set_state r idle a) \<longleftrightarrow> r \<noteq> 0"
| "hook_sound (Set_optimistic p a) \<longleftrightarrow> p \<noteq> 0"
| "hook_sound _ \<longleftrightarrow> True"

text \<open>A committed render that covers all that is queued, with nothing staged and no action to wait for.\<close>

fun hook_complete :: "('a, 't) hook_event \<Rightarrow> ('s, 'a) hook_fiber \<Rightarrow> bool" where
  "hook_complete (Commit_render io z ia aa others) x \<longleftrightarrow>
     aa = None \<and> hq_staged (hf_hook x) = [] \<and>
     (\<forall>u\<in>set (queued (hf_hook x)). update_taken io z (hu_lane u) \<and> io AND hu_revert u = hu_revert u)"
| "hook_complete _ x \<longleftrightarrow> False"

lemma mark_fiber_simps [simp]:
  "hf_hook (mark_fiber r x) = hf_hook x" "fiber_meaning n (mark_fiber r x) = fiber_meaning n x"
  "idle_fiber (mark_fiber r x) \<longleftrightarrow> idle_fiber x \<and> r = 0"
  by (auto simp: mark_fiber_def fiber_meaning_def idle_fiber_def lanes_or_zero split: option.splits)

lemma mark_fibers [simp]:
  "hf_hook (fold (\<lambda>(u, r). mark_fiber r) us x) = hf_hook x"
  "idle_fiber (fold (\<lambda>(u, r). mark_fiber r) us x) \<longleftrightarrow> idle_fiber x \<and> (\<forall>(u, r)\<in>set us. r = 0)"
  by (induction us arbitrary: x) auto

lemma hook_queue_fields [simp]:
  "queued (stage_hook_update u r h) = queued h" "staged (stage_hook_update u r h) = staged h @ [u]"
  "queued (finish_hook_queueing h) = queued h @ staged h" "staged (finish_hook_queueing h) = []"
  "baseState (stage_hook_update u r h) = baseState h" "baseState (finish_hook_queueing h) = baseState h"
  "lastRenderedState (stage_hook_update u r h) = lastRenderedState h"
  "lastRenderedState (finish_hook_queueing h) = lastRenderedState h"
  "hq_staged (stage_hook_update u r h) = hq_staged h @ [(u, r)]" "hq_staged (finish_hook_queueing h) = []"
  by (simp_all add: stage_hook_update_def finish_hook_queueing_def queued_def staged_def)

lemma fiber_settle_ok:
  assumes "fiber_ok n x"
  shows "fiber_ok n (fiber_settle x)" "fiber_meaning n (fiber_settle x) = fiber_meaning n x"
proof -
  have hook: "hf_hook (fiber_settle x) = finish_hook_queueing (hf_hook x)" by (simp add: fiber_settle_def)
  have "idle_fiber (fiber_settle x) \<Longrightarrow> idle_fiber x" by (simp add: fiber_settle_def) (simp add: idle_fiber_def)
  then show "fiber_ok n (fiber_settle x)" using assms by (auto simp: fiber_ok_def hook Let_def)
  show "fiber_meaning n (fiber_settle x) = fiber_meaning n x" by (simp add: fiber_meaning_def hook)
qed

lemma fiber_abandon_ok:
  assumes "fiber_ok n x"
  shows "fiber_ok n (fiber_abandon n io z ia aa x)"
    "fiber_meaning n (fiber_abandon n io z ia aa x) = fiber_meaning n x"
proof -
  note cur = abandoned_render [OF refl, where h = "hf_hook x" and n = n and io = io and z = z and ia = ia and aa = aa]
  have "idle_fiber (fiber_abandon n io z ia aa x) = idle_fiber x" by (simp add: idle_fiber_def fiber_abandon_def)
  then show "fiber_ok n (fiber_abandon n io z ia aa x)"
    using assms cur by (auto simp: fiber_ok_def fiber_abandon_def Let_def staged_def)
  show "fiber_meaning n (fiber_abandon n io z ia aa x) = fiber_meaning n x"
    using cur by (simp add: fiber_meaning_def fiber_abandon_def staged_def)
qed

lemma fiber_commit_ok:
  assumes ok: "fiber_ok n x"
  shows "fiber_ok n (fiber_commit n io z ia aa others x)"
    "fiber_meaning n (fiber_commit n io z ia aa others x) = fiber_meaning n x"
proof -
  let ?h = "hf_hook x"
  have "fiber_ok n (fiber_commit n io z ia aa others x) \<and>
    fiber_meaning n (fiber_commit n io z ia aa others x) = fiber_meaning n x"
  proof (cases "snd (update_reducer n io z ia aa ?h)")
    case (Inl t)
    then show ?thesis by (simp add: fiber_commit_def fiber_abandon_ok [OF ok])
  next
    case (Inr y)
    obtain h left changed where y: "y = (h, left, changed)" by (metis prod_cases3)
    have q: "eager_ok n (baseState ?h) (queued ?h @ staged ?h)" "queued ?h = [] \<longrightarrow> lastRenderedState ?h = baseState ?h"
      and zero: "\<forall>(u, r)\<in>set (hq_staged ?h). r = 0 \<longrightarrow> hu_eager u = Some (baseState ?h)"
      using ok by (simp_all add: fiber_ok_def Let_def)
    note fin = finished_render [OF Inr [unfolded y] q]
    define w where "w = \<lparr>hf_hook = h, hf_lanes = left OR others, hf_alternate = Some (hf_lanes x)\<rparr>"
    have h: "queued h = baseQueue h" "staged h = staged ?h" using fin(1,2) by (simp_all add: queued_def staged_def)
    have base: "u \<in> set (staged ?h) \<Longrightarrow> hu_eager u \<noteq> None \<Longrightarrow> baseState h = baseState ?h" for u
      using fin(4) by (auto simp: no_eager_def)
    have staged: "hu_eager u = Some (baseState h)" if "(u, 0) \<in> set (hq_staged ?h)" for u
    proof -
      have "u \<in> set (staged ?h)" using that by (force simp: staged_def)
      then show ?thesis using base [of u] zero that by fastforce
    qed
    let ?v = "fold (\<lambda>(u, r). mark_fiber r) (hq_staged h) (w\<lparr>hf_hook := finish_hook_queueing h\<rparr>)"
    have v: "fiber_commit n io z ia aa others x = ?v"
      using Inr y by (simp add: fiber_commit_def w_def fiber_settle_def)
    have hook: "hf_hook ?v = finish_hook_queueing h" by simp
    have quiet: "lastRenderedState h = baseState h \<and> all_quiet (baseState h) (queued h @ staged h)"
      if "idle_fiber ?v"
    proof -
      from that have idle: "idle_fiber (w\<lparr>hf_hook := finish_hook_queueing h\<rparr>)"
        "\<forall>(u, r)\<in>set (hq_staged h). r = 0" by simp_all
      then have "left = 0" "\<forall>(u, r)\<in>set (hq_staged ?h). r = 0"
        using idle fin(2) by (auto simp: w_def) (simp add: idle_fiber_def lanes_or_zero)
      moreover from this staged have "all_quiet (baseState h) (staged ?h)"
        by (fastforce simp: all_quiet_def staged_def)
      ultimately show ?thesis using fin(5,6) h by fastforce
    qed
    have "fiber_ok n ?v" using quiet fin(3,6) h
      unfolding fiber_ok_def Let_def hook by simp
    moreover have "fiber_meaning n ?v = fiber_meaning n x"
      using fin(7) h unfolding fiber_meaning_def hook by simp
    ultimately show ?thesis unfolding v by blast
  qed
  then show "fiber_ok n (fiber_commit n io z ia aa others x)"
    "fiber_meaning n (fiber_commit n io z ia aa others x) = fiber_meaning n x" by simp_all
qed

lemma eager_ok_append_quiet:
  assumes "all_quiet b us" "eager_ok n b us" "hu_revert u = 0" "hu_eager u = Some (n b (hu_action u))"
  shows "eager_ok n b (us @ [u])"
  by (rule eager_ok_quiet) (use assms in \<open>simp_all add: all_quiet_def\<close>)

lemma fiber_stage_ok:
  assumes ok: "fiber_ok n x"
    and eager: "eager_ok n (baseState (hf_hook x)) ((queued (hf_hook x) @ staged (hf_hook x)) @ [u])"
    and zero: "r = 0 \<Longrightarrow> hu_eager u = Some (baseState (hf_hook x))"
    and v: "v = mark_fiber r (x\<lparr>hf_hook := stage_hook_update u r (hf_hook x)\<rparr>)"
  shows "fiber_ok n v"
    "fiber_meaning n v = (if hu_revert u = 0 then n (fiber_meaning n x) (hu_action u) else fiber_meaning n x)"
proof -
  have hook: "hf_hook v = stage_hook_update u r (hf_hook x)" by (simp add: v)
  have idle: "idle_fiber v \<Longrightarrow> idle_fiber x \<and> r = 0" by (auto simp: v) (auto simp: idle_fiber_def)
  show "fiber_ok n v" using ok eager zero idle by (auto simp: fiber_ok_def Let_def hook)
  show "fiber_meaning n v = (if hu_revert u = 0 then n (fiber_meaning n x) (hu_action u) else fiber_meaning n x)"
    by (simp add: fiber_meaning_def hook)
qed

lemma fiber_finish_ok:
  assumes "fiber_ok n x"
  shows "fiber_ok n (x\<lparr>hf_hook := finish_hook_queueing (hf_hook x)\<rparr>)"
    "fiber_meaning n (x\<lparr>hf_hook := finish_hook_queueing (hf_hook x)\<rparr>) = fiber_meaning n x"
  using assms by (auto simp: fiber_ok_def fiber_meaning_def Let_def idle_fiber_def)

lemma fiber_dispatch_eq:
  fixes x :: "('s, 'a) hook_fiber"
  defines "h \<equiv> hf_hook x"
  assumes "v = fiber_dispatch (\<lambda>e a. Some (n e a)) r idle a x"
    and "u = \<lparr>hu_lane = r, hu_revert = 0, hu_action = a, hu_eager = None\<rparr>"
    and "s = n (lastRenderedState h) a" and "u' = u\<lparr>hu_eager := Some s\<rparr>"
  shows "\<not> idle_fiber x \<Longrightarrow> v = mark_fiber r (x\<lparr>hf_hook := stage_hook_update u r h\<rparr>)"
    and "idle_fiber x \<Longrightarrow> s \<noteq> lastRenderedState h \<Longrightarrow> v = mark_fiber r (x\<lparr>hf_hook := stage_hook_update u' r h\<rparr>)"
    and "idle_fiber x \<Longrightarrow> s = lastRenderedState h \<Longrightarrow>
      v = (let y = mark_fiber 0 (x\<lparr>hf_hook := stage_hook_update u' 0 h\<rparr>)
           in if idle then y\<lparr>hf_hook := finish_hook_queueing (hf_hook y)\<rparr> else y)"
  using assms by (simp_all add: fiber_dispatch_def dispatch_set_state_def idle_fiber_def [symmetric] Let_def)
    (simp_all add: mark_fiber_def)

lemma fiber_dispatch_ok:
  fixes x :: "('s, 'a) hook_fiber"
  assumes ok: "fiber_ok n x" and r: "r \<noteq> 0"
  shows "fiber_ok n (fiber_dispatch (\<lambda>e a. Some (n e a)) r idle a x)"
    "fiber_meaning n (fiber_dispatch (\<lambda>e a. Some (n e a)) r idle a x) = n (fiber_meaning n x) a"
proof -
  let ?h = "hf_hook x" and ?d = "fiber_dispatch (\<lambda>e a. Some (n e a)) r idle a x"
  define b where "b = baseState ?h"
  define u :: "('s, 'a) hook_update"
    where "u = \<lparr>hu_lane = r, hu_revert = 0, hu_action = a, hu_eager = None\<rparr>"
  define u' where "u' = u\<lparr>hu_eager := Some (n (lastRenderedState ?h) a)\<rparr>"
  have eq: "eager_ok n b (queued ?h @ staged ?h)" using ok by (simp add: fiber_ok_def Let_def b_def)
  define v where "v = ?d"
  define t where "t = n (lastRenderedState ?h) a"
  note eqs = fiber_dispatch_eq [OF v_def u_def t_def u'_def [folded t_def], unfolded t_def v_def]
  have "fiber_ok n ?d \<and> fiber_meaning n ?d = n (fiber_meaning n x) a"
  proof (cases "idle_fiber x")
    case True
    then have quiet: "lastRenderedState ?h = b" "all_quiet b (queued ?h @ staged ?h)"
      using ok by (simp_all add: fiber_ok_def Let_def b_def)
    have eager: "eager_ok n b ((queued ?h @ staged ?h) @ [u'])"
      by (rule eager_ok_append_quiet [OF quiet(2) eq]) (simp_all add: u'_def u_def quiet(1))
    show ?thesis
    proof (cases "n b a = b")
      case same: True
      define y where "y = mark_fiber 0 (x\<lparr>hf_hook := stage_hook_update u' 0 ?h\<rparr>)"
      have y: "fiber_ok n y" "fiber_meaning n y = n (fiber_meaning n x) a"
        using fiber_stage_ok [OF ok eager [unfolded b_def] _ y_def] same
        by (simp_all add: u'_def u_def quiet(1)) (simp_all add: b_def)
      have "?d = (if idle then y\<lparr>hf_hook := finish_hook_queueing (hf_hook y)\<rparr> else y)"
        using eqs(3) [OF True] same quiet(1) by (simp add: y_def Let_def)
      then show ?thesis using y fiber_finish_ok [OF y(1)] by simp
    next
      case False
      then show ?thesis
        using fiber_stage_ok [OF ok eager [unfolded b_def] _ eqs(2) [OF True]] quiet(1) r
        by (simp add: u'_def u_def)
    qed
  next
    case False
    have "eager_ok n b ((queued ?h @ staged ?h) @ [u])"
      by (rule eager_ok_append_none [OF eq]) (simp add: u_def)
    then show ?thesis using fiber_stage_ok [OF ok _ _ eqs(1) [OF False]] r by (simp add: u_def b_def)
  qed
  then show "fiber_ok n ?d" "fiber_meaning n ?d = n (fiber_meaning n x) a" by simp_all
qed

lemma hook_step_ok:
  assumes "fiber_ok n x" "hook_sound e"
  shows "fiber_ok n (hook_step n e x)" "fiber_meaning n (hook_step n e x) = hook_effect n e (fiber_meaning n x)"
proof -
  have "fiber_ok n (hook_step n e x) \<and> fiber_meaning n (hook_step n e x) = hook_effect n e (fiber_meaning n x)"
  proof (cases e)
    case (Set_optimistic p a)
    let ?u = "\<lparr>hu_lane = 2, hu_revert = p, hu_action = a, hu_eager = None\<rparr>"
    have "eager_ok n (baseState (hf_hook x)) ((queued (hf_hook x) @ staged (hf_hook x)) @ [?u])"
      by (rule eager_ok_append_none) (use assms(1) in \<open>simp_all add: fiber_ok_def Let_def\<close>)
    from fiber_stage_ok [OF assms(1) this _ refl, of 2] show ?thesis
      using Set_optimistic assms(2) by (simp add: dispatch_optimistic_def)
  qed (use assms in \<open>simp_all add: fiber_dispatch_ok fiber_settle_ok fiber_abandon_ok fiber_commit_ok\<close>)
  then show "fiber_ok n (hook_step n e x)"
    "fiber_meaning n (hook_step n e x) = hook_effect n e (fiber_meaning n x)" by simp_all
qed

lemma rebase_covered:
  assumes "\<forall>u\<in>set us. update_taken io z (hu_lane u) \<and> io AND hu_revert u = hu_revert u"
  shows "fst (snd (snd (rebase_updates n io z ia b us))) = []"
proof -
  have step: "fst (snd (snd (rebase_step n io z ia u x))) = []"
    if "u \<in> set us" "fst (snd (snd x)) = []" for u x
    using that assms by (cases x) (auto simp: Let_def)
  have "set vs \<subseteq> set us \<Longrightarrow> fst (snd (snd x)) = [] \<Longrightarrow> fst (snd (snd (fold (rebase_step n io z ia) vs x))) = []" for vs x
    by (induction vs arbitrary: x) (simp_all add: step)
  then show ?thesis by (simp add: rebase_updates_def)
qed

lemma no_action_finishes:
  assumes "aa = None"
  shows "\<exists>h' left changed. snd (update_reducer n io z ia aa h) = Inr (h', left, changed)"
  using assms by (auto simp: update_reducer_def Let_def split: prod.splits)

lemma hook_complete_shows:
  assumes ok: "fiber_ok n x" and "hook_complete e x"
  shows "memoizedState (hf_hook (hook_step n e x)) = fiber_meaning n x"
proof -
  obtain io z ia aa others where e: "e = Commit_render io z ia aa others" "aa = None" and staged: "staged (hf_hook x) = []"
    and all: "\<forall>u\<in>set (queued (hf_hook x)). update_taken io z (hu_lane u) \<and> io AND hu_revert u = hu_revert u"
    using assms(2) by (cases e) (auto simp: staged_def)
  let ?h = "hf_hook x"
  obtain h left changed where out: "snd (update_reducer n io z ia aa ?h) = Inr (h, left, changed)"
    using no_action_finishes [OF e(2)] by blast
  have q: "eager_ok n (baseState ?h) (queued ?h @ staged ?h)" "queued ?h = [] \<longrightarrow> lastRenderedState ?h = baseState ?h"
    using ok by (simp_all add: fiber_ok_def Let_def)
  note fin = finished_render [OF out q]
  have "baseQueue h = []"
    using out e(2) rebase_covered [OF all, of n ia "baseState ?h"]
    by (auto simp: update_reducer_def queued_def Let_def split: prod.splits if_splits)
  then have "memoizedState h = fiber_meaning n x"
    using fin(6,7) staged by (simp add: fiber_meaning_def)
  then show ?thesis using out by (simp add: e fiber_commit_def fiber_settle_def finish_hook_queueing_def)
qed

interpretation hook_queue:
  update_queue "fiber_ok n" "fiber_meaning n" "\<lambda>x. memoizedState (hf_hook x)" hook_sound "hook_step n"
    "hook_effect n" hook_complete for n :: "'s \<Rightarrow> 'a \<Rightarrow> 's"
  by unfold_locales (simp_all add: hook_step_ok hook_complete_shows)

lemma mount_fiber_ok: "fiber_ok n (mount_fiber e)" "fiber_meaning n (mount_fiber e) = e"
  by (simp_all add: fiber_ok_def fiber_meaning_def mount_fiber_def mount_state_def queued_def staged_def)

text \<open>The actions of the lasting updates of a history.\<close>

fun hook_actions :: "('a, 't) hook_event list \<Rightarrow> 'a list" where
  "hook_actions [] = []"
| "hook_actions (Set_state r idle a # es) = a # hook_actions es"
| "hook_actions (_ # es) = hook_actions es"

lemma hook_effects: "fold (hook_effect n) es e = foldl n e (hook_actions es)"
  by (induction es arbitrary: e rule: hook_actions.induct) simp_all

text \<open>C16: A state hook is as good as its updates. Take any history of a hook: updates of any lanes, some with
  their state computed in advance, some dropped at once because they change nothing, optimistic updates,
  and renders of any lanes, given up or committed, while updates are still on their way to the queue. When a
  committed render covers all that is queued, the state it shows is the initial state with the actions of
  all the updates applied in the order they were made, the optimistic ones left out.\<close>

theorem state_hook_reduces:
  assumes "list_all hook_sound es" "hook_complete e (fold (hook_step n) es (mount_fiber s))" "hook_sound e"
  shows "memoizedState (hf_hook (fold (hook_step n) (es @ [e]) (mount_fiber s))) = foldl n s (hook_actions es)"
  using hook_queue.complete_history [OF mount_fiber_ok(1) assms(1,3,2)]
  by (simp only: mount_fiber_ok(2) hook_effects)

text \<open>A late synchronous update is rendered before an earlier one of the default lane, and after both are
  rendered the order is restored.\<close>

theorem state_hook_reduces_witness:
  "memoizedState (hf_hook (fold (hook_step (\<lambda>e (a :: int). 10 * e + a))
     ([Set_state 32 True 1, Settle_queue, Set_state 2 True 5, Settle_queue, Commit_render 2 2 0 (None :: nat option) 0] @
      [Commit_render 34 34 0 None 0]) (mount_fiber 0))) = 15"
  by (subst state_hook_reduces)
    (simp_all add: mount_fiber_def mount_state_def fiber_dispatch_def dispatch_set_state_def stage_hook_update_def
      mark_fiber_def fiber_settle_def finish_hook_queueing_def fiber_commit_def update_reducer_def rebase_updates_def
      update_taken_def shown_lane_def hook_state_after_def queued_def Let_def)

subsection \<open>What one render of a hook shows\<close>

lemma rebase_state:
  assumes "rebase_inv n b m (u # us) r (e, s, l, left, d)"
  shows "hook_state_after n u e = n e (hu_action u)"
proof -
  let ?c = "rebase_base (e, s, l, left, d)"
  have "eager_ok n ?c (l @ u # us @ r)" "hu_eager u \<noteq> None \<Longrightarrow> e = ?c"
    using assms by (auto simp: Let_def)
  then show ?thesis using eager_ok_at [of n ?c l u "us @ r"]
    by (cases "hu_eager u") (simp_all add: hook_state_after_def)
qed

definition chosen :: "lanes \<Rightarrow> lanes \<Rightarrow> ('s, 'a) hook_update \<Rightarrow> bool" where
  "chosen io z u \<longleftrightarrow> update_taken io z (hu_lane u) \<and> (hu_revert u = 0 \<or> io AND hu_revert u \<noteq> hu_revert u)"

lemma rebase_shows:
  assumes "eager_ok n b us"
  shows "fst (rebase_updates n io z ia b us) = foldl n b (map hu_action (filter (chosen io z) us))"
proof -
  have "rebase_inv n b m vs [] x \<Longrightarrow>
    fst (fold (rebase_step n io z ia) vs x) = foldl n (fst x) (map hu_action (filter (chosen io z) vs))" for m vs x
  proof (induction vs arbitrary: x)
    case (Cons u vs)
    obtain e s l left d where x: "x = (e, s, l, left, d)" by (metis prod_cases5)
    have "fst (rebase_step n io z ia u x) = (if chosen io z u then n e (hu_action u) else e)"
      using rebase_state [OF Cons.prems [unfolded x]] by (auto simp: x chosen_def Let_def)
    then show ?case using Cons.IH [OF rebase_step_inv [OF Cons.prems]] by (simp add: x del: rebase_inv.simps)
  qed simp
  moreover have "rebase_inv n b (reduce_hook n b us) us [] (b, b, [], 0, False)"
    using assms by (simp add: rebase_base_def)
  ultimately show ?thesis by (simp add: rebase_updates_def del: rebase_inv.simps)
qed

text \<open>A render shows the base state with exactly the updates of its lanes applied to it, in the order they
  were made: the optimistic ones are shown until the transition they stand for is rendered itself. This
  holds in whatever state the history of the hook has led to, so states computed in advance are used only
  where computing them again would give the same. Giving the render up loses no update: the hook then has
  the same updates to apply to the same base state.\<close>

theorem render_shows_chosen:
  assumes "list_all hook_sound es" "x = fold (hook_step n) es (mount_fiber s)" "h = hf_hook x"
    "update_reducer n io z ia aa h = (cur, Inr (h', left, changed))"
  shows "memoizedState h' =
      foldl n (baseState h) (map hu_action (filter (chosen io z) (baseQueue h @ hq_pending h))) \<and>
    baseState cur = baseState h \<and> baseQueue cur @ hq_pending cur = baseQueue h @ hq_pending h"
proof -
  have "fiber_ok n x" using hook_queue.history [OF mount_fiber_ok(1) assms(1), of n s] by (simp add: assms(2))
  then have "eager_ok n (baseState h) (queued h)"
    using eager_ok_prefix by (auto simp: fiber_ok_def Let_def assms(3))
  from rebase_shows [OF this, of io z ia]
  have "memoizedState h' = foldl n (baseState h) (map hu_action (filter (chosen io z) (queued h)))"
    using assms(4) by (auto simp: update_reducer_def Let_def queued_def split: prod.splits option.splits if_splits)
  then show ?thesis
    using abandoned_render(1,2) [of cur n io z ia aa h] assms(4) by (simp add: queued_def)
qed

text \<open>Of two updates the first is rendered alone.\<close>

theorem render_shows_chosen_witness:
  "\<exists>cur h' left changed. update_reducer (\<lambda>e (a :: int). 10 * e + a) 2 2 0 (None :: nat option)
     (hf_hook (fold (hook_step (\<lambda>e a. 10 * e + a)) [Set_state 32 True 1, Settle_queue, Set_state 2 True 5,
        Settle_queue :: (int, nat) hook_event] (mount_fiber 0))) = (cur, Inr (h', left, changed)) \<and>
     memoizedState h' = 5"
proof -
  let ?n = "\<lambda>e (a :: int). 10 * e + a"
  let ?es = "[Set_state 32 True 1, Settle_queue, Set_state 2 True 5, Settle_queue :: (int, nat) hook_event]"
  let ?x = "fold (hook_step ?n) ?es (mount_fiber 0)"
  obtain cur h' left changed where
    run: "update_reducer ?n 2 2 0 (None :: nat option) (hf_hook ?x) = (cur, Inr (h', left, changed))"
    using no_action_finishes [OF refl] by (metis prod.exhaust_sel)
  have "list_all hook_sound ?es" by simp
  from render_shows_chosen [OF this refl refl run]
  have "memoizedState h' = foldl ?n (baseState (hf_hook ?x))
      (map hu_action (filter (chosen 2 2) (baseQueue (hf_hook ?x) @ hq_pending (hf_hook ?x))))" by blast
  also have "\<dots> = 5"
    by (simp add: mount_fiber_def mount_state_def fiber_dispatch_def dispatch_set_state_def stage_hook_update_def
        mark_fiber_def fiber_settle_def finish_hook_queueing_def chosen_def update_taken_def Let_def)
  finally show ?thesis using run by blast
qed

subsection \<open>Class queues\<close>

definition reduce_class :: "'v object \<Rightarrow> ('v, 'k) class_update list \<Rightarrow> 'v object" where
  "reduce_class d us = foldl (\<lambda>d u. state_from_update u d) d us"

lemma reduce_class_simps [simp]:
  "reduce_class d [] = d" "reduce_class d (u # us) = reduce_class (state_from_update u d) us"
  "reduce_class d (us @ vs) = reduce_class (reduce_class d us) vs"
  by (simp_all add: reduce_class_def)

lemma state_from_clone [simp]:
  "state_from_update (u\<lparr>cu_lane := r\<rparr>) = state_from_update u"
  "state_from_update (u\<lparr>cu_lane := r, cu_callback := k\<rparr>) = state_from_update u"
  by (simp_all add: state_from_update_def fun_eq_iff split: update_tag.split)

definition callbacks_of :: "('v, 'k) class_update list \<Rightarrow> 'k multiset" where
  "callbacks_of us = mset (List.map_filter cu_callback us)"

lemma callbacks_of_simps [simp]:
  "callbacks_of [] = {#}"
  "callbacks_of (u # us) = (case cu_callback u of None \<Rightarrow> {#} | Some k \<Rightarrow> {#k#}) + callbacks_of us"
  "callbacks_of (us @ vs) = callbacks_of us + callbacks_of vs"
  by (simp_all add: callbacks_of_def List.map_filter_def split: option.split)

fun class_inv :: "'v object \<Rightarrow> 'k multiset \<Rightarrow> ('v, 'k) class_update list \<Rightarrow> ('v, 'k) class_rebase \<Rightarrow> bool" where
  "class_inv m k us (d, c, kept, left, cbs, flags, force) \<longleftrightarrow>
     reduce_class (if kept = [] then d else c) (kept @ us) = m \<and>
     mset cbs + callbacks_of (kept @ us) = k \<and> (kept \<noteq> [] \<longrightarrow> left \<noteq> 0)"

lemma class_step_inv: "class_inv m k (u # us) x \<Longrightarrow> class_inv m k us (class_step r z u x)"
  by (cases x) (auto simp: Let_def lanes_or_zero dest: untaken_lane split: option.splits)

lemma class_loop_inv: "class_inv m k us x \<Longrightarrow> class_inv m k [] (fold (class_step r z) us x)"
  by (induction us arbitrary: x) (simp_all add: class_step_inv del: class_inv.simps)

definition class_waiting :: "('v, 'k) class_queue \<Rightarrow> ('v, 'k) class_update list" where
  "class_waiting q = cq_updates q @ cq_pending q"

lemma process_facts:
  assumes "process_update_queue r z q = (cur, q', left, force)"
  shows "cq_base cur = cq_base q" "class_waiting cur = class_waiting q" "cq_staged cur = cq_staged q"
    "cq_callbacks cur = cq_callbacks q" "cq_pending q' = []" "cq_staged q' = cq_staged q"
    "reduce_class (cq_base q') (class_waiting q') = reduce_class (cq_base q) (class_waiting q)"
    "mset (cq_callbacks q') + callbacks_of (class_waiting q') =
       mset (cq_callbacks q) + callbacks_of (class_waiting q)"
    "class_waiting q \<noteq> [] \<Longrightarrow> cq_updates q' = [] \<Longrightarrow> cq_state q' = cq_base q'"
proof -
  let ?b = "cq_base q" and ?us = "class_waiting q"
  define x where "x = fold (class_step r z) ?us (?b, ?b, [], 0, cq_callbacks q, cq_flags q, False)"
  obtain d c kept l cbs flags f where loop: "x = (d, c, kept, l, cbs, flags, f)" by (metis prod_cases7)
  have "class_inv (reduce_class ?b ?us) (mset (cq_callbacks q) + callbacks_of ?us) []
      (fold (class_step r z) ?us (?b, ?b, [], 0, cq_callbacks q, cq_flags q, False))"
    by (rule class_loop_inv) simp
  from this [folded x_def, unfolded loop] show "reduce_class (cq_base q') (class_waiting q') = reduce_class ?b ?us"
    "mset (cq_callbacks q') + callbacks_of (class_waiting q') = mset (cq_callbacks q) + callbacks_of ?us"
    using assms loop unfolding x_def
    by (auto simp: process_update_queue_def class_waiting_def Let_def split: if_splits)
  show "cq_base cur = cq_base q" "class_waiting cur = class_waiting q" "cq_staged cur = cq_staged q"
    "cq_callbacks cur = cq_callbacks q" "cq_pending q' = []" "cq_staged q' = cq_staged q"
    "?us \<noteq> [] \<Longrightarrow> cq_updates q' = [] \<Longrightarrow> cq_state q' = cq_base q'"
    using assms loop unfolding x_def
    by (auto simp: process_update_queue_def class_waiting_def Let_def split: if_splits)
qed

text \<open>A class component, or a root, with the callbacks called so far.\<close>

record ('v, 'k) class_fiber =
  cf_queue :: "('v, 'k) class_queue"
  cf_called :: "'k list"

datatype ('v, 'k) class_event =
    Enqueue "('v, 'k) class_update"
  | Settle_class
  | Abandon_class lanes lanes
  | Commit_class lanes lanes

fun class_event_step :: "('v, 'k) class_event \<Rightarrow> ('v, 'k) class_fiber \<Rightarrow> ('v, 'k) class_fiber" where
  "class_event_step (Enqueue u) x = x\<lparr>cf_queue := enqueue_update False u (cf_queue x)\<rparr>"
| "class_event_step Settle_class x = x\<lparr>cf_queue := finish_class_queueing (cf_queue x)\<rparr>"
| "class_event_step (Abandon_class r z) x = x\<lparr>cf_queue := fst (process_update_queue r z (cf_queue x))\<rparr>"
| "class_event_step (Commit_class r z) x =
     (let (q, called) = commit_callbacks (fst (snd (process_update_queue r z (cf_queue x))))
      in x\<lparr>cf_queue := q, cf_called := cf_called x @ called\<rparr>)"

type_synonym ('v, 'k) class_outcome = "'v object \<times> 'k multiset"

definition class_meaning :: "('v, 'k) class_fiber \<Rightarrow> ('v, 'k) class_outcome" where
  "class_meaning x =
     (let q = cf_queue x; us = class_waiting q @ cq_staged q
      in (reduce_class (cq_base q) us, mset (cf_called x) + mset (cq_callbacks q) + callbacks_of us))"

fun class_effect :: "('v, 'k) class_event \<Rightarrow> ('v, 'k) class_outcome \<Rightarrow> ('v, 'k) class_outcome" where
  "class_effect (Enqueue u) (d, k) = (state_from_update u d, k + callbacks_of [u])"
| "class_effect _ x = x"

definition class_ok :: "('v, 'k) class_fiber \<Rightarrow> bool" where
  "class_ok x \<longleftrightarrow> cq_callbacks (cf_queue x) = [] \<and>
     (class_waiting (cf_queue x) = [] \<longrightarrow> cq_state (cf_queue x) = cq_base (cf_queue x))"

fun class_complete :: "('v, 'k) class_event \<Rightarrow> ('v, 'k) class_fiber \<Rightarrow> bool" where
  "class_complete (Commit_class r z) x \<longleftrightarrow>
     cq_staged (cf_queue x) = [] \<and> (\<forall>u\<in>set (class_waiting (cf_queue x)). update_taken r z (cu_lane u))"
| "class_complete _ x \<longleftrightarrow> False"

definition class_shown :: "('v, 'k) class_fiber \<Rightarrow> ('v, 'k) class_outcome" where
  "class_shown x = (cq_state (cf_queue x), mset (cf_called x))"

lemma class_event_ok:
  assumes "class_ok x"
  shows "class_ok (class_event_step e x)" "class_meaning (class_event_step e x) = class_effect e (class_meaning x)"
proof -
  have "class_ok (class_event_step e x) \<and> class_meaning (class_event_step e x) = class_effect e (class_meaning x)"
  proof (cases e)
    case (Abandon_class r z)
    obtain cur q' left force where run: "process_update_queue r z (cf_queue x) = (cur, q', left, force)"
      by (metis prod_cases4)
    have "class_waiting (cf_queue x) = [] \<Longrightarrow> cq_state cur = cq_state (cf_queue x)"
      using run by (auto simp: process_update_queue_def class_waiting_def Let_def)
    then show ?thesis using process_facts(1-4) [OF run] assms run Abandon_class
      by (simp add: class_ok_def class_meaning_def Let_def)
  next
    case (Commit_class r z)
    obtain cur q' left force where run: "process_update_queue r z (cf_queue x) = (cur, q', left, force)"
      by (metis prod_cases4)
    note facts = process_facts(5-9) [OF run]
    have "class_waiting (cf_queue x) = [] \<Longrightarrow> cq_state q' = cq_state (cf_queue x) \<and> cq_base q' = cq_base (cf_queue x)"
      using run by (auto simp: process_update_queue_def class_waiting_def Let_def)
    moreover have "class_waiting q' = cq_updates q'" using facts(1) by (simp add: class_waiting_def)
    ultimately have "class_waiting q' = [] \<longrightarrow> cq_state q' = cq_base q'" using facts(5) assms
      by (cases "class_waiting (cf_queue x) = []") (simp_all add: class_ok_def)
    moreover have "class_waiting (q'\<lparr>cq_callbacks := []\<rparr>) = class_waiting q'" by (simp add: class_waiting_def)
    ultimately show ?thesis using facts(2-4) assms run Commit_class
      by (simp add: class_ok_def class_meaning_def Let_def commit_callbacks_def)
  qed (use assms in \<open>simp_all add: class_ok_def class_meaning_def class_waiting_def enqueue_update_def
      finish_class_queueing_def Let_def\<close>)
  then show "class_ok (class_event_step e x)"
    "class_meaning (class_event_step e x) = class_effect e (class_meaning x)" by simp_all
qed

lemma class_covered:
  assumes "\<forall>u\<in>set us. update_taken r z (cu_lane u)"
  shows "fst (snd (snd (fold (class_step r z) us (d, c, [], left, cbs, flags, f)))) = []"
  using assms by (induction us arbitrary: d left cbs flags f) (simp_all add: Let_def)

lemma class_complete_shows:
  assumes "class_ok x" "class_complete e x"
  shows "class_shown (class_event_step e x) = class_meaning x"
proof -
  obtain r z where e: "e = Commit_class r z" and all: "\<forall>u\<in>set (class_waiting (cf_queue x)). update_taken r z (cu_lane u)"
    and staged: "cq_staged (cf_queue x) = []" using assms(2) by (cases e) auto
  obtain cur q' left force where run: "process_update_queue r z (cf_queue x) = (cur, q', left, force)"
    by (metis prod_cases4)
  let ?q = "cf_queue x"
  obtain d c kept l cbs flags f where
    loop: "fold (class_step r z) (class_waiting ?q) (cq_base ?q, cq_base ?q, [], 0, cq_callbacks ?q, cq_flags ?q, False)
      = (d, c, kept, l, cbs, flags, f)" by (metis prod_cases7)
  then have "kept = []" using class_covered [OF all] by (metis fst_conv snd_conv)
  with loop run have empty: "cq_updates q' = []" and none: "class_waiting (cf_queue x) = [] \<Longrightarrow>
      cq_state q' = cq_state (cf_queue x) \<and> cq_base q' = cq_base (cf_queue x)"
    by (auto simp: process_update_queue_def class_waiting_def Let_def split: if_splits)
  have "cq_state q' = cq_base q'"
    using process_facts(9) [OF run] empty none assms(1) by (cases "class_waiting (cf_queue x) = []") (auto simp: class_ok_def)
  then show ?thesis using process_facts(5-8) [OF run] empty run staged assms(1)
    by (simp add: e class_shown_def class_meaning_def commit_callbacks_def class_waiting_def class_ok_def Let_def)
qed

interpretation classes:
  update_queue class_ok class_meaning class_shown "\<lambda>_. True" class_event_step class_effect class_complete
  by unfold_locales (simp_all add: class_event_ok class_complete_shows)

fun enqueued :: "('v, 'k) class_event list \<Rightarrow> ('v, 'k) class_update list" where
  "enqueued [] = []"
| "enqueued (Enqueue u # es) = u # enqueued es"
| "enqueued (_ # es) = enqueued es"

lemma class_effects: "fold class_effect es (d, k) = (reduce_class d (enqueued es), k + callbacks_of (enqueued es))"
  by (induction es arbitrary: d k rule: enqueued.induct) simp_all

definition mount_class :: "'v object \<Rightarrow> ('v, 'k) class_fiber" where
  "mount_class s = \<lparr>cf_queue = initialize_queue s, cf_called = []\<rparr>"

lemma mount_class_ok: "class_ok (mount_class s)" "class_meaning (mount_class s) = (s, {#})"
  by (simp_all add: class_ok_def class_meaning_def mount_class_def initialize_queue_def class_waiting_def)

text \<open>C17: The queue of a class or a root promises the same, and calls back. Whatever renders are given up or
  committed in between, a committed render that covers all that is queued shows the initial state with all
  updates applied in the order they were made, partial states merged and whole ones put in place; and by then
  the callback of every update has been called exactly once.\<close>

theorem class_queue_reduces:
  assumes "class_complete e (fold class_event_step es (mount_class s))"
    "x = fold class_event_step (es @ [e]) (mount_class s)"
  shows "cq_state (cf_queue x) = foldl (\<lambda>d u. state_from_update u d) s (enqueued es) \<and>
    mset (cf_called x) = mset (List.map_filter cu_callback (enqueued es))"
proof -
  have "class_shown x = (reduce_class s (enqueued es), callbacks_of (enqueued es))"
    using classes.complete_history [OF mount_class_ok(1) _ _ assms(1)] assms(2)
    by (simp add: mount_class_ok(2) class_effects list.pred_True)
  then show ?thesis by (simp add: class_shown_def reduce_class_def callbacks_of_def)
qed

theorem class_queue_reduces_witness:
  "cf_called (fold class_event_step ([Enqueue ((create_update 2)\<lparr>cu_callback := Some (7 :: nat)\<rparr>), Settle_class] @
     [Commit_class 2 2]) (mount_class (None :: nat object))) = [7]"
  using class_queue_reduces [of "Commit_class 2 2"
      "[Enqueue ((create_update 2)\<lparr>cu_callback := Some (7 :: nat)\<rparr>), Settle_class]" "None :: nat object"]
  by (simp add: mount_class_def initialize_queue_def create_update_def enqueue_update_def finish_class_queueing_def
      class_waiting_def update_taken_def Let_def List.map_filter_def)

end
