(* ===== verification/React_Children.thy ===== *)
theory React_Children
  imports Complex_Main "HOL-Library.Word" "HOL-Library.AList"
begin

unbundle bit_operations_syntax

text \<open>
  How the console's React renderer matches the children a component returns with the children it had,
  \<open>ReactChildFiber\<close> as bundled into \<open>app.js\<close> (\<open>ka\<close>), and how the commit moves the nodes of the page
  (\<open>getHostSibling\<close>, \<open>insertOrAppendPlacementNode\<close>). Lists of siblings are lists; of a fiber its kind, key, index,
  flags, pending props and alternate are modelled, not its lanes, refs and pointers to parents.
\<close>

subsection \<open>Children and fibers\<close>

text \<open>
  What a component may return. \<open>Text\<close> is a string that is not empty, or a number written out; \<open>Nothing\<close> is null,
  undefined, a boolean, the empty string or a function; \<open>Fragment\<close> is an element of the fragment type with the
  children in its props; \<open>Many\<close> is an array or another iterable; \<open>Deferred\<close> is a lazy node, a thenable or a
  context, with the node it stands for or nothing when it suspends; any other object is \<open>Not_a_child\<close>.
\<close>

datatype ('ty, 'p) node =
    Nothing
  | Text string
  | Element "string option" 'ty 'p
  | Fragment "string option" "('ty, 'p) node"
  | Portal "string option" nat nat "('ty, 'p) node"
  | Many "('ty, 'p) node list"
  | Deferred "('ty, 'p) node option"
  | Not_a_child

text \<open>The kind of a fiber: of an element \<open>elementType\<close> and \<open>type\<close>, which a lazy type lacks until it is loaded;
  of a portal its container and implementation.\<close>

datatype 'ty fiber_kind =
    Text_kind
  | Fragment_kind
  | Portal_kind nat nat
  | Type_kind 'ty "'ty option"

datatype ('ty, 'p) pending_props =
    Text_props string
  | Element_props 'p
  | Child_props "('ty, 'p) node"

record 'ty current_child =
  cc_id :: nat
  cc_kind :: "'ty fiber_kind"
  cc_key :: "string option"
  cc_index :: nat
  cc_flags :: "32 word"

record ('ty, 'p) work_child =
  wc_kind :: "'ty fiber_kind"
  wc_key :: "string option"
  wc_props :: "('ty, 'p) pending_props"
  wc_index :: nat
  wc_flags :: "32 word"
  wc_alternate :: "'ty current_child option"

text \<open>\<open>useFiber\<close>, and the constructors of fibers.\<close>

definition use_fiber :: "'ty current_child \<Rightarrow> ('ty, 'p) pending_props \<Rightarrow> ('ty, 'p) work_child" where
  "use_fiber e t =
     \<lparr>wc_kind = cc_kind e, wc_key = cc_key e, wc_props = t, wc_index = 0, wc_flags = cc_flags e AND 65011712,
      wc_alternate = Some e\<rparr>"

definition new_child :: "'ty fiber_kind \<Rightarrow> string option \<Rightarrow> ('ty, 'p) pending_props \<Rightarrow> ('ty, 'p) work_child" where
  "new_child kind key t =
     \<lparr>wc_kind = kind, wc_key = key, wc_props = t, wc_index = 0, wc_flags = 0, wc_alternate = None\<rparr>"

text \<open>\<open>resolve\<close>: the type a lazy type stands for; nothing for types that are not lazy.\<close>

definition element_child :: "('ty \<Rightarrow> 'ty option) \<Rightarrow> string option \<Rightarrow> 'ty \<Rightarrow> 'p \<Rightarrow> ('ty, 'p) work_child" where
  "element_child resolve key ty p =
     new_child (Type_kind ty (if resolve ty = None then Some ty else None)) key (Element_props p)"

definition same_type :: "('ty \<Rightarrow> 'ty option) \<Rightarrow> 'ty \<Rightarrow> 'ty current_child \<Rightarrow> bool" where
  "same_type resolve ty e =
     (case cc_kind e of
        Type_kind et t \<Rightarrow> et = ty \<or> (case resolve ty of Some r \<Rightarrow> t = Some r | None \<Rightarrow> False)
      | _ \<Rightarrow> False)"

definition portal_children :: "('ty, 'p) node \<Rightarrow> ('ty, 'p) node" where
  "portal_children c = (case c of Nothing \<Rightarrow> Many [] | _ \<Rightarrow> c)"

subsection \<open>One child\<close>

text \<open>\<open>c\<close>, \<open>d\<close>, \<open>l\<close> and \<open>u\<close>: a text, a fragment, an element or a portal over the old child at its place, if any.\<close>

definition update_text :: "'ty current_child option \<Rightarrow> string \<Rightarrow> ('ty, 'p) work_child" where
  "update_text t s =
     (case t of
        Some e \<Rightarrow> (if cc_kind e = Text_kind then use_fiber e (Text_props s) else new_child Text_kind None (Text_props s))
      | None \<Rightarrow> new_child Text_kind None (Text_props s))"

definition update_fragment :: "'ty current_child option \<Rightarrow> ('ty, 'p) node \<Rightarrow> string option \<Rightarrow> ('ty, 'p) work_child" where
  "update_fragment t c key =
     (case t of
        Some e \<Rightarrow> (if cc_kind e = Fragment_kind then use_fiber e (Child_props c)
                   else new_child Fragment_kind key (Child_props c))
      | None \<Rightarrow> new_child Fragment_kind key (Child_props c))"

definition update_element :: "('ty \<Rightarrow> 'ty option) \<Rightarrow> 'ty current_child option \<Rightarrow> string option \<Rightarrow> 'ty \<Rightarrow> 'p \<Rightarrow>
    ('ty, 'p) work_child" where
  "update_element resolve t key ty p =
     (case t of
        Some e \<Rightarrow> (if same_type resolve ty e then use_fiber e (Element_props p) else element_child resolve key ty p)
      | None \<Rightarrow> element_child resolve key ty p)"

definition update_portal :: "'ty current_child option \<Rightarrow> string option \<Rightarrow> nat \<Rightarrow> nat \<Rightarrow> ('ty, 'p) node \<Rightarrow>
    ('ty, 'p) work_child" where
  "update_portal t key c i n =
     (case t of
        Some e \<Rightarrow> (if cc_kind e = Portal_kind c i then use_fiber e (Child_props (portal_children n))
                   else new_child (Portal_kind c i) key (Child_props (portal_children n)))
      | None \<Rightarrow> new_child (Portal_kind c i) key (Child_props (portal_children n)))"

datatype 'f slot = Threw | Null | Child 'f

text \<open>\<open>f\<close>: \<open>createChild\<close>.\<close>

fun create_child :: "('ty \<Rightarrow> 'ty option) \<Rightarrow> ('ty, 'p) node \<Rightarrow> ('ty, 'p) work_child slot" where
  "create_child rs Nothing = Null"
| "create_child rs (Text s) = Child (new_child Text_kind None (Text_props s))"
| "create_child rs (Element k ty p) = Child (element_child rs k ty p)"
| "create_child rs (Fragment k c) = Child (new_child Fragment_kind k (Child_props c))"
| "create_child rs (Portal k c i n) = Child (new_child (Portal_kind c i) k (Child_props (portal_children n)))"
| "create_child rs (Many xs) = Child (new_child Fragment_kind None (Child_props (Many xs)))"
| "create_child rs (Deferred (Some n)) = create_child rs n"
| "create_child rs (Deferred None) = Threw"
| "create_child rs Not_a_child = Threw"

text \<open>\<open>p\<close>: \<open>updateSlot\<close>, with the old child at the same place: null when their keys differ.\<close>

fun update_slot :: "('ty \<Rightarrow> 'ty option) \<Rightarrow> 'ty current_child option \<Rightarrow> ('ty, 'p) node \<Rightarrow> ('ty, 'p) work_child slot" where
  "update_slot rs t Nothing = Null"
| "update_slot rs t (Text s) = (if Option.bind t cc_key = None then Child (update_text t s) else Null)"
| "update_slot rs t (Element k ty p) =
     (if Option.bind t cc_key = k then Child (update_element rs t k ty p) else Null)"
| "update_slot rs t (Fragment k c) = (if Option.bind t cc_key = k then Child (update_fragment t c k) else Null)"
| "update_slot rs t (Portal k c i n) = (if Option.bind t cc_key = k then Child (update_portal t k c i n) else Null)"
| "update_slot rs t (Many xs) = (if Option.bind t cc_key = None then Child (update_fragment t (Many xs) None) else Null)"
| "update_slot rs t (Deferred (Some n)) = update_slot rs t n"
| "update_slot rs t (Deferred None) = Threw"
| "update_slot rs t Not_a_child = Threw"

text \<open>The map of the old children left, by key or else by index, in the order of \<open>Map\<close>.\<close>

datatype place = At_key string | At_index nat

definition place_of :: "string option \<Rightarrow> nat \<Rightarrow> place" where
  "place_of k i = (case k of Some s \<Rightarrow> At_key s | None \<Rightarrow> At_index i)"

type_synonym 'ty remaining_map = "(place \<times> 'ty current_child) list"

definition map_remaining :: "'ty current_child list \<Rightarrow> 'ty remaining_map" where
  "map_remaining es = fold (\<lambda>e. AList.update (place_of (cc_key e) (cc_index e)) e) es []"

text \<open>\<open>_\<close>: \<open>updateFromMap\<close>.\<close>

fun update_from_map :: "('ty \<Rightarrow> 'ty option) \<Rightarrow> 'ty remaining_map \<Rightarrow> nat \<Rightarrow> ('ty, 'p) node \<Rightarrow> ('ty, 'p) work_child slot" where
  "update_from_map rs m n Nothing = Null"
| "update_from_map rs m n (Text s) = Child (update_text (map_of m (At_index n)) s)"
| "update_from_map rs m n (Element k ty p) = Child (update_element rs (map_of m (place_of k n)) k ty p)"
| "update_from_map rs m n (Fragment k c) = Child (update_fragment (map_of m (place_of k n)) c k)"
| "update_from_map rs m n (Portal k c i x) = Child (update_portal (map_of m (place_of k n)) k c i x)"
| "update_from_map rs m n (Many xs) = Child (update_fragment (map_of m (At_index n)) (Many xs) None)"
| "update_from_map rs m n (Deferred (Some x)) = update_from_map rs m n x"
| "update_from_map rs m n (Deferred None) = Threw"
| "update_from_map rs m n Not_a_child = Threw"

text \<open>\<open>o\<close>: \<open>placeChild\<close>. \<open>e\<close>: whether effects are tracked, as they are but for a first render. The child, and
  the greatest old index of a child that stays where it is.\<close>

definition place_child :: "bool \<Rightarrow> ('ty, 'p) work_child \<Rightarrow> nat \<Rightarrow> nat \<Rightarrow> ('ty, 'p) work_child \<times> nat" where
  "place_child e t n r =
     (let t1 = t\<lparr>wc_index := r\<rparr> in
      if e
      then (case wc_alternate t of
              None \<Rightarrow> (t1\<lparr>wc_flags := wc_flags t1 OR 67108866\<rparr>, n)
            | Some a \<Rightarrow> if cc_index a < n then (t1\<lparr>wc_flags := wc_flags t1 OR 67108866\<rparr>, n) else (t1, cc_index a))
      else (t1\<lparr>wc_flags := wc_flags t1 OR 1048576\<rparr>, n))"

subsection \<open>Arrays and iterables\<close>

text \<open>
  The first loop of \<open>v\<close> and \<open>y\<close>, over the old children and the new ones side by side. \<open>a\<close>: the last index
  placed, \<open>m\<close>: the next index, \<open>acc\<close>: the new children in reverse, \<open>dels\<close>: the deletions in reverse. It stops at
  the end of either list, and at the first child whose key is not the old one's. \<open>None\<close>: it threw.
\<close>

fun match_in_order :: "('ty \<Rightarrow> 'ty option) \<Rightarrow> bool \<Rightarrow> 'ty current_child list \<Rightarrow> ('ty, 'p) node list \<Rightarrow> nat \<Rightarrow> nat \<Rightarrow>
    ('ty, 'p) work_child list \<Rightarrow> 'ty current_child list \<Rightarrow>
    ('ty current_child list \<times> ('ty, 'p) node list \<times> nat \<times> nat \<times> ('ty, 'p) work_child list \<times>
     'ty current_child list) option" where
  "match_in_order rs e (d # ds) (x # xs) a m acc dels =
     (let (old, h) = (if cc_index d > m then (None, d # ds) else (Some d, ds)) in
      case update_slot rs old x of
        Threw \<Rightarrow> None
      | Null \<Rightarrow> Some (d # ds, x # xs, a, m, acc, dels)
      | Child g \<Rightarrow>
          (let (g1, a1) = place_child e g a m
           in match_in_order rs e h xs a1 (m + 1) (g1 # acc)
                (case old of Some c \<Rightarrow> (if e \<and> wc_alternate g = None then c # dels else dels) | None \<Rightarrow> dels)))"
| "match_in_order rs e ds xs a m acc dels = Some (ds, xs, a, m, acc, dels)"

text \<open>The loop that creates what is left, when there are no more old children.\<close>

fun create_rest :: "('ty \<Rightarrow> 'ty option) \<Rightarrow> bool \<Rightarrow> ('ty, 'p) node list \<Rightarrow> nat \<Rightarrow> nat \<Rightarrow> ('ty, 'p) work_child list \<Rightarrow>
    ('ty, 'p) work_child list option" where
  "create_rest rs e [] a m acc = Some acc"
| "create_rest rs e (x # xs) a m acc =
     (case create_child rs x of
        Threw \<Rightarrow> None
      | Null \<Rightarrow> create_rest rs e xs a (m + 1) acc
      | Child g \<Rightarrow> (let (g1, a1) = place_child e g a m in create_rest rs e xs a1 (m + 1) (g1 # acc)))"

text \<open>The loop that finds the old children by their keys. An old child that is found is taken from the map.\<close>

fun match_by_key :: "('ty \<Rightarrow> 'ty option) \<Rightarrow> bool \<Rightarrow> 'ty remaining_map \<Rightarrow> ('ty, 'p) node list \<Rightarrow> nat \<Rightarrow> nat \<Rightarrow>
    ('ty, 'p) work_child list \<Rightarrow> ('ty remaining_map \<times> ('ty, 'p) work_child list) option" where
  "match_by_key rs e d [] a m acc = Some (d, acc)"
| "match_by_key rs e d (x # xs) a m acc =
     (case update_from_map rs d m x of
        Threw \<Rightarrow> None
      | Null \<Rightarrow> match_by_key rs e d xs a (m + 1) acc
      | Child g \<Rightarrow>
          (let (g1, a1) = place_child e g a m
           in match_by_key rs e
                (if e \<and> wc_alternate g \<noteq> None then AList.delete (place_of (wc_key g) m) d else d)
                xs a1 (m + 1) (g1 # acc)))"

text \<open>\<open>reconcileChildrenArray\<close> and \<open>reconcileChildrenIterator\<close>: the new children and the deletions, in order.\<close>

type_synonym ('ty, 'p) reconciled = "('ty, 'p) work_child list \<times> 'ty current_child list"

definition reconcile_array :: "('ty \<Rightarrow> 'ty option) \<Rightarrow> bool \<Rightarrow> 'ty current_child list \<Rightarrow> ('ty, 'p) node list \<Rightarrow>
    ('ty, 'p) reconciled option" where
  "reconcile_array rs e ds xs =
     (case match_in_order rs e ds xs 0 0 [] [] of
        None \<Rightarrow> None
      | Some (ds1, xs1, a, m, acc, dels) \<Rightarrow>
          if xs1 = [] then Some (rev acc, rev dels @ (if e then ds1 else []))
          else if ds1 = []
          then (case create_rest rs e xs1 a m acc of None \<Rightarrow> None | Some acc1 \<Rightarrow> Some (rev acc1, rev dels))
          else (case match_by_key rs e (map_remaining ds1) xs1 a m acc of
                  None \<Rightarrow> None
                | Some (d, acc1) \<Rightarrow> Some (rev acc1, rev dels @ (if e then map snd d else []))))"

subsection \<open>All kinds of children\<close>

text \<open>The loops of \<open>reconcileSingleElement\<close> and \<open>reconcileSinglePortal\<close>: the old child reused, and those deleted.\<close>

fun scan_single :: "('ty current_child \<Rightarrow> bool) \<Rightarrow> string option \<Rightarrow> 'ty current_child list \<Rightarrow>
    'ty current_child option \<times> 'ty current_child list" where
  "scan_single fits k [] = (None, [])"
| "scan_single fits k (r # rs) =
     (if cc_key r = k then (if fits r then (Some r, rs) else (None, r # rs))
      else (let (u, ds) = scan_single fits k rs in (u, r # ds)))"

definition place_single :: "bool \<Rightarrow> ('ty, 'p) work_child \<Rightarrow> ('ty, 'p) work_child" where
  "place_single e t = (if e \<and> wc_alternate t = None then t\<lparr>wc_flags := wc_flags t OR 67108866\<rparr> else t)"

definition single :: "bool \<Rightarrow> 'ty current_child option \<times> 'ty current_child list \<Rightarrow> ('ty, 'p) pending_props \<Rightarrow>
    ('ty, 'p) work_child \<Rightarrow> ('ty, 'p) reconciled option" where
  "single e found props fresh =
     (case found of (u, ds) \<Rightarrow>
        Some ([place_single e (case u of Some r \<Rightarrow> use_fiber r props | None \<Rightarrow> fresh)], if e then ds else []))"

fun reconcile_node :: "('ty \<Rightarrow> 'ty option) \<Rightarrow> bool \<Rightarrow> 'ty current_child list \<Rightarrow> ('ty, 'p) node \<Rightarrow>
    ('ty, 'p) reconciled option" where
  "reconcile_node rs e ds (Element k ty p) =
     single e (scan_single (same_type rs ty) k ds) (Element_props p) (element_child rs k ty p)"
| "reconcile_node rs e ds (Fragment k c) =
     single e (scan_single (\<lambda>r. cc_kind r = Fragment_kind) k ds) (Child_props c)
       (new_child Fragment_kind k (Child_props c))"
| "reconcile_node rs e ds (Portal k c i n) =
     single e (scan_single (\<lambda>r. cc_kind r = Portal_kind c i) k ds) (Child_props (portal_children n))
       (new_child (Portal_kind c i) k (Child_props (portal_children n)))"
| "reconcile_node rs e ds (Text s) =
     single e (case ds of r # rest \<Rightarrow> if cc_kind r = Text_kind then (Some r, rest) else (None, ds) | [] \<Rightarrow> (None, []))
       (Text_props s) (new_child Text_kind None (Text_props s))"
| "reconcile_node rs e ds (Many xs) = reconcile_array rs e ds xs"
| "reconcile_node rs e ds Nothing = Some ([], if e then ds else [])"
| "reconcile_node rs e ds (Deferred (Some n)) =
     (case n of Fragment None c \<Rightarrow> reconcile_node rs e ds c | _ \<Rightarrow> reconcile_node rs e ds n)"
| "reconcile_node rs e ds (Deferred None) = None"
| "reconcile_node rs e ds Not_a_child = None"

text \<open>\<open>x\<close>: \<open>reconcileChildFibers\<close>. A fragment without a key that is all a component returns counts as its children.\<close>

definition reconcile_children :: "('ty \<Rightarrow> 'ty option) \<Rightarrow> bool \<Rightarrow> 'ty current_child list \<Rightarrow> ('ty, 'p) node \<Rightarrow>
    ('ty, 'p) reconciled option" where
  "reconcile_children rs e ds n =
     (case n of Fragment None c \<Rightarrow> reconcile_node rs e ds c | _ \<Rightarrow> reconcile_node rs e ds n)"

subsection \<open>The commit\<close>

text \<open>
  The nodes of the page, for children that each are one node: that of an old child, which the fiber that
  reuses it keeps, or a new one, by the index of its fiber. \<open>insertBefore\<close> moves a node that is there already.
\<close>

datatype host_node = Old_node nat | New_node nat

definition node_of :: "('ty, 'p) work_child \<Rightarrow> host_node" where
  "node_of t = (case wc_alternate t of Some c \<Rightarrow> Old_node (cc_id c) | None \<Rightarrow> New_node (wc_index t))"

definition is_placed :: "('ty, 'p) work_child \<Rightarrow> bool" where
  "is_placed t \<longleftrightarrow> wc_flags t AND 2 \<noteq> 0"

definition insert_before :: "host_node \<Rightarrow> host_node \<Rightarrow> host_node list \<Rightarrow> host_node list" where
  "insert_before x t ns =
     (let ms = filter (\<lambda>n. n \<noteq> x) ns in takeWhile (\<lambda>n. n \<noteq> t) ms @ x # dropWhile (\<lambda>n. n \<noteq> t) ms)"

definition append_child :: "host_node \<Rightarrow> host_node list \<Rightarrow> host_node list" where
  "append_child x ns = filter (\<lambda>n. n \<noteq> x) ns @ [x]"

text \<open>\<open>getHostSibling\<close>: the next sibling that stays where it is; those to be placed later are passed over.\<close>

fun host_sibling :: "('ty, 'p) work_child list \<Rightarrow> host_node option" where
  "host_sibling [] = None"
| "host_sibling (t # ts) = (if is_placed t then host_sibling ts else Some (node_of t))"

text \<open>First the deletions, then each child that is to be placed, in order.\<close>

fun commit_placements :: "('ty, 'p) work_child list \<Rightarrow> host_node list \<Rightarrow> host_node list" where
  "commit_placements [] ns = ns"
| "commit_placements (t # ts) ns =
     commit_placements ts
       (if is_placed t
        then (case host_sibling ts of Some s \<Rightarrow> insert_before (node_of t) s ns | None \<Rightarrow> append_child (node_of t) ns)
        else ns)"

definition commit_children :: "('ty, 'p) reconciled \<Rightarrow> host_node list \<Rightarrow> host_node list" where
  "commit_children r ns =
     commit_placements (fst r) (filter (\<lambda>n. n \<notin> (Old_node \<circ> cc_id) ` set (snd r)) ns)"

end
