(* ===== verification/React_Children_Properties.thy ===== *)
theory React_Children_Properties
  imports React_Children "HOL-Library.Multiset"
begin

unbundle bit_operations_syntax

text \<open>
  What the matching of children promises: every old child is reused once or deleted once, the children that
  are not moved are in their old order, so that the commit of the deletions and placements turns the old nodes
  of the page into the new ones; and a child with a key keeps its fiber wherever it goes.
\<close>

subsection \<open>Old children of new ones\<close>

definition olds :: "('ty, 'p) work_child list \<Rightarrow> 'ty current_child list" where
  "olds ts = List.map_filter wc_alternate ts"

definition stable :: "('ty, 'p) work_child list \<Rightarrow> ('ty, 'p) work_child list" where
  "stable ts = filter (\<lambda>t. \<not> is_placed t) ts"

lemma olds_simps [simp]:
  "olds [] = []" "olds (t # ts) = (case wc_alternate t of None \<Rightarrow> olds ts | Some c \<Rightarrow> c # olds ts)"
  "olds (ts @ us) = olds ts @ olds us"
  by (simp_all add: olds_def List.map_filter_def split: option.split)

lemma stable_simps [simp]:
  "stable [] = []" "stable (t # ts) = (if is_placed t then stable ts else t # stable ts)"
  "stable (ts @ us) = stable ts @ stable us"
  by (simp_all add: stable_def)

lemma mem_olds: "c \<in> set (olds ts) \<longleftrightarrow> (\<exists>t\<in>set ts. wc_alternate t = Some c)"
  by (induction ts) (auto split: option.splits)

lemma olds_stable: "set (olds (stable ts)) \<subseteq> set (olds ts)"
  by (auto simp: mem_olds stable_def)

definition place_at :: "'ty current_child \<Rightarrow> place" where
  "place_at c = place_of (cc_key c) (cc_index c)"

text \<open>Siblings as a render leaves them: no two at the same place, in the order of their indices.\<close>

definition siblings :: "'ty current_child list \<Rightarrow> bool" where
  "siblings ds \<longleftrightarrow> distinct (map place_at ds) \<and> sorted_wrt (<) (map cc_index ds) \<and> distinct (map cc_id ds)"

text \<open>The new children so far are in place: fresh ones are to be placed, those that stay are in their old
  order and not beyond the last index \<open>a\<close>, and the indices of the fibers are below \<open>m\<close>.\<close>

definition in_place :: "nat \<Rightarrow> nat \<Rightarrow> ('ty, 'p) work_child list \<Rightarrow> bool" where
  "in_place a m ts \<longleftrightarrow>
     (\<forall>t\<in>set ts. wc_alternate t = None \<longrightarrow> is_placed t) \<and>
     sorted_wrt (<) (map cc_index (olds (stable ts))) \<and> (\<forall>c\<in>set (olds (stable ts)). cc_index c \<le> a) \<and>
     distinct (map wc_index ts) \<and> (\<forall>t\<in>set ts. wc_index t < m)"

lemma in_place_Nil [simp]: "in_place a m []"
  by (simp add: in_place_def)

lemma in_place_later: "in_place a m ts \<Longrightarrow> m \<le> m' \<Longrightarrow> in_place a m' ts"
  by (auto simp: in_place_def)

text \<open>A fiber before it is placed: it is fresh, or it reuses an old child.\<close>

definition unplaced :: "('ty, 'p) work_child \<Rightarrow> bool" where
  "unplaced t \<longleftrightarrow> wc_flags t AND 2 = 0"

lemma unplaced_fibers [simp]:
  "unplaced (use_fiber e t)" "unplaced (new_child k key t)" "unplaced (element_child rs key ty p)"
proof -
  have "(65011712 :: 32 word) AND 2 = 0" by simp
  then show "unplaced (use_fiber e t)" by (simp add: unplaced_def use_fiber_def and.assoc)
qed (simp_all add: unplaced_def new_child_def element_child_def)

lemma place_child_facts:
  assumes "place_child True t a m = (t', a')" "unplaced t"
  shows "wc_alternate t' = wc_alternate t" "wc_index t' = m" "wc_key t' = wc_key t" "wc_kind t' = wc_kind t"
    "is_placed t' \<longleftrightarrow> (case wc_alternate t of None \<Rightarrow> True | Some c \<Rightarrow> cc_index c < a)"
    "a' = (if is_placed t' then a else (case wc_alternate t of None \<Rightarrow> a | Some c \<Rightarrow> cc_index c))" "a \<le> a'"
proof -
  have two: "(f OR 67108866) AND 2 \<noteq> (0 :: 32 word)" for f
  proof -
    have "bit ((f OR 67108866) AND 2) 1" by (simp add: bit_simps)
    then show ?thesis by auto
  qed
  show "wc_alternate t' = wc_alternate t" "wc_index t' = m" "wc_key t' = wc_key t" "wc_kind t' = wc_kind t"
    using assms(1) by (auto simp: place_child_def Let_def split: option.splits if_splits)
  show "is_placed t' \<longleftrightarrow> (case wc_alternate t of None \<Rightarrow> True | Some c \<Rightarrow> cc_index c < a)"
    "a' = (if is_placed t' then a else (case wc_alternate t of None \<Rightarrow> a | Some c \<Rightarrow> cc_index c))" "a \<le> a'"
    using assms two by (auto simp: place_child_def unplaced_def is_placed_def Let_def split: option.splits if_splits)
qed

lemma in_place_snoc:
  assumes "in_place a m ts" "place_child True t a m = (t', a')" "unplaced t"
    "\<And>c. wc_alternate t = Some c \<Longrightarrow> cc_index c \<notin> cc_index ` set (olds ts)"
  shows "in_place a' (m + 1) (ts @ [t'])"
proof -
  note t' = place_child_facts [OF assms(2,3)]
  have fresh: "cc_index c \<noteq> cc_index d" if "wc_alternate t = Some c" "d \<in> set (olds (stable ts))" for c d
    using that assms(4) olds_stable by blast
  have idx: "m \<notin> wc_index ` set ts" using assms(1) by (auto simp: in_place_def)
  show ?thesis
  proof (cases "is_placed t'")
    case True
    then have "a' = a" using t'(6) by simp
    with True assms(1) t'(2) idx show ?thesis by (auto simp: in_place_def)
  next
    case False
    then obtain c where c: "wc_alternate t = Some c" "a \<le> cc_index c" "a' = cc_index c"
      using t'(5,6) by (auto split: option.splits)
    have "cc_index d < cc_index c" if "d \<in> set (olds (stable ts))" for d
      using assms(1) that c fresh [OF c(1) that] by (fastforce simp: in_place_def)
    with False assms(1) t'(1,2) idx c show ?thesis
      by (auto simp: in_place_def sorted_wrt_append less_imp_le)
  qed
qed

lemma update_unplaced:
  "unplaced (update_text old s)" "unplaced (update_fragment old c k)"
  "unplaced (update_element rs old k ty p)" "unplaced (update_portal old k ct i n)"
  by (simp_all add: update_text_def update_fragment_def update_element_def update_portal_def split: option.split)

lemma update_alternate:
  "wc_alternate (update_text old s) \<noteq> old \<Longrightarrow> wc_alternate (update_text old s) = None"
  "wc_alternate (update_fragment old c k) \<noteq> old \<Longrightarrow> wc_alternate (update_fragment old c k) = None"
  "wc_alternate (update_element rs old k ty p) \<noteq> old \<Longrightarrow> wc_alternate (update_element rs old k ty p) = None"
  "wc_alternate (update_portal old k ct i n) \<noteq> old \<Longrightarrow> wc_alternate (update_portal old k ct i n) = None"
  by (auto simp: update_text_def update_fragment_def update_element_def update_portal_def use_fiber_def
      new_child_def element_child_def split: option.splits if_splits)

lemma create_child_fresh: "create_child rs x = Child g \<Longrightarrow> wc_alternate g = None \<and> unplaced g"
  by (induction rs x rule: create_child.induct) (auto simp: new_child_def element_child_def unplaced_def)

lemma update_slot_facts:
  "update_slot rs old x = Child g \<Longrightarrow> (wc_alternate g = None \<or> wc_alternate g = old) \<and> unplaced g"
  by (induction rs old x rule: update_slot.induct) (auto simp: update_unplaced split: if_splits intro: update_alternate)

lemma update_key:
  "wc_alternate (update_text old s) = Some c \<Longrightarrow> wc_key (update_text old s) = cc_key c \<and> old = Some c"
  "wc_alternate (update_fragment old n k) = Some c \<Longrightarrow> wc_key (update_fragment old n k) = cc_key c \<and> old = Some c"
  "wc_alternate (update_element rs old k ty p) = Some c \<Longrightarrow>
     wc_key (update_element rs old k ty p) = cc_key c \<and> old = Some c"
  "wc_alternate (update_portal old k ct i n) = Some c \<Longrightarrow> wc_key (update_portal old k ct i n) = cc_key c \<and> old = Some c"
  by (auto simp: update_text_def update_fragment_def update_element_def update_portal_def use_fiber_def
      new_child_def element_child_def split: option.splits if_splits)

subsection \<open>The map of the old children\<close>

definition map_ok :: "'ty remaining_map \<Rightarrow> bool" where
  "map_ok m \<longleftrightarrow> distinct (map fst m) \<and> (\<forall>(p, c)\<in>set m. p = place_at c)"

lemma update_from_map_facts:
  assumes "update_from_map rs m n x = Child g" "map_ok m"
  shows "unplaced g" "wc_alternate g = Some c \<Longrightarrow> map_of m (place_of (wc_key g) n) = Some c"
proof -
  show "unplaced g"
    using assms(1) by (induction rs m n x rule: update_from_map.induct) (auto simp: update_unplaced)
  have at: "place_of (cc_key c) n = p" if "map_of m p = Some c" "p = At_index n \<or> (\<exists>k. p = place_of k n)" for c p
  proof -
    have "p = place_at c" using map_of_SomeD [OF that(1)] assms(2) by (auto simp: map_ok_def)
    with that(2) show ?thesis by (auto simp: place_at_def place_of_def split: option.splits)
  qed
  have "\<exists>p. map_of m p = Some c \<and> (p = At_index n \<or> (\<exists>k. p = place_of k n)) \<and> wc_key g = cc_key c"
    if "wc_alternate g = Some c"
    using assms(1) that
    by (induction rs m n x rule: update_from_map.induct) (fastforce dest: update_key)+
  then show "wc_alternate g = Some c \<Longrightarrow> map_of m (place_of (wc_key g) n) = Some c" using at by metis
qed

lemma map_remaining_ok:
  assumes "distinct (map place_at es)"
  shows "map_remaining es = map (\<lambda>c. (place_at c, c)) es"
proof -
  have "fold (\<lambda>e. AList.update (place_of (cc_key e) (cc_index e)) e) es m = m @ map (\<lambda>c. (place_at c, c)) es"
    if "distinct (map place_at es)" "place_at ` set es \<inter> fst ` set m = {}" for m
    using that
  proof (induction es arbitrary: m)
    case (Cons e es)
    have "AList.update (place_at e) e m = m @ [(place_at e, e)]" using Cons.prems(2)
      by (induction m) auto
    with Cons show ?case by (auto simp: place_at_def [symmetric])
  qed simp
  with assms show ?thesis by (simp add: map_remaining_def)
qed

lemma map_remaining_map_ok: "distinct (map place_at es) \<Longrightarrow> map_ok (map_remaining es)"
  by (auto simp: map_remaining_ok map_ok_def comp_def)

lemma delete_entry:
  assumes "map_ok m" "map_of m p = Some c"
  shows "mset (map snd m) = add_mset c (mset (map snd (AList.delete p m)))" "map_ok (AList.delete p m)"
proof -
  show "mset (map snd m) = add_mset c (mset (map snd (AList.delete p m)))"
    using assms
  proof (induction m)
    case (Cons e m)
    obtain q d where e: "e = (q, d)" by fastforce
    show ?case
    proof (cases "p = q")
      case True
      with Cons.prems e have "AList.delete p m = m" by (auto simp: map_ok_def intro!: delete_idem)
      with True Cons.prems e show ?thesis by (simp add: AList.delete_eq)
    next
      case False
      with Cons e show ?thesis by (auto simp: map_ok_def AList.delete_eq)
    qed
  qed simp
  show "map_ok (AList.delete p m)" using assms(1) by (auto simp: map_ok_def AList.delete_eq distinct_map_filter)
qed

subsection \<open>The loops\<close>

text \<open>\<open>ds\<close> are the old children still to be matched, \<open>all\<close> those there were.\<close>

definition matching :: "'ty current_child multiset \<Rightarrow> 'ty current_child list \<Rightarrow> nat \<Rightarrow> nat \<Rightarrow>
    ('ty, 'p) work_child list \<Rightarrow> 'ty current_child list \<Rightarrow> bool" where
  "matching all ds a m acc dels \<longleftrightarrow>
     mset (olds (rev acc)) + mset dels + mset ds = all \<and> in_place a m (rev acc) \<and>
     (\<forall>d\<in>set ds. cc_index d \<notin> cc_index ` set (olds (rev acc))) \<and> distinct (map cc_index ds)"

lemma matching_fresh:
  assumes "matching all ds a m acc dels" "wc_alternate g = None" "unplaced g" "place_child True g a m = (g', a')"
  shows "matching all ds a' (m + 1) (g' # acc) dels"
  using assms(1,2) in_place_snoc [OF _ assms(4,3), of "rev acc"] place_child_facts(1) [OF assms(4,3)]
  by (simp add: matching_def)

lemma matching_reuse:
  assumes "matching all ds a m acc dels" "wc_alternate g = Some c" "unplaced g" "place_child True g a m = (g', a')"
    "mset ds = add_mset c (mset ds')"
  shows "matching all ds' a' (m + 1) (g' # acc) dels"
proof -
  have set: "set ds = insert c (set ds')" using assms(5) by (metis set_mset_add_mset_insert set_mset_mset)
  have "distinct (map cc_index (c # ds')) = distinct (map cc_index ds)"
    using assms(5) by (intro mset_eq_imp_distinct_iff) (simp add: mset_map)
  then have dist: "distinct (map cc_index (c # ds'))" using assms(1) by (simp add: matching_def)
  moreover have "in_place a' (m + 1) (rev acc @ [g'])"
    by (rule in_place_snoc [OF _ assms(4,3)]) (use assms(1,2) set in \<open>auto simp: matching_def\<close>)
  moreover have "cc_index d \<noteq> cc_index c" if "d \<in> set ds'" for d using dist that by (metis distinct.simps(2) image_eqI list.set_map list.simps(9))
  ultimately show ?thesis
    using assms(1,2,5) place_child_facts(1) [OF assms(4,3)] set by (auto simp: matching_def)
qed

lemma matching_delete:
  "matching all (d # ds) a m acc dels \<Longrightarrow> matching all ds a m acc (d # dels)"
  by (auto simp: matching_def)

lemma matching_skip: "matching all ds a m acc dels \<Longrightarrow> matching all ds a (m + 1) acc dels"
  by (auto simp: matching_def intro: in_place_later)

text \<open>One step of the first loop.\<close>

lemma match_in_order_step:
  assumes "match_in_order rs True (d # ds) (x # xs) a m acc dels = Some r" "matching all (d # ds) a m acc dels"
  obtains (stop) "r = (d # ds, x # xs, a, m, acc, dels)"
      "update_slot rs (if cc_index d > m then None else Some d) x = Null"
  | (go) g g1 a1 h dels1 where
      "update_slot rs (if cc_index d > m then None else Some d) x = Child g" "place_child True g a m = (g1, a1)"
      "h = (if cc_index d > m then d # ds else ds)"
      "match_in_order rs True h xs a1 (m + 1) (g1 # acc) dels1 = Some r"
      "matching all h a1 (m + 1) (g1 # acc) dels1"
proof -
  define old where "old = (if cc_index d > m then None else Some d)"
  define h where "h = (if cc_index d > m then d # ds else ds)"
  have pair: "(if cc_index d > m then (None, d # ds) else (Some d, ds)) = (old, h)" by (simp add: old_def h_def)
  show ?thesis
  proof (cases "update_slot rs old x")
    case Threw
    with assms(1) pair show ?thesis by (simp add: Let_def)
  next
    case Null
    with assms(1) pair stop show ?thesis by (simp add: Let_def old_def)
  next
    case (Child g)
    obtain g1 a1 where place: "place_child True g a m = (g1, a1)" by fastforce
    note g = update_slot_facts [OF Child]
    define dels1 where
      "dels1 = (case old of Some c \<Rightarrow> if True \<and> wc_alternate g = None then c # dels else dels | None \<Rightarrow> dels)"
    have run: "match_in_order rs True h xs a1 (m + 1) (g1 # acc) dels1 = Some r"
      using assms(1) by (simp only: match_in_order.simps pair Let_def prod.case Child place slot.case dels1_def)
    have "matching all h a1 (m + 1) (g1 # acc) dels1"
    proof (cases "wc_alternate g")
      case None
      then show ?thesis
        using matching_fresh [OF _ None _ place] g assms(2) matching_delete [OF assms(2)]
        by (auto simp: dels1_def old_def h_def)
    next
      case (Some c)
      then have "old = Some c" using g by simp
      then have "c = d" "h = ds" "dels1 = dels" using Some by (auto simp: old_def h_def dels1_def split: if_splits)
      then show ?thesis using matching_reuse [OF assms(2) Some _ place, of ds] g by simp
    qed
    then show ?thesis using go [OF Child [unfolded old_def] place h_def run] by blast
  qed
qed

lemma match_in_order_matching:
  "match_in_order rs True ds xs a m acc dels = Some (ds1, xs1, a1, m1, acc1, dels1) \<Longrightarrow>
   matching all ds a m acc dels \<Longrightarrow> matching all ds1 a1 m1 acc1 dels1 \<and> (\<exists>pre. ds = pre @ ds1)"
proof (induction xs arbitrary: ds a m acc dels)
  case (Cons x xs)
  show ?case
  proof (cases ds)
    case (Cons d ds')
    from Cons.prems [unfolded Cons] show ?thesis
    proof (cases rule: match_in_order_step)
      case stop
      then show ?thesis using Cons.prems(2) Cons by simp
    next
      case (go g g1 a1' h dels1')
      from Cons.IH [OF go(4,5)] go(3) Cons show ?thesis by (auto split: if_splits)
    qed
  qed (use Cons.prems in auto)
qed auto

lemma create_rest_matching:
  "create_rest rs True xs a m acc = Some acc1 \<Longrightarrow> matching all ds a m acc dels \<Longrightarrow>
   \<exists>a1 m1. matching all ds a1 m1 acc1 dels"
proof (induction xs arbitrary: a m acc)
  case (Cons x xs)
  show ?case
  proof (cases "create_child rs x")
    case Null
    with Cons matching_skip show ?thesis by fastforce
  next
    case (Child g)
    obtain g1 a1 where place: "place_child True g a m = (g1, a1)" by fastforce
    from create_child_fresh [OF Child] have "matching all ds a1 (m + 1) (g1 # acc) dels"
      using matching_fresh [OF Cons.prems(2) _ _ place] by simp
    with Cons.IH Cons.prems(1) Child place show ?thesis by simp
  qed (use Cons.prems in simp)
qed auto

lemma match_by_key_matching:
  "match_by_key rs True d xs a m acc = Some (d1, acc1) \<Longrightarrow> map_ok d \<Longrightarrow>
   matching all (map snd d) a m acc dels \<Longrightarrow> \<exists>a1 m1. matching all (map snd d1) a1 m1 acc1 dels"
proof (induction xs arbitrary: d a m acc)
  case (Cons x xs)
  show ?case
  proof (cases "update_from_map rs d m x")
    case Null
    with Cons matching_skip show ?thesis by fastforce
  next
    case (Child g)
    obtain g1 a1 where place: "place_child True g a m = (g1, a1)" by fastforce
    note g = update_from_map_facts [OF Child Cons.prems(2)]
    show ?thesis
    proof (cases "wc_alternate g")
      case None
      have "match_by_key rs True d xs a1 (m + 1) (g1 # acc) = Some (d1, acc1)"
        using Cons.prems(1) Child place None by simp
      from Cons.IH [OF this Cons.prems(2) matching_fresh [OF Cons.prems(3) None g(1) place]] show ?thesis .
    next
      case (Some c)
      let ?d = "AList.delete (place_of (wc_key g) m) d"
      note del = delete_entry [OF Cons.prems(2) g(2) [OF Some]]
      have "match_by_key rs True ?d xs a1 (m + 1) (g1 # acc) = Some (d1, acc1)"
        using Cons.prems(1) Child place Some by simp
      from Cons.IH [OF this del(2) matching_reuse [OF Cons.prems(3) Some g(1) place del(1)]] show ?thesis .
    qed
  qed (use Cons.prems in simp)
qed auto

text \<open>What a reconciliation is to achieve.\<close>

definition reconciles :: "'ty current_child list \<Rightarrow> ('ty, 'p) reconciled \<Rightarrow> bool" where
  "reconciles ds r \<longleftrightarrow> mset (olds (fst r)) + mset (snd r) = mset ds \<and> (\<exists>a m. in_place a m (fst r))"

lemma matching_reconciles:
  "matching (mset ds) rest a m acc dels \<Longrightarrow> reconciles ds (rev acc, rev dels @ rest)"
  by (auto simp: matching_def reconciles_def ac_simps)

lemma reconcile_array_ok:
  assumes "siblings ds" "reconcile_array rs True ds xs = Some r"
  shows "reconciles ds r"
proof -
  obtain ds1 xs1 a m acc dels where first: "match_in_order rs True ds xs 0 0 [] [] = Some (ds1, xs1, a, m, acc, dels)"
    using assms(2) by (auto simp: reconcile_array_def split: option.splits)
  have "distinct (map cc_index ds)" using assms(1) by (simp add: siblings_def strict_sorted_iff)
  then have "matching (mset ds) ds 0 0 ([] :: ('a, 'b) work_child list) []" by (simp add: matching_def)
  from match_in_order_matching [OF first this]
  have inv: "matching (mset ds) ds1 a m acc dels" and "\<exists>pre. ds = pre @ ds1" by auto
  then have keys: "distinct (map place_at ds1)" using assms(1) by (auto simp: siblings_def)
  have "map snd (map_remaining ds1) = ds1" by (simp add: map_remaining_ok [OF keys] comp_def)
  then have by_key: "match_by_key rs True (map_remaining ds1) xs1 a m acc = Some (d1, acc1) \<Longrightarrow>
      \<exists>a1 m1. matching (mset ds) (map snd d1) a1 m1 acc1 dels" for d1 acc1
    using match_by_key_matching [OF _ map_remaining_map_ok [OF keys]] inv by simp
  show ?thesis
  proof (cases "xs1 = [] \<or> ds1 = []")
    case True
    show ?thesis
    proof (cases "xs1 = []")
      case True
      then show ?thesis using assms(2) first matching_reconciles [OF inv] by (simp add: reconcile_array_def)
    next
      case False
      then obtain acc1 where run: "create_rest rs True xs1 a m acc = Some acc1" "r = (rev acc1, rev dels)" "ds1 = []"
        using assms(2) first True by (auto simp: reconcile_array_def split: option.splits)
      from create_rest_matching [OF run(1) inv] run(2,3) matching_reconciles [of ds "[]"] show ?thesis by auto
    qed
  next
    case False
    then obtain d1 acc1 where run: "match_by_key rs True (map_remaining ds1) xs1 a m acc = Some (d1, acc1)"
      "r = (rev acc1, rev dels @ map snd d1)"
      using assms(2) first by (auto simp: reconcile_array_def split: option.splits)
    from by_key [OF run(1)] run(2) matching_reconciles show ?thesis by auto
  qed
qed

subsection \<open>Single children\<close>

lemma scan_single_all: "mset (case fst (scan_single fits k ds) of None \<Rightarrow> [] | Some c \<Rightarrow> [c]) + mset (snd (scan_single fits k ds)) = mset ds"
  by (induction ds) (auto split: prod.splits)

lemma single_ok:
  assumes "single True found props fresh = Some r" "wc_alternate fresh = None"
    "mset (case fst found of None \<Rightarrow> [] | Some c \<Rightarrow> [c]) + mset (snd found) = mset ds"
  shows "reconciles ds r"
proof -
  obtain u dels where found: "found = (u, dels)" by fastforce
  define t where "t = place_single True (case u of Some c \<Rightarrow> use_fiber c props | None \<Rightarrow> fresh)"
  have r: "r = ([t], dels)" using assms(1) by (simp add: single_def found t_def)
  have alt: "wc_alternate t = u" using assms(2)
    by (auto simp: t_def place_single_def use_fiber_def split: option.split)
  have "is_placed t" if "u = None"
  proof -
    have "bit (wc_flags t AND 2) 1" using that assms(2) by (simp add: t_def place_single_def bit_simps)
    then show ?thesis by (auto simp: is_placed_def)
  qed
  then have "in_place (case u of Some c \<Rightarrow> cc_index c | None \<Rightarrow> 0) (wc_index t + 1) [t]"
    using alt by (auto simp: in_place_def split: option.splits)
  then show ?thesis using assms(3) alt by (auto simp: reconciles_def r found split: option.splits)
qed

lemma reconcile_node_ok:
  "siblings ds \<Longrightarrow> reconcile_node rs True ds n = Some r \<Longrightarrow> reconciles ds r"
proof (induction rs True ds n rule: reconcile_node.induct)
  case (4 rs ds s)
  then show ?case
    by (intro single_ok [of _ _ _ r ds]) (auto simp: new_child_def split: list.split)
next
  case (5 rs ds xs)
  then show ?case using reconcile_array_ok by simp
next
  case (7 rs ds n)
  then show ?case by (auto split: node.splits option.splits)
next
  case (6 rs ds)
  then show ?case by (auto simp: reconciles_def intro: in_place_Nil)
qed (use scan_single_all in \<open>force intro: single_ok simp: new_child_def element_child_def\<close>)+

lemma reconcile_children_ok:
  assumes "siblings ds" "reconcile_children rs True ds n = Some r"
  shows "reconciles ds r"
proof -
  have "reconcile_children rs True ds n = reconcile_node rs True ds (case n of Fragment None c \<Rightarrow> c | _ \<Rightarrow> n)"
    unfolding reconcile_children_def by (simp split: node.split option.split)
  then show ?thesis using reconcile_node_ok [OF assms(1)] assms(2) by metis
qed

subsection \<open>The commit\<close>

lemma host_sibling_stable: "host_sibling ts = (case stable ts of [] \<Rightarrow> None | t # _ \<Rightarrow> Some (node_of t))"
  by (induction ts) simp_all

lemma split_at:
  "filter P ms = us @ s # vs \<Longrightarrow> s \<notin> set us \<Longrightarrow> P s \<Longrightarrow>
   filter P (takeWhile (\<lambda>n. n \<noteq> s) ms) = us \<and> filter P (dropWhile (\<lambda>n. n \<noteq> s) ms) = s # vs"
proof (induction ms arbitrary: us)
  case (Cons m ms)
  show ?case
  proof (cases "m = s")
    case True
    with Cons.prems show ?thesis by (cases us) auto
  next
    case False
    show ?thesis
    proof (cases "P m")
      case True
      with Cons.prems False obtain us' where "us = m # us'" by (cases us) auto
      with Cons True False show ?thesis by simp
    next
      case nP: False
      with Cons False show ?thesis by simp
    qed
  qed
qed simp

lemma filter_without:
  "x \<notin> set ms \<Longrightarrow> filter (\<lambda>n. P n \<or> n = x) ms = filter P ms"
  by (intro filter_cong) auto

lemma insert_before_order:
  assumes "\<not> P x" "P s" "filter P ns = us @ s # vs" "s \<notin> set us"
  shows "filter (\<lambda>n. P n \<or> n = x) (insert_before x s ns) = us @ x # s # vs"
    "set (insert_before x s ns) \<subseteq> insert x (set ns)"
proof -
  let ?ms = "filter (\<lambda>n. n \<noteq> x) ns"
  have "filter P ?ms = filter P ns" using assms(1) by (auto intro: filter_cong)
  then have split: "filter P (takeWhile (\<lambda>n. n \<noteq> s) ?ms) = us \<and> filter P (dropWhile (\<lambda>n. n \<noteq> s) ?ms) = s # vs"
    using split_at [of P ?ms us s vs] assms by simp
  have "x \<notin> set (takeWhile (\<lambda>n. n \<noteq> s) ?ms)" "x \<notin> set (dropWhile (\<lambda>n. n \<noteq> s) ?ms)"
    by (auto dest: set_takeWhileD set_dropWhileD)
  then show "filter (\<lambda>n. P n \<or> n = x) (insert_before x s ns) = us @ x # s # vs"
    using split by (simp add: insert_before_def Let_def filter_without)
  show "set (insert_before x s ns) \<subseteq> insert x (set ns)"
    by (auto simp: insert_before_def Let_def dest: set_takeWhileD set_dropWhileD)
qed

lemma append_child_order:
  assumes "\<not> P x"
  shows "filter (\<lambda>n. P n \<or> n = x) (append_child x ns) = filter P ns @ [x]"
    "set (append_child x ns) \<subseteq> insert x (set ns)"
proof -
  have "filter (\<lambda>n. P n \<or> n = x) (filter (\<lambda>n. n \<noteq> x) ns) = filter P ns"
    unfolding filter_filter using assms by (intro filter_cong) auto
  then show "filter (\<lambda>n. P n \<or> n = x) (append_child x ns) = filter P ns @ [x]"
    by (simp only: append_child_def filter_append) simp
qed (auto simp: append_child_def)

definition among :: "host_node list \<Rightarrow> host_node \<Rightarrow> bool" where
  "among ns n \<longleftrightarrow> n \<in> set ns"

text \<open>
  While the placements are committed, the nodes \<open>ps\<close> done and those that stay are in the new order on the page;
  nodes still to be moved may be anywhere among them.
\<close>

lemma placement_step:
  assumes "distinct (ps @ map node_of (t # ts))" "is_placed t"
    "filter (among (ps @ map node_of (stable ts))) ns = ps @ map node_of (stable ts)"
    "ns' = (case host_sibling ts of Some s \<Rightarrow> insert_before (node_of t) s ns | None \<Rightarrow> append_child (node_of t) ns)"
  shows "filter (among ((ps @ [node_of t]) @ map node_of (stable ts))) ns' = (ps @ [node_of t]) @ map node_of (stable ts)"
    "set ns' \<subseteq> insert (node_of t) (set ns)"
proof -
  let ?P = "among (ps @ map node_of (stable ts))" and ?x = "node_of t"
  have x: "\<not> ?P ?x" using assms(1) by (auto simp: among_def stable_def)
  have among: "among ((ps @ [?x]) @ map node_of (stable ts)) = (\<lambda>n. ?P n \<or> n = ?x)"
    by (auto simp: among_def fun_eq_iff)
  have "filter (\<lambda>n. ?P n \<or> n = ?x) ns' = (ps @ [?x]) @ map node_of (stable ts) \<and> set ns' \<subseteq> insert ?x (set ns)"
  proof (cases "stable ts")
    case Nil
    then show ?thesis using append_child_order [of ?P ?x ns] x assms(3,4) by (simp add: host_sibling_stable)
  next
    case (Cons u us)
    have "u \<in> set (stable ts)" using Cons by simp
    then have "u \<in> set ts" by (simp add: stable_def)
    then have "node_of u \<notin> set ps" "?P (node_of u)" using assms(1) Cons by (auto simp: among_def)
    then show ?thesis
      using insert_before_order [of ?P ?x "node_of u" ns ps "map node_of us"] x assms(3,4) Cons
      by (simp add: host_sibling_stable)
  qed
  then show "filter (among ((ps @ [node_of t]) @ map node_of (stable ts))) ns' = (ps @ [node_of t]) @ map node_of (stable ts)"
    "set ns' \<subseteq> insert (node_of t) (set ns)" unfolding among by simp_all
qed

lemma commit_placements_order:
  "distinct (ps @ map node_of ts) \<Longrightarrow>
   filter (among (ps @ map node_of (stable ts))) ns = ps @ map node_of (stable ts) \<Longrightarrow>
   filter (among (ps @ map node_of ts)) (commit_placements ts ns) = ps @ map node_of ts \<and>
   set (commit_placements ts ns) \<subseteq> set ns \<union> set (map node_of ts)"
proof (induction ts arbitrary: ps ns)
  case (Cons t ts)
  define ns' where "ns' = (if is_placed t then (case host_sibling ts of Some s \<Rightarrow> insert_before (node_of t) s ns
      | None \<Rightarrow> append_child (node_of t) ns) else ns)"
  have dist: "distinct ((ps @ [node_of t]) @ map node_of ts)" using Cons.prems(1) by simp
  have run: "commit_placements (t # ts) ns = commit_placements ts ns'" by (simp add: ns'_def)
  have step: "filter (among ((ps @ [node_of t]) @ map node_of (stable ts))) ns' = (ps @ [node_of t]) @ map node_of (stable ts) \<and>
    set ns' \<subseteq> insert (node_of t) (set ns)"
  proof (cases "is_placed t")
    case True
    then show ?thesis
      using placement_step [OF Cons.prems(1) True, of ns ns'] Cons.prems(2) by (simp add: ns'_def)
  next
    case False
    then show ?thesis using Cons.prems(2) by (simp add: ns'_def subset_insertI)
  qed
  from Cons.IH [OF dist step [THEN conjunct1]] step show ?case unfolding run by auto
qed simp

text \<open>The nodes of the page before the commit.\<close>

definition old_nodes :: "'ty current_child list \<Rightarrow> host_node list" where
  "old_nodes ds = map (Old_node \<circ> cc_id) ds"

lemma node_of_stable:
  assumes "\<forall>t\<in>set ts. wc_alternate t = None \<longrightarrow> is_placed t"
  shows "map node_of (stable ts) = old_nodes (olds (stable ts))"
  using assms by (induction ts) (auto simp: node_of_def old_nodes_def split: option.split)

lemma distinct_nodes:
  assumes "distinct (map cc_id (olds ts))" "distinct (map wc_index ts)"
  shows "distinct (map node_of ts)"
  using assms
proof (induction ts)
  case (Cons t ts)
  have "node_of t \<noteq> node_of u" if "u \<in> set ts" for u
  proof (cases "wc_alternate t")
    case None
    then show ?thesis using Cons.prems(2) that by (auto simp: node_of_def split: option.split)
  next
    case (Some c)
    then have "cc_id c \<notin> cc_id ` set (olds ts)" using Cons.prems(1) by auto
    then have "cc_id d \<noteq> cc_id c" if "wc_alternate u = Some d" for d
      using that \<open>u \<in> set ts\<close> by (metis image_eqI mem_olds)
    with Some show ?thesis by (simp add: node_of_def split: option.split) metis
  qed
  with Cons show ?case by (auto split: option.splits)
qed simp

lemma ordered_unique:
  fixes f :: "'a \<Rightarrow> nat"
  assumes "sorted_wrt (<) (map f xs)" "sorted_wrt (<) (map f ys)" "set xs = set ys"
  shows "xs = ys"
proof -
  have sd: "sorted (map f xs)" "distinct (map f xs)" "sorted (map f ys)" "distinct (map f ys)"
    using assms(1,2) by (simp_all add: strict_sorted_iff)
  have "map f xs = map f ys" by (rule sorted_distinct_set_unique) (use sd assms(3) in simp_all)
  moreover have "inj_on f (set xs \<union> set ys)" using sd(2) assms(3) by (simp add: distinct_map)
  ultimately show ?thesis by (rule map_inj_on)
qed

lemma reconciles_commit:
  assumes "siblings ds" "reconciles ds (ts, dels)"
  shows "commit_children (ts, dels) (old_nodes ds) = map node_of ts"
    "distinct (map cc_id (olds ts @ dels))" "set (olds ts @ dels) = set ds"
proof -
  obtain a m where place: "in_place a m ts" using assms(2) by (auto simp: reconciles_def)
  have all: "mset (olds ts @ dels) = mset ds" using assms(2) by (simp add: reconciles_def)
  then have "mset (map cc_id (olds ts @ dels)) = mset (map cc_id ds)" by (simp only: mset_map)
  then have "distinct (map cc_id (olds ts @ dels)) = distinct (map cc_id ds)" by (rule mset_eq_imp_distinct_iff)
  then show ids: "distinct (map cc_id (olds ts @ dels))" using assms(1) by (simp add: siblings_def)
  show set: "set (olds ts @ dels) = set ds" using all by (rule mset_eq_setD)
  let ?ns = "filter (\<lambda>n. n \<notin> (Old_node \<circ> cc_id) ` set dels) (old_nodes ds)"
  have inj: "inj_on cc_id (set ds)" using assms(1) by (simp add: siblings_def distinct_map)
  have gone: "Old_node (cc_id c) \<in> (Old_node \<circ> cc_id) ` set dels \<longleftrightarrow> c \<notin> set (olds ts)" if "c \<in> set ds" for c
    using that ids set inj by (fastforce simp: inj_on_def)
  have left: "?ns = old_nodes (filter (\<lambda>c. c \<in> set (olds ts)) ds)"
    unfolding old_nodes_def filter_map comp_def using gone by (intro arg_cong [where f = "map _"] filter_cong) (auto simp: comp_def)
  have sub: "set (olds (stable ts)) \<subseteq> set ds" using olds_stable set by auto
  have "filter (\<lambda>c. c \<in> set (olds (stable ts))) ds = olds (stable ts)"
  proof (rule ordered_unique [of cc_index])
    show "sorted_wrt (<) (map cc_index (filter (\<lambda>c. c \<in> set (olds (stable ts))) ds))"
      using assms(1) by (simp add: siblings_def sorted_wrt_map sorted_wrt_filter)
    show "sorted_wrt (<) (map cc_index (olds (stable ts)))" using place by (simp add: in_place_def)
  qed (use sub in auto)
  moreover have "filter (\<lambda>c. c \<in> set (olds (stable ts))) (filter (\<lambda>c. c \<in> set (olds ts)) ds) =
      filter (\<lambda>c. c \<in> set (olds (stable ts))) ds"
    unfolding filter_filter using olds_stable by (intro filter_cong) auto
  ultimately have order: "filter (\<lambda>c. c \<in> set (olds (stable ts))) (filter (\<lambda>c. c \<in> set (olds ts)) ds) = olds (stable ts)"
    by simp
  have stay: "map node_of (stable ts) = old_nodes (olds (stable ts))"
    by (rule node_of_stable) (use place in \<open>simp add: in_place_def\<close>)
  have "among ([] @ map node_of (stable ts)) (Old_node (cc_id c)) \<longleftrightarrow> c \<in> set (olds (stable ts))" if "c \<in> set ds" for c
    using that sub inj unfolding stay by (auto simp: among_def old_nodes_def inj_on_def)
  then have "filter (among ([] @ map node_of (stable ts))) ?ns =
      old_nodes (filter (\<lambda>c. c \<in> set (olds (stable ts))) (filter (\<lambda>c. c \<in> set (olds ts)) ds))"
    unfolding left unfolding old_nodes_def filter_map comp_def
    by (intro arg_cong [where f = "map _"] filter_cong) auto
  then have start: "filter (among ([] @ map node_of (stable ts))) ?ns = [] @ map node_of (stable ts)"
    unfolding order stay by simp
  have dist: "distinct ([] @ map node_of ts)"
    using distinct_nodes [of ts] ids place by (simp add: in_place_def)
  from commit_placements_order [OF dist start]
  have fin: "filter (among (map node_of ts)) (commit_placements ts ?ns) = map node_of ts"
    and within: "set (commit_placements ts ?ns) \<subseteq> set ?ns \<union> set (map node_of ts)" by simp_all
  have "set ?ns \<subseteq> set (map node_of ts)"
  proof
    fix n assume "n \<in> set ?ns"
    then obtain c where "n = Old_node (cc_id c)" "c \<in> set (olds ts)" unfolding left by (auto simp: old_nodes_def)
    then obtain t where "t \<in> set ts" "node_of t = n" by (auto simp: mem_olds node_of_def)
    then show "n \<in> set (map node_of ts)" by auto
  qed
  then have "filter (among (map node_of ts)) (commit_placements ts ?ns) = commit_placements ts ?ns"
    using within by (intro filter_True) (auto simp: among_def)
  then show "commit_children (ts, dels) (old_nodes ds) = map node_of ts"
    using fin by (simp add: commit_children_def)
qed


text \<open>Three keyed elements are rotated, and a fourth is new.\<close>

definition keyed_sibling :: "nat \<Rightarrow> string \<Rightarrow> nat current_child" where
  "keyed_sibling i k =
     \<lparr>cc_id = i, cc_kind = Type_kind 0 (Some 0), cc_key = Some k, cc_index = i, cc_flags = 0\<rparr>"

definition rotated :: "(nat, unit) node" where
  "rotated = Many [Element (Some ''c'') 0 (), Element (Some ''a'') 0 (), Element (Some ''d'') 0 (), Element (Some ''b'') 0 ()]"


subsection \<open>Keys\<close>

fun node_key :: "('ty, 'p) node \<Rightarrow> string option" where
  "node_key (Element k ty p) = k"
| "node_key (Fragment k c) = k"
| "node_key (Portal k c i n) = k"
| "node_key (Deferred (Some n)) = node_key n"
| "node_key _ = None"

lemma update_slot_key: "update_slot rs old x = Child g \<Longrightarrow> node_key x = Option.bind old cc_key"
  by (induction rs old x rule: update_slot.induct) (auto split: if_splits)

lemma update_from_map_place:
  assumes "update_from_map rs m n x = Child g" "map_ok m" "wc_alternate g = Some c"
  shows "place_of (wc_key g) n = At_index n \<or> place_of (wc_key g) n = place_of (node_key x) n"
proof -
  have "\<exists>p. map_of m p = Some c \<and> (p = At_index n \<or> p = place_of (node_key x) n) \<and> wc_key g = cc_key c"
    using assms(1,3) by (induction rs m n x rule: update_from_map.induct) (fastforce dest: update_key)+
  then obtain p where p: "map_of m p = Some c" "p = At_index n \<or> p = place_of (node_key x) n" "wc_key g = cc_key c"
    by blast
  have "p = place_at c" using map_of_SomeD [OF p(1)] assms(2) by (auto simp: map_ok_def)
  with p(2,3) show ?thesis by (auto simp: place_at_def place_of_def split: option.splits)
qed

text \<open>The child of \<open>k\<close> has its old fiber and the new props.\<close>

definition keeps_fiber :: "'ty current_child \<Rightarrow> 'p \<Rightarrow> ('ty, 'p) work_child list \<Rightarrow> bool" where
  "keeps_fiber c p ts \<longleftrightarrow> 
     (\<exists>t\<in>set ts. wc_alternate t = Some c \<and> wc_key t = cc_key c \<and> wc_props t = Element_props p)"

definition only_with_key :: "string \<Rightarrow> 'ty \<Rightarrow> 'p \<Rightarrow> ('ty, 'p) node list \<Rightarrow> bool" where
  "only_with_key k ty p xs \<longleftrightarrow> filter (\<lambda>y. node_key y = Some k) xs = [Element (Some k) ty p]"

lemma only_with_key_Cons:
  "only_with_key k ty p (y # ys) \<longleftrightarrow>
     (if node_key y = Some k then y = Element (Some k) ty p \<and> filter (\<lambda>y. node_key y = Some k) ys = []
      else only_with_key k ty p ys)"
  by (auto simp: only_with_key_def)

lemma reuse_element:
  assumes "same_type rs ty c" "place_child e (update_element rs (Some c) k ty p) a m = (t, a')"
  shows "wc_alternate t = Some c" "wc_key t = cc_key c" "wc_props t = Element_props p"
  using assms by (auto simp: update_element_def use_fiber_def place_child_def Let_def split: if_splits)

lemma match_in_order_extends:
  "match_in_order rs e ds xs a m acc dels = Some (ds1, xs1, a1, m1, acc1, dels1) \<Longrightarrow> set acc \<subseteq> set acc1"
proof (induction xs arbitrary: ds a m acc dels)
  case (Cons x xs)
  show ?case
  proof (cases ds)
    case (Cons d ds')
    then show ?thesis using Cons.prems Cons.IH
      by (fastforce simp: Let_def split: slot.splits prod.splits if_splits)
  qed (use Cons.prems in simp)
qed (cases ds; simp)

lemma match_by_key_extends:
  "match_by_key rs e d xs a m acc = Some (d1, acc1) \<Longrightarrow> set acc \<subseteq> set acc1"
  by (induction xs arbitrary: d a m acc) (fastforce simp: Let_def split: slot.splits prod.splits)+

lemma create_rest_extends: "create_rest rs e xs a m acc = Some acc1 \<Longrightarrow> set acc \<subseteq> set acc1"
  by (induction xs arbitrary: a m acc) (fastforce split: slot.splits prod.splits)+

lemma match_in_order_keeps:
  assumes "match_in_order rs True ds xs a m acc dels = Some (ds1, xs1, a1, m1, acc1, dels1)"
    "matching all ds a m acc dels" "distinct (map place_at ds)" "c \<in> set ds" "cc_key c = Some k"
    "same_type rs ty c" "only_with_key k ty p xs"
  shows "keeps_fiber c p acc1 \<or> c \<in> set ds1 \<and> only_with_key k ty p xs1"
  using assms
proof (induction xs arbitrary: ds a m acc dels)
  case Nil
  then show ?case by (simp add: only_with_key_def)
next
  case (Cons x xs)
  obtain d ds' where ds: "ds = d # ds'" using Cons.prems(4) by (cases ds) auto
  have only: "d' = c" if "d' \<in> set ds" "cc_key d' = Some k" for d'
  proof -
    have "place_at d' = place_at c" using that(2) Cons.prems(5) by (simp add: place_at_def place_of_def)
    then show ?thesis using Cons.prems(3,4) that(1) by (metis distinct_map inj_onD)
  qed
  from Cons.prems(1,2) [unfolded ds] show ?case
  proof (cases rule: match_in_order_step)
    case stop
    then show ?thesis using Cons.prems(4,7) ds by simp
  next
    case (go g g1 a1' h dels1')
    note key = update_slot_key [OF go(1)]
    show ?thesis
    proof (cases "node_key x = Some k")
      case True
      then have "\<not> cc_index d > m" "cc_key d = Some k" using key by (auto split: if_splits)
      with only ds have d: "d = c" "\<not> cc_index c > m" by auto
      have x: "x = Element (Some k) ty p" using Cons.prems(7) True by (simp add: only_with_key_Cons)
      have "g = update_element rs (Some c) (Some k) ty p" using go(1) d x Cons.prems(5) by simp
      from reuse_element [OF Cons.prems(6) go(2) [unfolded this]] have "keeps_fiber c p (g1 # acc)"
        by (simp add: keeps_fiber_def)
      then show ?thesis using match_in_order_extends [OF go(4)] by (auto simp: keeps_fiber_def)
    next
      case False
      then have "only_with_key k ty p xs" using Cons.prems(7) by (simp add: only_with_key_Cons)
      moreover have "c \<in> set h"
      proof (cases "cc_index d > m")
        case inside: False
        then have "cc_key d \<noteq> Some k" using False key by simp
        then show ?thesis using Cons.prems(4,5) ds go(3) inside by auto
      qed (use Cons.prems(4) ds go(3) in simp)
      moreover have "distinct (map place_at h)" using Cons.prems(3) ds go(3) by simp
      ultimately show ?thesis using Cons.IH [OF go(4,5)] Cons.prems(5,6) by blast
    qed
  qed
qed

lemma match_by_key_keeps:
  "match_by_key rs True d xs a m acc = Some (d1, acc1) \<Longrightarrow> map_ok d \<Longrightarrow> map_of d (At_key k) = Some c \<Longrightarrow>
   same_type rs ty c \<Longrightarrow> only_with_key k ty p xs \<Longrightarrow> keeps_fiber c p acc1"
proof (induction xs arbitrary: d a m acc)
  case Nil
  then show ?case by (simp add: only_with_key_def)
next
  case (Cons x xs)
  show ?case
  proof (cases "node_key x = Some k")
    case True
    then have x: "x = Element (Some k) ty p" using Cons.prems(5) by (simp add: only_with_key_Cons)
    obtain g1 a1 where place: "place_child True (update_element rs (Some c) (Some k) ty p) a m = (g1, a1)" by fastforce
    have "keeps_fiber c p (g1 # acc)" using reuse_element [OF Cons.prems(4) place] by (simp add: keeps_fiber_def)
    moreover have "set (g1 # acc) \<subseteq> set acc1"
      using Cons.prems(1,3) x place by (intro match_by_key_extends) (simp add: place_of_def)
    ultimately show ?thesis by (auto simp: keeps_fiber_def)
  next
    case False
    then have only: "only_with_key k ty p xs" using Cons.prems(5) by (simp add: only_with_key_Cons)
    show ?thesis
    proof (cases "update_from_map rs d m x")
      case Null
      then show ?thesis using Cons.IH [OF _ Cons.prems(2-4) only] Cons.prems(1) by simp
    next
      case (Child g)
      obtain g1 a1 where place: "place_child True g a m = (g1, a1)" by fastforce
      show ?thesis
      proof (cases "wc_alternate g")
        case None
        then show ?thesis using Cons.IH [OF _ Cons.prems(2-4) only] Cons.prems(1) Child place by simp
      next
        case (Some b)
        let ?d = "AList.delete (place_of (wc_key g) m) d"
        note at = update_from_map_facts(2) [OF Child Cons.prems(2) Some]
        have "place_of (wc_key g) m \<noteq> At_key k"
          using update_from_map_place [OF Child Cons.prems(2) Some] False by (auto simp: place_of_def split: option.splits)
        then have "map_of ?d (At_key k) = Some c" using Cons.prems(3) by (simp add: delete_conv)
        then show ?thesis
          using Cons.IH [OF _ delete_entry(2) [OF Cons.prems(2) at] _ Cons.prems(4) only] Cons.prems(1) Child place Some
          by simp
      qed
    qed (use Cons.prems(1) in simp)
  qed
qed

text \<open>C19: A child with a key keeps its state wherever it goes. When the children are an array and exactly one
  of them has the key of an old child, at whatever position, and it is an element of the same type, then its
  fiber is the old one with the new props; it is not mounted anew.\<close>

theorem keyed_child_is_kept:
  assumes "siblings ds" "reconcile_children rs True ds (Many xs) = Some (ts, dels)"
    "c \<in> set ds" "cc_key c = Some k" "same_type rs ty c"
    "filter (\<lambda>y. node_key y = Some k) xs = [Element (Some k) ty p]"
  shows "\<exists>t\<in>set ts. wc_alternate t = Some c \<and> wc_key t = Some k \<and> wc_props t = Element_props p"
proof -
  have only: "only_with_key k ty p xs" using assms(6) by (simp add: only_with_key_def)
  have run: "reconcile_array rs True ds xs = Some (ts, dels)" using assms(2) by (simp add: reconcile_children_def)
  obtain ds1 xs1 a m acc dels1 where first: "match_in_order rs True ds xs 0 0 [] [] = Some (ds1, xs1, a, m, acc, dels1)"
    using run by (auto simp: reconcile_array_def split: option.splits)
  have start: "matching (mset ds) ds 0 0 ([] :: ('a, 'b) work_child list) []" "distinct (map place_at ds)"
    using assms(1) by (simp_all add: matching_def siblings_def strict_sorted_iff)
  from match_in_order_matching [OF first start(1)] have keys: "distinct (map place_at ds1)" using start(2) by auto
  from match_in_order_keeps [OF first start assms(3-5) only]
  have "keeps_fiber c p ts"
  proof
    assume kept: "keeps_fiber c p acc"
    obtain acc1 where "ts = rev acc1" "set acc \<subseteq> set acc1"
      using run first match_by_key_extends create_rest_extends
      by (fastforce simp: reconcile_array_def split: option.splits if_splits)
    then show ?thesis using kept by (auto simp: keeps_fiber_def)
  next
    assume rest: "c \<in> set ds1 \<and> only_with_key k ty p xs1"
    then have "xs1 \<noteq> []" "ds1 \<noteq> []" by (auto simp: only_with_key_def)
    then obtain d1 acc1 where "match_by_key rs True (map_remaining ds1) xs1 a m acc = Some (d1, acc1)" "ts = rev acc1"
      using run first by (auto simp: reconcile_array_def split: option.splits)
    moreover have "map_of (map_remaining ds1) (At_key k) = Some c"
      using rest assms(4) map_remaining_map_ok [OF keys]
      by (force simp: map_remaining_ok [OF keys] map_ok_def place_at_def place_of_def intro: map_of_is_SomeI)
    ultimately show ?thesis
      using match_by_key_keeps [OF _ map_remaining_map_ok [OF keys] _ assms(5)] rest by (fastforce simp: keeps_fiber_def)
  qed
  then show ?thesis using assms(4) by (simp add: keeps_fiber_def)
qed

theorem keyed_child_is_kept_witness:
  "\<exists>ts. reconcile_children (\<lambda>_. None) True [keyed_sibling 0 ''a'', keyed_sibling 1 ''b'', keyed_sibling 2 ''c''] rotated
     = Some (ts, []) \<and> (\<exists>t\<in>set ts. wc_alternate t = Some (keyed_sibling 2 ''c''))"
proof -
  let ?ds = "[keyed_sibling 0 ''a'', keyed_sibling 1 ''b'', keyed_sibling 2 ''c'']"
  have ds: "siblings ?ds" by (simp add: siblings_def keyed_sibling_def place_at_def place_of_def)
  obtain ts where run: "reconcile_children (\<lambda>_. None) True ?ds rotated = Some (ts, [])"
    by (simp add: reconcile_children_def rotated_def reconcile_array_def keyed_sibling_def update_element_def
        same_type_def map_remaining_def place_of_def place_child_def use_fiber_def new_child_def element_child_def Let_def)
  have "\<exists>t\<in>set ts. wc_alternate t = Some (keyed_sibling 2 ''c'') \<and> wc_key t = Some ''c'' \<and> wc_props t = Element_props ()"
    by (rule keyed_child_is_kept [OF ds run [unfolded rotated_def], of _ _ 0])
      (simp_all add: keyed_sibling_def same_type_def)
  then show ?thesis using run by blast
qed

end
