(* ===== verification/React_Hooks.thy ===== *)
theory React_Hooks
  imports Prelude "HOL-Library.Word"
begin

unbundle bit_operations_syntax

text \<open>
  The hooks of a function component other than its states: React's effects, memos, callbacks, refs and
  effect events as bundled into \<open>app.js\<close> (lines 12088 to 12177 and 12494 to 12582, with the dispatchers of
  12767 to 12904), and the commit of effects (13771 to 13817, and what calls it). A render is the list of
  hook calls it makes. The objects that renders share, an effect's \<open>inst\<close>, a ref and an event's \<open>ref\<close>, live
  in a store and are numbers; \<open>destroys\<close> is the \<open>destroy\<close> of every \<open>inst\<close>. What an effect's functions do is
  the application's: \<open>run\<close> and \<open>stop\<close> act on a world of any type, and may throw.
  Values are compared as \<open>Object.is\<close> does. Updates a component makes of itself while it renders, and hooks
  of another kind in the same place, are not modelled.
\<close>

subsection \<open>Hooks\<close>

record ('c, 'v) effect_object =
  effect_tag :: "32 word"
  create :: 'c
  deps :: "'v list option"
  inst :: nat

text \<open>The \<open>memoizedState\<close> of a hook, by its kind.\<close>

datatype ('c, 'v) hook_cell =
    Effect_cell "('c, 'v) effect_object"
  | Memo_cell 'v "'v list option"
  | Ref_cell nat
  | Event_cell nat

text \<open>A fiber's hooks and update queue: its effects in order, and the new functions of its events.\<close>

record ('c, 'v) component_fiber =
  cells :: "('c, 'v) hook_cell list"
  effects :: "('c, 'v) effect_object list"
  events :: "(nat \<times> 'c) list"
  fiber_flags :: "32 word"

datatype effect_kind = Passive_kind | Layout_kind | Insertion_kind

fun kind_tag :: "effect_kind \<Rightarrow> 32 word" where
  "kind_tag Passive_kind = 8"
| "kind_tag Layout_kind = 4"
| "kind_tag Insertion_kind = 2"

fun mount_flags :: "effect_kind \<Rightarrow> 32 word" where
  "mount_flags Passive_kind = 8390656"
| "mount_flags Layout_kind = 4194308"
| "mount_flags Insertion_kind = 4"

fun update_flags :: "effect_kind \<Rightarrow> 32 word" where
  "update_flags Passive_kind = 2048"
| "update_flags Layout_kind = 4"
| "update_flags Insertion_kind = 4"

text \<open>
  A hook call. For \<open>useMemo\<close> the value is what its function would give; a callback is a memo of the
  function itself.
\<close>

datatype ('c, 'v) hook_use =
    Use_effect effect_kind 'c "'v list option"
  | Use_memo 'v "'v list option"
  | Use_ref 'v
  | Use_effect_event 'c

datatype 'v hook_result = No_result | Value 'v | Ref nat | Event nat

datatype hook_error = More_hooks | Fewer_hooks | Wrong_kind

text \<open>What the renders of a component share and what its effects have done.\<close>

datatype ('c, 'd) effect_trace = Set_up nat 'c "'d option" | Cleaned nat 'd

record ('c, 'v, 'd, 'x, 'w) hook_objects =
  destroys :: "nat \<Rightarrow> 'd option"
  next_inst :: nat
  ref_values :: "'v list"
  impls :: "'c list"
  world :: 'w
  reported :: "'x list"
  trace :: "('c, 'd) effect_trace list"

subsection \<open>Rendering\<close>

text \<open>The dependencies are compared as far as both lists go.\<close>

definition same_deps :: "'v list \<Rightarrow> 'v list option \<Rightarrow> bool" where
  "same_deps e t = (case t of None \<Rightarrow> False | Some t \<Rightarrow> list_all (\<lambda>(a, b). a = b) (zip e t))"

definition unchanged :: "'v list option \<Rightarrow> 'v list option \<Rightarrow> bool" where
  "unchanged t old = (case t of None \<Rightarrow> False | Some e \<Rightarrow> same_deps e old)"

text \<open>
  A render that goes on: the new fiber, the hooks of the current one that are left, and whether any of
  them has been reached.
\<close>

record ('c, 'v) hook_render =
  work :: "('c, 'v) component_fiber"
  hooks_left :: "('c, 'v) hook_cell list"
  reached_hook :: bool
  results :: "'v hook_result list"

definition add_hook ::
  "('c, 'v) hook_cell \<Rightarrow> 'v hook_result \<Rightarrow> ('c, 'v) hook_render \<Rightarrow> ('c, 'v) hook_render" where
  "add_hook c v r = r\<lparr>work := (work r)\<lparr>cells := cells (work r) @ [c]\<rparr>, results := results r @ [v]\<rparr>"

definition push_effect :: "('c, 'v) effect_object \<Rightarrow> ('c, 'v) hook_render \<Rightarrow> ('c, 'v) hook_render" where
  "push_effect e r = r\<lparr>work := (work r)\<lparr>effects := effects (work r) @ [e]\<rparr>\<rparr>"

definition raise_flags :: "32 word \<Rightarrow> ('c, 'v) hook_render \<Rightarrow> ('c, 'v) hook_render" where
  "raise_flags e r = r\<lparr>work := (work r)\<lparr>fiber_flags := fiber_flags (work r) OR e\<rparr>\<rparr>"

definition push_event_impl :: "nat \<Rightarrow> 'c \<Rightarrow> ('c, 'v) hook_render \<Rightarrow> ('c, 'v) hook_render" where
  "push_event_impl k c r = raise_flags 4 (r\<lparr>work := (work r)\<lparr>events := events (work r) @ [(k, c)]\<rparr>\<rparr>)"

definition mount_hook ::
  "('c, 'v) hook_use \<Rightarrow> ('c, 'v) hook_render \<times> ('c, 'v, 'd, 'x, 'w) hook_objects \<Rightarrow>
    ('c, 'v) hook_render \<times> ('c, 'v, 'd, 'x, 'w) hook_objects" where
  "mount_hook u ro =
     (case ro of (r, objs) \<Rightarrow>
        case u of
          Use_effect k c d \<Rightarrow>
            (let e = \<lparr>effect_tag = 1 OR kind_tag k, create = c, deps = d, inst = next_inst objs\<rparr>
             in (push_effect e (raise_flags (mount_flags k) (add_hook (Effect_cell e) No_result r)),
                 objs\<lparr>next_inst := next_inst objs + 1, destroys := (destroys objs)(next_inst objs := None)\<rparr>))
        | Use_memo v d \<Rightarrow> (add_hook (Memo_cell v d) (Value v) r, objs)
        | Use_ref v \<Rightarrow>
            (add_hook (Ref_cell (length (ref_values objs))) (Ref (length (ref_values objs))) r,
             objs\<lparr>ref_values := ref_values objs @ [v]\<rparr>)
        | Use_effect_event c \<Rightarrow>
            (add_hook (Event_cell (length (impls objs))) (Event (length (impls objs))) r,
             objs\<lparr>impls := impls objs @ [c]\<rparr>))"

text \<open>The next hook of the current fiber.\<close>

definition next_hook ::
  "('c, 'v) hook_render \<Rightarrow> hook_error + ('c, 'v) hook_cell \<times> ('c, 'v) hook_render" where
  "next_hook r =
     (case hooks_left r of
        [] \<Rightarrow> Inl More_hooks
      | c # cs \<Rightarrow> Inr (c, r\<lparr>hooks_left := cs, reached_hook := True\<rparr>))"

definition update_hook ::
  "('c, 'v) hook_use \<Rightarrow> ('c, 'v) hook_render \<Rightarrow> hook_error + ('c, 'v) hook_render" where
  "update_hook u r =
     (case next_hook r of
        Inl x \<Rightarrow> Inl x
      | Inr (old, r1) \<Rightarrow>
          case (u, old) of
            (Use_effect k c d, Effect_cell o') \<Rightarrow>
              (if unchanged d (deps o')
               then (let e = \<lparr>effect_tag = kind_tag k, create = c, deps = d, inst = inst o'\<rparr>
                     in Inr (push_effect e (add_hook (Effect_cell e) No_result r1)))
               else (let e = \<lparr>effect_tag = 1 OR kind_tag k, create = c, deps = d, inst = inst o'\<rparr>
                     in Inr (push_effect e (raise_flags (update_flags k) (add_hook (Effect_cell e) No_result r1)))))
          | (Use_memo v d, Memo_cell w d') \<Rightarrow>
              (if unchanged d d' then Inr (add_hook (Memo_cell w d') (Value w) r1)
               else Inr (add_hook (Memo_cell v d) (Value v) r1))
          | (Use_ref v, Ref_cell k) \<Rightarrow> Inr (add_hook (Ref_cell k) (Ref k) r1)
          | (Use_effect_event c, Event_cell k) \<Rightarrow> Inr (push_event_impl k c (add_hook (Event_cell k) (Event k) r1))
          | _ \<Rightarrow> Inl Wrong_kind)"

fun mount_hooks ::
  "('c, 'v) hook_use list \<Rightarrow> ('c, 'v) hook_render \<times> ('c, 'v, 'd, 'x, 'w) hook_objects \<Rightarrow>
    ('c, 'v) hook_render \<times> ('c, 'v, 'd, 'x, 'w) hook_objects" where
  "mount_hooks [] ro = ro"
| "mount_hooks (u # us) ro = mount_hooks us (mount_hook u ro)"

fun update_hooks ::
  "('c, 'v) hook_use list \<Rightarrow> ('c, 'v) hook_render \<Rightarrow> hook_error + ('c, 'v) hook_render" where
  "update_hooks [] r = (if reached_hook r \<and> hooks_left r \<noteq> [] then Inl Fewer_hooks else Inr r)"
| "update_hooks (u # us) r = (case update_hook u r of Inl x \<Rightarrow> Inl x | Inr r' \<Rightarrow> update_hooks us r')"

definition start_hooks :: "32 word \<Rightarrow> ('c, 'v) hook_cell list \<Rightarrow> ('c, 'v) hook_render" where
  "start_hooks f old =
     \<lparr>work = \<lparr>cells = [], effects = [], events = [], fiber_flags = f\<rparr>, hooks_left = old,
      reached_hook = False, results = []\<rparr>"

text \<open>\<open>renderWithHooks\<close>: without a current fiber, or one without hooks, the hooks are mounted.\<close>

definition render_with_hooks ::
  "('c, 'v) component_fiber option \<Rightarrow> 32 word \<Rightarrow> ('c, 'v) hook_use list \<Rightarrow> ('c, 'v, 'd, 'x, 'w) hook_objects \<Rightarrow>
    hook_error + ('c, 'v) hook_render \<times> ('c, 'v, 'd, 'x, 'w) hook_objects" where
  "render_with_hooks e f us objs =
     (case e of
        Some g \<Rightarrow>
          if cells g = [] then Inr (mount_hooks us (start_hooks f [], objs))
          else (case update_hooks us (start_hooks f (cells g)) of Inl x \<Rightarrow> Inl x | Inr r \<Rightarrow> Inr (r, objs))
      | None \<Rightarrow> Inr (mount_hooks us (start_hooks f [], objs)))"

text \<open>\<open>bailoutHooks\<close>: the effects of the last render stay, and none of them is due.\<close>

definition bailout_hooks ::
  "('c, 'v) component_fiber \<Rightarrow> ('c, 'v) component_fiber \<Rightarrow> ('c, 'v) component_fiber" where
  "bailout_hooks e t =
     t\<lparr>effects := effects e, events := events e, fiber_flags := fiber_flags t AND - 2053\<rparr>"

subsection \<open>Committing\<close>

definition has_tag :: "32 word \<Rightarrow> ('c, 'v) effect_object \<Rightarrow> bool" where
  "has_tag e n \<longleftrightarrow> effect_tag n AND e = e"

text \<open>\<open>commitHookEffectListMount\<close>: a setup that throws is reported and ends the loop.\<close>

fun mount_effects ::
  "('c \<Rightarrow> 'w \<Rightarrow> ('x + 'd option) \<times> 'w) \<Rightarrow> 32 word \<Rightarrow> ('c, 'v) effect_object list \<Rightarrow>
    ('c, 'v, 'd, 'x, 'w) hook_objects \<Rightarrow> ('c, 'v, 'd, 'x, 'w) hook_objects" where
  "mount_effects run e [] s = s"
| "mount_effects run e (n # ns) s =
     (if has_tag e n
      then (case run (create n) (world s) of
              (Inl x, w) \<Rightarrow> s\<lparr>world := w, reported := reported s @ [x]\<rparr>
            | (Inr r, w) \<Rightarrow>
                mount_effects run e ns
                  (s\<lparr>world := w, destroys := (destroys s)(inst n := r), trace := trace s @ [Set_up (inst n) (create n) r]\<rparr>))
      else mount_effects run e ns s)"

text \<open>\<open>commitHookEffectListUnmount\<close>: a cleanup that throws is reported, and the next one runs.\<close>

fun unmount_effects ::
  "('d \<Rightarrow> 'w \<Rightarrow> 'x option \<times> 'w) \<Rightarrow> 32 word \<Rightarrow> ('c, 'v) effect_object list \<Rightarrow>
    ('c, 'v, 'd, 'x, 'w) hook_objects \<Rightarrow> ('c, 'v, 'd, 'x, 'w) hook_objects" where
  "unmount_effects stop e [] s = s"
| "unmount_effects stop e (n # ns) s =
     unmount_effects stop e ns
       (if has_tag e n
        then (case destroys s (inst n) of
                None \<Rightarrow> s
              | Some d \<Rightarrow>
                  (case stop d (world s) of
                     (x, w) \<Rightarrow>
                       s\<lparr>destroys := (destroys s)(inst n := None), world := w,
                         reported := reported s @ (case x of Some y \<Rightarrow> [y] | None \<Rightarrow> []),
                         trace := trace s @ [Cleaned (inst n) d]\<rparr>))
        else s)"

definition commit_events ::
  "('c, 'v) component_fiber \<Rightarrow> ('c, 'v, 'd, 'x, 'w) hook_objects \<Rightarrow> ('c, 'v, 'd, 'x, 'w) hook_objects" where
  "commit_events f s =
     (if fiber_flags f AND 4 \<noteq> 0 then s\<lparr>impls := foldl (\<lambda>m (k, c). m[k := c]) (impls s) (events f)\<rparr> else s)"

text \<open>What the commit of a fiber does with its effects: before the mutation, in it, and after it.\<close>

definition commit_effects ::
  "('c \<Rightarrow> 'w \<Rightarrow> ('x + 'd option) \<times> 'w) \<Rightarrow> ('d \<Rightarrow> 'w \<Rightarrow> 'x option \<times> 'w) \<Rightarrow> ('c, 'v) component_fiber \<Rightarrow>
    ('c, 'v, 'd, 'x, 'w) hook_objects \<Rightarrow> ('c, 'v, 'd, 'x, 'w) hook_objects" where
  "commit_effects run stop f s =
     (let s1 = commit_events f s
      in if fiber_flags f AND 4 \<noteq> 0
         then mount_effects run 5 (effects f)
                (unmount_effects stop 5 (effects f)
                  (mount_effects run 3 (effects f) (unmount_effects stop 3 (effects f) s1)))
         else s1)"

text \<open>\<open>flushPassiveEffects\<close>, for this fiber.\<close>

definition flush_passive ::
  "('c \<Rightarrow> 'w \<Rightarrow> ('x + 'd option) \<times> 'w) \<Rightarrow> ('d \<Rightarrow> 'w \<Rightarrow> 'x option \<times> 'w) \<Rightarrow> ('c, 'v) component_fiber \<Rightarrow>
    ('c, 'v, 'd, 'x, 'w) hook_objects \<Rightarrow> ('c, 'v, 'd, 'x, 'w) hook_objects" where
  "flush_passive run stop f s =
     (if fiber_flags f AND 2048 \<noteq> 0
      then mount_effects run 9 (effects f) (unmount_effects stop 9 (effects f) s) else s)"

text \<open>The deletion of the component: its insertion and layout effects at once, the passive ones later.\<close>

definition delete_effects ::
  "('d \<Rightarrow> 'w \<Rightarrow> 'x option \<times> 'w) \<Rightarrow> ('c, 'v) component_fiber \<Rightarrow>
    ('c, 'v, 'd, 'x, 'w) hook_objects \<Rightarrow> ('c, 'v, 'd, 'x, 'w) hook_objects" where
  "delete_effects stop f s = unmount_effects stop 4 (effects f) (unmount_effects stop 2 (effects f) s)"

definition delete_passive ::
  "('d \<Rightarrow> 'w \<Rightarrow> 'x option \<times> 'w) \<Rightarrow> ('c, 'v) component_fiber \<Rightarrow>
    ('c, 'v, 'd, 'x, 'w) hook_objects \<Rightarrow> ('c, 'v, 'd, 'x, 'w) hook_objects" where
  "delete_passive stop f s = unmount_effects stop 8 (effects f) s"

subsection \<open>The life of a component\<close>

text \<open>
  \<open>passive_due\<close>: the passive effects of the last commit are still to be flushed, which React does before
  it renders again. A component that has used hooks does not come to use none.
\<close>

datatype life_stage = Alive | Deleted | Gone

record ('c, 'v, 'd, 'x, 'w) hook_life =
  current :: "('c, 'v) component_fiber option"
  passive_due :: bool
  stage :: life_stage
  objects :: "('c, 'v, 'd, 'x, 'w) hook_objects"

definition new_life :: "'w \<Rightarrow> ('c, 'v, 'd, 'x, 'w) hook_life" where
  "new_life w =
     \<lparr>current = None, passive_due = False, stage = Alive,
      objects = \<lparr>destroys = (\<lambda>_. None), next_inst = 0, ref_values = [], impls = [], world = w,
                 reported = [], trace = []\<rparr>\<rparr>"

definition commit_life ::
  "('c \<Rightarrow> 'w \<Rightarrow> ('x + 'd option) \<times> 'w) \<Rightarrow> ('d \<Rightarrow> 'w \<Rightarrow> 'x option \<times> 'w) \<Rightarrow> ('c, 'v) component_fiber \<Rightarrow>
    ('c, 'v, 'd, 'x, 'w) hook_objects \<Rightarrow> ('c, 'v, 'd, 'x, 'w) hook_life \<Rightarrow> ('c, 'v, 'd, 'x, 'w) hook_life" where
  "commit_life run stop f objs s =
     s\<lparr>current := Some f, passive_due := True, objects := commit_effects run stop f objs\<rparr>"

definition keeps_hooks :: "('c, 'v) component_fiber option \<Rightarrow> ('c, 'v) hook_use list \<Rightarrow> bool" where
  "keeps_hooks e us \<longleftrightarrow> us \<noteq> [] \<or> (case e of Some g \<Rightarrow> cells g = [] | None \<Rightarrow> True)"

inductive life_step ::
  "('c \<Rightarrow> 'w \<Rightarrow> ('x + 'd option) \<times> 'w) \<Rightarrow> ('d \<Rightarrow> 'w \<Rightarrow> 'x option \<times> 'w) \<Rightarrow>
    ('c, 'v, 'd, 'x, 'w) hook_life \<Rightarrow> ('c, 'v, 'd, 'x, 'w) hook_life \<Rightarrow> bool" for run stop where
  committed: "stage s = Alive \<Longrightarrow> \<not> passive_due s \<Longrightarrow> keeps_hooks (current s) us \<Longrightarrow>
    render_with_hooks (current s) f us (objects s) = Inr (r, objs) \<Longrightarrow>
    life_step run stop s (commit_life run stop (work r) objs s)"
| bailed_out: "stage s = Alive \<Longrightarrow> \<not> passive_due s \<Longrightarrow> keeps_hooks (current s) us \<Longrightarrow> current s = Some g \<Longrightarrow>
    render_with_hooks (current s) f us (objects s) = Inr (r, objs) \<Longrightarrow>
    life_step run stop s (commit_life run stop (bailout_hooks g (work r)) objs s)"
| given_up: "stage s = Alive \<Longrightarrow> \<not> passive_due s \<Longrightarrow> keeps_hooks (current s) us \<Longrightarrow>
    render_with_hooks (current s) f us (objects s) = Inr (r, objs) \<Longrightarrow>
    life_step run stop s (s\<lparr>objects := objs\<rparr>)"
| flushed: "current s = Some g \<Longrightarrow> passive_due s \<Longrightarrow> stage s = Alive \<Longrightarrow>
    life_step run stop s (s\<lparr>passive_due := False, objects := flush_passive run stop g (objects s)\<rparr>)"
| deleted: "current s = Some g \<Longrightarrow> \<not> passive_due s \<Longrightarrow> stage s = Alive \<Longrightarrow>
    life_step run stop s (s\<lparr>stage := Deleted, objects := delete_effects stop g (objects s)\<rparr>)"
| gone: "current s = Some g \<Longrightarrow> stage s = Deleted \<Longrightarrow>
    life_step run stop s (s\<lparr>stage := Gone, objects := delete_passive stop g (objects s)\<rparr>)"

end
