(* ===== verification/React_Hooks_Properties.thy ===== *)
theory React_Hooks_Properties
  imports React_Hooks
begin

unbundle bit_operations_syntax

text \<open>
  What the effects of a component promise: every setup is followed by its own cleanup before the effect
  is set up again and by the time the component is gone, whatever throws; and an update runs the effects
  whose dependencies have changed, all cleanups before all setups.
\<close>

subsection \<open>Pairing\<close>

text \<open>A trace in which no effect is set up twice without its cleanup, and nothing else is cleaned up.\<close>

fun note_effect :: "('c, 'd) effect_trace \<Rightarrow> (nat \<Rightarrow> 'd option) \<Rightarrow> (nat \<Rightarrow> 'd option) option" where
  "note_effect (Set_up i c r) m = (if m i = None then Some (m(i := r)) else None)"
| "note_effect (Cleaned i d) m = (if m i = Some d then Some (m(i := None)) else None)"

definition replay :: "('c, 'd) effect_trace list \<Rightarrow> (nat \<Rightarrow> 'd option) option" where
  "replay t = foldl (\<lambda>m e. Option.bind m (note_effect e)) (Some (\<lambda>_. None)) t"

lemma replay_Nil [simp]: "replay [] = Some (\<lambda>_. None)"
  by (simp add: replay_def)

lemma replay_snoc [simp]: "replay (t @ [e]) = Option.bind (replay t) (note_effect e)"
  by (simp add: replay_def)

definition paired :: "('c, 'v, 'd, 'x, 'w) hook_objects \<Rightarrow> bool" where
  "paired s \<longleftrightarrow> replay (trace s) = Some (destroys s)"

text \<open>What the two loops of a commit do to the pairing.\<close>

definition tagged :: "32 word \<Rightarrow> ('c, 'v) effect_object list \<Rightarrow> nat set" where
  "tagged e ns = inst ` {n \<in> set ns. has_tag e n}"

lemma tagged_simps [simp]:
  "tagged e [] = {}" "tagged e (n # ns) = (if has_tag e n then insert (inst n) (tagged e ns) else tagged e ns)"
  by (auto simp: tagged_def)

lemma unmount_effects_paired:
  "paired s \<Longrightarrow> paired (unmount_effects stop e ns s) \<and>
     destroys (unmount_effects stop e ns s) = (\<lambda>i. if i \<in> tagged e ns then None else destroys s i)"
proof (induction ns arbitrary: s)
  case Nil
  then show ?case by simp
next
  case (Cons n ns)
  show ?case
  proof (cases "has_tag e n \<and> destroys s (inst n) \<noteq> None")
    case False
    then have "unmount_effects stop e (n # ns) s = unmount_effects stop e ns s" by (auto split: option.split)
    with Cons False show ?thesis by (auto simp: fun_eq_iff)
  next
    case True
    then obtain d where d: "has_tag e n" "destroys s (inst n) = Some d" by auto
    obtain x w where stop: "stop d (world s) = (x, w)" by (cases "stop d (world s)")
    let ?s = "s\<lparr>destroys := (destroys s)(inst n := None), world := w,
      reported := reported s @ (case x of Some y \<Rightarrow> [y] | None \<Rightarrow> []), trace := trace s @ [Cleaned (inst n) d]\<rparr>"
    have "paired ?s" using Cons.prems d(2) by (simp add: paired_def)
    moreover have "unmount_effects stop e (n # ns) s = unmount_effects stop e ns ?s" using d stop by simp
    ultimately show ?thesis using Cons.IH [of ?s] d(1) by (auto simp: fun_eq_iff)
  qed
qed

lemma mount_effects_paired:
  assumes "paired s" "distinct (map inst ns)" "\<forall>i\<in>tagged e ns. destroys s i = None"
  shows "paired (mount_effects run e ns s) \<and>
    (\<forall>i. i \<notin> tagged e ns \<longrightarrow> destroys (mount_effects run e ns s) i = destroys s i)"
  using assms
proof (induction ns arbitrary: s)
  case Nil
  then show ?case by simp
next
  case (Cons n ns)
  show ?case
  proof (cases "has_tag e n")
    case False
    with Cons show ?thesis by simp
  next
    case True
    obtain a w where run: "run (create n) (world s) = (a, w)" by (cases "run (create n) (world s)")
    show ?thesis
    proof (cases a)
      case (Inl x)
      with Cons.prems(1) True run show ?thesis by (simp add: paired_def)
    next
      case (Inr r)
      let ?s = "s\<lparr>world := w, destroys := (destroys s)(inst n := r), trace := trace s @ [Set_up (inst n) (create n) r]\<rparr>"
      have fresh: "inst n \<notin> tagged e ns" using Cons.prems(2) by (auto simp: tagged_def)
      have "paired ?s" using Cons.prems(1,3) True by (simp add: paired_def)
      moreover have "\<forall>i\<in>tagged e ns. destroys ?s i = None" using Cons.prems(3) True fresh by auto
      ultimately have "paired (mount_effects run e ns ?s) \<and>
          (\<forall>i. i \<notin> tagged e ns \<longrightarrow> destroys (mount_effects run e ns ?s) i = destroys ?s i)"
        using Cons.IH [of ?s] Cons.prems(2) by simp
      then show ?thesis using True run Inr by auto
    qed
  qed
qed

text \<open>A cleanup and a setup of the same effects keep the pairing, and touch no other effect.\<close>

lemma rerun_paired:
  assumes "paired s" "distinct (map inst ns)"
  shows "paired (mount_effects run e ns (unmount_effects stop e ns s)) \<and>
    (\<forall>i. i \<notin> tagged e ns \<longrightarrow> destroys (mount_effects run e ns (unmount_effects stop e ns s)) i = destroys s i)"
  using unmount_effects_paired [OF assms(1), of stop e ns]
    mount_effects_paired [of "unmount_effects stop e ns s" ns e run] assms(2) by auto

lemma tagged_subset: "tagged e ns \<subseteq> inst ` set ns"
  by (auto simp: tagged_def)

definition dom_within :: "nat set \<Rightarrow> ('c, 'v, 'd, 'x, 'w) hook_objects \<Rightarrow> bool" where
  "dom_within A s \<longleftrightarrow> (\<forall>i. destroys s i \<noteq> None \<longrightarrow> i \<in> A)"

lemma commit_events_fields [simp]:
  "destroys (commit_events f s) = destroys s" "trace (commit_events f s) = trace s"
  "next_inst (commit_events f s) = next_inst s"
  by (simp_all add: commit_events_def)

lemma rerun_dom:
  assumes "paired s" "distinct (map inst ns)" "dom_within A s" "inst ` set ns \<subseteq> A"
  shows "dom_within A (mount_effects run e ns (unmount_effects stop e ns s))"
  unfolding dom_within_def
proof (intro allI impI)
  fix i assume i: "destroys (mount_effects run e ns (unmount_effects stop e ns s)) i \<noteq> None"
  show "i \<in> A"
  proof (cases "i \<in> tagged e ns")
    case True
    then show ?thesis using tagged_subset [of e ns] assms(4) by (meson subset_iff)
  next
    case False
    with i rerun_paired [OF assms(1,2), of run e stop] have "destroys s i \<noteq> None" by simp
    with assms(3) show ?thesis by (simp add: dom_within_def)
  qed
qed

lemma commit_effects_paired:
  assumes "paired s" "distinct (map inst (effects f))"
  shows "paired (commit_effects run stop f s)"
    "dom_within A s \<Longrightarrow> inst ` set (effects f) \<subseteq> A \<Longrightarrow> dom_within A (commit_effects run stop f s)"
proof -
  have s: "paired (commit_events f s)" "dom_within A (commit_events f s) = dom_within A s"
    using assms(1) by (simp_all add: paired_def dom_within_def)
  note once = rerun_paired [OF s(1) assms(2), of run 3 stop, THEN conjunct1]
  show "paired (commit_effects run stop f s)"
    using s(1) rerun_paired [OF once assms(2), of run 5 stop] by (simp add: commit_effects_def Let_def)
  assume A: "dom_within A s" "inst ` set (effects f) \<subseteq> A"
  then show "dom_within A (commit_effects run stop f s)"
    using s(2) rerun_dom [OF once assms(2) rerun_dom [OF s(1) assms(2) _ A(2)] A(2), of run 5 stop]
    by (simp add: commit_effects_def Let_def)
qed

lemma flush_passive_paired:
  assumes "paired s" "distinct (map inst (effects f))"
  shows "paired (flush_passive run stop f s)"
    "dom_within A s \<Longrightarrow> inst ` set (effects f) \<subseteq> A \<Longrightarrow> dom_within A (flush_passive run stop f s)"
  using rerun_paired [OF assms, of run 9 stop] rerun_dom [OF assms, of A run 9 stop] assms(1)
  by (simp_all add: flush_passive_def)

subsection \<open>What a render leaves\<close>

definition cell_insts :: "('c, 'v) hook_cell list \<Rightarrow> nat list" where
  "cell_insts cs = concat (map (\<lambda>c. case c of Effect_cell e \<Rightarrow> [inst e] | _ \<Rightarrow> []) cs)"

lemma cell_insts_simps [simp]:
  "cell_insts [] = []" "cell_insts (Effect_cell e # cs) = inst e # cell_insts cs"
  "cell_insts (Memo_cell v d # cs) = cell_insts cs" "cell_insts (Ref_cell k # cs) = cell_insts cs"
  "cell_insts (Event_cell k # cs) = cell_insts cs" "cell_insts (cs @ ds) = cell_insts cs @ cell_insts ds"
  by (simp_all add: cell_insts_def)

definition effect_tags :: "32 word set" where
  "effect_tags = {2, 4, 8, 3, 5, 9}"

lemma kind_tags [simp]: "kind_tag k \<in> effect_tags" "1 OR kind_tag k \<in> effect_tags"
  by (cases k; simp add: effect_tags_def)+

definition tags_ok :: "('c, 'v) effect_object list \<Rightarrow> bool" where
  "tags_ok ns \<longleftrightarrow> (\<forall>n\<in>set ns. effect_tag n \<in> effect_tags)"

lemma tags_ok_simps [simp]:
  "tags_ok []" "tags_ok (ns @ ms) \<longleftrightarrow> tags_ok ns \<and> tags_ok ms"
  "tags_ok (n # ns) \<longleftrightarrow> effect_tag n \<in> effect_tags \<and> tags_ok ns"
  by (auto simp: tags_ok_def)

lemma render_fields [simp]:
  "cells (work (add_hook c v r)) = cells (work r) @ [c]" "effects (work (add_hook c v r)) = effects (work r)"
  "hooks_left (add_hook c v r) = hooks_left r" "reached_hook (add_hook c v r) = reached_hook r"
  "cells (work (push_effect e r)) = cells (work r)" "effects (work (push_effect e r)) = effects (work r) @ [e]"
  "hooks_left (push_effect e r) = hooks_left r" "reached_hook (push_effect e r) = reached_hook r"
  "cells (work (raise_flags x r)) = cells (work r)" "effects (work (raise_flags x r)) = effects (work r)"
  "hooks_left (raise_flags x r) = hooks_left r" "reached_hook (raise_flags x r) = reached_hook r"
  "cells (work (push_event_impl k f r)) = cells (work r)" "effects (work (push_event_impl k f r)) = effects (work r)"
  "hooks_left (push_event_impl k f r) = hooks_left r" "reached_hook (push_event_impl k f r) = reached_hook r"
  by (simp_all add: add_hook_def push_effect_def raise_flags_def push_event_impl_def)

lemma update_hook_cases:
  assumes "update_hook u r = Inr r'"
  shows "\<exists>c. hooks_left r = c # hooks_left r' \<and> reached_hook r' \<and>
    cell_insts (cells (work r')) = cell_insts (cells (work r)) @ cell_insts [c] \<and>
    map inst (effects (work r')) = map inst (effects (work r)) @ cell_insts [c] \<and>
    (tags_ok (effects (work r)) \<longrightarrow> tags_ok (effects (work r')))"
proof -
  obtain c cs where left: "hooks_left r = c # cs"
    using assms by (cases "hooks_left r") (simp_all add: update_hook_def next_hook_def)
  with assms show ?thesis
    by (cases u; cases c) (auto simp: update_hook_def next_hook_def Let_def split: if_splits)
qed

lemma update_hooks_insts:
  assumes "update_hooks us r = Inr r'" "reached_hook r \<or> us \<noteq> []"
  shows "cell_insts (cells (work r')) = cell_insts (cells (work r)) @ cell_insts (hooks_left r) \<and>
    map inst (effects (work r')) = map inst (effects (work r)) @ cell_insts (hooks_left r) \<and>
    (tags_ok (effects (work r)) \<longrightarrow> tags_ok (effects (work r')))"
  using assms
proof (induction us arbitrary: r)
  case Nil
  then show ?case by (simp split: if_splits)
next
  case (Cons u us)
  obtain r1 where r1: "update_hook u r = Inr r1" "update_hooks us r1 = Inr r'"
    using Cons.prems(1) by (simp split: sum.splits)
  from update_hook_cases [OF r1(1)] obtain c where
    c: "hooks_left r = c # hooks_left r1" "reached_hook r1"
      "cell_insts (cells (work r1)) = cell_insts (cells (work r)) @ cell_insts [c]"
      "map inst (effects (work r1)) = map inst (effects (work r)) @ cell_insts [c]"
      "tags_ok (effects (work r)) \<longrightarrow> tags_ok (effects (work r1))" by blast
  have "cell_insts (hooks_left r) = cell_insts [c] @ cell_insts (hooks_left r1)"
    unfolding c(1) by (metis append_Cons append_Nil cell_insts_simps(6))
  with Cons.IH [OF r1(2)] c(2-) show ?case by simp
qed

lemma mount_hooks_insts:
  assumes "mount_hooks us (r, objs) = (r', objs')" "dom_within {..<next_inst objs} objs"
  shows "next_inst objs \<le> next_inst objs' \<and> destroys objs' = destroys objs \<and> trace objs' = trace objs \<and>
    cell_insts (cells (work r')) = cell_insts (cells (work r)) @ [next_inst objs..<next_inst objs'] \<and>
    map inst (effects (work r')) = map inst (effects (work r)) @ [next_inst objs..<next_inst objs'] \<and>
    (tags_ok (effects (work r)) \<longrightarrow> tags_ok (effects (work r')))"
  using assms
proof (induction us arbitrary: r objs)
  case Nil
  then show ?case by simp
next
  case (Cons u us)
  obtain r1 o1 where 1: "mount_hook u (r, objs) = (r1, o1)" by (cases "mount_hook u (r, objs)")
  have none: "(destroys objs)(next_inst objs := None) = destroys objs"
    using Cons.prems(2) by (intro ext) (force simp: dom_within_def)
  have step: "next_inst o1 = next_inst objs \<and> cell_insts (cells (work r1)) = cell_insts (cells (work r)) \<and>
        map inst (effects (work r1)) = map inst (effects (work r)) \<or>
      next_inst o1 = next_inst objs + 1 \<and>
        cell_insts (cells (work r1)) = cell_insts (cells (work r)) @ [next_inst objs] \<and>
        map inst (effects (work r1)) = map inst (effects (work r)) @ [next_inst objs]"
    "destroys o1 = destroys objs" "trace o1 = trace objs"
    "tags_ok (effects (work r)) \<longrightarrow> tags_ok (effects (work r1))"
    using 1 none by (cases u; auto simp: mount_hook_def Let_def)+
  have "dom_within {..<next_inst o1} o1"
    using Cons.prems(2) step(1,2) by (auto simp: dom_within_def)
  from Cons.IH [OF _ this, of r1] Cons.prems(1) 1 step show ?case
    by (auto simp: upt_conv_Cons)
qed

text \<open>The fiber a component is on, and its objects.\<close>

definition good_fiber :: "nat \<Rightarrow> ('c, 'v) component_fiber \<Rightarrow> bool" where
  "good_fiber n g \<longleftrightarrow>
     distinct (cell_insts (cells g)) \<and> (\<forall>i\<in>set (cell_insts (cells g)). i < n) \<and>
     distinct (map inst (effects g)) \<and> inst ` set (effects g) \<subseteq> set (cell_insts (cells g)) \<and>
     tags_ok (effects g)"

lemma good_fiber_mono: "good_fiber n g \<Longrightarrow> n \<le> m \<Longrightarrow> good_fiber m g"
  by (auto simp: good_fiber_def)

lemma start_fields [simp]:
  "cells (work (start_hooks f old)) = []" "effects (work (start_hooks f old)) = []"
  "hooks_left (start_hooks f old) = old" "reached_hook (start_hooks f old) = False"
  by (simp_all add: start_hooks_def)

text \<open>Where the effects that wait for their cleanup are: with the current fiber.\<close>

definition objects_ok :: "('c, 'v) component_fiber option \<Rightarrow> ('c, 'v, 'd, 'x, 'w) hook_objects \<Rightarrow> bool" where
  "objects_ok e s \<longleftrightarrow> paired s \<and>
     (case e of
        None \<Rightarrow> dom_within {} s
      | Some g \<Rightarrow> good_fiber (next_inst s) g \<and> dom_within (inst ` set (effects g)) s)"

lemma objects_ok_dom: "objects_ok e s \<Longrightarrow> dom_within {..<next_inst s} s"
  by (force simp: objects_ok_def dom_within_def good_fiber_def split: option.splits)

lemma render_ok:
  assumes "objects_ok e s" "render_with_hooks e f us s = Inr (r, s')" "keeps_hooks e us"
  shows "destroys s' = destroys s" "paired s'" "next_inst s \<le> next_inst s'"
    "good_fiber (next_inst s') (work r)" "dom_within (inst ` set (effects (work r))) s'"
    "e = Some g \<Longrightarrow> good_fiber (next_inst s') (bailout_hooks g (work r))"
proof -
  note dom = objects_ok_dom [OF assms(1)]
  have pair: "paired s" using assms(1) by (simp add: objects_ok_def)
  have all: "destroys s' = destroys s \<and> trace s' = trace s \<and> next_inst s \<le> next_inst s' \<and>
    good_fiber (next_inst s') (work r) \<and> dom_within (inst ` set (effects (work r))) s' \<and>
    (\<forall>g. e = Some g \<longrightarrow> good_fiber (next_inst s') (bailout_hooks g (work r)))"
  proof (cases "\<exists>g. e = Some g \<and> cells g \<noteq> []")
    case False
    then have m: "mount_hooks us (start_hooks f [], s) = (r, s')"
      using assms(2) by (auto simp: render_with_hooks_def split: option.splits)
    have none: "dom_within {} s" and no: "\<And>g. e = Some g \<Longrightarrow> effects g = []"
      using assms(1) False by (auto simp: objects_ok_def good_fiber_def split: option.splits)
    note made = mount_hooks_insts [OF m dom]
    then have eff: "inst ` set (effects (work r)) = {next_inst s..<next_inst s'}"
      by (metis append_Nil list.simps(8) set_map set_upt start_fields(2))
    show ?thesis
      using made none no by (simp add: good_fiber_def dom_within_def bailout_hooks_def eff)
  next
    case True
    then obtain g where g: "e = Some g" "cells g \<noteq> []" by blast
    with assms(2,3) have u: "update_hooks us (start_hooks f (cells g)) = Inr r" "s' = s" "us \<noteq> []"
      by (auto simp: render_with_hooks_def keeps_hooks_def split: sum.splits)
    from update_hooks_insts [OF u(1)] u(3) have
      r: "cell_insts (cells (work r)) = cell_insts (cells g)" "map inst (effects (work r)) = cell_insts (cells g)"
        "tags_ok (effects (work r))" by auto
    have sub: "inst ` set (effects g) \<subseteq> set (cell_insts (cells g))" "good_fiber (next_inst s) g"
      "dom_within (inst ` set (effects g)) s"
      using assms(1) g(1) by (auto simp: objects_ok_def good_fiber_def)
    have eff: "inst ` set (effects (work r)) = set (cell_insts (cells g))" using r(2) by (metis set_map)
    have "dom_within (inst ` set (effects (work r))) s" using sub(1,3) unfolding eff dom_within_def by blast
    with sub r eff u(2) g(1) show ?thesis by (auto simp: good_fiber_def bailout_hooks_def)
  qed
  from all pair show "destroys s' = destroys s" "paired s'" "next_inst s \<le> next_inst s'"
    "good_fiber (next_inst s') (work r)" "dom_within (inst ` set (effects (work r))) s'"
    "e = Some g \<Longrightarrow> good_fiber (next_inst s') (bailout_hooks g (work r))"
    by (auto simp: paired_def)
qed

subsection \<open>The life of a component\<close>

lemma mount_effects_next [simp]: "next_inst (mount_effects run e ns s) = next_inst s"
  by (induction ns arbitrary: s) (auto split: prod.split sum.split)

lemma unmount_effects_next [simp]: "next_inst (unmount_effects stop e ns s) = next_inst s"
  by (induction ns arbitrary: s) (auto split: prod.split option.split)

lemma commit_next [simp]:
  "next_inst (commit_effects run stop f s) = next_inst s" "next_inst (flush_passive run stop f s) = next_inst s"
  by (simp_all add: commit_effects_def flush_passive_def Let_def)

definition life_inv :: "('c, 'v, 'd, 'x, 'w) hook_life \<Rightarrow> bool" where
  "life_inv s \<longleftrightarrow>
     (case stage s of
        Alive \<Rightarrow> objects_ok (current s) (objects s)
      | Deleted \<Rightarrow> paired (objects s) \<and>
          (\<exists>g. current s = Some g \<and> tags_ok (effects g) \<and> dom_within (tagged 8 (effects g)) (objects s))
      | Gone \<Rightarrow> paired (objects s) \<and> dom_within {} (objects s))"

lemma commit_ok:
  assumes "paired objs" "good_fiber (next_inst objs) f" "dom_within (inst ` set (effects f)) objs"
  shows "objects_ok (Some f) (commit_effects run stop f objs)"
proof -
  have d: "distinct (map inst (effects f))" using assms(2) by (simp add: good_fiber_def)
  from commit_effects_paired [OF assms(1) d] assms(2,3) show ?thesis by (simp add: objects_ok_def)
qed

text \<open>Every effect has one of the three kinds, so a deletion reaches all of them.\<close>

lemma kind_covers: "effect_tag n \<in> effect_tags \<Longrightarrow> has_tag 2 n \<or> has_tag 4 n \<or> has_tag 8 n"
  by (auto simp: has_tag_def effect_tags_def)

lemma kinds_cover: "tags_ok ns \<Longrightarrow> inst ` set ns = tagged 2 ns \<union> tagged 4 ns \<union> tagged 8 ns"
  by (induction ns) (auto dest: kind_covers)

lemma delete_ok:
  assumes "paired s" "tags_ok (effects g)" "dom_within (inst ` set (effects g)) s"
  shows "paired (delete_effects stop g s) \<and> dom_within (tagged 8 (effects g)) (delete_effects stop g s)"
proof -
  note 2 = unmount_effects_paired [OF assms(1), of stop 2 "effects g"]
  note 4 = unmount_effects_paired [OF 2 [THEN conjunct1], of stop 4 "effects g"]
  have "i \<in> tagged 8 (effects g)" if "destroys (delete_effects stop g s) i \<noteq> None" for i
  proof -
    have "destroys s i \<noteq> None" "i \<notin> tagged 2 (effects g)" "i \<notin> tagged 4 (effects g)"
      using that 2 4 by (auto simp: delete_effects_def split: if_splits)
    with assms(3) kinds_cover [OF assms(2)] show ?thesis by (auto simp: dom_within_def)
  qed
  with 4 show ?thesis by (simp add: delete_effects_def dom_within_def)
qed

lemma life_step_inv:
  assumes "life_inv s" "life_step run stop s t"
  shows "life_inv t"
  using assms(2)
proof cases
  case (committed us f r objs)
  with assms(1) have "objects_ok (current s) (objects s)" by (simp add: life_inv_def)
  note r = render_ok [OF this committed(5,4)]
  from commit_ok [OF r(2,4,5)] committed(1,2) show ?thesis by (simp add: life_inv_def commit_life_def)
next
  case (bailed_out us g f r objs)
  with assms(1) have ok: "objects_ok (current s) (objects s)" by (simp add: life_inv_def)
  note r = render_ok [OF this bailed_out(6,4)]
  have "dom_within (inst ` set (effects (bailout_hooks g (work r)))) objs"
    using ok bailed_out(5) r(1) by (simp add: objects_ok_def dom_within_def bailout_hooks_def)
  from commit_ok [OF r(2) r(6) [OF bailed_out(5)] this] bailed_out(1,2) show ?thesis
    by (simp add: life_inv_def commit_life_def)
next
  case (given_up us f r objs)
  with assms(1) have ok: "objects_ok (current s) (objects s)" by (simp add: life_inv_def)
  note r = render_ok [OF this given_up(5,4)]
  have "objects_ok (current s) objs"
    using ok r(1-3) good_fiber_mono by (auto simp: objects_ok_def dom_within_def split: option.splits)
  with given_up(1,2) show ?thesis by (simp add: life_inv_def)
next
  case (flushed g)
  with assms(1) have ok: "paired (objects s)" "good_fiber (next_inst (objects s)) g"
    "dom_within (inst ` set (effects g)) (objects s)" by (simp_all add: life_inv_def objects_ok_def)
  then have "distinct (map inst (effects g))" by (simp add: good_fiber_def)
  from flush_passive_paired [OF ok(1) this] ok flushed show ?thesis
    by (simp add: life_inv_def objects_ok_def)
next
  case (deleted g)
  with assms(1) have "paired (objects s)" "tags_ok (effects g)" "dom_within (inst ` set (effects g)) (objects s)"
    by (simp_all add: life_inv_def objects_ok_def good_fiber_def)
  with delete_ok [OF this, of stop] deleted show ?thesis by (simp add: life_inv_def)
next
  case (gone g)
  with assms(1) have ok: "paired (objects s)" "dom_within (tagged 8 (effects g)) (objects s)"
    by (simp_all add: life_inv_def)
  from unmount_effects_paired [OF ok(1), of stop 8 "effects g"] ok(2) gone show ?thesis
    by (auto simp: life_inv_def delete_passive_def dom_within_def)
qed

lemma new_life_inv: "life_inv (new_life w)"
  by (simp add: life_inv_def new_life_def objects_ok_def paired_def dom_within_def)

interpretation hook_lives: state_machine "life_step run stop" "\<lambda>s. \<exists>w. s = new_life w" life_inv
  by unfold_locales (auto simp: new_life_inv intro: life_step_inv)

lemma life_reachable: "(life_step run stop)\<^sup>*\<^sup>* (new_life w) s \<Longrightarrow> life_inv s"
  using hook_lives.reachable_inv [of "new_life w" run stop s] by blast

text \<open>C25: Every setup of an effect is cleaned up once. Whatever a component renders, commits, bails out of and
  gives up, and whichever setups and cleanups throw: an effect is set up again only after the cleanup
  that its last setup returned has run, no cleanup runs twice or without its setup, those that have not
  run are the ones React keeps, and when the component is gone it keeps none.\<close>

theorem effects_are_paired:
  assumes "(life_step run stop)\<^sup>*\<^sup>* (new_life w) s"
  shows "replay (trace (objects s)) = Some (destroys (objects s)) \<and>
    (stage s = Gone \<longrightarrow> destroys (objects s) = (\<lambda>_. None))"
  using life_reachable [OF assms]
  by (auto simp: life_inv_def objects_ok_def paired_def dom_within_def fun_eq_iff split: life_stage.splits)

subsection \<open>Which effects run\<close>

text \<open>The effects of a kind that an update is to run: those whose dependencies have changed, or that have none.\<close>

fun due_effects :: "effect_kind \<Rightarrow> ('c, 'v) hook_use list \<Rightarrow> ('c, 'v) hook_cell list \<Rightarrow> (nat \<times> 'c) list" where
  "due_effects k (Use_effect k' c d # us) (Effect_cell e # cs) =
     (if k' = k \<and> \<not> unchanged d (deps e) then [(inst e, c)] else []) @ due_effects k us cs"
| "due_effects k (u # us) (c # cs) = due_effects k us cs"
| "due_effects k _ _ = []"

definition to_run :: "32 word \<Rightarrow> ('c, 'v) effect_object list \<Rightarrow> (nat \<times> 'c) list" where
  "to_run e ns = map (\<lambda>n. (inst n, create n)) (filter (has_tag e) ns)"

lemma to_run_simps [simp]:
  "to_run e [] = []" "to_run e (ns @ ms) = to_run e ns @ to_run e ms"
  "to_run e (n # ns) = (if has_tag e n then [(inst n, create n)] else []) @ to_run e ns"
  by (simp_all add: to_run_def)

lemma passive_tags:
  "has_tag 9 \<lparr>effect_tag = 1 OR kind_tag k, create = c, deps = d, inst = i\<rparr> \<longleftrightarrow> k = Passive_kind"
  "\<not> has_tag 9 \<lparr>effect_tag = kind_tag k, create = c, deps = d, inst = i\<rparr>"
  by (cases k; simp add: has_tag_def)+

lemma passive_literals:
  "has_tag 9 \<lparr>effect_tag = 9, create = c, deps = d, inst = i\<rparr>"
  "\<not> has_tag 9 \<lparr>effect_tag = 8, create = c, deps = d, inst = i\<rparr>"
  by (simp_all add: has_tag_def)

lemma flag_kept: "x AND 2048 \<noteq> 0 \<Longrightarrow> (x OR y) AND 2048 \<noteq> (0 :: 32 word)"
  by (simp add: bit.conj_disj_distrib2 or_eq_0_iff)

lemma flag_raised: "(x OR 2048) AND 2048 \<noteq> (0 :: 32 word)"
  by (simp add: bit.conj_disj_distrib2 or_eq_0_iff)

lemma flags_fields [simp]:
  "fiber_flags (work (add_hook c v r)) = fiber_flags (work r)"
  "fiber_flags (work (push_effect e r)) = fiber_flags (work r)"
  "fiber_flags (work (raise_flags x r)) = fiber_flags (work r) OR x"
  "fiber_flags (work (push_event_impl k f r)) = fiber_flags (work r) OR 4"
  by (simp_all add: add_hook_def push_effect_def raise_flags_def push_event_impl_def)

text \<open>The four ways a hook can be updated.\<close>

lemma update_hook_effect:
  assumes "update_hook u r = Inr r'" "hooks_left r = c # cs"
  shows "hooks_left r' = cs"
    "to_run 9 (effects (work r')) = to_run 9 (effects (work r)) @ due_effects Passive_kind [u] [c]"
    "fiber_flags (work r') = fiber_flags (work r) \<or> (\<exists>x. fiber_flags (work r') = fiber_flags (work r) OR x)"
    "due_effects Passive_kind [u] [c] \<noteq> [] \<Longrightarrow> fiber_flags (work r') = fiber_flags (work r) OR 2048"
proof -
  note eq = assms [unfolded update_hook_def next_hook_def]
  show "hooks_left r' = cs"
    using eq by (cases u; cases c) (auto simp: Let_def split: if_splits)
  show "to_run 9 (effects (work r')) = to_run 9 (effects (work r)) @ due_effects Passive_kind [u] [c]"
    using eq by (cases u; cases c) (auto simp: Let_def passive_tags passive_literals split: if_splits)
  show "fiber_flags (work r') = fiber_flags (work r) \<or> (\<exists>x. fiber_flags (work r') = fiber_flags (work r) OR x)"
    using eq by (cases u; cases c) (auto simp: Let_def split: if_splits)
  show "fiber_flags (work r') = fiber_flags (work r) OR 2048" if "due_effects Passive_kind [u] [c] \<noteq> []"
    using eq that by (cases u; cases c) (auto simp: Let_def split: if_splits)
qed

lemma update_hook_due:
  assumes "update_hook u r = Inr r'"
  shows "\<exists>c. hooks_left r = c # hooks_left r' \<and>
    to_run 9 (effects (work r')) = to_run 9 (effects (work r)) @ due_effects Passive_kind [u] [c] \<and>
    (fiber_flags (work r) AND 2048 \<noteq> 0 \<or> due_effects Passive_kind [u] [c] \<noteq> [] \<longrightarrow>
       fiber_flags (work r') AND 2048 \<noteq> 0)"
proof -
  obtain c cs where left: "hooks_left r = c # cs"
    using assms by (cases "hooks_left r") (simp_all add: update_hook_def next_hook_def)
  note u = update_hook_effect [OF assms left]
  have "fiber_flags (work r') AND 2048 \<noteq> 0" if "fiber_flags (work r) AND 2048 \<noteq> 0"
    using u(3) that flag_kept by auto
  moreover have "fiber_flags (work r') AND 2048 \<noteq> 0" if "due_effects Passive_kind [u] [c] \<noteq> []"
    using u(4) [OF that] flag_raised by simp
  ultimately show ?thesis using u(1,2) left by blast
qed

lemma due_effects_Cons: "due_effects k (u # us) (c # cs) = due_effects k [u] [c] @ due_effects k us cs"
  by (cases u; cases c) simp_all

lemma update_hooks_due:
  assumes "update_hooks us r = Inr r'"
  shows "to_run 9 (effects (work r')) = to_run 9 (effects (work r)) @ due_effects Passive_kind us (hooks_left r) \<and>
    (fiber_flags (work r) AND 2048 \<noteq> 0 \<or> due_effects Passive_kind us (hooks_left r) \<noteq> [] \<longrightarrow>
       fiber_flags (work r') AND 2048 \<noteq> 0)"
  using assms
proof (induction us arbitrary: r)
  case Nil
  then show ?case by (simp split: if_splits)
next
  case (Cons u us)
  obtain r1 where r1: "update_hook u r = Inr r1" "update_hooks us r1 = Inr r'"
    using Cons.prems(1) by (simp split: sum.splits)
  from update_hook_due [OF r1(1)] obtain c where c: "hooks_left r = c # hooks_left r1"
    "to_run 9 (effects (work r1)) = to_run 9 (effects (work r)) @ due_effects Passive_kind [u] [c]"
    "fiber_flags (work r) AND 2048 \<noteq> 0 \<or> due_effects Passive_kind [u] [c] \<noteq> [] \<longrightarrow>
       fiber_flags (work r1) AND 2048 \<noteq> 0" by blast
  show ?case
    using Cons.IH [OF r1(2)] c(2,3) unfolding c(1) due_effects_Cons [of _ u us c] by auto
qed

lemma unmount_effects_trace:
  assumes "distinct (map inst ns)"
  shows "trace (unmount_effects stop e ns s) = trace s @
    concat (map (\<lambda>(i, c). case destroys s i of Some d \<Rightarrow> [Cleaned i d] | None \<Rightarrow> []) (to_run e ns))"
  using assms
proof (induction ns arbitrary: s)
  case Nil
  then show ?case by simp
next
  case (Cons n ns)
  have same: "concat (map (\<lambda>(i, c). case (m(inst n := x)) i of Some d \<Rightarrow> [Cleaned i d] | None \<Rightarrow> []) (to_run e ns)) =
      concat (map (\<lambda>(i, c). case m i of Some d \<Rightarrow> [Cleaned i d] | None \<Rightarrow> []) (to_run e ns))" for m x
  proof (intro arg_cong [of _ _ concat] map_cong refl)
    fix p assume "p \<in> set (to_run e ns)"
    then have "fst p \<noteq> inst n" using Cons.prems by (auto simp: to_run_def rev_image_eqI)
    then show "(case p of (i, c) \<Rightarrow> case (m(inst n := x)) i of Some d \<Rightarrow> [Cleaned i d] | None \<Rightarrow> []) =
        (case p of (i, c) \<Rightarrow> case m i of Some d \<Rightarrow> [Cleaned i d] | None \<Rightarrow> [])"
      by (cases p) simp
  qed
  have "distinct (map inst ns)" using Cons.prems by simp
  note IH = Cons.IH [OF this]
  show ?case
    by (auto simp: IH same simp del: fun_upd_apply split: option.split prod.split)
qed

lemma mount_effects_trace:
  assumes "\<forall>p\<in>set (to_run e ns). \<forall>w. \<not> isl (fst (run (snd p) w))"
  shows "\<exists>rs. length rs = length (to_run e ns) \<and> trace (mount_effects run e ns s) = trace s @
    map2 (\<lambda>(i, c) r. Set_up i c r) (to_run e ns) rs"
  using assms
proof (induction ns arbitrary: s)
  case Nil
  then show ?case by simp
next
  case (Cons n ns)
  show ?case
  proof (cases "has_tag e n")
    case False
    with Cons show ?thesis by simp
  next
    case True
    obtain a w where aw: "run (create n) (world s) = (a, w)" by (cases "run (create n) (world s)")
    then have "\<not> isl a" using Cons.prems True by (auto dest: spec [of _ "world s"])
    then obtain r where run: "run (create n) (world s) = (Inr r, w)" using aw by (cases a) simp_all
    let ?s = "s\<lparr>world := w, destroys := (destroys s)(inst n := r), trace := trace s @ [Set_up (inst n) (create n) r]\<rparr>"
    obtain rs where "length rs = length (to_run e ns)"
      "trace (mount_effects run e ns ?s) = trace ?s @ map2 (\<lambda>(i, c) r. Set_up i c r) (to_run e ns) rs"
      using Cons.IH [of ?s] Cons.prems True by auto
    then show ?thesis using True run by (intro exI [of _ "r # rs"]) simp
  qed
qed


subsection \<open>A component that shows, updates and leaves\<close>

definition show_life ::
  "('c \<Rightarrow> 'w \<Rightarrow> ('x + 'd option) \<times> 'w) \<Rightarrow> ('d \<Rightarrow> 'w \<Rightarrow> 'x option \<times> 'w) \<Rightarrow> ('c, 'v) hook_use list \<Rightarrow>
    ('c, 'v, 'd, 'x, 'w) hook_life \<Rightarrow> ('c, 'v, 'd, 'x, 'w) hook_life" where
  "show_life run stop us s =
     (case render_with_hooks (current s) 0 us (objects s) of
        Inl x \<Rightarrow> s
      | Inr (r, objs) \<Rightarrow>
          (let t = commit_life run stop (work r) objs s
           in t\<lparr>passive_due := False, objects := flush_passive run stop (work r) (objects t)\<rparr>))"

definition leave_life ::
  "('d \<Rightarrow> 'w \<Rightarrow> 'x option \<times> 'w) \<Rightarrow> ('c, 'v, 'd, 'x, 'w) hook_life \<Rightarrow> ('c, 'v, 'd, 'x, 'w) hook_life" where
  "leave_life stop s =
     (case current s of
        None \<Rightarrow> s
      | Some g \<Rightarrow> s\<lparr>stage := Gone, objects := delete_passive stop g (delete_effects stop g (objects s))\<rparr>)"

lemma show_life_steps:
  assumes "stage s = Alive" "\<not> passive_due s" "us \<noteq> []"
  shows "(life_step run stop)\<^sup>*\<^sup>* s (show_life run stop us s)"
proof (cases "render_with_hooks (current s) 0 us (objects s)")
  case (Inl x)
  then show ?thesis by (simp add: show_life_def)
next
  case (Inr a)
  obtain r objs where a: "a = (r, objs)" by (cases a)
  let ?t = "commit_life run stop (work r) objs s"
  have "life_step run stop s ?t"
    using assms Inr a by (intro life_step.committed [of s us 0 r objs]) (simp_all add: keeps_hooks_def)
  moreover have "life_step run stop ?t
      (?t\<lparr>passive_due := False, objects := flush_passive run stop (work r) (objects ?t)\<rparr>)"
    using assms(1) by (intro life_step.flushed) (simp_all add: commit_life_def)
  ultimately show ?thesis using Inr a by (simp add: show_life_def Let_def)
qed

lemma leave_life_steps:
  assumes "stage s = Alive" "\<not> passive_due s"
  shows "(life_step run stop)\<^sup>*\<^sup>* s (leave_life stop s)"
proof (cases "current s")
  case None
  then show ?thesis by (simp add: leave_life_def)
next
  case (Some g)
  let ?t = "s\<lparr>stage := Deleted, objects := delete_effects stop g (objects s)\<rparr>"
  have "life_step run stop s ?t" using assms Some by (intro life_step.deleted)
  moreover have "life_step run stop ?t (?t\<lparr>stage := Gone, objects := delete_passive stop g (objects ?t)\<rparr>)"
    using Some by (intro life_step.gone) simp_all
  ultimately show ?thesis using Some by (simp add: leave_life_def)
qed

text \<open>A passive effect, a layout effect and a memo; the cleanup of a setup has its number, and setup 9 throws.\<close>

definition demo_setup :: "nat \<Rightarrow> nat \<Rightarrow> (string + nat option) \<times> nat" where
  "demo_setup c w = (if c = 9 then (Inl ''failed'', w) else (Inr (Some c), w + 1))"

definition demo_cleanup :: "nat \<Rightarrow> nat \<Rightarrow> string option \<times> nat" where
  "demo_cleanup d w = (None, w)"

definition demo_uses :: "nat \<Rightarrow> nat \<Rightarrow> (nat, nat) hook_use list" where
  "demo_uses c d = [Use_effect Passive_kind c (Some [d]), Use_memo d (Some [d]), Use_effect Layout_kind 5 (Some [])]"

definition demo_shown :: "(nat, nat, nat, string, nat) hook_life" where
  "demo_shown = show_life demo_setup demo_cleanup (demo_uses 1 7) (new_life 0)"

definition demo_gone :: "(nat, nat, nat, string, nat) hook_life" where
  "demo_gone = leave_life demo_cleanup (show_life demo_setup demo_cleanup (demo_uses 2 8) demo_shown)"

lemma demo_shown_reachable: "(life_step demo_setup demo_cleanup)\<^sup>*\<^sup>* (new_life 0) demo_shown"
  unfolding demo_shown_def by (rule show_life_steps) (simp_all add: new_life_def demo_uses_def)

lemma demo_gone_reachable: "(life_step demo_setup demo_cleanup)\<^sup>*\<^sup>* (new_life 0) demo_gone"
proof -
  let ?s = "show_life demo_setup demo_cleanup (demo_uses 2 8) demo_shown"
  have "(life_step demo_setup demo_cleanup)\<^sup>*\<^sup>* demo_shown ?s" by (rule show_life_steps) code_simp+
  moreover have "(life_step demo_setup demo_cleanup)\<^sup>*\<^sup>* ?s demo_gone"
    unfolding demo_gone_def by (rule leave_life_steps) code_simp+
  ultimately show ?thesis using demo_shown_reachable by (meson rtranclp_trans)
qed

lemma effects_are_paired_witness:
  "trace (objects demo_gone) =
     [Set_up 1 5 (Some 5), Set_up 0 1 (Some 1), Cleaned 0 1, Set_up 0 2 (Some 2), Cleaned 1 5, Cleaned 0 2] \<and>
   stage demo_gone = Gone \<and> destroys (objects demo_gone) = (\<lambda>_. None)"
proof -
  have "stage demo_gone = Gone" by code_simp
  moreover have "trace (objects demo_gone) =
      [Set_up 1 5 (Some 5), Set_up 0 1 (Some 1), Cleaned 0 1, Set_up 0 2 (Some 2), Cleaned 1 5, Cleaned 0 2]"
    by code_simp
  ultimately show ?thesis using effects_are_paired [OF demo_gone_reachable] by simp
qed


end
