(* ===== verification/Spec2Isabelle.thy ===== *)
theory Spec2Isabelle
  imports Siphon_Runs Velotic_Demo Console_Properties Console_Bundle Console_View_Properties
    Select_Properties Scheduler_Properties Floating_Properties Floating_Arrow Number_Format_Properties
    Number_Input_Properties Transition_Properties Mantine_Theme_Properties Mantine_Style_Properties
    Scroll_Properties Select_Keyboard
    React_Lanes_Properties React_Roots_Properties React_Updates_Properties React_Children_Properties
    React_Hooks_Properties
begin

text \<open>
  Thalweg is a local daemon that keeps append-only event streams per network and replicates them
  between peers. This development covers the JavaScript side of the repository: the SDK an
  application talks to the daemon with, the web console an operator watches it with, and what the
  console's shipped bundle runs underneath.

  \<^bold>\<open>The program and its parts.\<close>
  An application calls \<open>Thalweg\<close> (\<open>packages/sdk-js/src/index.ts\<close>), whose methods send requests through
  \<open>DaemonClient\<close> (\<open>packages/sdk-js/src/client.ts\<close>): JSON lines over a local socket, answered in any
  order and matched by request id, with subscriptions whose events arrive on the same socket.
  \<open>SiphonBuilder\<close> builds a query over a time window on top of both, run once or for ever. The console
  (\<open>apps/console-web/src/main.tsx\<close>) polls snapshots of the daemon over HTTP, keeps a selected network
  and an event workbench, and renders a page. It ships as \<open>internal/console/web/assets/app.js\<close>: the
  compiled console after the libraries it uses. In that file a \<open>setState\<close> of the page queues an update in
  a lane of React's root; the root scheduler takes the most urgent lanes and asks the scheduler for a task
  of their priority, or flushes them at the end of the event; the render reduces the queues of the lanes
  it has, and reconciles the children of every element with those of the last render, by which the commit
  moves the nodes of the page. Mantine places drop-downs with Floating UI, draws their arrows and lets them
  appear and go by its transitions; its number fields step and clamp a value and format its text with
  react-number-format, and the network is chosen in its \<open>Select\<close>. The provider around the page merges the console's
  theme into Mantine's own and writes the theme's variables as a style sheet; the colors of a component's
  variant refer to those variables, and \<open>Box\<close>, which every component renders through, resolves its
  style properties to inline styles, or to a sheet of media queries when they differ by breakpoint.

  \<^bold>\<open>How the source is modelled.\<close>
  One theory per component, one definition per method, handler or callback, in the source's order and
  with its names where the logic's library leaves them free; the bundle's definitions carry the names
  of the library it was built from, and the minified names where \<open>Console_Bundle\<close> compares the two.
  Classes and objects are records passed from step to step. What throws or rejects is a sum or an
  option. Code after an \<open>await\<close> is a definition of its own, and an inductive step relation lets the
  steps run in every order the event loop allows, so an invariant of the reachable states holds of
  every interleaving. Strings are the list of their UTF-8 bytes, numbers of JSON are exact decimals,
  and positions on the screen are reals.
  Code that is not in the repository is an argument or a step: \<open>node:net\<close> is a socket object whose
  events come at any time, the browser's locale, clock and DOM are functions or records of functions,
  the callbacks of an application are arbitrary.

  \<^bold>\<open>Theories, in the order of their imports.\<close>

  \<^item> \<open>Prelude\<close>: the JavaScript \<open>Map\<close> in insertion order with its interface \<open>js_map\<close>, text split at a
    separator, settled promises, and the locales \<open>state_machine\<close> and \<open>logging_machine\<close>, in which an
    invariant of the steps is lifted to the reachable states once for every component.
  \<^item> \<open>Js_Values\<close>, \<open>Json_Codec\<close>: JavaScript's JSON values, \<open>JSON.stringify\<close> and \<open>JSON.parse\<close>; the
    interface \<open>line_codec\<close> (decoding inverts encoding, no newline inside a line) with its proof for
    this codec. The decoder recurses on fuel; \<open>parse_value_fuel\<close> shows that twice the length of the
    text, plus one, always suffices.
  \<^item> \<open>Daemon_Client\<close>: \<open>client.ts\<close>. A request is a ticket that first waits for the connection
    (\<open>request\<close>, \<open>resume_request\<close>), is then pending with an armed timer, and is settled in a log
    (\<open>settle\<close>); \<open>on_data\<close>, \<open>process_buffer\<close> and \<open>handle_message\<close> are the receiving side,
    \<open>fail_connection\<close>, \<open>on_error\<close>, \<open>on_close\<close> and \<open>close_client\<close> the ends of a connection, \<open>subscribe\<close>,
    \<open>push_event\<close> and \<open>unsubscribe\<close> the subscriptions. \<open>client_step\<close> is the event loop.
    \<open>Client_Invariants\<close> proves what every reachable client satisfies, through the two machine
    interfaces; \<open>Client_Properties\<close> what follows of requests, timers, the wire and subscriptions.
  \<^item> \<open>Sdk\<close>, \<open>Siphon\<close>: \<open>index.ts\<close>. A method is a program that sends requests and continues with their
    outcomes (\<open>prog\<close>), so its exact payloads are a theorem whatever the daemon answers. A continuous
    siphon is a state machine composed with the client (\<open>run_step\<close>). \<open>Siphon_Runs\<close> holds its
    invariant, \<open>Sdk_Properties\<close> the properties of both.
  \<^item> \<open>Daemon_Store\<close>: the daemon's \<open>event_ingest\<close> (\<open>core/daemon/daemon.go\<close>, \<open>conflicts.go\<close>), as far as
    the SDK's retry relies on it: \<open>retry_safe\<close> states what a retry needs of the far side, under which
    a retried ingest stores its event once; it is interpreted on the daemon's own handler.
  \<^item> \<open>Js_Date\<close>, \<open>Js_Url\<close>: \<open>toISOString\<close> and the query string of \<open>URL\<close>, which the SDK and the console use.
  \<^item> \<open>Velotic_Demo\<close>: the SDK's demonstration, \<open>packages/sdk-js/src/demo/velotic.ts\<close>.
  \<^item> \<open>Console_Model\<close>, \<open>Console_State\<close>, \<open>Console_View\<close>: \<open>main.tsx\<close>, its data and formatting, its state
    and handlers (\<open>page_step\<close> answers requests in any order), its element tree.
    \<open>Console_Properties\<close> and \<open>Console_View_Properties\<close> hold their properties.
  \<^item> \<open>Console_Bundle\<close>: lines 17259 to 18051 of \<open>app.js\<close>, the compiled console, translated on its own
    and proved to compute the page of \<open>main.tsx\<close>.
  \<^item> \<open>Task_Heap\<close>, \<open>Scheduler\<close>: lines 9681 to 9875 of \<open>app.js\<close>, React's scheduler. The heap is proved
    under the interface \<open>heap_order\<close>, which \<open>Scheduler\<close> interprets on the comparison of two tasks.
    \<open>perform_work\<close> is one slice of work, \<open>sched_step\<close> the host's event loop.
    \<open>Scheduler_Invariants\<close> proves \<open>sched_inv\<close> of every reachable state, also inside the work loop;
    \<open>Scheduler_Properties\<close> the refinement of the heap by a sorted queue and what tasks may rely on.
  \<^item> \<open>React_Lanes\<close>: lines 10175 to 10348 of \<open>app.js\<close>, the 31 lanes of a root as bits of a \<open>32 word\<close>: pending,
    suspended, pinged, warm, expired and entangled lanes, which of them are rendered next
    (\<open>next_lanes\<close>), their expiration. \<open>React_Lanes_Properties\<close>: the arithmetic of lanes, that runnable
    work comes first, and that no lane starves.
  \<^item> \<open>React_Roots\<close>: lines 15254 to 15338, and 14709 to 14721 and 14829 to 14857, the queue of roots, the
    microtask that looks at them (\<open>schedule_roots\<close>), the tasks it asks \<open>Scheduler\<close> for and the flush of
    synchronous lanes (\<open>flush_sync_work\<close>). \<open>React_Roots_Properties\<close>: an update of a root ends in a live
    task or a flush, on top of the invariant of \<open>Scheduler_Invariants\<close>.
  \<^item> \<open>React_Updates\<close>: the update queue of a state hook (lines 12207 to 12282 and 12675 to 12738), of a
    class or root (11889 to 12038) and the list of concurrent updates (11216 to 11234).
    \<open>React_Updates_Properties\<close>: both queues are shown, through the interface \<open>update_queue\<close> that
    \<open>hook_queue\<close> and \<open>classes\<close> interpret, to reduce every update once and in order however often
    lanes were skipped, and to show only the updates of the lanes rendered.
  \<^item> \<open>React_Children\<close>: lines 11699 to 11887, the reconciliation of children by position and key, and the
    commit of its placements and deletions (13899 to 13921, 14184 to 14209, 14367 to 14401).
    \<open>React_Children_Properties\<close>: after the commit the page holds the nodes of the new children in their
    order, and a child with the key and type of an old one keeps its node.
  \<^item> \<open>React_Hooks\<close>: the other hooks of a function component (12088 to 12177, 12494 to 12582, 12765 to 12918),
    effects, memos, refs and effect events, and the commits that run effects (13771 to 13817); \<open>life_step\<close>
    is the life of a component, with setups and cleanups that may throw. \<open>React_Hooks_Properties\<close>: every
    setup is followed by its own cleanup, and an update runs the passive effects whose dependencies changed.
  \<^item> \<open>Floating_Position\<close>, \<open>Floating_Middleware\<close>: lines 3562 to 4066 of \<open>app.js\<close>, the placement
    arithmetic, overflow detection and middlewares of Floating UI. \<open>Floating_Properties\<close>: where a
    placement puts an element, what \<open>shift\<close> and \<open>flip\<close> achieve, that positioning ends.
  \<^item> \<open>Css_Style\<close>, \<open>Floating_Arrow\<close>: style objects and how one is spread into another, and lines 4985 to
    5122, the arrow of a drop-down, with the proof that it sticks out towards the reference.
  \<^item> \<open>Transition\<close>: lines 5191 to 5506, the styles of the transitions, the hook \<open>useTransition\<close> as a state
    machine over frames and timeouts (\<open>transition_step\<close>), what \<open>Transition\<close> renders.
    \<open>Transition_Properties\<close>: a drop-down never stays half open, and its phases set the same styles.
  \<^item> \<open>Number_Format\<close>: lines 8258 to 8795 of \<open>app.js\<close>, the text functions of react-number-format.
    \<open>Number_Format_Properties\<close>: formatting and its removal, edits, carets, exponents.
  \<^item> \<open>Number_Input\<close>: lines 8841 to 9127, Mantine's \<open>NumberInput\<close>: what an edit reports, steps by keys and
    held buttons, leaving the field, pasting, for numbers and big integers.
    \<open>Number_Input_Properties\<close>: steps are exact and stop at the limits; what the console's event count
    makes of a typed number.
  \<^item> \<open>Decimal_Value\<close>: the number a decimal stands for, and that its digits read back as it.
  \<^item> \<open>Mantine_Units\<close>: lines 30 to 85, 391 to 430 and 991 to 1003 of \<open>app.js\<close>: lengths in rem and em, the
    sizes of a theme, class names.
  \<^item> \<open>Mantine_Colors\<close>, \<open>Mantine_Theme\<close>, \<open>Mantine_Variants\<close>: lines 1066 to 1401 and 2677 to 2690, reading
    colors, their luminance, the colors a theme names and the colors of every variant of a component.
  \<^item> \<open>Mantine_Variables\<close>: the default theme (1487 to 1763), how a theme is merged into it and validated
    (22 to 28, 1764 to 1778), the variables of a theme and their sheet (1801 to 2028), and the theme of
    \<open>main.tsx\<close>. \<open>Mantine_Theme_Properties\<close>: every variable that the sheet, or a variant of a color of the
    theme, refers to is set by the sheet.
  \<^item> \<open>Mantine_Style_Props\<close>: lines 2347 to 2944, style properties and what they resolve to, styles by
    breakpoint and their media queries, style elements with hashed class names, and \<open>Box\<close>.
    \<open>Mantine_Style_Properties\<close>: of the breakpoints a window has reached the widest decides.
  \<^item> \<open>Select_List\<close>: Mantine's option data, keyboard index and \<open>Select\<close>, and the console's use of them.
    \<open>Select_Properties\<close>: the keyboard never stops at a disabled option, and what a click does.
  \<^item> \<open>Select_Keyboard\<close>: lines 6977 to 7005, 7107 to 7138 and 7490 to 7560, the keys of the drop-down and the
    list it shows; what is highlighted is what \<open>Enter\<close> chooses.
  \<^item> \<open>Debounced_Callback\<close>: lines 477 to 543, calls that wait for a pause, with the browser's timeouts.
    \<open>Debounced_Properties\<close>: no call is lost and none is repeated.
  \<^item> \<open>Scroll_Area\<close>, \<open>Scroll_Visibility\<close>: lines 2958 to 3451 and 4752 to 4912, the scroll area around the
    options: thumbs and dragging, the bars that appear and hide as state machines on top of debounced
    calls. \<open>Scroll_Properties\<close>: a dragged thumb stays under the pointer, a bar that is shown is on its way
    to hide, and the thumb keeps up with the page.

  \<^bold>\<open>Bounds and fuel.\<close>
  The queue of events that arrive before their handler holds 128 (\<open>queue_limit\<close>), as the source
  says. Positioning resets at most fifty times (\<open>max_resets\<close>), so \<open>run_middleware\<close> is total and
  \<open>compute_position_bounded\<close> counts its calls. The work loop of the scheduler runs application
  callbacks that may add tasks for ever, so \<open>perform_work\<close> takes fuel and a slice that does not end is
  \<open>None\<close>; a step of \<open>sched_step\<close> is a slice that ended with some fuel, and \<open>perform_work_terminates\<close>
  shows that fuel above the number of waiting tasks is enough when callbacks add none. In the same way
  \<open>flush_sync\<close> renders until no synchronous lane is left, which a render may put off for ever:
  it takes fuel, and \<open>flush_leaves_no_sync\<close> shows that enough fuel exists when renders make progress. The
  loops over lanes clear a bit a turn (\<open>clear_top_less\<close>). Every other function is total.

  \<^bold>\<open>Where the model is narrower than the language.\<close>
  Decimals beyond the precision of a double are kept exactly, where JavaScript rounds. Number fields
  hold finite numbers, and texts of digits with a sign and a point; they
  have single-character decimal separators (the library requires that) and hold no line breaks; values of the
  network list are not names every object inherits. Coordinates are real numbers without rounding, and so are the times of
  React's lanes. Reducers and the functions given to \<open>setState\<close> are pure and return, as React requires.
  Lanes of fibers are those of one hook's fiber; marking the fibers above it is not modelled, and the
  commit moves children that are one node of the page each. The channels of colors and the widths of
  breakpoints are exact, and a change of a scroll bar or a drop-down is rendered before the next event;
  texts read as numbers have digits, a minus and a point, case and white space
  are those of ASCII, and a style property is a JSON value, where Mantine also takes functions of the theme.

  \<^bold>\<open>Not modelled.\<close>
  The rest of React and React DOM (the work loop over fibers, which is a parameter of \<open>React_Roots\<close>;
  contexts, external stores, suspense boundaries, hydration, events and the properties of DOM elements),
  the rest of Mantine (its provider's context and effects, hooks, the class names its styles API merges,
  and the elements its components render) and the DOM platform of Floating UI (the rest of the first
  17258 lines of \<open>app.js\<close>): third-party code whose work is mostly reading and writing the DOM. Rounding a
  number field to its scale goes through \<open>parseFloat\<close> and \<open>toFixed\<close> on doubles, and the React state,
  focus and timers around the text functions are React's. The response interfaces of \<open>index.ts\<close> and
  its type-level helpers have no behaviour. The daemon beyond \<open>event_ingest\<close>, the command line, the
  registry workers, the console's server and the terminal interface are Go; the Python SDK repeats
  the JavaScript one. \<open>vite.config.ts\<close> only configures the build.
\<close>

end
